(* ===== verification/Prelude.thy ===== *)
theory Prelude
  imports Main "HOL-Library.Sublist" "HOL-Library.Char_ord" "HOL-Library.List_Lexorder"
    "HOL-Library.Option_ord" "HOL-Library.AList" "HOL-Library.Multiset"
begin

text \<open>
  Shared vocabulary of the development: Go strings as byte lists with the functions of the
  packages \<^verbatim>\<open>strings\<close>, \<^verbatim>\<open>strconv\<close> and
  \<^verbatim>\<open>fmt\<close> that Haro calls, Go maps as association lists, Go errors
  as values, and the generic lemmas on lists, options and association lists that the
  component theories use. \<^verbatim>\<open>strings.HasPrefix s p\<close> is
  \<^term>\<open>prefix p s\<close>, \<^verbatim>\<open>strings.Contains s t\<close> is
  \<^term>\<open>sublist t s\<close> and \<^verbatim>\<open>sort.Strings\<close> is
  \<^term>\<open>sort :: string list \<Rightarrow> string list\<close> with the byte-wise lexicographic
  order of \<^verbatim>\<open>HOL-Library.List_Lexorder\<close>.
\<close>

named_theorems go_simps \<open>equations of the Go library functions\<close>

section \<open>Strings\<close>

definition newline :: string where
  "newline = [CHR 0x0A]"

definition is_space :: "char \<Rightarrow> bool" where
  "is_space c \<longleftrightarrow> c \<in> {CHR '' '', CHR 0x09, CHR 0x0A, CHR 0x0B, CHR 0x0C, CHR 0x0D}"

fun join_with :: "string \<Rightarrow> string list \<Rightarrow> string" where
  "join_with sep [] = []"
| "join_with sep [x] = x"
| "join_with sep (x # y # ys) = x @ sep @ join_with sep (y # ys)"

fun split_on :: "char \<Rightarrow> string \<Rightarrow> string list" where
  "split_on c [] = [[]]"
| "split_on c (x # xs) =
     (if x = c then [] # split_on c xs
      else (case split_on c xs of [] \<Rightarrow> [[x]] | w # ws \<Rightarrow> (x # w) # ws))"

definition digit_char :: "nat \<Rightarrow> char" where
  "digit_char d = char_of (48 + d)"

fun itoa_nat :: "nat \<Rightarrow> string" where
  "itoa_nat n = (if n < 10 then [digit_char n] else itoa_nat (n div 10) @ [digit_char (n mod 10)])"

declare itoa_nat.simps [simp del]

definition itoa :: "int \<Rightarrow> string" where
  "itoa i = (if i < 0 then CHR ''-'' # itoa_nat (nat (- i)) else itoa_nat (nat i))"

text \<open>The verb \<^verbatim>\<open>%q\<close> of package \<^verbatim>\<open>fmt\<close>, for strings
  whose bytes from 0x80 on belong to printable UTF-8 sequences.\<close>

definition hex_digit :: "nat \<Rightarrow> char" where
  "hex_digit d = (if d < 10 then char_of (48 + d) else char_of (87 + d))"

definition quote_char :: "char \<Rightarrow> string" where
  "quote_char c =
     (if c = CHR 0x22 then [CHR 0x5C, CHR 0x22]
      else if c = CHR 0x5C then [CHR 0x5C, CHR 0x5C]
      else if c = CHR 0x07 then [CHR 0x5C, CHR ''a'']
      else if c = CHR 0x08 then [CHR 0x5C, CHR ''b'']
      else if c = CHR 0x0C then [CHR 0x5C, CHR ''f'']
      else if c = CHR 0x0A then [CHR 0x5C, CHR ''n'']
      else if c = CHR 0x0D then [CHR 0x5C, CHR ''r'']
      else if c = CHR 0x09 then [CHR 0x5C, CHR ''t'']
      else if c = CHR 0x0B then [CHR 0x5C, CHR ''v'']
      else if (of_char c :: nat) < 32 \<or> (of_char c :: nat) = 127
        then [CHR 0x5C, CHR ''x'', hex_digit (of_char c div 16), hex_digit (of_char c mod 16)]
      else [c])"

definition quoted :: "string \<Rightarrow> string" where
  "quoted s = [CHR 0x22] @ concat (map quote_char s) @ [CHR 0x22]"

lemma is_space_simps [go_simps]:
  "is_space (CHR '' '')" "is_space (CHR 0x09)" "is_space (CHR 0x0A)"
  by (simp_all add: is_space_def)

lemma split_on_not_Nil [simp]: "split_on c s \<noteq> []"
  by (cases s) (auto split: list.splits)

lemma split_on_no_sep: "w \<in> set (split_on c s) \<Longrightarrow> c \<notin> set w"
proof (induction s arbitrary: w)
  case Nil
  then show ?case by simp
next
  case (Cons x s)
  then show ?case
    by (cases "split_on c s") (auto split: if_splits)
qed

lemma split_on_single: "c \<notin> set s \<Longrightarrow> split_on c s = [s]"
  by (induction s) auto

lemma split_on_append_sep: "c \<notin> set w \<Longrightarrow> split_on c (w @ c # s) = w # split_on c s"
  by (induction w) auto

lemma split_on_join:
  assumes "ws \<noteq> []" and "\<forall>w \<in> set ws. c \<notin> set w"
  shows "split_on c (join_with [c] ws) = ws"
  using assms
proof (induction "[c]" ws rule: join_with.induct)
  case (2 x)
  then show ?case by (simp add: split_on_single)
next
  case (3 x y ys)
  then show ?case by (simp add: split_on_append_sep)
qed simp

lemma split_on_append: "split_on c (s @ [c]) = split_on c s @ [[]]"
  by (induction s) (auto split: list.splits)

lemma sum_split_on: "(\<Sum>w\<leftarrow>split_on c s. Suc (length w)) = Suc (length s)"
  by (induction s) (auto split: list.splits)

lemma length_join_with:
  "ws \<noteq> [] \<Longrightarrow> Suc (length (join_with [c] ws)) = (\<Sum>w\<leftarrow>ws. Suc (length w))"
  by (induction "[c]" ws rule: join_with.induct) auto

lemma join_with_Cons: "join_with [c] (w # ws) = w @ (if ws = [] then [] else c # join_with [c] ws)"
  by (cases ws) auto

lemma join_split_on: "join_with [c] (split_on c s) = s"
proof (induction s)
  case (Cons x s)
  then show ?case by (cases "split_on c s") (auto simp: join_with_Cons)
qed simp

lemma join_with_append:
  "us \<noteq> [] \<Longrightarrow> ws \<noteq> [] \<Longrightarrow> join_with s (us @ ws) = join_with s us @ s @ join_with s ws"
proof (induction s us rule: join_with.induct)
  case (2 sep x)
  then show ?case by (cases ws) auto
qed auto

section \<open>Errors\<close>

text \<open>
  A Go \<^verbatim>\<open>error\<close> is its text together with what \<^verbatim>\<open>errors.Is\<close>
  and \<^verbatim>\<open>errors.As\<close> find in its chain: a sentinel of the store, a
  \<^verbatim>\<open>*workflow.ValidationError\<close>, a
  \<^verbatim>\<open>*execution.LogicalConflictError\<close> or nothing.
\<close>

datatype sentinel = ErrNotFound | ErrCheckViolation | ErrUniqueViolation
  | ErrForeignKeyViolation | ErrLeaseConflict | ErrStaleLease | ErrUnsupportedCapability
  | ErrNotInitialized

record ValidationError =
  ve_Code :: string
  ve_Field :: string
  ve_Message :: string

record LogicalConflictError =
  lc_LogicalPath :: string
  lc_OwnerExecutionID :: string
  lc_OwnerStepID :: string
  lc_Mode :: string

datatype err_kind = Plain | Sentinel sentinel | Validation ValidationError
  | LogicalConflict LogicalConflictError

datatype goerr = GoErr (err_kind: err_kind) (err_msg: string)

text \<open>\<^verbatim>\<open>fmt.Errorf("p: %w", err)\<close> keeps the chain and prefixes the text.\<close>

definition wrap_err :: "string \<Rightarrow> goerr \<Rightarrow> goerr" where
  "wrap_err p e = GoErr (err_kind e) (p @ '': '' @ err_msg e)"

definition errorf :: "string \<Rightarrow> goerr" where
  "errorf m = GoErr Plain m"

definition errors_Is :: "goerr \<Rightarrow> sentinel \<Rightarrow> bool" where
  "errors_Is e s \<longleftrightarrow> err_kind e = Sentinel s"

lemma wrap_err_simps [simp]:
  "err_kind (wrap_err p e) = err_kind e" "errors_Is (wrap_err p e) s = errors_Is e s"
  by (simp_all add: wrap_err_def errors_Is_def)

lemma errors_Is_simps [simp]:
  "errors_Is (GoErr (Sentinel s) m) s' \<longleftrightarrow> s = s'" "\<not> errors_Is (GoErr Plain m) s'"
  "\<not> errors_Is (errorf m) s'"
  by (auto simp: errors_Is_def errorf_def)

text \<open>The first error of a loop that returns on error, with its position.\<close>

fun first_error :: "nat \<Rightarrow> (nat \<Rightarrow> 'a \<Rightarrow> 'e option) \<Rightarrow> 'a list \<Rightarrow> 'e option" where
  "first_error i f [] = None"
| "first_error i f (x # xs) = (case f i x of Some e \<Rightarrow> Some e | None \<Rightarrow> first_error (Suc i) f xs)"

lemma first_error_None_iff:
  "first_error i f xs = None \<longleftrightarrow> (\<forall>k < length xs. f (i + k) (xs ! k) = None)"
proof (induction xs arbitrary: i)
  case Nil
  then show ?case by simp
next
  case (Cons x xs)
  show ?case
    unfolding first_error.simps
    by (auto simp: Cons.IH less_Suc_eq_0_disj split: option.splits)
qed

lemma first_error_SomeD:
  "first_error i f xs = Some e \<Longrightarrow> \<exists>k < length xs. f (i + k) (xs ! k) = Some e"
proof (induction xs arbitrary: i)
  case Nil
  then show ?case by simp
next
  case (Cons x xs)
  show ?case
  proof (cases "f i x")
    case None
    with Cons.prems have "first_error (Suc i) f xs = Some e" by simp
    with Cons.IH obtain k where "k < length xs" "f (Suc i + k) (xs ! k) = Some e" by blast
    then show ?thesis by (intro exI [of _ "Suc k"]) simp
  next
    case (Some a)
    with Cons.prems show ?thesis by (intro exI [of _ 0]) simp
  qed
qed

text \<open>The first error of a sequence of checks.\<close>

fun first_some :: "'e option list \<Rightarrow> 'e option" where
  "first_some [] = None"
| "first_some (e # es) = (case e of Some x \<Rightarrow> Some x | None \<Rightarrow> first_some es)"

lemma first_some_None_iff [simp]: "first_some es = None \<longleftrightarrow> (\<forall>e \<in> set es. e = None)"
  by (induction es) (auto split: option.splits)

lemma first_some_Cons_Some: "first_some (Some e # es) = Some e" "first_some (None # es) = first_some es"
  by simp_all

lemma first_some_SomeD: "first_some es = Some x \<Longrightarrow> Some x \<in> set es"
  by (induction es) (auto split: option.splits)

declare first_some.simps(2) [simp del]

text \<open>A check \<^verbatim>\<open>if bad { return err }\<close>.\<close>

definition fail_if :: "bool \<Rightarrow> 'e \<Rightarrow> 'e option" where
  "fail_if b e = (if b then Some e else None)"

lemma fail_if_simps [simp]:
  "fail_if b e = None \<longleftrightarrow> \<not> b" "None = fail_if b e \<longleftrightarrow> \<not> b"
  "fail_if b e = Some e' \<longleftrightarrow> b \<and> e' = e" "Some e' = fail_if b e \<longleftrightarrow> b \<and> e' = e"
  by (auto simp: fail_if_def)

section \<open>Go maps\<close>

text \<open>
  A Go map is an association list with distinct keys: \<^term>\<open>map_of m k\<close> reads,
  \<^term>\<open>AList.update k v m\<close> stores, \<^term>\<open>AList.delete k m\<close> deletes. The order of
  the list is the order in which a \<^verbatim>\<open>range\<close> loop visits the entries; Go
  leaves that order open, so properties of such loops are stated for every order.
\<close>

type_synonym ('k, 'v) gomap = "('k \<times> 'v) list"

definition gomap :: "('k, 'v) gomap \<Rightarrow> bool" where
  "gomap m \<longleftrightarrow> distinct (map fst m)"

definition has_key :: "'k \<Rightarrow> ('k, 'v) gomap \<Rightarrow> bool" where
  "has_key k m \<longleftrightarrow> map_of m k \<noteq> None"

text \<open>Assignment to a field of the value behind a pointer that a map holds.\<close>

definition adjust :: "'k \<Rightarrow> ('v \<Rightarrow> 'v) \<Rightarrow> ('k, 'v) gomap \<Rightarrow> ('k, 'v) gomap" where
  "adjust k f m = map (\<lambda>(k', v). if k' = k then (k', f v) else (k', v)) m"

lemma gomap_Nil [simp]: "gomap []"
  by (simp add: gomap_def)

lemma gomap_update [simp]: "gomap m \<Longrightarrow> gomap (AList.update k v m)"
  by (simp add: gomap_def distinct_update)

lemma gomap_delete [simp]: "gomap m \<Longrightarrow> gomap (AList.delete k m)"
  by (simp add: gomap_def distinct_delete)

lemma map_fst_adjust [simp]: "map fst (adjust k f m) = map fst m"
  by (induction m) (auto simp: adjust_def)

lemma gomap_adjust [simp]: "gomap (adjust k f m) = gomap m"
  by (simp add: gomap_def)

lemma map_of_adjust: "map_of (adjust k f m) = (map_of m)(k := map_option f (map_of m k))"
  by (induction m) (auto simp: adjust_def fun_eq_iff)

lemma map_of_adjust_same [simp]: "map_of (adjust k f m) k = map_option f (map_of m k)"
  by (simp add: map_of_adjust)

lemma map_of_adjust_other [simp]: "k \<noteq> k' \<Longrightarrow> map_of (adjust k f m) k' = map_of m k'"
  by (simp add: map_of_adjust)

lemma map_of_update [simp]: "map_of (AList.update k v m) = (map_of m)(k \<mapsto> v)"
  by (simp add: update_conv')

lemma has_key_iff: "has_key k m \<longleftrightarrow> (\<exists>v. map_of m k = Some v)"
  by (auto simp: has_key_def)

lemma has_key_update [simp]: "has_key k (AList.update k' v m) \<longleftrightarrow> k = k' \<or> has_key k m"
  by (auto simp: has_key_def)

lemma has_key_adjust [simp]: "has_key k (adjust k' f m) = has_key k m"
  by (auto simp: has_key_def map_of_adjust)

lemma has_key_Nil [simp]: "\<not> has_key k []"
  by (simp add: has_key_def)

lemma gomap_map_of_iff: "gomap m \<Longrightarrow> map_of m k = Some v \<longleftrightarrow> (k, v) \<in> set m"
  by (simp add: gomap_def map_of_eq_Some_iff)

lemma gomap_mset_map_of: "gomap m \<Longrightarrow> mset m = mset m' \<Longrightarrow> map_of m = map_of m'"
  by (metis gomap_def map_of_inject_set mset_map mset_eq_imp_distinct_iff set_mset_mset)

text \<open>Sorting by a key that is different for every element forgets the order of the input.\<close>

lemma sort_key_unique:
  assumes "mset xs = mset ys" "distinct (map f xs)"
  shows "sort_key f xs = sort_key f ys"
proof (rule map_sorted_distinct_set_unique)
  have d: "distinct (map f ys)" using assms by (metis mset_eq_imp_distinct_iff mset_map)
  have s: "set xs = set ys" using assms(1) by (metis set_mset_mset)
  show "inj_on f (set (sort_key f xs) \<union> set (sort_key f ys))"
    using assms(2) s by (simp add: distinct_map)
  show "distinct (map f (sort_key f xs))" "distinct (map f (sort_key f ys))"
    using assms(2) d by (metis mset_eq_imp_distinct_iff mset_map mset_sort)+
  show "set (sort_key f xs) = set (sort_key f ys)" using s by simp
qed simp_all

lemma sort_mset_eq: "mset xs = mset (ys :: 'a :: linorder list) \<Longrightarrow> sort xs = sort ys"
  by (metis mset_sort properties_for_sort sorted_sort)

lemma map_sum_InrD: "map_sum f g x = Inr y \<Longrightarrow> \<exists>d. x = Inr d \<and> g d = y"
  by (cases x) auto

text \<open>What holds of every entry of a map.\<close>

definition rows :: "('k \<Rightarrow> 'v \<Rightarrow> bool) \<Rightarrow> ('k, 'v) gomap \<Rightarrow> bool" where
  "rows P m \<longleftrightarrow> (\<forall>k v. map_of m k = Some v \<longrightarrow> P k v)"

lemma rows_Nil [simp]: "rows P []"
  by (simp add: rows_def)

lemma rowsD: "rows P m \<Longrightarrow> map_of m k = Some v \<Longrightarrow> P k v"
  by (simp add: rows_def)

lemma rows_mono: "rows P m \<Longrightarrow> (\<And>k v. map_of m k = Some v \<Longrightarrow> P k v \<Longrightarrow> Q k v) \<Longrightarrow> rows Q m"
  by (simp add: rows_def)

lemma rows_update: "rows P m \<Longrightarrow> P k v \<Longrightarrow> rows P (AList.update k v m)"
  by (simp add: rows_def)

lemma rows_adjust:
  "rows P m \<Longrightarrow> (\<And>v. map_of m k = Some v \<Longrightarrow> P k v \<Longrightarrow> P k (f v)) \<Longrightarrow> rows P (adjust k f m)"
  by (auto simp: rows_def map_of_adjust)

lemma map_of_map_snd: "map_of (map (\<lambda>(k, v). (k, f v)) m) k = map_option f (map_of m k)"
  by (induction m) auto

lemma gomap_map_snd [simp]: "gomap (map (\<lambda>(k, v). (k, f v)) m) = gomap m"
  by (simp add: gomap_def comp_def split_def)

lemma has_key_map_snd [simp]: "has_key k (map (\<lambda>(k, v). (k, f v)) m) = has_key k m"
  by (simp add: has_key_def map_of_map_snd)

lemma rows_map_snd: "rows P m \<Longrightarrow> (\<And>k v. P k v \<Longrightarrow> P k (f v)) \<Longrightarrow> rows P (map (\<lambda>(k, v). (k, f v)) m)"
  by (auto simp: rows_def map_of_map_snd)

lemma find_SomeD: "find P xs = Some x \<Longrightarrow> x \<in> set xs \<and> P x"
  by (induction xs) (auto split: if_splits)

lemma find_NoneD: "find P xs = None \<Longrightarrow> x \<in> set xs \<Longrightarrow> \<not> P x"
  by (auto simp: find_None_iff)

end
