(* ===== verification/Filepath.thy ===== *)
theory Filepath
  imports Prelude
begin

text \<open>
  The functions of Go's package \<^verbatim>\<open>path/filepath\<close> (on Unix) that Haro calls,
  by their documentation: \<^verbatim>\<open>Clean\<close> processes the path element by element,
  \<^verbatim>\<open>Join\<close>, \<^verbatim>\<open>Dir\<close>, \<^verbatim>\<open>Base\<close> and
  \<^verbatim>\<open>IsAbs\<close> are defined over it. The file system itself is a parameter, the
  record \<open>filesys\<close>. The lemmas give \<^verbatim>\<open>Clean\<close> its normal form: it is
  idempotent, never longer than its argument, and a clean relative path is exactly its list of
  components joined with slashes.
\<close>

definition slash :: char where
  "slash = CHR ''/''"

definition dotdot :: string where
  "dotdot = ''..''"

definition IsAbs :: "string \<Rightarrow> bool" where
  "IsAbs p \<longleftrightarrow> (case p of [] \<Rightarrow> False | c # _ \<Rightarrow> c = slash)"

text \<open>One element of the path against the reversed list of the elements kept so far.\<close>

definition clean_step :: "bool \<Rightarrow> string \<Rightarrow> string list \<Rightarrow> string list" where
  "clean_step rooted w acc =
     (if w = [] \<or> w = ''.'' then acc
      else if w = dotdot then
        (case acc of
           [] \<Rightarrow> (if rooted then [] else [dotdot])
         | x # xs \<Rightarrow> (if x = dotdot then dotdot # acc else xs))
      else w # acc)"

definition clean_elems :: "bool \<Rightarrow> string list \<Rightarrow> string list" where
  "clean_elems rooted ws = rev (fold (clean_step rooted) ws [])"

definition comps :: "string \<Rightarrow> string list" where
  "comps p = clean_elems (IsAbs p) (split_on slash p)"

definition unsplit :: "bool \<Rightarrow> string list \<Rightarrow> string" where
  "unsplit rooted cs =
     (if rooted then slash # join_with [slash] cs
      else if cs = [] then ''.'' else join_with [slash] cs)"

definition Clean :: "string \<Rightarrow> string" where
  "Clean p = unsplit (IsAbs p) (comps p)"

definition Join :: "string list \<Rightarrow> string" where
  "Join elems =
     (case dropWhile (\<lambda>e. e = []) elems of
        [] \<Rightarrow> []
      | es \<Rightarrow> Clean (join_with [slash] es))"

definition dir_part :: "string \<Rightarrow> string" where
  "dir_part p = rev (dropWhile (\<lambda>c. c \<noteq> slash) (rev p))"

definition Dir :: "string \<Rightarrow> string" where
  "Dir p = Clean (dir_part p)"

definition Base :: "string \<Rightarrow> string" where
  "Base p =
     (if p = [] then ''.''
      else (let q = dropWhile (\<lambda>c. c = slash) (rev p);
                b = rev (takeWhile (\<lambda>c. c \<noteq> slash) q)
            in if b = [] then [slash] else b))"

text \<open>
  What the program asks of the file system: whether \<^verbatim>\<open>os.Lstat\<close> succeeds,
  what \<^verbatim>\<open>filepath.EvalSymlinks\<close> answers, what
  \<^verbatim>\<open>filepath.Abs\<close> answers.
\<close>

record filesys =
  lstat_ok :: "string \<Rightarrow> bool"
  EvalSymlinks :: "string \<Rightarrow> goerr + string"
  Abs_path :: "string \<Rightarrow> goerr + string"

section \<open>Normal form\<close>

text \<open>A stack of kept elements: some \<^verbatim>\<open>..\<close>, none when rooted, below
  ordinary names.\<close>

definition plain_elem :: "string \<Rightarrow> bool" where
  "plain_elem w \<longleftrightarrow> w \<noteq> [] \<and> w \<noteq> ''.'' \<and> slash \<notin> set w"

definition clean_list :: "bool \<Rightarrow> string list \<Rightarrow> bool" where
  "clean_list rooted cs \<longleftrightarrow>
     (\<forall>w \<in> set cs. plain_elem w) \<and>
     (\<forall>w \<in> set (dropWhile (\<lambda>w. w = dotdot) cs). w \<noteq> dotdot) \<and>
     (rooted \<longrightarrow> dotdot \<notin> set cs)"

lemma dotdot_neq [simp]: "dotdot \<noteq> []" "dotdot \<noteq> ''.''" "[] \<noteq> dotdot" "''.'' \<noteq> dotdot"
  by (simp_all add: dotdot_def)

lemma plain_elem_dotdot [simp]: "plain_elem dotdot"
  by (simp add: plain_elem_def dotdot_def slash_def)

lemma clean_list_Nil [simp]: "clean_list r []"
  by (simp add: clean_list_def)

lemma clean_list_snoc:
  "clean_list r (cs @ [w]) \<longleftrightarrow>
     clean_list r cs \<and> plain_elem w \<and> (w = dotdot \<longrightarrow> \<not> r \<and> (\<forall>c \<in> set cs. c = dotdot))"
proof -
  have dw: "set (dropWhile P cs) = {} \<longleftrightarrow> (\<forall>c \<in> set cs. P c)" for P
    by (metis dropWhile_eq_Nil_conv set_empty)
  show ?thesis
  proof (cases "\<forall>c \<in> set cs. c = dotdot")
    case True
    then have d: "dropWhile (\<lambda>w. w = dotdot) cs = []" by simp
    then have "dropWhile (\<lambda>w. w = dotdot) (cs @ [w]) = (if w = dotdot then [] else [w])"
      using True by (simp add: dropWhile_append2)
    with True show ?thesis by (auto simp: clean_list_def d)
  next
    case False
    then have d: "dropWhile (\<lambda>w. w = dotdot) (cs @ [w]) = dropWhile (\<lambda>w. w = dotdot) cs @ [w]"
      by (metis (mono_tags, lifting) dropWhile_append1)
    with False show ?thesis by (auto simp: clean_list_def)
  qed
qed

lemma clean_list_single [simp]: "clean_list r [w] \<longleftrightarrow> plain_elem w \<and> (w = dotdot \<longrightarrow> \<not> r)"
  using clean_list_snoc [of r "[]" w] by auto

lemma clean_list_snoc2:
  "clean_list r (cs @ [x, w]) \<longleftrightarrow>
     clean_list r (cs @ [x]) \<and> plain_elem w \<and>
     (w = dotdot \<longrightarrow> \<not> r \<and> x = dotdot \<and> (\<forall>c \<in> set cs. c = dotdot))"
  using clean_list_snoc [of r "cs @ [x]" w] by auto

lemma clean_step_clean_list:
  assumes "clean_list r (rev acc)" "slash \<notin> set w"
  shows "clean_list r (rev (clean_step r w acc))"
proof (cases "w = dotdot")
  case True
  then show ?thesis
    using assms by (cases acc) (auto simp: clean_step_def clean_list_snoc clean_list_snoc2)
next
  case False
  then show ?thesis
    using assms by (auto simp: clean_step_def clean_list_snoc plain_elem_def)
qed

lemma fold_clean_step_clean_list:
  "clean_list r (rev acc) \<Longrightarrow> \<forall>w \<in> set ws. slash \<notin> set w \<Longrightarrow>
   clean_list r (rev (fold (clean_step r) ws acc))"
  by (induction ws arbitrary: acc) (auto simp: clean_step_clean_list)

lemma clean_list_comps: "clean_list (IsAbs p) (comps p)"
  unfolding comps_def clean_elems_def
  by (rule fold_clean_step_clean_list) (auto dest: split_on_no_sep)

lemma clean_elems_clean_list: "clean_list r cs \<Longrightarrow> clean_elems r cs = cs"
proof (induction cs rule: rev_induct)
  case Nil
  then show ?case by (simp add: clean_elems_def)
next
  case (snoc w cs)
  then have IH: "fold (clean_step r) cs [] = rev cs"
    by (metis clean_elems_def clean_list_snoc rev_swap)
  from snoc.prems have w: "plain_elem w" "w = dotdot \<Longrightarrow> \<not> r \<and> (\<forall>c \<in> set cs. c = dotdot)"
    by (auto simp: clean_list_snoc)
  have "clean_step r w (rev cs) = w # rev cs"
    using w by (cases cs rule: rev_cases) (auto simp: clean_step_def plain_elem_def)
  then show ?case by (simp add: clean_elems_def IH)
qed

lemma clean_step_empty [simp]: "clean_step r [] acc = acc"
  by (simp add: clean_step_def)

lemma clean_elems_Nil_elem [simp]: "clean_elems r ([] # ws) = clean_elems r ws"
  by (simp add: clean_elems_def)

lemma split_unsplit:
  assumes "clean_list r cs"
  shows "clean_elems r (split_on slash (unsplit r cs)) = cs"
proof (cases "cs = []")
  case True
  then show ?thesis
    by (auto simp: unsplit_def clean_elems_def clean_step_def slash_def)
next
  case False
  with assms have "split_on slash (join_with [slash] cs) = cs"
    by (intro split_on_join) (auto simp: clean_list_def plain_elem_def)
  moreover have "clean_elems r (split_on slash (unsplit r cs)) =
      clean_elems r (split_on slash (join_with [slash] cs))"
    using False by (simp add: unsplit_def)
  ultimately show ?thesis using assms by (simp add: clean_elems_clean_list)
qed

lemma IsAbs_unsplit: "clean_list r cs \<Longrightarrow> IsAbs (unsplit r cs) = r"
proof (cases r)
  case False
  assume l: "clean_list r cs"
  show ?thesis
  proof (cases cs)
    case Nil
    then show ?thesis using False by (simp add: unsplit_def IsAbs_def slash_def)
  next
    case (Cons c cs')
    then obtain x xs where "c = x # xs" "x \<noteq> slash" using l by (cases c) (auto simp: clean_list_def plain_elem_def)
    then show ?thesis using Cons False by (simp add: unsplit_def IsAbs_def join_with_Cons)
  qed
qed (simp add: unsplit_def IsAbs_def)

lemma IsAbs_Clean [simp]: "IsAbs (Clean p) = IsAbs p"
  by (simp add: Clean_def IsAbs_unsplit clean_list_comps)

lemma comps_Clean [simp]: "comps (Clean p) = comps p"
  using split_unsplit [OF clean_list_comps, of p] IsAbs_Clean [of p]
  by (simp add: comps_def [of "Clean p"]) (simp add: Clean_def)

lemma Clean_idem [simp]: "Clean (Clean p) = Clean p"
  by (simp add: Clean_def [of "Clean p"]) (simp add: Clean_def)

lemma comps_unsplit: "clean_list r cs \<Longrightarrow> comps (unsplit r cs) = cs"
  by (simp add: comps_def IsAbs_unsplit split_unsplit)

lemma Clean_unsplit: "clean_list r cs \<Longrightarrow> Clean (unsplit r cs) = unsplit r cs"
  by (simp add: Clean_def IsAbs_unsplit comps_unsplit)

lemma Clean_eq_iff: "Clean p = Clean q \<longleftrightarrow> IsAbs p = IsAbs q \<and> comps p = comps q"
proof
  assume "Clean p = Clean q"
  then have "IsAbs (Clean p) = IsAbs (Clean q)" "comps (Clean p) = comps (Clean q)" by simp_all
  then show "IsAbs p = IsAbs q \<and> comps p = comps q" by simp
qed (simp add: Clean_def)

lemma join_comps_Nil_iff [simp]: "join_with [slash] (comps p) = [] \<longleftrightarrow> comps p = []"
  using clean_list_comps [of p]
  by (cases "comps p") (auto simp: join_with_Cons clean_list_def plain_elem_def)

lemma Clean_not_Nil [simp]: "Clean p \<noteq> []"
  by (auto simp: Clean_def unsplit_def)

lemma dotdot_comps_iff: "dotdot \<in> set (comps p) \<longleftrightarrow> prefix [dotdot] (comps p)"
proof (cases "comps p")
  case (Cons w ws)
  have "w \<noteq> dotdot \<Longrightarrow> dotdot \<notin> set ws"
    using clean_list_comps [of p] by (auto simp: clean_list_def Cons)
  then show ?thesis by (auto simp: Cons)
qed simp

lemma Clean_dot_iff: "Clean p = ''.'' \<longleftrightarrow> \<not> IsAbs p \<and> comps p = []"
proof -
  have "join_with [slash] cs = ''.'' \<Longrightarrow> clean_list r cs \<Longrightarrow> cs = []" for cs r
  proof (cases cs)
    case (Cons c cs')
    assume "join_with [slash] cs = ''.''" "clean_list r cs"
    with Cons show ?thesis
      by (cases c) (auto simp: join_with_Cons clean_list_def plain_elem_def split: if_splits)
  qed simp
  then show ?thesis
    using clean_list_comps [of p] by (auto simp: Clean_def unsplit_def slash_def)
qed

lemma Clean_rel: "\<not> IsAbs p \<Longrightarrow> comps p \<noteq> [] \<Longrightarrow> Clean p = join_with [slash] (comps p)"
  by (simp add: Clean_def unsplit_def)

section \<open>Length and termination of walks to the root\<close>

abbreviation weight :: "string list \<Rightarrow> nat" where
  "weight ws \<equiv> (\<Sum>w\<leftarrow>ws. Suc (length w))"

lemma weight_clean_step: "weight (clean_step r w acc) \<le> weight (w # acc)"
  by (auto simp: clean_step_def split: list.splits)

lemma weight_fold_clean_step: "weight (fold (clean_step r) ws acc) \<le> weight ws + weight acc"
proof (induction ws arbitrary: acc)
  case (Cons w ws)
  show ?case
    using Cons.IH [of "clean_step r w acc"] weight_clean_step [of r w acc] by simp
qed simp

lemma weight_comps: "weight (comps p) \<le> Suc (length p)"
  using weight_fold_clean_step [of "IsAbs p" "split_on slash p" "[]"]
  by (simp add: comps_def clean_elems_def sum_split_on rev_map [symmetric] sum_list_rev)

lemma weight_comps_abs: assumes "IsAbs p" shows "weight (comps p) \<le> length p"
proof -
  from assms obtain q where p: "p = slash # q" by (cases p) (auto simp: IsAbs_def)
  have "comps p = clean_elems True (split_on slash q)"
    using assms by (simp add: comps_def p)
  then show ?thesis
    using weight_fold_clean_step [of True "split_on slash q" "[]"]
    by (simp add: p clean_elems_def sum_split_on rev_map [symmetric] sum_list_rev)
qed

lemma length_Clean: "p \<noteq> [] \<Longrightarrow> length (Clean p) \<le> length p"
proof -
  assume ne: "p \<noteq> []"
  have l1: "1 \<le> length p" using ne by (cases p) auto
  show ?thesis
  proof (cases "comps p = []")
    case True
    then show ?thesis using l1 by (simp add: Clean_def unsplit_def)
  next
    case False
    then have "Suc (length (join_with [slash] (comps p))) = weight (comps p)"
      by (rule length_join_with)
    with False show ?thesis
      using weight_comps [of p] weight_comps_abs [of p] by (auto simp: Clean_def unsplit_def)
  qed
qed

lemma length_dir_part: "length (dir_part p) \<le> length p"
  unfolding dir_part_def by (metis length_dropWhile_le length_rev)

lemma dir_part_eq: "length (dir_part p) = length p \<Longrightarrow> dir_part p = p"
proof -
  assume "length (dir_part p) = length p"
  then have "length (dropWhile (\<lambda>c. c \<noteq> slash) (rev p)) = length (rev p)"
    by (simp add: dir_part_def)
  then have "dropWhile (\<lambda>c. c \<noteq> slash) (rev p) = rev p"
    by (metis append_eq_append_conv append_Nil takeWhile_dropWhile_id)
  then show ?thesis by (simp add: dir_part_def)
qed

lemma Clean_Dir [simp]: "Clean (Dir p) = Dir p"
  by (simp add: Dir_def)

text \<open>The measure of the walk \<^verbatim>\<open>cur = filepath.Dir(cur)\<close>.\<close>

definition path_size :: "string \<Rightarrow> nat" where
  "path_size p = 2 * length p + (if Clean p = p then 0 else 1)"

lemma path_size_Dir:
  assumes "Dir p \<noteq> p" "Dir p \<noteq> ''.''"
  shows "path_size (Dir p) < path_size p"
proof -
  have ne: "dir_part p \<noteq> []"
    using assms(2) by (auto simp: Dir_def Clean_def comps_def unsplit_def clean_elems_def IsAbs_def)
  then have len: "length (Dir p) \<le> length (dir_part p)"
    unfolding Dir_def by (rule length_Clean)
  show ?thesis
  proof (cases "length (dir_part p) = length p")
    case True
    then have "Dir p = Clean p" by (simp add: dir_part_eq Dir_def)
    with assms len True show ?thesis by (simp add: path_size_def)
  next
    case False
    with len length_dir_part [of p] show ?thesis by (simp add: path_size_def)
  qed
qed

end
