(* ===== verification/Claims.thy ===== *)
theory Claims
  imports Filepath
begin

text \<open>
  Package \<^verbatim>\<open>internal/claim\<close>: the conflict policy between the modes of two
  claims (\<^verbatim>\<open>policy.go\<close>) and the canonical logical paths that claims are made
  on (\<^verbatim>\<open>canonical.go\<close>). On Unix \<^verbatim>\<open>filepath.ToSlash\<close> and
  \<^verbatim>\<open>filepath.FromSlash\<close> are the identity. The lemmas reduce the string tests of the
  code to the prefix order on lists of path components.
\<close>

section \<open>policy.go\<close>

definition isShared :: "string \<Rightarrow> bool" where
  "isShared mode =
     (if mode = ''shared'' then True
      else if prefix ''isolated'' mode then False
      else True)"

definition ShouldBlock :: "string \<Rightarrow> string \<Rightarrow> string \<Rightarrow> bool \<Rightarrow> bool" where
  "ShouldBlock existingMode incomingMode onConflict isExternal =
     (if isExternal then True
      else
        (let exShared = isShared existingMode; inShared = isShared incomingMode in
         if \<not> exShared \<and> \<not> inShared then False
         else if exShared \<and> inShared then True
         else if onConflict = ''allow'' then False
         else True))"

text \<open>\<^verbatim>\<open>filepath.ToSlash(filepath.Clean(p))\<close> with \<^verbatim>\<open>.\<close> read
  as the empty string, the first lines of \<^verbatim>\<open>IsExternal\<close> and
  \<^verbatim>\<open>IsPrefix\<close>.\<close>

definition clean_logical :: "string \<Rightarrow> string" where
  "clean_logical p = (let c = Clean p in if c = ''.'' then '''' else c)"

fun external_loop :: "string \<Rightarrow> string list \<Rightarrow> bool" where
  "external_loop clean [] = False"
| "external_loop clean (p # ps) =
     (let pp = clean_logical p in
      if pp = '''' then external_loop clean ps
      else if clean = pp \<or> prefix (pp @ [slash]) clean then True
      else external_loop clean ps)"

definition IsExternal :: "string \<Rightarrow> string list \<Rightarrow> bool" where
  "IsExternal logicalPath externalPrefixes =
     (if externalPrefixes = [] then False
      else external_loop (clean_logical logicalPath) externalPrefixes)"

section \<open>canonical.go\<close>

function resolve_walk :: "filesys \<Rightarrow> string \<Rightarrow> string \<Rightarrow> string \<Rightarrow> string list \<Rightarrow> goerr + string" where
  "resolve_walk fs joined evalRoot cur sfx =
     (if lstat_ok fs cur then
        (case EvalSymlinks fs cur of
           Inl e \<Rightarrow> Inl e
         | Inr ev \<Rightarrow> Inr (Clean (foldr (\<lambda>s ev. Join [ev, s]) sfx ev)))
      else if cur = evalRoot \<or> cur = Dir cur then Inr (Clean joined)
      else if Dir cur = ''.'' then Inr (Clean joined)
      else resolve_walk fs joined evalRoot (Dir cur) (sfx @ [Base cur]))"
  by pat_completeness auto

termination resolve_walk
  by (relation "measure (\<lambda>(fs, joined, evalRoot, cur, sfx). path_size cur)")
     (auto simp: path_size_Dir)

declare resolve_walk.simps [simp del]

definition resolveWithSymlinks :: "filesys \<Rightarrow> string \<Rightarrow> string \<Rightarrow> goerr + string" where
  "resolveWithSymlinks fs joined evalRoot =
     (if lstat_ok fs joined then EvalSymlinks fs joined
      else resolve_walk fs joined evalRoot joined [])"

definition eval_root :: "filesys \<Rightarrow> string \<Rightarrow> string" where
  "eval_root fs root =
     (case EvalSymlinks fs root of Inl e \<Rightarrow> Clean root | Inr ev \<Rightarrow> Clean ev)"

definition inside :: "string \<Rightarrow> string \<Rightarrow> bool" where
  "inside resolved evalRoot \<longleftrightarrow> resolved = evalRoot \<or> prefix (evalRoot @ [slash]) resolved"

definition Canonicalize :: "filesys \<Rightarrow> string \<Rightarrow> string \<Rightarrow> goerr + string" where
  "Canonicalize fs repoRoot raw =
     (if raw = '''' then Inl (errorf ''empty path'')
      else if IsAbs raw then Inl (errorf (''absolute path not allowed: '' @ quoted raw))
      else
        (let clean = clean_logical raw in
         if clean = dotdot \<or> prefix (dotdot @ [slash]) clean
         then Inl (errorf (''path escapes root via ..: '' @ quoted raw))
         else if clean = '''' then Inr ''''
         else
           (let joined = Join [repoRoot, clean]; evalRoot = eval_root fs repoRoot in
            case resolveWithSymlinks fs joined evalRoot of
              Inl e \<Rightarrow> Inl (wrap_err ''resolve path'' e)
            | Inr r \<Rightarrow>
                (let resolved = Clean r in
                 if \<not> inside resolved evalRoot
                 then Inl (errorf (''path escapes root via symlink: '' @ quoted raw @ '' -> '' @
                        quoted resolved @ '' not inside '' @ quoted evalRoot))
                 else Inr clean))))"

definition IsPrefix :: "string \<Rightarrow> string \<Rightarrow> bool" where
  "IsPrefix parent child =
     (let p = clean_logical parent; c = clean_logical child in
      if p = '''' then c = '''' \<or> True
      else if p = c then True
      else prefix (p @ [slash]) c)"

definition Overlaps :: "string \<Rightarrow> string \<Rightarrow> bool" where
  "Overlaps a b = (IsPrefix a b \<or> IsPrefix b a)"

section \<open>Lemmas\<close>

lemma isShared_iff: "isShared mode \<longleftrightarrow> \<not> prefix ''isolated'' mode"
  by (auto simp: isShared_def)

lemma clean_logical_Nil_iff: "clean_logical p = '''' \<longleftrightarrow> \<not> IsAbs p \<and> comps p = []"
  using Clean_dot_iff [of p] by (auto simp: clean_logical_def Let_def)

lemma clean_logical_join:
  "\<not> IsAbs p \<Longrightarrow> clean_logical p = join_with [slash] (comps p)"
  using Clean_dot_iff [of p] by (auto simp: clean_logical_def Let_def Clean_rel)

text \<open>The string test ``equal or starts with the parent and a slash'' is the prefix order on
  components.\<close>

lemma join_prefix_iff:
  assumes "\<forall>w \<in> set ps. slash \<notin> set w" "\<forall>w \<in> set cs. slash \<notin> set w"
    "ps \<noteq> []" "cs \<noteq> []"
  shows "(join_with [slash] ps = join_with [slash] cs \<or>
          prefix (join_with [slash] ps @ [slash]) (join_with [slash] cs)) \<longleftrightarrow> prefix ps cs"
proof
  assume "join_with [slash] ps = join_with [slash] cs \<or>
          prefix (join_with [slash] ps @ [slash]) (join_with [slash] cs)"
  then consider "join_with [slash] ps = join_with [slash] cs"
    | rest where "join_with [slash] cs = join_with [slash] ps @ slash # rest"
    by (auto simp: prefix_def)
  then show "prefix ps cs"
  proof cases
    case 1
    with assms have "ps = cs" by (metis split_on_join)
    then show ?thesis by simp
  next
    case 2
    define rs where "rs = split_on slash rest"
    have rs: "rs \<noteq> []" "\<forall>w \<in> set rs. slash \<notin> set w" "join_with [slash] rs = rest"
      by (auto simp: rs_def split_on_no_sep join_split_on)
    with 2 assms have "join_with [slash] cs = join_with [slash] (ps @ rs)"
      by (simp add: join_with_append)
    moreover have "split_on slash (join_with [slash] (ps @ rs)) = ps @ rs"
      using assms rs by (intro split_on_join) auto
    ultimately have "cs = ps @ rs"
      using assms by (metis split_on_join)
    then show ?thesis by simp
  qed
next
  assume "prefix ps cs"
  then obtain rs where "cs = ps @ rs" by (auto simp: prefix_def)
  with assms show "join_with [slash] ps = join_with [slash] cs \<or>
          prefix (join_with [slash] ps @ [slash]) (join_with [slash] cs)"
    by (cases "rs = []") (auto simp: join_with_append)
qed

lemma comps_no_slash: "w \<in> set (comps p) \<Longrightarrow> slash \<notin> set w"
  using clean_list_comps [of p] by (auto simp: clean_list_def plain_elem_def)

lemma IsPrefix_iff:
  assumes "\<not> IsAbs p" "\<not> IsAbs c"
  shows "IsPrefix p c \<longleftrightarrow> prefix (comps p) (comps c)"
proof (cases "comps p = [] \<or> comps c = []")
  case True
  with assms show ?thesis
    by (auto simp: IsPrefix_def Let_def clean_logical_join)
next
  case False
  then have "(clean_logical p = clean_logical c \<or> prefix (clean_logical p @ [slash]) (clean_logical c))
      \<longleftrightarrow> prefix (comps p) (comps c)"
    using join_prefix_iff [of "comps p" "comps c"] assms comps_no_slash
    by (simp add: clean_logical_join)
  with False assms show ?thesis
    by (auto simp: IsPrefix_def Let_def clean_logical_Nil_iff)
qed

lemma external_loop_iff:
  "external_loop clean ps \<longleftrightarrow>
     (\<exists>p \<in> set ps. clean_logical p \<noteq> '''' \<and>
        (clean = clean_logical p \<or> prefix (clean_logical p @ [slash]) clean))"
  by (induction ps) (auto simp: Let_def)

lemma escape_iff:
  assumes "\<not> IsAbs p"
  shows "clean_logical p = dotdot \<or> prefix (dotdot @ [slash]) (clean_logical p) \<longleftrightarrow>
    dotdot \<in> set (comps p)"
proof -
  have "clean_logical p = dotdot \<or> prefix (dotdot @ [slash]) (clean_logical p)
      \<longleftrightarrow> prefix [dotdot] (comps p)"
  proof (cases "comps p = []")
    case True
    then show ?thesis using assms by (simp add: clean_logical_join)
  next
    case False
    have "slash \<notin> set dotdot" by (simp add: slash_def dotdot_def)
    then show ?thesis
      using join_prefix_iff [of "[dotdot]" "comps p"] False assms comps_no_slash
      by (auto simp: clean_logical_join)
  qed
  then show ?thesis by (simp add: dotdot_comps_iff)
qed

lemma clean_logical_fixed:
  assumes "\<not> IsAbs p" "clean_logical p \<noteq> ''''"
  shows "\<not> IsAbs (clean_logical p)" "comps (clean_logical p) = comps p"
    "Clean (clean_logical p) = clean_logical p" "clean_logical (clean_logical p) = clean_logical p"
  using assms by (auto simp: clean_logical_def Let_def split: if_splits)

lemma Canonicalize_InrD:
  assumes "Canonicalize fs root raw = Inr c"
  shows "raw \<noteq> ''''" "\<not> IsAbs raw" "c = clean_logical raw" "dotdot \<notin> set (comps raw)"
    "c \<noteq> '''' \<Longrightarrow> \<exists>r. resolveWithSymlinks fs (Join [root, c]) (eval_root fs root) = Inr r \<and>
        inside (Clean r) (eval_root fs root)"
  using assms escape_iff [of raw]
  by (auto simp: Canonicalize_def Let_def split: if_splits sum.splits)

lemma Overlaps_iff:
  assumes "\<not> IsAbs a" "\<not> IsAbs b"
  shows "Overlaps a b \<longleftrightarrow> prefix (comps a) (comps b) \<or> prefix (comps b) (comps a)"
  using assms by (simp add: Overlaps_def IsPrefix_iff)

lemma Overlaps_common:
  assumes "\<not> IsAbs a" "\<not> IsAbs b"
  shows "Overlaps a b \<longleftrightarrow> (\<exists>x. \<not> IsAbs x \<and> IsPrefix a x \<and> IsPrefix b x)"
proof
  assume "Overlaps a b"
  then show "\<exists>x. \<not> IsAbs x \<and> IsPrefix a x \<and> IsPrefix b x"
    using assms by (metis Overlaps_def IsPrefix_iff prefix_order.refl)
next
  assume "\<exists>x. \<not> IsAbs x \<and> IsPrefix a x \<and> IsPrefix b x"
  then obtain x where "prefix (comps a) (comps x)" "prefix (comps b) (comps x)"
    using assms by (auto simp: IsPrefix_iff)
  then show "Overlaps a b"
    unfolding Overlaps_iff [OF assms] by (rule prefix_same_cases)
qed

lemma Canonicalize_clean:
  assumes "Canonicalize fs root raw = Inr c"
  shows "\<not> IsAbs c" "comps c = comps raw" "dotdot \<notin> set (comps c)" "c \<noteq> '''' \<Longrightarrow> Clean c = c"
proof -
  note C = Canonicalize_InrD [OF assms]
  have e: "comps '''' = []" by (simp add: comps_def clean_elems_def)
  show cc: "comps c = comps raw"
    using C(2,3) clean_logical_fixed(2) [of raw] e clean_logical_Nil_iff [of raw] by metis
  then show "dotdot \<notin> set (comps c)" using C(4) by simp
  show "\<not> IsAbs c"
    using C(2,3) clean_logical_fixed(1) [of raw] by (metis IsAbs_def list.simps(4))
  show "c \<noteq> '''' \<Longrightarrow> Clean c = c"
    using C(2,3) clean_logical_fixed(3) [of raw] by simp
qed

lemma Canonicalize_again:
  assumes "Canonicalize fs root raw = Inr c" "c \<noteq> ''''"
  shows "Canonicalize fs root c = Inr c"
proof -
  note C = Canonicalize_InrD [OF assms(1)] and D = Canonicalize_clean [OF assms(1)]
  have "clean_logical c = c"
    using C(2,3) assms(2) clean_logical_fixed(4) [of raw] by simp
  moreover from this D have "\<not> (c = dotdot \<or> prefix (dotdot @ [slash]) c)"
    using escape_iff [of c] by simp
  ultimately show ?thesis
    using C(5) assms(2) D(1) by (auto simp: Canonicalize_def Let_def)
qed

section \<open>Properties\<close>

text \<open>Two canonical (relative) paths overlap exactly when one's components are a prefix of
  the other's, and exactly when some relative path lies under both: claims that do not overlap
  never cover a common file, and \<^verbatim>\<open>src/ab\<close> does not overlap
  \<^verbatim>\<open>src/a\<close>.\<close>

theorem overlaps_common_path:
  assumes "\<not> IsAbs a" "\<not> IsAbs b"
  shows "(Overlaps a b \<longleftrightarrow> prefix (comps a) (comps b) \<or> prefix (comps b) (comps a)) \<and>
    (Overlaps a b \<longleftrightarrow> (\<exists>x. \<not> IsAbs x \<and> IsPrefix a x \<and> IsPrefix b x))"
  using Overlaps_iff [OF assms] Overlaps_common [OF assms] by blast

theorem overlaps_common_path_witness:
  "\<not> IsAbs ''src/a'' \<and> \<not> IsAbs ''src//a/./b'' \<and> \<not> IsAbs ''src/ab'' \<and>
   Overlaps ''src/a'' ''src//a/./b'' \<and> \<not> Overlaps ''src/a'' ''src/ab''"
proof -
  have r: "\<not> IsAbs ''src/a''" "\<not> IsAbs ''src//a/./b''" "\<not> IsAbs ''src/ab''"
    by code_simp+
  have "prefix (comps ''src/a'') (comps ''src//a/./b'')"
    "\<not> (prefix (comps ''src/a'') (comps ''src/ab'') \<or> prefix (comps ''src/ab'') (comps ''src/a''))"
    by code_simp+
  then show ?thesis
    using overlaps_common_path [OF r(1,2)] overlaps_common_path [OF r(1,3)] r by blast
qed

text \<open>C34. What \<^verbatim>\<open>Canonicalize\<close> accepts: the result is relative, without \<^verbatim>\<open>..\<close>, and has the very elements of
  the cleaned path; for the root itself it is the empty text, and otherwise it is a fixed point of
  \<^verbatim>\<open>Clean\<close>, the symlink-resolved location of the joined path is the resolved
  repository root or lies under it, and canonicalising the result again returns it unchanged. The symbolic links of the path
  are resolved for the check only: the result keeps them, against the comment of the function and the specification of path claims, which call it free of links.\<close>

theorem canonicalize_sound:
  assumes "Canonicalize fs root raw = Inr c"
  shows "\<not> IsAbs c \<and> dotdot \<notin> set (comps c) \<and> comps c = comps raw \<and>
    (c \<noteq> '''' \<longrightarrow> Clean c = c \<and> Canonicalize fs root c = Inr c \<and>
      (\<exists>r. resolveWithSymlinks fs (Join [root, c]) (eval_root fs root) = Inr r \<and>
        inside (Clean r) (eval_root fs root)))"
  using Canonicalize_InrD [OF assms] Canonicalize_clean [OF assms] Canonicalize_again [OF assms]
  by blast

text \<open>Two names of one file, of which one is a symbolic link to the other, are two canonical paths that do not overlap.\<close>

definition linked_fs :: filesys where
  "linked_fs = \<lparr>lstat_ok = (\<lambda>p. p \<in> set [''/r'', ''/r/a'', ''/r/b'']), EvalSymlinks = (\<lambda>p. Inr (if p = ''/r/b'' then ''/r/a'' else p)), Abs_path = Inr\<rparr>"

lemma link_is_kept:
  "Canonicalize linked_fs ''/r'' ''a'' = Inr ''a''" "Canonicalize linked_fs ''/r'' ''b'' = Inr ''b''" "\<not> Overlaps ''a'' ''b''"
  by code_simp+

text \<open>A file system without symbolic links in which only the repository root exists.\<close>

definition demo_fs :: filesys where
  "demo_fs = \<lparr>lstat_ok = (\<lambda>p. p = ''/r''), EvalSymlinks = Inr, Abs_path = Inr\<rparr>"

theorem canonicalize_sound_witness:
  "Canonicalize demo_fs ''/r'' ''a//b/../c'' = Inr ''a/c'' \<and>
   Canonicalize demo_fs ''/r'' ''a/c'' = Inr ''a/c''"
proof -
  have "Canonicalize demo_fs ''/r'' ''a//b/../c'' = Inr ''a/c''" by code_simp
  with canonicalize_sound [OF this] show ?thesis by simp
qed

text \<open>\<^verbatim>\<open>Canonicalize\<close> rejects every absolute path and every path that climbs
  above the root, whatever the file system answers.\<close>

theorem canonicalize_rejects:
  assumes "raw = '''' \<or> IsAbs raw \<or> dotdot \<in> set (comps raw)"
  shows "\<exists>e. Canonicalize fs root raw = Inl e \<and> err_kind e = Plain"
  using assms escape_iff [of raw] by (auto simp: Canonicalize_def Let_def errorf_def)

theorem canonicalize_rejects_witness:
  "dotdot \<in> set (comps ''a/../../b'') \<and> (\<exists>e. Canonicalize demo_fs ''/r'' ''a/../../b'' = Inl e)"
proof -
  have "dotdot \<in> set (comps ''a/../../b'')" by code_simp
  then show ?thesis using canonicalize_rejects [of "''a/../../b''" demo_fs "''/r''"] by blast
qed

text \<open>The conflict matrix: an external path always blocks; otherwise two isolated modes never
  block, two shared modes always do, and a mixed pair blocks unless the policy is
  \<^verbatim>\<open>allow\<close>; a mode is isolated exactly when it starts with
  \<^verbatim>\<open>isolated\<close>.\<close>

theorem should_block_matrix:
  "ShouldBlock ex inc pol ext \<longleftrightarrow>
     ext \<or> (\<not> prefix ''isolated'' ex \<and> \<not> prefix ''isolated'' inc) \<or>
     (prefix ''isolated'' ex \<noteq> prefix ''isolated'' inc \<and> pol \<noteq> ''allow'')"
  by (auto simp: ShouldBlock_def Let_def isShared_iff)

text \<open>For relative paths, \<^verbatim>\<open>IsExternal\<close> holds exactly when the components of one
  of the non-empty external prefixes are a prefix of the components of the path.\<close>

theorem is_external_iff:
  assumes "\<not> IsAbs q" "\<forall>p \<in> set ps. \<not> IsAbs p"
  shows "IsExternal q ps \<longleftrightarrow> (\<exists>p \<in> set ps. comps p \<noteq> [] \<and> prefix (comps p) (comps q))"
proof -
  have "clean_logical p \<noteq> '''' \<and> (clean_logical q = clean_logical p \<or>
          prefix (clean_logical p @ [slash]) (clean_logical q)) \<longleftrightarrow>
        comps p \<noteq> [] \<and> prefix (comps p) (comps q)" if "p \<in> set ps" for p
    using IsPrefix_iff [of p q] that assms clean_logical_Nil_iff [of p]
    by (auto simp: IsPrefix_def Let_def split: if_splits)
  then show ?thesis by (auto simp: IsExternal_def external_loop_iff)
qed

theorem is_external_iff_witness: "IsExternal ''vendor/x/y'' [''.'', ''vendor/x/'']"
proof -
  have "comps ''vendor/x/'' \<noteq> [] \<and> prefix (comps ''vendor/x/'') (comps ''vendor/x/y'')" by code_simp
  moreover have "\<not> IsAbs ''vendor/x/y''" "\<forall>p \<in> set [''.'', ''vendor/x/'']. \<not> IsAbs p"
    by code_simp+
  ultimately show ?thesis
    using is_external_iff [of "''vendor/x/y''" "[''.'', ''vendor/x/'']"] by simp
qed

end
