(* ===== verification/Store_Types.thy ===== *)
theory Store_Types
  imports Claims
begin

text \<open>
  The data of package \<^verbatim>\<open>internal/store\<close> (\<^verbatim>\<open>store.go\<close>,
  \<^verbatim>\<open>claim.go\<close>) and the state of its in-memory implementation
  (\<^verbatim>\<open>FakeStore\<close> of \<^verbatim>\<open>fake.go\<close>). A timestamp is the empty string
  (\<open>None\<close>) or the RFC 3339 rendering of a second in UTC (\<open>Some\<close> of that
  second): for these strings the byte order of the code is the order of
  \<^verbatim>\<open>HOL-Library.Option_ord\<close>. Time comes in as a clock reading in nanoseconds, one
  per operation. An operation maps the store to a result or error and the store after it; a
  constructor that fills in a field of the record it is given returns that record.
\<close>

section \<open>Time\<close>

type_synonym clock = int
type_synonym stamp = "int option"

definition second :: int where
  "second = 1000000000"

definition rfc3339 :: "clock \<Rightarrow> stamp" where
  "rfc3339 now = Some (now div second)"

text \<open>\<^verbatim>\<open>expiresAt.After(time.Now())\<close> or a timestamp that does not parse.\<close>

definition not_expired :: "stamp \<Rightarrow> clock \<Rightarrow> bool" where
  "not_expired st now = (case st of None \<Rightarrow> True | Some e \<Rightarrow> now < e * second)"

section \<open>Rows\<close>

record Project =
  pr_ID :: string
  pr_RootPath :: string
  pr_CreatedAt :: stamp

record Execution =
  ex_ID :: string
  ex_ProjectID :: string
  ex_WorkflowSource :: string
  ex_Status :: string
  ex_WorkspaceMode :: string
  ex_WorkspaceRoot :: string
  ex_StartedAt :: stamp
  ex_EndedAt :: "stamp option"
  ex_DagHash :: "string option"
  ex_BaseCommit :: "string option"

text \<open>\<^verbatim>\<open>DependsOn\<close>, \<^verbatim>\<open>Requires\<close> and
  \<^verbatim>\<open>Produces\<close> are JSON arrays of strings, kept as the text of the column.\<close>

record ExecutionStep =
  es_ExecutionID :: string
  es_StepID :: string
  es_Type :: string
  es_Status :: string
  es_DependsOn :: string
  es_Requires :: string
  es_Produces :: string
  es_WorkspaceMode :: string
  es_CurrentGeneration :: int
  es_PendingFeedback :: "string option"

record Generation =
  ge_ID :: string
  ge_ExecutionID :: string
  ge_StepID :: string
  ge_Number :: int
  ge_CreatedAt :: stamp
  ge_InvalidatedAt :: "stamp option"
  ge_InvalidatedByStep :: "string option"

record Attempt =
  at_ID :: string
  at_ExecutionID :: string
  at_StepID :: string
  at_GenerationID :: string
  at_Status :: string
  at_StartedAt :: stamp
  at_EndedAt :: "stamp option"
  at_TerminationReason :: "string option"
  at_ResultDigest :: "string option"

record StepTransitionEvent =
  te_ID :: int
  te_ExecutionID :: string
  te_StepID :: string
  te_Cursor :: int
  te_FromStatus :: "string option"
  te_ToStatus :: string
  te_OccurredAt :: stamp

record AttemptEvent =
  ae_ID :: int
  ae_AttemptID :: string
  ae_Cursor :: int
  ae_EventType :: string
  ae_PayloadRef :: "string option"
  ae_Payload :: "string option"
  ae_OccurredAt :: stamp

record Transport =
  tp_AttemptID :: string
  tp_AdapterName :: string
  tp_NativeSessionID :: "string option"
  tp_ProtocolVersion :: "int option"
  tp_Extra :: string

record Lease =
  le_ExecutionID :: string
  le_StepID :: string
  le_Holder :: string
  le_FencingToken :: int
  le_AcquiredAt :: stamp
  le_ExpiresAt :: stamp

record Interaction =
  ia_ID :: string
  ia_AttemptID :: string
  ia_Type :: string
  ia_Status :: string
  ia_Decision :: "string option"
  ia_IdempotencyKey :: string
  ia_ResolvedAt :: "stamp option"

record PathClaim =
  pc_ID :: int
  pc_ProjectID :: string
  pc_LogicalPath :: string
  pc_Mode :: string
  pc_OwnerExecutionID :: string
  pc_OwnerStepID :: string
  pc_AcquiredAt :: stamp
  pc_ReleasedAt :: "stamp option"

section \<open>The state of the in-memory store\<close>

record FakeStore =
  inTx :: bool
  projects :: "(string, Project) gomap"
  executions :: "(string, Execution) gomap"
  steps :: "(string, ExecutionStep) gomap"
  generations :: "(string, Generation) gomap"
  attempts :: "(string, Attempt) gomap"
  attemptEvents :: "(string, (int, AttemptEvent) gomap) gomap"
  transitionEvents :: "(string, (int, StepTransitionEvent) gomap) gomap"
  transports :: "(string, Transport) gomap"
  pathClaims :: "(int, PathClaim) gomap"
  pathClaimNextID :: int
  leases :: "(string, Lease) gomap"
  interactions :: "(string, Interaction) gomap"
  interactionsByAttemptKey :: "(string, string) gomap"

definition NewFakeStore :: FakeStore where
  "NewFakeStore = \<lparr>inTx = False, projects = [], executions = [], steps = [], generations = [],
     attempts = [], attemptEvents = [], transitionEvents = [], transports = [], pathClaims = [],
     pathClaimNextID = 0, leases = [], interactions = [], interactionsByAttemptKey = []\<rparr>"

section \<open>Operations\<close>

type_synonym ('s, 'a) op = "'s \<Rightarrow> (goerr + 'a) \<times> 's"

definition op_return :: "'a \<Rightarrow> ('s, 'a) op" where
  "op_return a s = (Inr a, s)"

definition op_fail :: "goerr \<Rightarrow> ('s, 'a) op" where
  "op_fail e s = (Inl e, s)"

definition op_bind :: "('s, 'a) op \<Rightarrow> ('a \<Rightarrow> ('s, 'b) op) \<Rightarrow> ('s, 'b) op" where
  "op_bind m f s = (case m s of (Inl e, s') \<Rightarrow> (Inl e, s') | (Inr a, s') \<Rightarrow> f a s')"

text \<open>A read: a value computed from the store, which stays as it is.\<close>

definition op_read :: "('s \<Rightarrow> goerr + 'a) \<Rightarrow> ('s, 'a) op" where
  "op_read f s = (f s, s)"

definition op_when :: "bool \<Rightarrow> goerr \<Rightarrow> ('s, unit) op" where
  "op_when b e = (if b then op_fail e else op_return ())"

lemma op_simps [simp]:
  "op_return a s = (Inr a, s)" "op_fail e s = (Inl e, s)"
  "op_read f s = (f s, s)" "op_when True e = op_fail e" "op_when False e = op_return ()"
  by (simp_all add: op_return_def op_fail_def op_read_def op_when_def)

lemma op_bind_simps [simp]:
  "op_bind (op_return a) f = f a" "op_bind (op_fail e) f = op_fail e"
  by (simp_all add: op_bind_def fun_eq_iff)

lemma op_bind_Inr: "m s = (Inr a, s') \<Longrightarrow> op_bind m f s = f a s'"
  by (simp add: op_bind_def)

lemma op_bind_Inl: "m s = (Inl e, s') \<Longrightarrow> op_bind m f s = (Inl e, s')"
  by (simp add: op_bind_def)

lemma op_bind_eq_Inr:
  "op_bind m f s = (Inr b, s'') \<longleftrightarrow> (\<exists>a s'. m s = (Inr a, s') \<and> f a s' = (Inr b, s''))"
  by (auto simp: op_bind_def split: prod.splits sum.splits)

text \<open>Whatever the outcome, the state after a sequence satisfies what each part keeps.\<close>

definition keeps :: "('s \<Rightarrow> bool) \<Rightarrow> ('s, 'a) op \<Rightarrow> bool" where
  "keeps P m \<longleftrightarrow> (\<forall>s. P s \<longrightarrow> P (snd (m s)))"

named_theorems keeps \<open>preservation of a property by operations\<close>

lemma keepsI: "(\<And>s. P s \<Longrightarrow> P (snd (m s))) \<Longrightarrow> keeps P m"
  by (simp add: keeps_def)

lemma keepsD: "keeps P m \<Longrightarrow> P s \<Longrightarrow> P (snd (m s))"
  by (simp add: keeps_def)

lemma keeps_basic [keeps]:
  "keeps P (op_return a)" "keeps P (op_fail e)" "keeps P (op_read f)" "keeps P (op_when b e)"
  by (auto simp: keeps_def op_when_def)

lemma keeps_bind [keeps]: "keeps P m \<Longrightarrow> (\<And>a. keeps P (f a)) \<Longrightarrow> keeps P (op_bind m f)"
  by (auto simp: keeps_def op_bind_def split: prod.splits sum.splits)

lemma keeps_if [keeps]: "(b \<Longrightarrow> keeps P m) \<Longrightarrow> (\<not> b \<Longrightarrow> keeps P m') \<Longrightarrow> keeps P (if b then m else m')"
  by simp

lemma keeps_case_option [keeps]:
  "(x = None \<Longrightarrow> keeps P m) \<Longrightarrow> (\<And>a. x = Some a \<Longrightarrow> keeps P (f a)) \<Longrightarrow>
   keeps P (case x of None \<Rightarrow> m | Some a \<Rightarrow> f a)"
  by (cases x) simp_all

lemma keeps_case_sum [keeps]:
  "(\<And>a. x = Inl a \<Longrightarrow> keeps P (f a)) \<Longrightarrow> (\<And>b. x = Inr b \<Longrightarrow> keeps P (g b)) \<Longrightarrow>
   keeps P (case x of Inl a \<Rightarrow> f a | Inr b \<Rightarrow> g b)"
  by (cases x) simp_all

text \<open>The errors of the store.\<close>

definition sentinel_msg :: "sentinel \<Rightarrow> string" where
  "sentinel_msg e =
     (case e of ErrNotFound \<Rightarrow> ''not found'' | ErrCheckViolation \<Rightarrow> ''check violation''
      | ErrUniqueViolation \<Rightarrow> ''unique violation'' | ErrForeignKeyViolation \<Rightarrow> ''foreign key violation''
      | ErrLeaseConflict \<Rightarrow> ''lease conflict'' | ErrStaleLease \<Rightarrow> ''stale lease''
      | ErrUnsupportedCapability \<Rightarrow> ''unsupported_capability''
      | ErrNotInitialized \<Rightarrow> ''not initialized: initialize must be called first'')"

definition sentinel_err :: "sentinel \<Rightarrow> goerr" where
  "sentinel_err e = GoErr (Sentinel e) (sentinel_msg e)"

text \<open>\<^verbatim>\<open>fmt.Errorf("%w: ...", sentinel)\<close>\<close>

definition violation :: "sentinel \<Rightarrow> string \<Rightarrow> goerr" where
  "violation e msg = GoErr (Sentinel e) (sentinel_msg e @ '': '' @ msg)"

lemma errors_Is_store [simp]:
  "errors_Is (sentinel_err e) e' \<longleftrightarrow> e = e'" "errors_Is (violation e m) e' \<longleftrightarrow> e = e'"
  by (simp_all add: sentinel_err_def violation_def)

end
