(* ===== verification/Outcome.thy ===== *)
theory Outcome
  imports Store_Types
begin

text \<open>
  Composition of operations the way the Go code composes them: a result that is looked at instead
  of propagated, an error assigned to the blank identifier, a deferred call, a loop that returns at the
  first error. The triples \<open>outcome P m Q E\<close> describe an operation by what holds after a normal
  result (\<open>Q\<close>) and after an error (\<open>E\<close>); the collection \<open>outcome\<close> holds their rules.
\<close>

section \<open>Combinators\<close>

text \<open>\<^verbatim>\<open>v, err := m()\<close>\<close>

definition op_try :: "('s, 'a) op \<Rightarrow> ('s, goerr + 'a) op" where
  "op_try m s = (Inr (fst (m s)), snd (m s))"

text \<open>\<^verbatim>\<open>_ = m()\<close>\<close>

definition op_ignore :: "('s, 'a) op \<Rightarrow> ('s, unit) op" where
  "op_ignore m s = (Inr (), snd (m s))"

definition op_void :: "('s, 'a) op \<Rightarrow> ('s, unit) op" where
  "op_void m = op_bind m (\<lambda>_. op_return ())"

text \<open>\<^verbatim>\<open>defer c()\<close> before \<^verbatim>\<open>m\<close>\<close>

definition op_finally :: "('s, 'a) op \<Rightarrow> ('s, unit) op \<Rightarrow> ('s, 'a) op" where
  "op_finally m c s = (fst (m s), snd (c (snd (m s))))"

definition op_check :: "goerr option \<Rightarrow> ('s, unit) op" where
  "op_check e = (case e of None \<Rightarrow> op_return () | Some e \<Rightarrow> op_fail e)"

definition op_result :: "goerr + 'a \<Rightarrow> ('s, 'a) op" where
  "op_result r s = (r, s)"

text \<open>\<^verbatim>\<open>return fmt.Errorf("p: %w", err)\<close>\<close>

definition op_wrap :: "string \<Rightarrow> ('s, 'a) op \<Rightarrow> ('s, 'a) op" where
  "op_wrap p m s = (case fst (m s) of Inl e \<Rightarrow> Inl (wrap_err p e) | Inr a \<Rightarrow> Inr a, snd (m s))"

definition op_state :: "('s \<Rightarrow> 's) \<Rightarrow> ('s, unit) op" where
  "op_state f s = (Inr (), f s)"

fun op_each :: "('a \<Rightarrow> ('s, unit) op) \<Rightarrow> 'a list \<Rightarrow> ('s, unit) op" where
  "op_each f [] = op_return ()"
| "op_each f (x # xs) = op_bind (f x) (\<lambda>_. op_each f xs)"

lemma op_combinators [simp]:
  "op_try m s = (Inr (fst (m s)), snd (m s))" "op_ignore m s = (Inr (), snd (m s))"
  "op_finally m c s = (fst (m s), snd (c (snd (m s))))" "op_result r s = (r, s)" "op_state f s = (Inr (), f s)"
  "op_check None = op_return ()" "op_check (Some e) = op_fail e"
  by (simp_all add: op_try_def op_ignore_def op_finally_def op_result_def op_state_def op_check_def)

lemma op_bind_total: "m s = (Inr a, s') \<Longrightarrow> op_bind m f s = f a s'" "m s = (Inl e, s') \<Longrightarrow> op_bind m f s = (Inl e, s')"
  by (simp_all add: op_bind_def)

lemma op_bind_eq_Inl:
  "op_bind m f s = (Inl e, s'') \<longleftrightarrow> m s = (Inl e, s'') \<or> (\<exists>a s'. m s = (Inr a, s') \<and> f a s' = (Inl e, s''))"
  by (auto simp: op_bind_def split: prod.splits sum.splits)

lemma snd_op_void [simp]: "snd (op_void m s) = snd (m s)"
  by (auto simp: op_void_def op_bind_def split: prod.splits sum.splits)

lemma op_void_Inl: "fst (op_void m s) = Inl e \<longleftrightarrow> fst (m s) = Inl e"
  by (auto simp: op_void_def op_bind_def split: prod.splits sum.splits)

lemma keeps_combinators [keeps]:
  "keeps P m \<Longrightarrow> keeps P (op_try m)" "keeps P m \<Longrightarrow> keeps P (op_ignore m)" "keeps P m \<Longrightarrow> keeps P (op_void m)"
  "keeps P m \<Longrightarrow> keeps P c \<Longrightarrow> keeps P (op_finally m c)" "keeps P (op_check x)" "keeps P (op_result r)"
  "keeps P m \<Longrightarrow> keeps P (op_wrap p m)"
  by (auto simp: keeps_def op_wrap_def op_check_def split: option.splits)

lemma keeps_each [keeps]: "(\<And>x. x \<in> set xs \<Longrightarrow> keeps P (f x)) \<Longrightarrow> keeps P (op_each f xs)"
  by (induction xs) (auto intro: keeps)

lemma keeps_state: "(\<And>s. P s \<Longrightarrow> P (f s)) \<Longrightarrow> keeps P (op_state f)"
  by (simp add: keeps_def)

lemma keeps_case_prod [keeps]: "(\<And>a b. x = (a, b) \<Longrightarrow> keeps P (f a b)) \<Longrightarrow> keeps P (case x of (a, b) \<Rightarrow> f a b)"
  by (cases x) simp

lemma keeps_case_list [keeps]:
  "(x = [] \<Longrightarrow> keeps P m) \<Longrightarrow> (\<And>y ys. x = y # ys \<Longrightarrow> keeps P (f y ys)) \<Longrightarrow>
   keeps P (case x of [] \<Rightarrow> m | y # ys \<Rightarrow> f y ys)"
  by (cases x) simp_all

lemma keeps_Let [keeps]: "(\<And>x. x = t \<Longrightarrow> keeps P (f x)) \<Longrightarrow> keeps P (let x = t in f x)"
  by simp

section \<open>Triples\<close>

definition outcome :: "('s \<Rightarrow> bool) \<Rightarrow> ('s, 'a) op \<Rightarrow> ('a \<Rightarrow> 's \<Rightarrow> bool) \<Rightarrow> (goerr \<Rightarrow> 's \<Rightarrow> bool) \<Rightarrow> bool" where
  "outcome P m Q E \<longleftrightarrow>
     (\<forall>s. P s \<longrightarrow> (\<forall>e s'. m s = (Inl e, s') \<longrightarrow> E e s') \<and> (\<forall>a s'. m s = (Inr a, s') \<longrightarrow> Q a s'))"

named_theorems outcome \<open>rules for the outcome of operations\<close>

lemma outcomeI:
  "(\<And>s e s'. P s \<Longrightarrow> m s = (Inl e, s') \<Longrightarrow> E e s') \<Longrightarrow> (\<And>s a s'. P s \<Longrightarrow> m s = (Inr a, s') \<Longrightarrow> Q a s') \<Longrightarrow>
   outcome P m Q E"
  by (simp add: outcome_def)

lemma outcome_Inr: "outcome P m Q E \<Longrightarrow> P s \<Longrightarrow> m s = (Inr a, s') \<Longrightarrow> Q a s'"
  by (auto simp: outcome_def)

lemma outcome_Inl: "outcome P m Q E \<Longrightarrow> P s \<Longrightarrow> m s = (Inl e, s') \<Longrightarrow> E e s'"
  by (auto simp: outcome_def)

lemma outcome_conseq:
  "outcome P' m Q' E' \<Longrightarrow> (\<And>s. P s \<Longrightarrow> P' s) \<Longrightarrow> (\<And>a s. Q' a s \<Longrightarrow> Q a s) \<Longrightarrow> (\<And>e s. E' e s \<Longrightarrow> E e s) \<Longrightarrow>
   outcome P m Q E"
  unfolding outcome_def by blast

lemma outcome_bind:
  "outcome P m R E \<Longrightarrow> (\<And>a. outcome (R a) (f a) Q E) \<Longrightarrow> outcome P (op_bind m f) Q E"
  unfolding outcome_def op_bind_eq_Inr op_bind_eq_Inl by blast

lemma outcome_keeps: "keeps P m \<Longrightarrow> outcome P m (\<lambda>_. P) (\<lambda>_. P)"
  unfolding keeps_def outcome_def by (metis snd_conv)

lemma outcome_True: "outcome P m (\<lambda>_ _. True) (\<lambda>_ _. True)"
  by (simp add: outcome_def)

lemma outcome_fail: "(\<And>s. P s \<Longrightarrow> E e s) \<Longrightarrow> outcome P (op_fail e) Q E"
  by (simp add: outcome_def)

lemma outcome_return: "(\<And>s. P s \<Longrightarrow> Q a s) \<Longrightarrow> outcome P (op_return a) Q E"
  by (simp add: outcome_def)

lemma outcome_fact: "(b \<Longrightarrow> outcome P m Q E) \<Longrightarrow> outcome (\<lambda>s. P s \<and> b) m Q E"
  by (auto simp: outcome_def)

lemma outcome_if: "(b \<Longrightarrow> outcome P m Q E) \<Longrightarrow> (\<not> b \<Longrightarrow> outcome P m' Q E) \<Longrightarrow> outcome P (if b then m else m') Q E"
  by simp

lemma outcome_case_sum:
  "(\<And>a. x = Inl a \<Longrightarrow> outcome P (f a) Q E) \<Longrightarrow> (\<And>b. x = Inr b \<Longrightarrow> outcome P (g b) Q E) \<Longrightarrow>
   outcome P (case x of Inl a \<Rightarrow> f a | Inr b \<Rightarrow> g b) Q E"
  by (cases x) simp_all

lemma outcome_try:
  "outcome P m Q E \<Longrightarrow> outcome P (op_try m) (\<lambda>r s. case r of Inl e \<Rightarrow> E e s | Inr a \<Rightarrow> Q a s) F"
  by (auto simp: outcome_def split: sum.split) (metis prod.collapse)+

lemma outcome_finally:
  "outcome P m (\<lambda>_. R) (\<lambda>_. R) \<Longrightarrow> outcome R c (\<lambda>_. S) (\<lambda>_. S) \<Longrightarrow> outcome P (op_finally m c) (\<lambda>_. S) (\<lambda>_. S)"
  unfolding outcome_def op_finally_def by (metis Inl_Inr_False prod.collapse prod.inject sumE)

lemma outcome_result: "outcome P (op_result r) (\<lambda>a s. P s \<and> r = Inr a) (\<lambda>e s. P s \<and> r = Inl e)"
  by (simp add: outcome_def)

lemma keeps_outcome: "outcome P m (\<lambda>_. P) (\<lambda>_. P) \<Longrightarrow> keeps P m"
  unfolding keeps_def outcome_def by (metis prod.collapse sumE)

end
