(* ===== verification/Fake_Store.thy ===== *)
theory Fake_Store
  imports Store_Types
begin

text \<open>
  The repositories of the in-memory store, \<^verbatim>\<open>internal/store/fake.go\<close>: one
  definition per method, with its guards in the order of the code, its error values and its
  state change. A \<^verbatim>\<open>range\<close> loop over a map visits the association list in its
  order. \<^verbatim>\<open>clone\<close> copies every map and every row it points to, so in a model
  without aliasing it only sets \<^verbatim>\<open>inTx\<close>.
\<close>

definition clone :: "FakeStore \<Rightarrow> FakeStore" where
  "clone s = s\<lparr>inTx := True\<rparr>"

definition WithTx :: "(FakeStore, 'a) op \<Rightarrow> (FakeStore, 'a) op" where
  "WithTx fn s =
     (if inTx s then fn s
      else
        (case fn (clone s) of
           (Inl e, c) \<Rightarrow> (Inl e, s)
         | (Inr a, c) \<Rightarrow> (Inr a, c\<lparr>inTx := inTx s\<rparr>)))"

definition isValidExecutionStatus :: "string \<Rightarrow> bool" where
  "isValidExecutionStatus st \<longleftrightarrow> st = ''pending'' \<or> st = ''running'' \<or> st = ''completed'' \<or> st = ''failed''"

definition isValidWorkspaceMode :: "string \<Rightarrow> bool" where
  "isValidWorkspaceMode m \<longleftrightarrow> m = ''isolated'' \<or> m = ''shared''"

definition isValidStepType :: "string \<Rightarrow> bool" where
  "isValidStepType t \<longleftrightarrow> t = ''command'' \<or> t = ''agent'' \<or> t = ''workflow''"

definition isValidStepStatus :: "string \<Rightarrow> bool" where
  "isValidStepStatus s \<longleftrightarrow>
     s = ''pending'' \<or> s = ''running'' \<or> s = ''completed'' \<or> s = ''failed'' \<or> s = ''skipped''"

definition isValidAttemptStatus :: "string \<Rightarrow> bool" where
  "isValidAttemptStatus s \<longleftrightarrow> s = ''running'' \<or> s = ''completed'' \<or> s = ''failed'' \<or> s = ''cancelled''"

definition isValidInteractionType :: "string \<Rightarrow> bool" where
  "isValidInteractionType t \<longleftrightarrow> t = ''permission'' \<or> t = ''question''"

definition isValidInteractionStatus :: "string \<Rightarrow> bool" where
  "isValidInteractionStatus s \<longleftrightarrow> s = ''pending'' \<or> s = ''resolved''"

section \<open>Projects\<close>

definition projects_Create :: "clock \<Rightarrow> string \<Rightarrow> string \<Rightarrow> (FakeStore, unit) op" where
  "projects_Create now i rootPath s =
     (if has_key i (projects s)
      then (Inl (violation ErrUniqueViolation ''UNIQUE constraint failed: projects.id''), s)
      else (Inr (), s\<lparr>projects := AList.update i
             \<lparr>pr_ID = i, pr_RootPath = rootPath, pr_CreatedAt = rfc3339 now\<rparr> (projects s)\<rparr>))"

text \<open>The \<^verbatim>\<open>Get\<close> of every repository.\<close>

definition lookup_row :: "(string, 'v) gomap \<Rightarrow> string \<Rightarrow> goerr + 'v" where
  "lookup_row m k = (case map_of m k of None \<Rightarrow> Inl (sentinel_err ErrNotFound) | Some v \<Rightarrow> Inr v)"

definition projects_Get :: "string \<Rightarrow> (FakeStore, Project) op" where
  "projects_Get i = op_read (\<lambda>s. lookup_row (projects s) i)"

section \<open>Executions\<close>

definition default_stamp :: "clock \<Rightarrow> stamp \<Rightarrow> stamp" where
  "default_stamp now st = (if st = None then rfc3339 now else st)"

definition executions_Create :: "clock \<Rightarrow> Execution \<Rightarrow> (FakeStore, Execution) op" where
  "executions_Create now e s =
     (if has_key (ex_ID e) (executions s)
      then (Inl (violation ErrUniqueViolation ''UNIQUE constraint failed: executions.id''), s)
      else if \<not> has_key (ex_ProjectID e) (projects s)
      then (Inl (violation ErrForeignKeyViolation ''FOREIGN KEY constraint failed''), s)
      else if \<not> isValidExecutionStatus (ex_Status e)
      then (Inl (violation ErrCheckViolation ''CHECK constraint failed: executions.status''), s)
      else if \<not> isValidWorkspaceMode (ex_WorkspaceMode e)
      then (Inl (violation ErrCheckViolation ''CHECK constraint failed: executions.workspace_mode''), s)
      else
        (let e = e\<lparr>ex_StartedAt := default_stamp now (ex_StartedAt e)\<rparr>
         in (Inr e, s\<lparr>executions := AList.update (ex_ID e) e (executions s)\<rparr>)))"

definition executions_Get :: "string \<Rightarrow> (FakeStore, Execution) op" where
  "executions_Get i = op_read (\<lambda>s. lookup_row (executions s) i)"

definition set_execution_status :: "clock \<Rightarrow> string \<Rightarrow> Execution \<Rightarrow> Execution" where
  "set_execution_status now status e =
     (let e = e\<lparr>ex_Status := status\<rparr> in
      if (status = ''completed'' \<or> status = ''failed'') \<and> ex_EndedAt e = None
      then e\<lparr>ex_EndedAt := Some (rfc3339 now)\<rparr> else e)"

definition executions_UpdateStatus :: "clock \<Rightarrow> string \<Rightarrow> string \<Rightarrow> (FakeStore, unit) op" where
  "executions_UpdateStatus now i status s =
     (if \<not> has_key i (executions s) then (Inl (sentinel_err ErrNotFound), s)
      else if \<not> isValidExecutionStatus status
      then (Inl (violation ErrCheckViolation ''CHECK constraint failed''), s)
      else (Inr (), s\<lparr>executions := adjust i (set_execution_status now status) (executions s)\<rparr>))"

section \<open>Steps\<close>

definition stepKey :: "string \<Rightarrow> string \<Rightarrow> string" where
  "stepKey execID stepID = execID @ [CHR 0x00] @ stepID"

definition steps_Create :: "ExecutionStep \<Rightarrow> (FakeStore, unit) op" where
  "steps_Create st s =
     (let k = stepKey (es_ExecutionID st) (es_StepID st) in
      if has_key k (steps s)
      then (Inl (violation ErrUniqueViolation ''UNIQUE constraint failed''), s)
      else if \<not> has_key (es_ExecutionID st) (executions s)
      then (Inl (violation ErrForeignKeyViolation ''FOREIGN KEY constraint failed''), s)
      else if \<not> isValidStepType (es_Type st)
      then (Inl (violation ErrCheckViolation ''CHECK constraint failed: execution_steps.type''), s)
      else if \<not> isValidStepStatus (es_Status st)
      then (Inl (violation ErrCheckViolation ''CHECK constraint failed: execution_steps.status''), s)
      else if \<not> isValidWorkspaceMode (es_WorkspaceMode st)
      then (Inl (violation ErrCheckViolation ''CHECK constraint failed: execution_steps.workspace_mode''), s)
      else (Inr (), s\<lparr>steps := AList.update k st (steps s)\<rparr>))"

definition steps_Get :: "string \<Rightarrow> string \<Rightarrow> (FakeStore, ExecutionStep) op" where
  "steps_Get execID stepID = op_read (\<lambda>s. lookup_row (steps s) (stepKey execID stepID))"

text \<open>The order of the rows is open in Go, which ranges over a map.\<close>

definition steps_List :: "string \<Rightarrow> (FakeStore, ExecutionStep list) op" where
  "steps_List execID = op_read (\<lambda>s. Inr (filter (\<lambda>st. es_ExecutionID st = execID) (map snd (steps s))))"

definition steps_UpdateStatus :: "string \<Rightarrow> string \<Rightarrow> string \<Rightarrow> (FakeStore, unit) op" where
  "steps_UpdateStatus execID stepID status s =
     (let k = stepKey execID stepID in
      if \<not> isValidStepStatus status then (Inl (violation ErrCheckViolation ''CHECK constraint failed''), s)
      else if \<not> has_key k (steps s) then (Inl (sentinel_err ErrNotFound), s)
      else (Inr (), s\<lparr>steps := adjust k (\<lambda>st. st\<lparr>es_Status := status\<rparr>) (steps s)\<rparr>))"

definition steps_UpdateGeneration :: "string \<Rightarrow> string \<Rightarrow> int \<Rightarrow> (FakeStore, unit) op" where
  "steps_UpdateGeneration execID stepID gen s =
     (let k = stepKey execID stepID in
      if \<not> has_key k (steps s) then (Inl (sentinel_err ErrNotFound), s)
      else (Inr (), s\<lparr>steps := adjust k (\<lambda>st. st\<lparr>es_CurrentGeneration := gen\<rparr>) (steps s)\<rparr>))"

definition steps_SetPendingFeedback :: "string \<Rightarrow> string \<Rightarrow> string option \<Rightarrow> (FakeStore, unit) op" where
  "steps_SetPendingFeedback execID stepID feedback s =
     (let k = stepKey execID stepID in
      if \<not> has_key k (steps s) then (Inl (sentinel_err ErrNotFound), s)
      else (Inr (), s\<lparr>steps := adjust k (\<lambda>st. st\<lparr>es_PendingFeedback := feedback\<rparr>) (steps s)\<rparr>))"

section \<open>Attempts\<close>

definition attempts_Create :: "clock \<Rightarrow> Attempt \<Rightarrow> (FakeStore, Attempt) op" where
  "attempts_Create now a s =
     (if has_key (at_ID a) (attempts s)
      then (Inl (violation ErrUniqueViolation ''UNIQUE constraint failed: attempts.id''), s)
      else if \<not> isValidAttemptStatus (at_Status a)
      then (Inl (violation ErrCheckViolation ''CHECK constraint failed: attempts.status''), s)
      else if \<not> has_key (stepKey (at_ExecutionID a) (at_StepID a)) (steps s)
      then (Inl (violation ErrForeignKeyViolation ''FOREIGN KEY constraint failed''), s)
      else if \<not> has_key (at_GenerationID a) (generations s)
      then (Inl (violation ErrForeignKeyViolation ''FOREIGN KEY constraint failed''), s)
      else
        (let a = a\<lparr>at_StartedAt := default_stamp now (at_StartedAt a)\<rparr>
         in (Inr a, s\<lparr>attempts := AList.update (at_ID a) a (attempts s)\<rparr>)))"

definition attempts_Get :: "string \<Rightarrow> (FakeStore, Attempt) op" where
  "attempts_Get i = op_read (\<lambda>s. lookup_row (attempts s) i)"

definition attempts_UpdateStatus :: "clock \<Rightarrow> string \<Rightarrow> string \<Rightarrow> stamp option \<Rightarrow> string option \<Rightarrow> string option \<Rightarrow>
    (FakeStore, unit) op" where
  "attempts_UpdateStatus now i status endedAt trm digest s =
     (if \<not> isValidAttemptStatus status then (Inl (violation ErrCheckViolation ''CHECK constraint failed''), s)
      else if \<not> has_key i (attempts s) then (Inl (sentinel_err ErrNotFound), s)
      else (Inr (), s\<lparr>attempts := adjust i (\<lambda>a. a\<lparr>at_Status := status,
              at_EndedAt := (case endedAt of None \<Rightarrow> Some (rfc3339 now) | Some e \<Rightarrow> Some e),
              at_TerminationReason := trm, at_ResultDigest := digest\<rparr>) (attempts s)\<rparr>))"

definition attempts_CountByStep :: "string \<Rightarrow> string \<Rightarrow> (FakeStore, nat) op" where
  "attempts_CountByStep execID stepID = op_read (\<lambda>s.
     Inr (length (filter (\<lambda>a. at_ExecutionID a = execID \<and> at_StepID a = stepID) (map snd (attempts s)))))"

text \<open>The loop that keeps the latest attempt by start time, then identifier.\<close>

definition later :: "Attempt \<Rightarrow> Attempt \<Rightarrow> bool" where
  "later a c \<longleftrightarrow> at_StartedAt a > at_StartedAt c \<or> at_StartedAt a = at_StartedAt c \<and> at_ID a > at_ID c"

definition latest_attempt :: "Attempt list \<Rightarrow> Attempt option" where
  "latest_attempt as = fold (\<lambda>a cur. case cur of None \<Rightarrow> Some a
     | Some c \<Rightarrow> if later a c then Some a else cur) as None"

definition attempts_CurrentByStep :: "string \<Rightarrow> string \<Rightarrow> (FakeStore, Attempt) op" where
  "attempts_CurrentByStep execID stepID = op_read (\<lambda>s.
     (case latest_attempt (filter (\<lambda>a. at_ExecutionID a = execID \<and> at_StepID a = stepID) (map snd (attempts s))) of
        None \<Rightarrow> Inl (sentinel_err ErrNotFound)
      | Some a \<Rightarrow> Inr a))"

section \<open>Generations\<close>

definition same_generation :: "string \<Rightarrow> string \<Rightarrow> int \<Rightarrow> Generation \<Rightarrow> bool" where
  "same_generation execID stepID number g \<longleftrightarrow>
     ge_ExecutionID g = execID \<and> ge_StepID g = stepID \<and> ge_Number g = number"

definition generations_Create :: "clock \<Rightarrow> Generation \<Rightarrow> (FakeStore, Generation) op" where
  "generations_Create now g s =
     (if has_key (ge_ID g) (generations s)
      then (Inl (violation ErrUniqueViolation ''UNIQUE constraint failed: generations.id''), s)
      else if list_ex (same_generation (ge_ExecutionID g) (ge_StepID g) (ge_Number g)) (map snd (generations s))
      then (Inl (violation ErrUniqueViolation ''UNIQUE constraint failed: generations''), s)
      else if \<not> has_key (stepKey (ge_ExecutionID g) (ge_StepID g)) (steps s)
      then (Inl (violation ErrForeignKeyViolation ''FOREIGN KEY constraint failed''), s)
      else
        (let g = g\<lparr>ge_CreatedAt := default_stamp now (ge_CreatedAt g)\<rparr>
         in (Inr g, s\<lparr>generations := AList.update (ge_ID g) g (generations s)\<rparr>)))"

definition generations_Get :: "string \<Rightarrow> (FakeStore, Generation) op" where
  "generations_Get i = op_read (\<lambda>s. lookup_row (generations s) i)"

definition generations_GetByNumber :: "string \<Rightarrow> string \<Rightarrow> int \<Rightarrow> (FakeStore, Generation) op" where
  "generations_GetByNumber execID stepID number = op_read (\<lambda>s.
     (case find (same_generation execID stepID number) (map snd (generations s)) of
        None \<Rightarrow> Inl (sentinel_err ErrNotFound)
      | Some g \<Rightarrow> Inr g))"

definition generations_ListByStep :: "string \<Rightarrow> string \<Rightarrow> (FakeStore, Generation list) op" where
  "generations_ListByStep execID stepID = op_read (\<lambda>s.
     Inr (filter (\<lambda>g. ge_ExecutionID g = execID \<and> ge_StepID g = stepID) (map snd (generations s))))"

definition invalidate :: "clock \<Rightarrow> string \<Rightarrow> string \<Rightarrow> string \<Rightarrow> Generation \<Rightarrow> Generation" where
  "invalidate now execID stepID invalidatedBy g =
     (if ge_ExecutionID g = execID \<and> ge_StepID g = stepID \<and> ge_InvalidatedAt g = None
      then g\<lparr>ge_InvalidatedAt := Some (rfc3339 now), ge_InvalidatedByStep := Some invalidatedBy\<rparr> else g)"

definition generations_InvalidateByStep :: "clock \<Rightarrow> string \<Rightarrow> string \<Rightarrow> string \<Rightarrow> (FakeStore, unit) op" where
  "generations_InvalidateByStep now execID stepID invalidatedBy s =
     (Inr (), s\<lparr>generations := map (\<lambda>(k, g). (k, invalidate now execID stepID invalidatedBy g)) (generations s)\<rparr>)"

section \<open>Events\<close>

text \<open>A map of maps read at a key: \<^verbatim>\<open>nil\<close> reads as empty.\<close>

definition inner :: "(string, (int, 'v) gomap) gomap \<Rightarrow> string \<Rightarrow> (int, 'v) gomap" where
  "inner m k = (case map_of m k of None \<Rightarrow> [] | Some v \<Rightarrow> v)"

text \<open>\<^verbatim>\<open>if m[k] == nil { m[k] = make(...) }\<close>\<close>

definition ensure_inner :: "string \<Rightarrow> (string, (int, 'v) gomap) gomap \<Rightarrow> (string, (int, 'v) gomap) gomap" where
  "ensure_inner k m = (if has_key k m then m else AList.update k [] m)"

definition events_CreateAttemptEvent :: "clock \<Rightarrow> AttemptEvent \<Rightarrow> (FakeStore, AttemptEvent) op" where
  "events_CreateAttemptEvent now e s =
     (if \<not> has_key (ae_AttemptID e) (attempts s)
      then (Inl (violation ErrForeignKeyViolation ''FOREIGN KEY constraint failed''), s)
      else
        (let s = s\<lparr>attemptEvents := ensure_inner (ae_AttemptID e) (attemptEvents s)\<rparr> in
         if has_key (ae_Cursor e) (inner (attemptEvents s) (ae_AttemptID e))
         then (Inl (violation ErrUniqueViolation ''UNIQUE constraint failed: attempt_events''), s)
         else
           (let e = e\<lparr>ae_OccurredAt := default_stamp now (ae_OccurredAt e)\<rparr>
            in (Inr e, s\<lparr>attemptEvents :=
                  adjust (ae_AttemptID e) (AList.update (ae_Cursor e) e) (attemptEvents s)\<rparr>))))"

definition latest_output :: "AttemptEvent list \<Rightarrow> AttemptEvent option" where
  "latest_output evs = fold (\<lambda>ev cur. if ae_EventType ev \<noteq> ''output_delta'' then cur
     else (case cur of None \<Rightarrow> Some ev | Some c \<Rightarrow> if ae_Cursor ev > ae_Cursor c then Some ev else cur)) evs None"

definition events_PriorOutputDelta :: "string \<Rightarrow> (FakeStore, AttemptEvent) op" where
  "events_PriorOutputDelta attemptID = op_read (\<lambda>s.
     (case map_of (attempts s) attemptID of
        None \<Rightarrow> Inl (sentinel_err ErrNotFound)
      | Some cur \<Rightarrow>
          (case latest_attempt (filter (\<lambda>a. at_ExecutionID a = at_ExecutionID cur \<and> at_StepID a = at_StepID cur
                  \<and> at_ID a \<noteq> attemptID) (map snd (attempts s))) of
             None \<Rightarrow> Inl (sentinel_err ErrNotFound)
           | Some a \<Rightarrow>
               (case latest_output (map snd (inner (attemptEvents s) (at_ID a))) of
                  None \<Rightarrow> Inl (sentinel_err ErrNotFound)
                | Some ev \<Rightarrow> Inr ev))))"

definition events_CreateTransition :: "clock \<Rightarrow> StepTransitionEvent \<Rightarrow> (FakeStore, StepTransitionEvent) op" where
  "events_CreateTransition now e s =
     (let k = stepKey (te_ExecutionID e) (te_StepID e);
          s = s\<lparr>transitionEvents := ensure_inner k (transitionEvents s)\<rparr> in
      if has_key (te_Cursor e) (inner (transitionEvents s) k)
      then (Inl (violation ErrUniqueViolation ''UNIQUE constraint failed: step_transition_events''), s)
      else
        (let e = e\<lparr>te_OccurredAt := default_stamp now (te_OccurredAt e)\<rparr>
         in (Inr e, s\<lparr>transitionEvents := adjust k (AList.update (te_Cursor e) e) (transitionEvents s)\<rparr>)))"

text \<open>The nested loop that swaps a later smaller element with the one at the outer index.\<close>

fun exchange :: "('a \<Rightarrow> 'b::linorder) \<Rightarrow> 'a \<Rightarrow> 'a list \<Rightarrow> 'a \<times> 'a list" where
  "exchange key x [] = (x, [])"
| "exchange key x (y # ys) =
     (if key y < key x then (let (m, r) = exchange key y ys in (m, x # r))
      else (let (m, r) = exchange key x ys in (m, y # r)))"

lemma length_exchange: "length (snd (exchange key x ys)) = length ys"
  by (induction ys arbitrary: x) (auto simp: split_def Let_def)

function exchange_sort :: "('a \<Rightarrow> 'b::linorder) \<Rightarrow> 'a list \<Rightarrow> 'a list" where
  "exchange_sort key [] = []"
| "exchange_sort key (x # xs) = (let (m, r) = exchange key x xs in m # exchange_sort key r)"
  by pat_completeness auto

termination exchange_sort
  by (relation "measure (\<lambda>(key, xs). length xs)") (auto, metis length_exchange less_Suc_eq snd_conv)

definition events_ListTransitions :: "string \<Rightarrow> string \<Rightarrow> (FakeStore, StepTransitionEvent list) op" where
  "events_ListTransitions execID stepID = op_read (\<lambda>s.
     Inr (exchange_sort te_Cursor (map snd (inner (transitionEvents s) (stepKey execID stepID)))))"

definition next_cursor :: "(int, 'v) gomap \<Rightarrow> int" where
  "next_cursor m = fold (\<lambda>cur mx. if cur > mx then cur else mx) (map fst m) (-1) + 1"

definition events_NextAttemptCursor :: "string \<Rightarrow> (FakeStore, int) op" where
  "events_NextAttemptCursor attemptID = op_read (\<lambda>s. Inr (next_cursor (inner (attemptEvents s) attemptID)))"

definition events_NextTransitionCursor :: "string \<Rightarrow> string \<Rightarrow> (FakeStore, int) op" where
  "events_NextTransitionCursor execID stepID = op_read (\<lambda>s.
     Inr (next_cursor (inner (transitionEvents s) (stepKey execID stepID))))"

definition events_ListAttemptEvents :: "string \<Rightarrow> int \<Rightarrow> int \<Rightarrow> (FakeStore, AttemptEvent list) op" where
  "events_ListAttemptEvents attemptID sinceCursor limit0 = op_read (\<lambda>s.
     (let limit = (if limit0 \<le> 0 \<or> limit0 > 128 then 128 else limit0) in
      if \<not> has_key attemptID (attempts s) then Inl (sentinel_err ErrNotFound)
      else Inr (List.map_filter (map_of (inner (attemptEvents s) attemptID)) [sinceCursor..sinceCursor + limit - 1])))"

section \<open>Transport\<close>

definition transport_Put :: "Transport \<Rightarrow> (FakeStore, Transport) op" where
  "transport_Put t s =
     (if \<not> has_key (tp_AttemptID t) (attempts s)
      then (Inl (violation ErrForeignKeyViolation ''FOREIGN KEY constraint failed''), s)
      else
        (let t = (if tp_Extra t = '''' then t\<lparr>tp_Extra := ''{}''\<rparr> else t)
         in (Inr t, s\<lparr>transports := AList.update (tp_AttemptID t) t (transports s)\<rparr>)))"

definition transport_Get :: "string \<Rightarrow> (FakeStore, Transport) op" where
  "transport_Get attemptID = op_read (\<lambda>s. lookup_row (transports s) attemptID)"

section \<open>Path claims\<close>

definition active_claims :: "string \<Rightarrow> FakeStore \<Rightarrow> PathClaim list" where
  "active_claims projectID s =
     filter (\<lambda>pc. pc_ProjectID pc = projectID \<and> pc_ReleasedAt pc = None) (map snd (pathClaims s))"

definition conflicts_with :: "PathClaim \<Rightarrow> PathClaim \<Rightarrow> bool" where
  "conflicts_with c ex \<longleftrightarrow>
     Overlaps (pc_LogicalPath ex) (pc_LogicalPath c) \<and> ShouldBlock (pc_Mode ex) (pc_Mode c) ''block'' False"

definition claims_Acquire :: "clock \<Rightarrow> PathClaim \<Rightarrow> (FakeStore, bool \<times> PathClaim option) op" where
  "claims_Acquire now c s =
     (if pc_ProjectID c = '''' \<or> pc_LogicalPath c = '''' \<or> pc_Mode c = '''' \<or> pc_OwnerExecutionID c = '''' \<or>
         pc_OwnerStepID c = ''''
      then (Inl (errorf ''missing claim fields''), s)
      else if \<not> has_key (pc_ProjectID c) (projects s)
      then (Inl (violation ErrForeignKeyViolation ''FOREIGN KEY constraint failed''), s)
      else
        (case find (conflicts_with c) (active_claims (pc_ProjectID c) s) of
           Some conf \<Rightarrow> (Inr (False, Some conf), s)
         | None \<Rightarrow>
             (let n = pathClaimNextID s + 1;
                  pc = c\<lparr>pc_ID := n, pc_AcquiredAt := rfc3339 now, pc_ReleasedAt := None\<rparr>
              in (Inr (True, None),
                  s\<lparr>pathClaimNextID := n, pathClaims := AList.update n pc (pathClaims s)\<rparr>))))"

definition held_by :: "string \<Rightarrow> string \<Rightarrow> string \<Rightarrow> string \<Rightarrow> PathClaim \<Rightarrow> bool" where
  "held_by projectID logicalPath ownerExecutionID ownerStepID pc \<longleftrightarrow>
     pc_ProjectID pc = projectID \<and> pc_LogicalPath pc = logicalPath \<and>
     pc_OwnerExecutionID pc = ownerExecutionID \<and> pc_OwnerStepID pc = ownerStepID \<and> pc_ReleasedAt pc = None"

definition claims_Release :: "clock \<Rightarrow> string \<Rightarrow> string \<Rightarrow> string \<Rightarrow> string \<Rightarrow> (FakeStore, unit) op" where
  "claims_Release now projectID logicalPath ownerExecutionID ownerStepID s =
     (case find (\<lambda>(k, pc). held_by projectID logicalPath ownerExecutionID ownerStepID pc) (pathClaims s) of
        None \<Rightarrow> (Inl (errorf ''release: no active claim''), s)
      | Some (k, pc) \<Rightarrow>
          (Inr (), s\<lparr>pathClaims := adjust k (\<lambda>pc. pc\<lparr>pc_ReleasedAt := Some (rfc3339 now)\<rparr>) (pathClaims s)\<rparr>))"

definition claims_ListActive :: "string \<Rightarrow> (FakeStore, PathClaim list) op" where
  "claims_ListActive projectID = op_read (\<lambda>s. Inr (exchange_sort pc_LogicalPath (active_claims projectID s)))"

section \<open>Leases\<close>

definition lease_ttl :: int where
  "lease_ttl = 60 * second"

definition leases_Acquire :: "clock \<Rightarrow> string \<Rightarrow> string \<Rightarrow> string \<Rightarrow> (FakeStore, int) op" where
  "leases_Acquire now executionID stepID holder s =
     (let k = stepKey executionID stepID; expires = rfc3339 (now + lease_ttl) in
      case map_of (leases s) k of
        Some existing \<Rightarrow>
          (if le_Holder existing \<noteq> holder \<and> not_expired (le_ExpiresAt existing) now
           then (Inl (sentinel_err ErrLeaseConflict), s)
           else
             (let nxt = le_FencingToken existing + 1 in
              (Inr nxt, s\<lparr>leases := adjust k (\<lambda>l. l\<lparr>le_Holder := holder, le_FencingToken := nxt,
                 le_AcquiredAt := rfc3339 now, le_ExpiresAt := expires\<rparr>) (leases s)\<rparr>)))
      | None \<Rightarrow>
          (Inr 1, s\<lparr>leases := AList.update k \<lparr>le_ExecutionID = executionID, le_StepID = stepID, le_Holder = holder,
             le_FencingToken = 1, le_AcquiredAt = rfc3339 now, le_ExpiresAt = expires\<rparr> (leases s)\<rparr>))"

definition held_lease :: "FakeStore \<Rightarrow> string \<Rightarrow> string \<Rightarrow> string \<Rightarrow> int \<Rightarrow> bool" where
  "held_lease s executionID stepID holder fencingToken \<longleftrightarrow>
     (case map_of (leases s) (stepKey executionID stepID) of
        None \<Rightarrow> False
      | Some l \<Rightarrow> le_Holder l = holder \<and> le_FencingToken l = fencingToken)"

definition leases_Renew :: "clock \<Rightarrow> string \<Rightarrow> string \<Rightarrow> string \<Rightarrow> int \<Rightarrow> (FakeStore, unit) op" where
  "leases_Renew now executionID stepID holder fencingToken s =
     (if \<not> held_lease s executionID stepID holder fencingToken then (Inl (sentinel_err ErrNotFound), s)
      else (Inr (), s\<lparr>leases := adjust (stepKey executionID stepID)
             (\<lambda>l. l\<lparr>le_ExpiresAt := rfc3339 (now + lease_ttl)\<rparr>) (leases s)\<rparr>))"

definition leases_Release :: "clock \<Rightarrow> string \<Rightarrow> string \<Rightarrow> string \<Rightarrow> int \<Rightarrow> (FakeStore, unit) op" where
  "leases_Release now executionID stepID holder fencingToken s =
     (if \<not> held_lease s executionID stepID holder fencingToken then (Inl (sentinel_err ErrNotFound), s)
      else (Inr (), s\<lparr>leases := adjust (stepKey executionID stepID)
             (\<lambda>l. l\<lparr>le_ExpiresAt := rfc3339 now\<rparr>) (leases s)\<rparr>))"

definition leases_Get :: "string \<Rightarrow> string \<Rightarrow> (FakeStore, Lease) op" where
  "leases_Get executionID stepID = op_read (\<lambda>s. lookup_row (leases s) (stepKey executionID stepID))"

section \<open>Interactions\<close>

definition interactions_Create :: "Interaction \<Rightarrow> (FakeStore, unit) op" where
  "interactions_Create i s =
     (let key = ia_AttemptID i @ [CHR 0x00] @ ia_IdempotencyKey i in
      if has_key (ia_ID i) (interactions s)
      then (Inl (violation ErrUniqueViolation ''UNIQUE constraint failed: interactions.id''), s)
      else if \<not> has_key (ia_AttemptID i) (attempts s)
      then (Inl (violation ErrForeignKeyViolation ''FOREIGN KEY constraint failed''), s)
      else if \<not> isValidInteractionType (ia_Type i)
      then (Inl (violation ErrCheckViolation ''CHECK constraint failed: interactions.type''), s)
      else if \<not> isValidInteractionStatus (ia_Status i)
      then (Inl (violation ErrCheckViolation ''CHECK constraint failed: interactions.status''), s)
      else if has_key key (interactionsByAttemptKey s)
      then (Inl (violation ErrUniqueViolation ''UNIQUE constraint failed: interactions''), s)
      else (Inr (), s\<lparr>interactions := AList.update (ia_ID i) i (interactions s),
             interactionsByAttemptKey := AList.update key (ia_ID i) (interactionsByAttemptKey s)\<rparr>))"

definition interactions_Get :: "string \<Rightarrow> (FakeStore, Interaction) op" where
  "interactions_Get i = op_read (\<lambda>s. lookup_row (interactions s) i)"

definition interactions_Resolve :: "clock \<Rightarrow> string \<Rightarrow> string \<Rightarrow> string \<Rightarrow> (FakeStore, Interaction) op" where
  "interactions_Resolve now i idempotencyKey decision s =
     (case map_of (interactions s) i of
        None \<Rightarrow> (Inl (sentinel_err ErrNotFound), s)
      | Some it \<Rightarrow>
          (if ia_IdempotencyKey it \<noteq> idempotencyKey then (Inl (sentinel_err ErrUniqueViolation), s)
           else if ia_Status it = ''resolved'' then (Inr it, s)
           else
             (let it' = it\<lparr>ia_Status := ''resolved'', ia_Decision := Some decision,
                    ia_ResolvedAt := Some (rfc3339 now)\<rparr>
              in (Inr it', s\<lparr>interactions := adjust i (\<lambda>_. it') (interactions s)\<rparr>))))"

end
