(* ===== verification/Store_Invariant.thy ===== *)
theory Store_Invariant
  imports Fake_Store
begin

text \<open>
  The integrity of the in-memory store. Each table has a well-formedness predicate over the
  tables it refers to: keys agree with rows, enumerated columns are valid (CHECK), references
  exist (FOREIGN KEY), secondary keys are unique (UNIQUE). Every operation of every repository
  keeps their conjunction \<open>store_ok\<close>, so it holds in every state the operations reach.
\<close>

section \<open>Table predicates\<close>

definition projects_ok :: "(string, Project) gomap \<Rightarrow> bool" where
  "projects_ok ps \<longleftrightarrow> gomap ps \<and> rows (\<lambda>k p. pr_ID p = k) ps"

definition executions_ok :: "(string, Project) gomap \<Rightarrow> (string, Execution) gomap \<Rightarrow> bool" where
  "executions_ok ps es \<longleftrightarrow> gomap es \<and> rows (\<lambda>k e. ex_ID e = k \<and> has_key (ex_ProjectID e) ps \<and>
     isValidExecutionStatus (ex_Status e) \<and> isValidWorkspaceMode (ex_WorkspaceMode e)) es"

definition steps_ok :: "(string, Execution) gomap \<Rightarrow> (string, ExecutionStep) gomap \<Rightarrow> bool" where
  "steps_ok es ss \<longleftrightarrow> gomap ss \<and> rows (\<lambda>k st. k = stepKey (es_ExecutionID st) (es_StepID st) \<and>
     has_key (es_ExecutionID st) es \<and> isValidStepType (es_Type st) \<and> isValidStepStatus (es_Status st) \<and>
     isValidWorkspaceMode (es_WorkspaceMode st)) ss"

definition generations_ok :: "(string, ExecutionStep) gomap \<Rightarrow> (string, Generation) gomap \<Rightarrow> bool" where
  "generations_ok ss gs \<longleftrightarrow> gomap gs \<and>
     rows (\<lambda>k g. ge_ID g = k \<and> has_key (stepKey (ge_ExecutionID g) (ge_StepID g)) ss) gs \<and>
     (\<forall>k g k' g'. map_of gs k = Some g \<longrightarrow> map_of gs k' = Some g' \<longrightarrow>
        same_generation (ge_ExecutionID g) (ge_StepID g) (ge_Number g) g' \<longrightarrow> k = k')"

definition attempts_ok :: "(string, ExecutionStep) gomap \<Rightarrow> (string, Generation) gomap \<Rightarrow> (string, Attempt) gomap \<Rightarrow> bool" where
  "attempts_ok ss gs as \<longleftrightarrow> gomap as \<and> rows (\<lambda>k a. at_ID a = k \<and> isValidAttemptStatus (at_Status a) \<and>
     has_key (stepKey (at_ExecutionID a) (at_StepID a)) ss \<and> has_key (at_GenerationID a) gs) as"

definition attempt_events_ok :: "(string, Attempt) gomap \<Rightarrow> (string, (int, AttemptEvent) gomap) gomap \<Rightarrow> bool" where
  "attempt_events_ok as evs \<longleftrightarrow> gomap evs \<and> rows (\<lambda>k m. has_key k as \<and> gomap m \<and>
     rows (\<lambda>c e. ae_Cursor e = c \<and> ae_AttemptID e = k) m) evs"

definition transition_events_ok :: "(string, (int, StepTransitionEvent) gomap) gomap \<Rightarrow> bool" where
  "transition_events_ok evs \<longleftrightarrow> gomap evs \<and> rows (\<lambda>k m. gomap m \<and>
     rows (\<lambda>c e. te_Cursor e = c \<and> stepKey (te_ExecutionID e) (te_StepID e) = k) m) evs"

definition transports_ok :: "(string, Attempt) gomap \<Rightarrow> (string, Transport) gomap \<Rightarrow> bool" where
  "transports_ok as ts \<longleftrightarrow> gomap ts \<and> rows (\<lambda>k t. tp_AttemptID t = k \<and> has_key k as \<and> tp_Extra t \<noteq> '''') ts"

text \<open>Mutual exclusion of path claims: two different active claims of a project that overlap are
  never in blocking modes.\<close>

definition claims_ok :: "(string, Project) gomap \<Rightarrow> int \<Rightarrow> (int, PathClaim) gomap \<Rightarrow> bool" where
  "claims_ok ps n cs \<longleftrightarrow> gomap cs \<and>
     rows (\<lambda>k c. pc_ID c = k \<and> k \<le> n \<and> has_key (pc_ProjectID c) ps) cs \<and>
     (\<forall>k c k' c'. map_of cs k = Some c \<longrightarrow> map_of cs k' = Some c' \<longrightarrow> k \<noteq> k' \<longrightarrow>
        pc_ProjectID c = pc_ProjectID c' \<longrightarrow> pc_ReleasedAt c = None \<longrightarrow> pc_ReleasedAt c' = None \<longrightarrow>
        \<not> conflicts_with c c')"

definition leases_ok :: "(string, Lease) gomap \<Rightarrow> bool" where
  "leases_ok ls \<longleftrightarrow> gomap ls \<and> rows (\<lambda>k l. k = stepKey (le_ExecutionID l) (le_StepID l) \<and> 1 \<le> le_FencingToken l) ls"

definition interaction_key :: "Interaction \<Rightarrow> string" where
  "interaction_key i = ia_AttemptID i @ [CHR 0x00] @ ia_IdempotencyKey i"

definition interactions_ok :: "(string, Attempt) gomap \<Rightarrow> (string, Interaction) gomap \<Rightarrow> (string, string) gomap \<Rightarrow> bool" where
  "interactions_ok as is bk \<longleftrightarrow> gomap is \<and> gomap bk \<and>
     rows (\<lambda>k i. ia_ID i = k \<and> has_key (ia_AttemptID i) as \<and> isValidInteractionType (ia_Type i) \<and>
       isValidInteractionStatus (ia_Status i) \<and> map_of bk (interaction_key i) = Some k) is \<and>
     rows (\<lambda>key k. \<exists>i. map_of is k = Some i \<and> interaction_key i = key) bk"

definition store_ok :: "FakeStore \<Rightarrow> bool" where
  "store_ok s \<longleftrightarrow>
     projects_ok (projects s) \<and> executions_ok (projects s) (executions s) \<and>
     steps_ok (executions s) (steps s) \<and> generations_ok (steps s) (generations s) \<and>
     attempts_ok (steps s) (generations s) (attempts s) \<and>
     attempt_events_ok (attempts s) (attemptEvents s) \<and> transition_events_ok (transitionEvents s) \<and>
     transports_ok (attempts s) (transports s) \<and>
     claims_ok (projects s) (pathClaimNextID s) (pathClaims s) \<and> leases_ok (leases s) \<and>
     interactions_ok (attempts s) (interactions s) (interactionsByAttemptKey s)"

lemmas table_defs = projects_ok_def executions_ok_def steps_ok_def generations_ok_def attempts_ok_def
  attempt_events_ok_def transition_events_ok_def transports_ok_def claims_ok_def leases_ok_def
  interactions_ok_def

lemma store_ok_New: "store_ok NewFakeStore"
  by (simp add: store_ok_def NewFakeStore_def table_defs)

section \<open>Growth of a referenced table\<close>

definition grows :: "('k, 'v) gomap \<Rightarrow> ('k, 'w) gomap \<Rightarrow> bool" where
  "grows m m' \<longleftrightarrow> (\<forall>k. has_key k m \<longrightarrow> has_key k m')"

lemma growsI [simp]: "grows m (AList.update k v m)" "grows m (adjust k f m)" "grows m m"
  "grows m (map (\<lambda>(k, v). (k, g v)) m)"
  by (simp_all add: grows_def)

lemma executions_ok_mono: "grows ps ps' \<Longrightarrow> executions_ok ps es \<Longrightarrow> executions_ok ps' es"
  by (auto simp: executions_ok_def grows_def elim: rows_mono)

lemma steps_ok_mono: "grows es es' \<Longrightarrow> steps_ok es ss \<Longrightarrow> steps_ok es' ss"
  by (auto simp: steps_ok_def grows_def elim: rows_mono)

lemma generations_ok_mono: "grows ss ss' \<Longrightarrow> generations_ok ss gs \<Longrightarrow> generations_ok ss' gs"
  by (auto simp: generations_ok_def grows_def elim: rows_mono)

lemma attempts_ok_mono: "grows ss ss' \<Longrightarrow> grows gs gs' \<Longrightarrow> attempts_ok ss gs as \<Longrightarrow> attempts_ok ss' gs' as"
  by (auto simp: attempts_ok_def grows_def elim: rows_mono)

lemma attempt_events_ok_mono: "grows as as' \<Longrightarrow> attempt_events_ok as evs \<Longrightarrow> attempt_events_ok as' evs"
  by (auto simp: attempt_events_ok_def grows_def elim: rows_mono)

lemma transports_ok_mono: "grows as as' \<Longrightarrow> transports_ok as ts \<Longrightarrow> transports_ok as' ts"
  by (auto simp: transports_ok_def grows_def elim: rows_mono)

lemma claims_ok_mono: "grows ps ps' \<Longrightarrow> claims_ok ps n cs \<Longrightarrow> claims_ok ps' n cs"
  by (auto simp: claims_ok_def grows_def elim: rows_mono)

lemma interactions_ok_mono: "grows as as' \<Longrightarrow> interactions_ok as is bk \<Longrightarrow> interactions_ok as' is bk"
  by (auto simp: interactions_ok_def grows_def elim: rows_mono)

lemmas tables_mono = executions_ok_mono steps_ok_mono generations_ok_mono attempts_ok_mono
  attempt_events_ok_mono transports_ok_mono claims_ok_mono interactions_ok_mono

section \<open>Every operation keeps the invariant\<close>

lemma keeps_read [keeps]:
  "keeps P (projects_Get i)" "keeps P (executions_Get i)" "keeps P (steps_Get e t)" "keeps P (steps_List e)"
  "keeps P (attempts_Get i)" "keeps P (attempts_CountByStep e t)" "keeps P (attempts_CurrentByStep e t)"
  "keeps P (generations_Get i)" "keeps P (generations_GetByNumber e t n)" "keeps P (generations_ListByStep e t)"
  "keeps P (events_PriorOutputDelta i)" "keeps P (events_ListTransitions e t)" "keeps P (events_NextAttemptCursor i)"
  "keeps P (events_NextTransitionCursor e t)" "keeps P (events_ListAttemptEvents i c l)" "keeps P (transport_Get i)"
  "keeps P (claims_ListActive p)" "keeps P (leases_Get e t)" "keeps P (interactions_Get i)"
  by (simp_all add: keeps_def projects_Get_def executions_Get_def steps_Get_def steps_List_def attempts_Get_def
      attempts_CountByStep_def attempts_CurrentByStep_def generations_Get_def generations_GetByNumber_def
      generations_ListByStep_def events_PriorOutputDelta_def events_ListTransitions_def events_NextAttemptCursor_def
      events_NextTransitionCursor_def events_ListAttemptEvents_def transport_Get_def claims_ListActive_def
      leases_Get_def interactions_Get_def)

lemma keeps_projects_Create [keeps]: "keeps store_ok (projects_Create now i r)"
proof (rule keepsI)
  fix s assume s: "store_ok s"
  have "projects_ok (AList.update i \<lparr>pr_ID = i, pr_RootPath = r, pr_CreatedAt = rfc3339 now\<rparr> (projects s))"
    using s by (simp add: store_ok_def projects_ok_def rows_update)
  with s show "store_ok (snd (projects_Create now i r s))"
    by (auto simp: store_ok_def projects_Create_def intro: tables_mono [rotated])
qed

lemma keeps_executions_Create [keeps]: "keeps store_ok (executions_Create now e)"
proof (rule keepsI)
  fix s assume s: "store_ok s"
  show "store_ok (snd (executions_Create now e s))"
  proof (cases "has_key (ex_ProjectID e) (projects s) \<and> isValidExecutionStatus (ex_Status e) \<and>
      isValidWorkspaceMode (ex_WorkspaceMode e)")
    case True
    let ?e = "e\<lparr>ex_StartedAt := default_stamp now (ex_StartedAt e)\<rparr>"
    have "executions_ok (projects s) (AList.update (ex_ID e) ?e (executions s))"
      using s True by (simp add: store_ok_def executions_ok_def rows_update)
    with s show ?thesis
      by (auto simp: store_ok_def executions_Create_def Let_def intro: tables_mono [rotated])
  qed (use s in \<open>auto simp: executions_Create_def\<close>)
qed

lemma keeps_executions_UpdateStatus [keeps]: "keeps store_ok (executions_UpdateStatus now i st)"
proof (rule keepsI)
  fix s assume s: "store_ok s"
  show "store_ok (snd (executions_UpdateStatus now i st s))"
  proof (cases "isValidExecutionStatus st")
    case True
    then have "executions_ok (projects s) (adjust i (set_execution_status now st) (executions s))"
      using s by (auto simp: store_ok_def executions_ok_def set_execution_status_def Let_def intro!: rows_adjust)
    with s show ?thesis
      by (auto simp: store_ok_def executions_UpdateStatus_def intro: tables_mono [rotated])
  qed (use s in \<open>simp add: executions_UpdateStatus_def\<close>)
qed

lemma keeps_steps_Create [keeps]: "keeps store_ok (steps_Create st)"
proof (rule keepsI)
  fix s assume s: "store_ok s"
  show "store_ok (snd (steps_Create st s))"
  proof (cases "has_key (es_ExecutionID st) (executions s) \<and> isValidStepType (es_Type st) \<and>
      isValidStepStatus (es_Status st) \<and> isValidWorkspaceMode (es_WorkspaceMode st)")
    case True
    then have "steps_ok (executions s) (AList.update (stepKey (es_ExecutionID st) (es_StepID st)) st (steps s))"
      using s by (simp add: store_ok_def steps_ok_def rows_update)
    with s show ?thesis
      by (auto simp: store_ok_def steps_Create_def Let_def intro: tables_mono [rotated] attempts_ok_mono [rotated 2])
  qed (use s in \<open>auto simp: steps_Create_def Let_def\<close>)
qed

lemma store_ok_adjust_step:
  assumes "store_ok s"
    and "\<And>st. es_ExecutionID (f st) = es_ExecutionID st \<and> es_StepID (f st) = es_StepID st \<and> es_Type (f st) = es_Type st \<and>
      es_WorkspaceMode (f st) = es_WorkspaceMode st \<and> (isValidStepStatus (es_Status st) \<longrightarrow> isValidStepStatus (es_Status (f st)))"
  shows "store_ok (s\<lparr>steps := adjust k f (steps s)\<rparr>)"
proof -
  have "steps_ok (executions s) (adjust k f (steps s))"
    using assms by (auto simp: store_ok_def steps_ok_def intro!: rows_adjust)
  with assms(1) show ?thesis
    by (auto simp: store_ok_def intro: tables_mono [rotated] attempts_ok_mono [rotated 2])
qed

lemma keeps_steps_updates [keeps]:
  "keeps store_ok (steps_UpdateStatus e t st)" "keeps store_ok (steps_UpdateGeneration e t n)"
  "keeps store_ok (steps_SetPendingFeedback e t fb)"
  by (auto simp: keeps_def steps_UpdateStatus_def steps_UpdateGeneration_def steps_SetPendingFeedback_def Let_def
      intro!: store_ok_adjust_step)

lemma keeps_attempts_Create [keeps]: "keeps store_ok (attempts_Create now a)"
proof (rule keepsI)
  fix s assume s: "store_ok s"
  show "store_ok (snd (attempts_Create now a s))"
  proof (cases "isValidAttemptStatus (at_Status a) \<and> has_key (stepKey (at_ExecutionID a) (at_StepID a)) (steps s) \<and>
      has_key (at_GenerationID a) (generations s)")
    case True
    let ?a = "a\<lparr>at_StartedAt := default_stamp now (at_StartedAt a)\<rparr>"
    have "attempts_ok (steps s) (generations s) (AList.update (at_ID a) ?a (attempts s))"
      using s True by (simp add: store_ok_def attempts_ok_def rows_update)
    with s show ?thesis
      by (auto simp: store_ok_def attempts_Create_def Let_def intro: tables_mono [rotated])
  qed (use s in \<open>auto simp: attempts_Create_def\<close>)
qed

lemma keeps_attempts_UpdateStatus [keeps]: "keeps store_ok (attempts_UpdateStatus now i st ended trm dg)"
proof (rule keepsI)
  fix s assume s: "store_ok s"
  show "store_ok (snd (attempts_UpdateStatus now i st ended trm dg s))"
  proof (cases "isValidAttemptStatus st")
    case True
    let ?f = "\<lambda>a. a\<lparr>at_Status := st, at_EndedAt := (case ended of None \<Rightarrow> Some (rfc3339 now) | Some e \<Rightarrow> Some e),
      at_TerminationReason := trm, at_ResultDigest := dg\<rparr>"
    have "attempts_ok (steps s) (generations s) (adjust i ?f (attempts s))"
      using s True by (auto simp: store_ok_def attempts_ok_def intro!: rows_adjust)
    with s True show ?thesis
      by (auto simp: store_ok_def attempts_UpdateStatus_def intro: tables_mono [rotated])
  qed (use s in \<open>simp add: attempts_UpdateStatus_def\<close>)
qed

lemma generations_ok_new:
  assumes "generations_ok ss gs" "has_key (stepKey (ge_ExecutionID g) (ge_StepID g)) ss" "\<not> has_key (ge_ID g) gs"
    "\<not> list_ex (same_generation (ge_ExecutionID g) (ge_StepID g) (ge_Number g)) (map snd gs)"
  shows "generations_ok ss (AList.update (ge_ID g) g gs)"
proof -
  have n: "\<not> same_generation (ge_ExecutionID g) (ge_StepID g) (ge_Number g) g'" if "map_of gs k = Some g'" for k g'
    using assms(4) map_of_SomeD [OF that] by (auto simp: list_ex_iff)
  then have n': "\<not> same_generation (ge_ExecutionID g') (ge_StepID g') (ge_Number g') g" if "map_of gs k = Some g'" for k g'
    using n [OF that] by (auto simp: same_generation_def)
  show ?thesis
    using assms(1-3) n n' by (auto simp: generations_ok_def rows_update)
qed

lemma keeps_generations_Create [keeps]: "keeps store_ok (generations_Create now g)"
proof (rule keepsI)
  fix s assume s: "store_ok s"
  let ?g = "g\<lparr>ge_CreatedAt := default_stamp now (ge_CreatedAt g)\<rparr>"
  show "store_ok (snd (generations_Create now g s))"
  proof (cases "generations_Create now g s = (Inr ?g, s\<lparr>generations := AList.update (ge_ID g) ?g (generations s)\<rparr>)")
    case True
    then have "\<not> has_key (ge_ID g) (generations s)" "has_key (stepKey (ge_ExecutionID g) (ge_StepID g)) (steps s)"
      "\<not> list_ex (same_generation (ge_ExecutionID g) (ge_StepID g) (ge_Number g)) (map snd (generations s))"
      by (auto simp: generations_Create_def Let_def split: if_splits)
    then have "generations_ok (steps s) (AList.update (ge_ID g) ?g (generations s))"
      using generations_ok_new [of "steps s" "generations s" ?g] s by (simp add: store_ok_def)
    with s True show ?thesis
      by (auto simp: store_ok_def intro: attempts_ok_mono [rotated 2])
  next
    case False
    then show ?thesis using s by (auto simp: generations_Create_def Let_def split: if_splits)
  qed
qed

lemma keeps_generations_InvalidateByStep [keeps]: "keeps store_ok (generations_InvalidateByStep now e t b)"
proof (rule keepsI)
  fix s assume s: "store_ok s"
  have i: "ge_ID (invalidate now e t b g) = ge_ID g" "ge_ExecutionID (invalidate now e t b g) = ge_ExecutionID g"
    "ge_StepID (invalidate now e t b g) = ge_StepID g" "ge_Number (invalidate now e t b g) = ge_Number g" for g
    by (simp_all add: invalidate_def)
  have "generations_ok (steps s) (map (\<lambda>(k, g). (k, invalidate now e t b g)) (generations s))"
    using s unfolding store_ok_def generations_ok_def
    by (auto simp: map_of_map_snd same_generation_def i intro!: rows_map_snd)
  with s show "store_ok (snd (generations_InvalidateByStep now e t b s))"
    by (auto simp: store_ok_def generations_InvalidateByStep_def intro: attempts_ok_mono [rotated 2])
qed

lemma inner_ensure [simp]: "inner (ensure_inner k m) = inner m"
  by (auto simp: inner_def ensure_inner_def has_key_def fun_eq_iff)

lemma rows_ensure_inner: "rows P m \<Longrightarrow> (\<not> has_key k m \<Longrightarrow> P k []) \<Longrightarrow> rows P (ensure_inner k m)"
  by (auto simp: ensure_inner_def rows_update)

lemma gomap_ensure_inner [simp]: "gomap m \<Longrightarrow> gomap (ensure_inner k m)"
  by (simp add: ensure_inner_def)

lemma keeps_events_CreateAttemptEvent [keeps]: "keeps store_ok (events_CreateAttemptEvent now e)"
proof (rule keepsI)
  fix s assume s: "store_ok s"
  show "store_ok (snd (events_CreateAttemptEvent now e s))"
  proof (cases "has_key (ae_AttemptID e) (attempts s)")
    case True
    let ?e = "e\<lparr>ae_OccurredAt := default_stamp now (ae_OccurredAt e)\<rparr>"
    have a: "attempt_events_ok (attempts s) (ensure_inner (ae_AttemptID e) (attemptEvents s))"
      using s True by (auto simp: store_ok_def attempt_events_ok_def intro!: rows_ensure_inner)
    then have "attempt_events_ok (attempts s) (adjust (ae_AttemptID e) (AList.update (ae_Cursor e) ?e)
        (ensure_inner (ae_AttemptID e) (attemptEvents s)))"
      by (auto simp: attempt_events_ok_def intro!: rows_adjust rows_update)
    with s a True show ?thesis by (auto simp: store_ok_def events_CreateAttemptEvent_def Let_def)
  qed (use s in \<open>simp add: events_CreateAttemptEvent_def\<close>)
qed

lemma keeps_events_CreateTransition [keeps]: "keeps store_ok (events_CreateTransition now e)"
proof (rule keepsI)
  fix s assume s: "store_ok s"
  let ?k = "stepKey (te_ExecutionID e) (te_StepID e)"
  let ?e = "e\<lparr>te_OccurredAt := default_stamp now (te_OccurredAt e)\<rparr>"
  have a: "transition_events_ok (ensure_inner ?k (transitionEvents s))"
    using s by (auto simp: store_ok_def transition_events_ok_def intro!: rows_ensure_inner)
  then have "transition_events_ok (adjust ?k (AList.update (te_Cursor e) ?e) (ensure_inner ?k (transitionEvents s)))"
    by (auto simp: transition_events_ok_def intro!: rows_adjust rows_update)
  with s a show "store_ok (snd (events_CreateTransition now e s))"
    by (auto simp: store_ok_def events_CreateTransition_def Let_def)
qed

lemma keeps_transport_Put [keeps]: "keeps store_ok (transport_Put t)"
  by (auto simp: keeps_def transport_Put_def Let_def store_ok_def transports_ok_def intro!: rows_update)

lemma keeps_leases [keeps]:
  "keeps store_ok (leases_Acquire now e t h)" "keeps store_ok (leases_Renew now e t h n)"
  "keeps store_ok (leases_Release now e t h n)"
  by (auto simp: keeps_def leases_Acquire_def leases_Renew_def leases_Release_def Let_def store_ok_def leases_ok_def
      intro!: rows_update rows_adjust split: option.splits dest: rowsD)

lemma conflicts_with_sym: "conflicts_with c c' \<longleftrightarrow> conflicts_with c' c"
  by (auto simp: conflicts_with_def Overlaps_def ShouldBlock_def Let_def)

lemma keeps_claims_Acquire [keeps]: "keeps store_ok (claims_Acquire now c)"
proof (rule keepsI)
  fix s assume s: "store_ok s"
  let ?n = "pathClaimNextID s + 1"
  let ?c = "c\<lparr>pc_ID := ?n, pc_AcquiredAt := rfc3339 now, pc_ReleasedAt := None\<rparr>"
  have ok: "claims_ok (projects s) (pathClaimNextID s) (pathClaims s)" using s by (simp add: store_ok_def)
  show "store_ok (snd (claims_Acquire now c s))"
  proof (cases "has_key (pc_ProjectID c) (projects s) \<and> find (conflicts_with c) (active_claims (pc_ProjectID c) s) = None")
    case True
    have free: "\<not> conflicts_with ?c c'" if "map_of (pathClaims s) k = Some c'" "pc_ProjectID c' = pc_ProjectID c"
      "pc_ReleasedAt c' = None" for k c'
    proof -
      have "c' \<in> set (active_claims (pc_ProjectID c) s)"
        using map_of_SomeD [OF that(1)] that(2,3) by (force simp: active_claims_def)
      then have "\<not> conflicts_with c c'" using True find_NoneD by fast
      then show ?thesis by (simp add: conflicts_with_def)
    qed
    have "claims_ok (projects s) ?n (AList.update ?n ?c (pathClaims s))"
      unfolding claims_ok_def
    proof (intro conjI allI impI)
      show "gomap (AList.update ?n ?c (pathClaims s))" using ok by (simp add: claims_ok_def)
      show "rows (\<lambda>k c. pc_ID c = k \<and> k \<le> ?n \<and> has_key (pc_ProjectID c) (projects s)) (AList.update ?n ?c (pathClaims s))"
        using ok True by (auto simp: claims_ok_def intro!: rows_update elim: rows_mono)
    next
      fix k d k' d'
      assume "map_of (AList.update ?n ?c (pathClaims s)) k = Some d" "map_of (AList.update ?n ?c (pathClaims s)) k' = Some d'"
        "k \<noteq> k'" "pc_ProjectID d = pc_ProjectID d'" "pc_ReleasedAt d = None" "pc_ReleasedAt d' = None"
      then show "\<not> conflicts_with d d'"
        using ok free conflicts_with_sym by (auto simp: claims_ok_def split: if_splits)
    qed
    with s True show ?thesis by (auto simp: store_ok_def claims_Acquire_def Let_def)
  next
    case False
    with s show ?thesis by (auto simp: claims_Acquire_def split: option.splits)
  qed
qed

lemma keeps_claims_Release [keeps]: "keeps store_ok (claims_Release now p l e t)"
proof (rule keepsI)
  fix s assume s: "store_ok s"
  have ok: "claims_ok (projects s) (pathClaimNextID s) (pathClaims s)" using s by (simp add: store_ok_def)
  have "claims_ok (projects s) (pathClaimNextID s)
      (adjust k (\<lambda>pc. pc\<lparr>pc_ReleasedAt := Some (rfc3339 now)\<rparr>) (pathClaims s))" for k
    using ok unfolding claims_ok_def
    by (auto simp: map_of_adjust intro!: rows_adjust split: if_splits)
  with s show "store_ok (snd (claims_Release now p l e t s))"
    by (auto simp: store_ok_def claims_Release_def split: option.splits)
qed

lemma keeps_interactions_Create [keeps]: "keeps store_ok (interactions_Create i)"
proof (rule keepsI)
  fix s assume s: "store_ok s"
  have key: "interaction_key i = ia_AttemptID i @ [CHR 0x00] @ ia_IdempotencyKey i"
    by (simp add: interaction_key_def)
  let ?is = "AList.update (ia_ID i) i (interactions s)"
  let ?bk = "AList.update (interaction_key i) (ia_ID i) (interactionsByAttemptKey s)"
  have ok: "interactions_ok (attempts s) (interactions s) (interactionsByAttemptKey s)"
    using s by (simp add: store_ok_def)
  show "store_ok (snd (interactions_Create i s))"
  proof (cases "interactions_Create i s = (Inr (), s\<lparr>interactions := ?is, interactionsByAttemptKey := ?bk\<rparr>)")
    case True
    then have c: "\<not> has_key (ia_ID i) (interactions s)" "has_key (ia_AttemptID i) (attempts s)"
      "isValidInteractionType (ia_Type i)" "isValidInteractionStatus (ia_Status i)"
      "\<not> has_key (interaction_key i) (interactionsByAttemptKey s)"
      by (auto simp: interactions_Create_def Let_def key split: if_splits)
    have "interactions_ok (attempts s) ?is ?bk"
      unfolding interactions_ok_def
    proof (intro conjI)
      show "rows (\<lambda>k i. ia_ID i = k \<and> has_key (ia_AttemptID i) (attempts s) \<and> isValidInteractionType (ia_Type i) \<and>
          isValidInteractionStatus (ia_Status i) \<and> map_of ?bk (interaction_key i) = Some k) ?is"
      proof (rule rows_update)
        show "rows (\<lambda>k i. ia_ID i = k \<and> has_key (ia_AttemptID i) (attempts s) \<and> isValidInteractionType (ia_Type i) \<and>
          isValidInteractionStatus (ia_Status i) \<and> map_of ?bk (interaction_key i) = Some k) (interactions s)"
          using ok c(5) by (auto simp: interactions_ok_def has_key_def elim!: rows_mono)
      qed (use c in simp)
      have "rows (\<lambda>key k. \<exists>i. map_of ?is k = Some i \<and> interaction_key i = key) (interactionsByAttemptKey s)"
        using ok c(1) by (auto simp: interactions_ok_def has_key_def elim!: rows_mono)
      then show "rows (\<lambda>key k. \<exists>i. map_of ?is k = Some i \<and> interaction_key i = key) ?bk"
        by (rule rows_update) simp
    qed (use ok in \<open>auto simp: interactions_ok_def\<close>)
    with s True show ?thesis by (simp add: store_ok_def)
  next
    case False
    with s show ?thesis by (auto simp: interactions_Create_def Let_def key split: if_splits)
  qed
qed

lemma keeps_interactions_Resolve [keeps]: "keeps store_ok (interactions_Resolve now i key d)"
proof (rule keepsI)
  fix s assume s: "store_ok s"
  have ok: "interactions_ok (attempts s) (interactions s) (interactionsByAttemptKey s)"
    using s by (simp add: store_ok_def)
  show "store_ok (snd (interactions_Resolve now i key d s))"
  proof (cases "map_of (interactions s) i")
    case None
    with s show ?thesis by (simp add: interactions_Resolve_def)
  next
    case (Some it)
    let ?it = "it\<lparr>ia_Status := ''resolved'', ia_Decision := Some d, ia_ResolvedAt := Some (rfc3339 now)\<rparr>"
    have k: "interaction_key ?it = interaction_key it" by (simp add: interaction_key_def)
    have "interactions_ok (attempts s) (adjust i (\<lambda>_. ?it) (interactions s)) (interactionsByAttemptKey s)"
      unfolding interactions_ok_def
    proof (intro conjI)
      show "rows (\<lambda>k i. ia_ID i = k \<and> has_key (ia_AttemptID i) (attempts s) \<and> isValidInteractionType (ia_Type i) \<and>
          isValidInteractionStatus (ia_Status i) \<and> map_of (interactionsByAttemptKey s) (interaction_key i) = Some k)
          (adjust i (\<lambda>_. ?it) (interactions s))"
        using ok Some k by (auto simp: interactions_ok_def isValidInteractionStatus_def intro!: rows_adjust dest: rowsD)
      show "rows (\<lambda>key k. \<exists>i'. map_of (adjust i (\<lambda>_. ?it) (interactions s)) k = Some i' \<and> interaction_key i' = key)
          (interactionsByAttemptKey s)"
        using ok Some k by (auto simp: interactions_ok_def map_of_adjust elim!: rows_mono)
    qed (use ok in \<open>auto simp: interactions_ok_def\<close>)
    with s Some show ?thesis by (auto simp: interactions_Resolve_def Let_def store_ok_def)
  qed
qed

lemma store_ok_inTx [simp]: "store_ok (s\<lparr>inTx := b\<rparr>) = store_ok s"
  by (simp add: store_ok_def)

lemma keeps_WithTx [keeps]: "keeps store_ok fn \<Longrightarrow> keeps store_ok (WithTx fn)"
  by (auto simp: keeps_def WithTx_def clone_def split: prod.splits sum.splits) (metis snd_conv store_ok_inTx)

section \<open>Reachable states\<close>

text \<open>A step of the store is one call of a mutating operation of a repository, with any arguments
  and at any time.\<close>

inductive store_step :: "FakeStore \<Rightarrow> FakeStore \<Rightarrow> bool" where
  project: "store_step s (snd (projects_Create now i r s))"
| execution: "store_step s (snd (executions_Create now e s))"
| execution_status: "store_step s (snd (executions_UpdateStatus now i st s))"
| step: "store_step s (snd (steps_Create est s))"
| step_status: "store_step s (snd (steps_UpdateStatus e t st s))"
| step_generation: "store_step s (snd (steps_UpdateGeneration e t n s))"
| step_feedback: "store_step s (snd (steps_SetPendingFeedback e t fb s))"
| attempt: "store_step s (snd (attempts_Create now a s))"
| attempt_status: "store_step s (snd (attempts_UpdateStatus now i st ended trm dg s))"
| generation: "store_step s (snd (generations_Create now g s))"
| generation_invalidate: "store_step s (snd (generations_InvalidateByStep now e t b s))"
| attempt_event: "store_step s (snd (events_CreateAttemptEvent now ev s))"
| transition: "store_step s (snd (events_CreateTransition now tev s))"
| transport: "store_step s (snd (transport_Put tp s))"
| claim: "store_step s (snd (claims_Acquire now c s))"
| claim_release: "store_step s (snd (claims_Release now p l e t s))"
| lease: "store_step s (snd (leases_Acquire now e t h s))"
| lease_renew: "store_step s (snd (leases_Renew now e t h n s))"
| lease_release: "store_step s (snd (leases_Release now e t h n s))"
| interaction: "store_step s (snd (interactions_Create ia s))"
| interaction_resolve: "store_step s (snd (interactions_Resolve now i key d s))"

inductive store_reachable :: "FakeStore \<Rightarrow> bool" where
  new: "store_reachable NewFakeStore"
| step: "store_reachable s \<Longrightarrow> store_step s s' \<Longrightarrow> store_reachable s'"

lemma store_step_ok: "store_step s s' \<Longrightarrow> store_ok s \<Longrightarrow> store_ok s'"
  by (induction rule: store_step.induct) (auto intro: keeps keepsD)

lemma store_reachable_ok: "store_reachable s \<Longrightarrow> store_ok s"
  by (induction rule: store_reachable.induct) (auto simp: store_ok_New intro: store_step_ok)

end
