(* ===== verification/Store_Laws.thy ===== *)
theory Store_Laws
  imports Store_Invariant
begin

text \<open>
  The contracts of the store that its clients rely on, as locales, and their interpretation on
  the repositories of \<^verbatim>\<open>fake.go\<close>: \<open>row_repository\<close> (a created row is read
  back, other rows stay, a second creation of the same key fails and changes nothing) and
  \<open>fencing\<close> (fencing tokens only grow, so a token that has been superseded stays
  superseded). The properties are integrity of the reachable states, mutual exclusion of path
  claims, atomicity of transactions, fencing, first-decision-wins for interactions, and the
  independence of the loops over maps from the iteration order.
\<close>

section \<open>Rows\<close>

locale row_repository =
  fixes create :: "'v \<Rightarrow> ('s, 'r) op"
    and get :: "'k \<Rightarrow> ('s, 'v) op"
    and key :: "'v \<Rightarrow> 'k"
    and stored :: "'v \<Rightarrow> 'v"
  assumes get_pure: "snd (get k s) = s"
    and create_get: "create v s = (Inr r, s') \<Longrightarrow> fst (get (key v) s') = Inr (stored v)"
    and create_other: "k \<noteq> key v \<Longrightarrow> fst (get k (snd (create v s))) = fst (get k s)"
    and create_error: "create v s = (Inl e, s') \<Longrightarrow> s' = s"
    and create_dup: "fst (get (key v) s) = Inr w \<Longrightarrow> \<exists>e. create v s = (Inl e, s) \<and> errors_Is e ErrUniqueViolation"
begin

lemma create_keeps: "fst (get k s) = Inr w \<Longrightarrow> fst (get k (snd (create v s))) = Inr w"
proof (cases "k = key v")
  case True
  assume "fst (get k s) = Inr w"
  with True create_dup [of v s w] show ?thesis by auto
qed (simp add: create_other)

lemma create_twice:
  assumes "create v s = (Inr r, s')" "key v' = key v"
  shows "\<exists>e. create v' s' = (Inl e, s') \<and> errors_Is e ErrUniqueViolation"
  using create_dup [of v' s'] create_get [OF assms(1)] assms(2) by simp

lemma read_after_creates:
  assumes "create v s = (Inr r, s')"
  shows "fst (get (key v) (fold (\<lambda>v s. snd (create v s)) vs s')) = Inr (stored v)"
proof -
  have "fst (get k s) = Inr w \<Longrightarrow> fst (get k (fold (\<lambda>v s. snd (create v s)) vs s)) = Inr w" for k w s
    by (induction vs arbitrary: s) (simp_all add: create_keeps)
  then show ?thesis using create_get [OF assms] by simp
qed

end

lemma lookup_row_simps:
  "lookup_row m k = Inr v \<longleftrightarrow> map_of m k = Some v"
  "map_of m k = Some v \<Longrightarrow> lookup_row m k = Inr v"
  "k \<noteq> k' \<Longrightarrow> lookup_row (AList.update k' v m) k = lookup_row m k"
  "lookup_row (AList.update k v m) k = Inr v"
  by (auto simp: lookup_row_def split: option.splits)

interpretation project_rows: row_repository
  "\<lambda>p. projects_Create now (pr_ID p) (pr_RootPath p)" projects_Get pr_ID "\<lambda>p. p\<lparr>pr_CreatedAt := rfc3339 now\<rparr>" for now
  by unfold_locales
     (auto simp: projects_Create_def projects_Get_def lookup_row_simps has_key_def split: if_splits)

interpretation execution_rows: row_repository
  "executions_Create now" executions_Get ex_ID
  "\<lambda>e. e\<lparr>ex_StartedAt := default_stamp now (ex_StartedAt e)\<rparr>" for now
  by unfold_locales
     (auto simp: executions_Create_def executions_Get_def lookup_row_simps has_key_def Let_def split: if_splits)

interpretation step_rows: row_repository
  steps_Create "\<lambda>k. op_read (\<lambda>s. lookup_row (steps s) k)" "\<lambda>st. stepKey (es_ExecutionID st) (es_StepID st)" "\<lambda>st. st"
  by unfold_locales
     (auto simp: steps_Create_def steps_Get_def lookup_row_simps has_key_def Let_def split: if_splits)

interpretation attempt_rows: row_repository
  "attempts_Create now" attempts_Get at_ID "\<lambda>a. a\<lparr>at_StartedAt := default_stamp now (at_StartedAt a)\<rparr>" for now
  by unfold_locales
     (auto simp: attempts_Create_def attempts_Get_def lookup_row_simps has_key_def Let_def split: if_splits)

interpretation generation_rows: row_repository
  "generations_Create now" generations_Get ge_ID "\<lambda>g. g\<lparr>ge_CreatedAt := default_stamp now (ge_CreatedAt g)\<rparr>" for now
  by unfold_locales
     (auto simp: generations_Create_def generations_Get_def lookup_row_simps has_key_def Let_def split: if_splits)

interpretation interaction_rows: row_repository
  interactions_Create interactions_Get ia_ID "\<lambda>i. i"
  by unfold_locales
     (auto simp: interactions_Create_def interactions_Get_def lookup_row_simps has_key_def Let_def split: if_splits)

section \<open>Fencing tokens\<close>

locale fencing =
  fixes evolves :: "'s \<Rightarrow> 's \<Rightarrow> bool"
    and token :: "'k \<Rightarrow> 's \<Rightarrow> int"
    and acquire :: "'k \<Rightarrow> 'h \<Rightarrow> 's \<Rightarrow> (goerr + int) \<times> 's"
    and held :: "'k \<Rightarrow> 'h \<Rightarrow> int \<Rightarrow> 's \<Rightarrow> bool"
  assumes token_mono: "evolves s s' \<Longrightarrow> token k s \<le> token k s'"
    and acquire_token: "acquire k h s = (Inr n, s') \<Longrightarrow> n = token k s + 1 \<and> token k s' = n"
    and held_token: "held k h n s \<Longrightarrow> token k s = n"
begin

lemma token_mono_rtranclp: "evolves\<^sup>*\<^sup>* s s' \<Longrightarrow> token k s \<le> token k s'"
  by (induction rule: rtranclp_induct) (auto dest: token_mono intro: order_trans)

text \<open>A token held before a successful acquisition is never accepted after it.\<close>

lemma superseded:
  assumes "held k h n s" "evolves\<^sup>*\<^sup>* s s1" "acquire k h' s1 = (Inr m, s2)" "evolves\<^sup>*\<^sup>* s2 s3"
  shows "n < m \<and> \<not> held k h'' n s3"
proof -
  have "n < m"
    using held_token [OF assms(1)] token_mono_rtranclp [OF assms(2), of k] acquire_token [OF assms(3)] by simp
  moreover have "m \<le> token k s3"
    using acquire_token [OF assms(3)] token_mono_rtranclp [OF assms(4), of k] by simp
  ultimately show ?thesis using held_token by fastforce
qed

end

text \<open>The fencing token of a step: 0 before the first acquisition.\<close>

definition lease_token :: "string \<times> string \<Rightarrow> FakeStore \<Rightarrow> int" where
  "lease_token k s = (case map_of (leases s) (stepKey (fst k) (snd k)) of None \<Rightarrow> 0 | Some l \<Rightarrow> le_FencingToken l)"

text \<open>Only the lease operations touch the leases.\<close>

lemma leases_frame:
  "leases (snd (projects_Create now i r s)) = leases s" "leases (snd (executions_Create now e s)) = leases s"
  "leases (snd (executions_UpdateStatus now i st s)) = leases s" "leases (snd (steps_Create est s)) = leases s"
  "leases (snd (steps_UpdateStatus ei t st s)) = leases s" "leases (snd (steps_UpdateGeneration ei t n s)) = leases s"
  "leases (snd (steps_SetPendingFeedback ei t fb s)) = leases s" "leases (snd (attempts_Create now a s)) = leases s"
  "leases (snd (attempts_UpdateStatus now i st ended trm dg s)) = leases s"
  "leases (snd (generations_Create now g s)) = leases s"
  "leases (snd (generations_InvalidateByStep now ei t b s)) = leases s"
  "leases (snd (events_CreateAttemptEvent now ev s)) = leases s"
  "leases (snd (events_CreateTransition now tev s)) = leases s" "leases (snd (transport_Put tp s)) = leases s"
  "leases (snd (claims_Acquire now c s)) = leases s" "leases (snd (claims_Release now p l ei t s)) = leases s"
  "leases (snd (interactions_Create ia s)) = leases s" "leases (snd (interactions_Resolve now i key d s)) = leases s"
  by (simp_all add: projects_Create_def executions_Create_def executions_UpdateStatus_def steps_Create_def
      steps_UpdateStatus_def steps_UpdateGeneration_def steps_SetPendingFeedback_def attempts_Create_def
      attempts_UpdateStatus_def generations_Create_def generations_InvalidateByStep_def
      events_CreateAttemptEvent_def events_CreateTransition_def transport_Put_def claims_Acquire_def
      claims_Release_def interactions_Create_def interactions_Resolve_def Let_def split: option.splits)

text \<open>Every step of the store from a well-formed state, as the clients see it.\<close>

definition store_evolves :: "FakeStore \<Rightarrow> FakeStore \<Rightarrow> bool" where
  "store_evolves s s' \<longleftrightarrow> store_ok s \<and> store_step s s'"

lemma lease_token_mono: "store_evolves s s' \<Longrightarrow> lease_token k s \<le> lease_token k s'"
proof -
  assume "store_evolves s s'"
  then have ok: "leases_ok (leases s)" and "store_step s s'" by (auto simp: store_evolves_def store_ok_def)
  have pos: "0 \<le> le_FencingToken l" if "map_of (leases s) q = Some l" for q l
    using ok that by (fastforce simp: leases_ok_def dest: rowsD)
  from \<open>store_step s s'\<close> show ?thesis
  proof (cases rule: store_step.cases)
    case (lease now e t h)
    then show ?thesis
      using pos by (auto simp: lease_token_def leases_Acquire_def Let_def map_of_adjust split: option.splits)
  next
    case (lease_renew now e t h n)
    then show ?thesis
      by (auto simp: lease_token_def leases_Renew_def map_of_adjust split: option.splits)
  next
    case (lease_release now e t h n)
    then show ?thesis
      by (auto simp: lease_token_def leases_Release_def map_of_adjust split: option.splits)
  qed (simp_all add: lease_token_def leases_frame)
qed

interpretation lease_fencing: fencing store_evolves lease_token
  "\<lambda>k h. leases_Acquire now (fst k) (snd k) h" "\<lambda>k h n s. held_lease s (fst k) (snd k) h n" for now
proof unfold_locales
  show "store_evolves s s' \<Longrightarrow> lease_token k s \<le> lease_token k s'" for s s' k by (rule lease_token_mono)
  show "leases_Acquire now (fst k) (snd k) h s = (Inr n, s') \<Longrightarrow> n = lease_token k s + 1 \<and> lease_token k s' = n"
    for k h s n s'
    by (auto simp: leases_Acquire_def lease_token_def Let_def split: option.splits if_splits)
  show "held_lease s (fst k) (snd k) h n \<Longrightarrow> lease_token k s = n" for k h n s
    by (auto simp: held_lease_def lease_token_def split: option.splits)
qed

section \<open>Loops over maps\<close>

lemma exchange_spec:
  "exchange key x ys = (m, r) \<Longrightarrow> mset (m # r) = mset (x # ys) \<and> (\<forall>y \<in> set r. key m \<le> key y)"
proof (induction ys arbitrary: x m r)
  case (Cons y ys)
  obtain m' r' where e: "exchange key (if key y < key x then y else x) ys = (m', r')"
    by (cases "exchange key (if key y < key x then y else x) ys")
  note IH = Cons.IH [OF e]
  have "key m' \<le> key (if key y < key x then y else x)"
  proof -
    have "(if key y < key x then y else x) \<in> set (m' # r')"
      using IH by (metis list.set_intros(1) set_mset_mset)
    then show ?thesis using IH by auto
  qed
  with Cons.prems e IH show ?case by (auto split: if_splits)
qed auto

lemma exchange_sort_spec: "mset (exchange_sort key xs) = mset xs \<and> sorted (map key (exchange_sort key xs))"
proof (induction key xs rule: exchange_sort.induct)
  case (2 key x xs)
  obtain m r where e: "exchange key x xs = (m, r)" by (cases "exchange key x xs")
  have "mset (exchange_sort key r) = mset r" "sorted (map key (exchange_sort key r))"
    using "2.IH" [OF e [symmetric] refl] by auto
  moreover from this have "set (exchange_sort key r) = set r" by (metis set_mset_mset)
  ultimately show ?case using exchange_spec [OF e] e by auto
qed simp

text \<open>With different keys the nested loop sorts.\<close>

lemma exchange_sort_eq: "distinct (map key xs) \<Longrightarrow> exchange_sort key xs = sort_key key xs"
proof -
  assume "distinct (map key xs)"
  then have "sort_key key xs = sort_key key (exchange_sort key xs)"
    using exchange_sort_spec [of key xs] by (intro sort_key_unique) simp_all
  also have "\<dots> = exchange_sort key xs"
    using exchange_sort_spec [of key xs] by (simp add: sort_key_id_if_sorted)
  finally show ?thesis ..
qed

lemma latest_attempt_snoc:
  "latest_attempt (as @ [a]) =
     (case latest_attempt as of None \<Rightarrow> Some a | Some c \<Rightarrow> if later a c then Some a else Some c)"
  by (simp add: latest_attempt_def split: option.splits)

lemma later_order: "\<not> later x x" "later x y \<Longrightarrow> \<not> later z y \<Longrightarrow> \<not> later z x"
  by (auto simp: later_def)

lemma latest_attempt_spec:
  "(latest_attempt as = None \<longleftrightarrow> as = []) \<and>
   (\<forall>m. latest_attempt as = Some m \<longrightarrow> m \<in> set as \<and> (\<forall>a \<in> set as. \<not> later a m))"
proof (induction as rule: rev_induct)
  case (snoc a as)
  show ?case
  proof (cases "latest_attempt as")
    case None
    then have "as = []" using snoc by simp
    then show ?thesis by (simp add: latest_attempt_def later_order(1))
  next
    case (Some c)
    with snoc have c: "c \<in> set as" "\<forall>b \<in> set as. \<not> later b c" by auto
    show ?thesis
    proof (cases "later a c")
      case True
      have "\<not> later b a" if "b \<in> set as" for b using c(2) that True later_order(2) by blast
      with True Some show ?thesis by (simp add: latest_attempt_snoc later_order(1))
    next
      case False
      with c Some show ?thesis by (simp add: latest_attempt_snoc)
    qed
  qed
qed (simp add: latest_attempt_def)

lemma latest_attempt_unique:
  assumes "mset as = mset bs" "distinct (map at_ID as)"
  shows "latest_attempt as = latest_attempt bs"
proof -
  have s: "set as = set bs" using assms(1) by (metis set_mset_mset)
  have inj: "a = b" if "a \<in> set as" "b \<in> set as" "at_ID a = at_ID b" for a b
    using assms(2) that by (meson distinct_map inj_onD)
  show ?thesis
  proof (cases "latest_attempt as")
    case None
    then have "as = []" using latest_attempt_spec by blast
    then show ?thesis using assms(1) None by simp
  next
    case (Some m)
    then have m: "m \<in> set as" "\<forall>a \<in> set as. \<not> later a m" using latest_attempt_spec by blast+
    then have "bs \<noteq> []" using s by auto
    then obtain m' where m': "latest_attempt bs = Some m'"
      using latest_attempt_spec by (metis not_None_eq)
    then have "m' \<in> set as" "\<not> later m m'" using latest_attempt_spec s m(1) by blast+
    with m have "at_ID m = at_ID m'" by (auto simp: later_def)
    with inj m \<open>m' \<in> set as\<close> m' Some show ?thesis by simp
  qed
qed

lemma next_cursor_eq: "next_cursor m = Max (insert (-1) (set (map fst m))) + 1"
proof -
  have "(\<lambda>cur mx. if cur > mx then cur else mx) = (max :: int \<Rightarrow> int \<Rightarrow> int)"
    by (auto simp: fun_eq_iff max_def)
  moreover have "fold max (map fst m) (- 1) = Max (set (- 1 # map fst m))"
    by (simp only: Max.set_eq_fold)
  ultimately show ?thesis by (simp add: next_cursor_def)
qed

lemma next_cursor_fresh: "has_key c m \<Longrightarrow> c < next_cursor m"
proof -
  assume "has_key c m"
  then have "c \<in> set (map fst m)" by (auto simp: has_key_def) (metis fst_conv image_eqI map_of_SomeD)
  then have "c \<le> Max (insert (-1) (set (map fst m)))" by simp
  then show ?thesis by (simp add: next_cursor_eq)
qed

lemma exchange_sort_unique:
  assumes "mset xs = mset ys" "distinct (map key xs)"
  shows "exchange_sort key xs = exchange_sort key ys"
proof -
  have "mset (map key xs) = mset (map key ys)" using assms(1) by simp
  then have "distinct (map key ys)" using assms(2) mset_eq_imp_distinct_iff by blast
  then show ?thesis using sort_key_unique [OF assms] by (simp add: exchange_sort_eq assms(2))
qed

lemma transitions_listed:
  fixes k :: string
  assumes "transition_events_ok evs"
  defines "l \<equiv> exchange_sort te_Cursor (map snd (inner evs k))"
  shows "distinct (map te_Cursor (map snd (inner evs k)))" "sorted (map te_Cursor l)" "distinct (map te_Cursor l)"
    "\<forall>ev \<in> set l. te_Cursor ev < next_cursor (inner evs k)"
proof -
  have g: "gomap (inner evs k)" "rows (\<lambda>c ev. te_Cursor ev = c) (inner evs k)"
    using assms(1) by (auto simp: transition_events_ok_def inner_def split: option.splits dest: rowsD elim: rows_mono)
  then have cs: "map te_Cursor (map snd (inner evs k)) = map fst (inner evs k)"
    by (auto simp: gomap_map_of_iff dest: rowsD)
  show d: "distinct (map te_Cursor (map snd (inner evs k)))" unfolding cs using g(1) by (simp add: gomap_def)
  have l: "mset l = mset (map snd (inner evs k))" "sorted (map te_Cursor l)"
    unfolding l_def using exchange_sort_spec by blast+
  then show "sorted (map te_Cursor l)" by simp
  have "mset (map te_Cursor l) = mset (map te_Cursor (map snd (inner evs k)))" using l(1) by (metis mset_map)
  then show "distinct (map te_Cursor l)" using d mset_eq_imp_distinct_iff by blast
  show "\<forall>ev \<in> set l. te_Cursor ev < next_cursor (inner evs k)"
  proof
    fix ev assume "ev \<in> set l"
    then have "ev \<in> set (map snd (inner evs k))" using l(1) by (metis set_mset_mset)
    then have "te_Cursor ev \<in> set (map fst (inner evs k))" using cs by (metis image_eqI list.set_map)
    then show "te_Cursor ev < next_cursor (inner evs k)"
      by (intro next_cursor_fresh) (auto simp: has_key_def map_of_eq_None_iff image_iff)
  qed
qed

lemma step_attempts_order:
  assumes "store_ok s" "mset (attempts s') = mset (attempts s)"
  shows "latest_attempt (filter P (map snd (attempts s'))) = latest_attempt (filter P (map snd (attempts s)))"
    "length (filter P (map snd (attempts s'))) = length (filter P (map snd (attempts s)))"
proof -
  have a: "attempts_ok (steps s) (generations s) (attempts s)" using assms(1) by (simp add: store_ok_def)
  have f: "mset (filter P (map snd (attempts s'))) = mset (filter P (map snd (attempts s)))"
    by (simp add: assms(2) mset_filter)
  have dk: "map at_ID (map snd (attempts s)) = map fst (attempts s)"
    using a by (auto simp: attempts_ok_def gomap_map_of_iff dest!: rowsD)
  have "distinct (map at_ID (map snd (attempts s)))" unfolding dk using a by (simp add: attempts_ok_def gomap_def)
  then have "distinct (map at_ID (filter P (map snd (attempts s))))" by (rule distinct_map_filter)
  then show "latest_attempt (filter P (map snd (attempts s'))) = latest_attempt (filter P (map snd (attempts s)))"
    using latest_attempt_unique [OF f [symmetric]] by simp
  show "length (filter P (map snd (attempts s'))) = length (filter P (map snd (attempts s)))"
    using f by (rule mset_eq_length)
qed

section \<open>Properties\<close>

text \<open>C35. Integrity of the store: in every state that the operations reach, the rows of all eleven tables are filed under
  their own keys and refer to rows that exist. Executions and claims belong to a project, steps to an
  execution, generations and attempts to a step, attempts to a generation, attempt events, transports and
  interactions to an attempt; statuses, types and modes are valid; generation numbers are
  unique per step, idempotency keys per attempt, fencing tokens positive. The store does not check to which step a transition
  event or a lease belongs.\<close>

theorem store_integrity:
  assumes "store_reachable s"
  shows "rows (\<lambda>k p. pr_ID p = k) (projects s) \<and>
    rows (\<lambda>k e. ex_ID e = k \<and> has_key (ex_ProjectID e) (projects s) \<and> isValidExecutionStatus (ex_Status e) \<and>
       isValidWorkspaceMode (ex_WorkspaceMode e)) (executions s) \<and>
    rows (\<lambda>k st. k = stepKey (es_ExecutionID st) (es_StepID st) \<and> has_key (es_ExecutionID st) (executions s) \<and>
       isValidStepType (es_Type st) \<and> isValidStepStatus (es_Status st) \<and> isValidWorkspaceMode (es_WorkspaceMode st)) (steps s) \<and>
    rows (\<lambda>k g. ge_ID g = k \<and> has_key (stepKey (ge_ExecutionID g) (ge_StepID g)) (steps s)) (generations s) \<and>
    (\<forall>k g k' g'. map_of (generations s) k = Some g \<longrightarrow> map_of (generations s) k' = Some g' \<longrightarrow>
       ge_ExecutionID g = ge_ExecutionID g' \<and> ge_StepID g = ge_StepID g' \<and> ge_Number g = ge_Number g' \<longrightarrow> k = k') \<and>
    rows (\<lambda>k a. at_ID a = k \<and> isValidAttemptStatus (at_Status a) \<and>
       has_key (stepKey (at_ExecutionID a) (at_StepID a)) (steps s) \<and> has_key (at_GenerationID a) (generations s))
       (attempts s) \<and>
    rows (\<lambda>k m. has_key k (attempts s) \<and> rows (\<lambda>c e. ae_Cursor e = c \<and> ae_AttemptID e = k) m) (attemptEvents s) \<and>
    rows (\<lambda>k m. rows (\<lambda>c e. te_Cursor e = c \<and> stepKey (te_ExecutionID e) (te_StepID e) = k) m) (transitionEvents s) \<and>
    rows (\<lambda>k t. tp_AttemptID t = k \<and> has_key k (attempts s) \<and> tp_Extra t \<noteq> '''') (transports s) \<and>
    rows (\<lambda>k c. pc_ID c = k \<and> k \<le> pathClaimNextID s \<and> has_key (pc_ProjectID c) (projects s)) (pathClaims s) \<and>
    rows (\<lambda>k l. k = stepKey (le_ExecutionID l) (le_StepID l) \<and> 1 \<le> le_FencingToken l) (leases s) \<and>
    rows (\<lambda>k i. ia_ID i = k \<and> has_key (ia_AttemptID i) (attempts s) \<and> isValidInteractionType (ia_Type i) \<and>
       isValidInteractionStatus (ia_Status i)) (interactions s) \<and>
    (\<forall>k i k' i'. map_of (interactions s) k = Some i \<longrightarrow> map_of (interactions s) k' = Some i' \<longrightarrow>
       ia_AttemptID i = ia_AttemptID i' \<and> ia_IdempotencyKey i = ia_IdempotencyKey i' \<longrightarrow> k = k')"
proof -
  note ok = store_reachable_ok [OF assms, unfolded store_ok_def]
  have g: "\<forall>k g k' g'. map_of (generations s) k = Some g \<longrightarrow> map_of (generations s) k' = Some g' \<longrightarrow>
       ge_ExecutionID g = ge_ExecutionID g' \<and> ge_StepID g = ge_StepID g' \<and> ge_Number g = ge_Number g' \<longrightarrow> k = k'"
    using ok unfolding generations_ok_def same_generation_def by metis
  have "map_of (interactionsByAttemptKey s) (interaction_key i) = Some k" if "map_of (interactions s) k = Some i" for k i
    using ok rowsD that unfolding interactions_ok_def by fast
  then have u: "\<forall>k i k' i'. map_of (interactions s) k = Some i \<longrightarrow> map_of (interactions s) k' = Some i' \<longrightarrow>
       ia_AttemptID i = ia_AttemptID i' \<and> ia_IdempotencyKey i = ia_IdempotencyKey i' \<longrightarrow> k = k'"
    by (metis interaction_key_def option.inject)
  show ?thesis
    by (intro conjI g u; use ok in \<open>auto simp: table_defs elim: rows_mono\<close>)
qed

text \<open>A store with one project, one execution and one step, as the operations build it.\<close>

definition demo_execution :: Execution where
  "demo_execution = \<lparr>ex_ID = ''x1'', ex_ProjectID = ''p1'', ex_WorkflowSource = ''w.yaml'', ex_Status = ''pending'',
     ex_WorkspaceMode = ''isolated'', ex_WorkspaceRoot = ''/r'', ex_StartedAt = None, ex_EndedAt = None,
     ex_DagHash = None, ex_BaseCommit = None\<rparr>"

definition demo_exec_step :: ExecutionStep where
  "demo_exec_step = \<lparr>es_ExecutionID = ''x1'', es_StepID = ''a'', es_Type = ''command'', es_Status = ''pending'',
     es_DependsOn = ''[]'', es_Requires = ''[]'', es_Produces = ''[]'', es_WorkspaceMode = ''isolated'',
     es_CurrentGeneration = 0, es_PendingFeedback = None\<rparr>"

definition demo_store :: FakeStore where
  "demo_store = snd (steps_Create demo_exec_step (snd (executions_Create 0 demo_execution
     (snd (projects_Create 0 ''p1'' ''/r'' NewFakeStore)))))"

lemma demo_store_reachable: "store_reachable demo_store"
  unfolding demo_store_def
  by (rule store_reachable.step [OF store_reachable.step [OF store_reachable.step [OF store_reachable.new]]])
     (rule store_step.intros)+

theorem store_integrity_witness:
  "store_reachable demo_store \<and> has_key (stepKey ''x1'' ''a'') (steps demo_store) \<and>
   has_key ''x1'' (executions demo_store)"
proof -
  have k: "map_of (steps demo_store) (stepKey ''x1'' ''a'') = Some demo_exec_step" by code_simp
  have "has_key (es_ExecutionID demo_exec_step) (executions demo_store)"
    using store_integrity [OF demo_store_reachable] rowsD k by fast
  then show ?thesis using demo_store_reachable k by (simp add: has_key_def demo_exec_step_def)
qed

text \<open>C36. Mutual exclusion of path claims: in every reachable state, of two different active claims of
  the same project on relative paths with a common path below both, both are isolated. The store asks the rule of conflicts with the policy
  \<^verbatim>\<open>block\<close> whatever the workflow says, so that an isolated and a shared claim never meet, not even under \<^verbatim>\<open>on_logical_conflict: allow\<close>,
  for which the specification of path claims asks that they do.\<close>

theorem claims_exclusive:
  assumes "store_reachable s"
    "map_of (pathClaims s) k = Some c" "map_of (pathClaims s) k' = Some c'" "k \<noteq> k'"
    "pc_ProjectID c = pc_ProjectID c'" "pc_ReleasedAt c = None" "pc_ReleasedAt c' = None"
    "\<not> IsAbs (pc_LogicalPath c)" "\<not> IsAbs (pc_LogicalPath c')"
    "\<not> IsAbs x" "IsPrefix (pc_LogicalPath c) x" "IsPrefix (pc_LogicalPath c') x"
  shows "prefix ''isolated'' (pc_Mode c) \<and> prefix ''isolated'' (pc_Mode c')"
proof -
  have "\<not> conflicts_with c c'"
    using store_reachable_ok [OF assms(1)] assms(2-7) by (simp add: store_ok_def claims_ok_def)
  moreover have "Overlaps (pc_LogicalPath c') (pc_LogicalPath c)"
    using assms(8-12) Overlaps_common by blast
  ultimately show ?thesis
    by (auto simp: conflicts_with_def ShouldBlock_def Let_def isShared_iff split: if_splits)
qed

text \<open>The rule itself lets a mixed pair pass under the policy \<^verbatim>\<open>allow\<close>.\<close>

lemma mixed_under_allow: "\<not> ShouldBlock ''isolated:x'' ''shared'' ''allow'' False" "ShouldBlock ''isolated:x'' ''shared'' ''block'' False"
  by code_simp+

definition demo_claim :: "string \<Rightarrow> string \<Rightarrow> PathClaim" where
  "demo_claim path mode = \<lparr>pc_ID = 0, pc_ProjectID = ''p1'', pc_LogicalPath = path, pc_Mode = mode,
     pc_OwnerExecutionID = ''x1'', pc_OwnerStepID = ''a'', pc_AcquiredAt = None, pc_ReleasedAt = None\<rparr>"

definition demo_claimed :: FakeStore where
  "demo_claimed = snd (claims_Acquire 0 (demo_claim ''src/a'' ''isolated:x2'')
     (snd (claims_Acquire 0 (demo_claim ''src'' ''isolated:x1'') demo_store)))"

theorem claims_exclusive_witness:
  "map (\<lambda>(k, c). (k, pc_LogicalPath c, pc_Mode c)) (pathClaims demo_claimed) =
     [(1, ''src'', ''isolated:x1''), (2, ''src/a'', ''isolated:x2'')] \<and>
   prefix ''isolated'' ''isolated:x1'' \<and> prefix ''isolated'' ''isolated:x2''"
proof -
  let ?c = "(demo_claim ''src'' ''isolated:x1'')\<lparr>pc_ID := 1, pc_AcquiredAt := Some 0\<rparr>"
  let ?d = "(demo_claim ''src/a'' ''isolated:x2'')\<lparr>pc_ID := 2, pc_AcquiredAt := Some 0\<rparr>"
  have r: "store_reachable demo_claimed"
    unfolding demo_claimed_def
    by (rule store_reachable.step [OF store_reachable.step [OF demo_store_reachable]]) (rule store_step.intros)+
  have m: "map_of (pathClaims demo_claimed) 1 = Some ?c" "map_of (pathClaims demo_claimed) 2 = Some ?d" by code_simp+
  have p: "\<not> IsAbs (pc_LogicalPath ?c)" "\<not> IsAbs (pc_LogicalPath ?d)" "\<not> IsAbs ''src/a/f''"
    "IsPrefix (pc_LogicalPath ?c) ''src/a/f''" "IsPrefix (pc_LogicalPath ?d) ''src/a/f''" by code_simp+
  have "prefix ''isolated'' (pc_Mode ?c) \<and> prefix ''isolated'' (pc_Mode ?d)"
    by (rule claims_exclusive [OF r m _ _ _ _ p]) (simp_all add: demo_claim_def)
  moreover have "map (\<lambda>(k, c). (k, pc_LogicalPath c, pc_Mode c)) (pathClaims demo_claimed) =
     [(1, ''src'', ''isolated:x1''), (2, ''src/a'', ''isolated:x2'')]" by code_simp
  ultimately show ?thesis by (simp add: demo_claim_def)
qed

text \<open>Transactions are atomic: outside a transaction \<^verbatim>\<open>WithTx\<close> leaves the store
  exactly as it was when the function fails, and otherwise commits exactly what the function made
  of the copy; inside a transaction it runs the function directly, so the outer transaction
  decides.\<close>

theorem with_tx_atomic:
  "(\<forall>e s'. \<not> inTx s \<and> WithTx fn s = (Inl e, s') \<longrightarrow> s' = s \<and> fst (fn (clone s)) = Inl e) \<and>
   (\<forall>a s'. \<not> inTx s \<and> WithTx fn s = (Inr a, s') \<longrightarrow> fst (fn (clone s)) = Inr a \<and>
      s' = (snd (fn (clone s)))\<lparr>inTx := False\<rparr>) \<and>
   (inTx s \<longrightarrow> WithTx fn s = fn s)"
  by (auto simp: WithTx_def split: prod.splits sum.splits)

theorem with_tx_atomic_witness:
  "\<exists>e. WithTx (op_bind (executions_UpdateStatus 0 ''x1'' ''running'') (\<lambda>_. executions_UpdateStatus 0 ''x1'' ''bogus''))
     demo_store = (Inl e, demo_store) \<and> errors_Is e ErrCheckViolation"
proof -
  let ?fn = "op_bind (executions_UpdateStatus 0 ''x1'' ''running'') (\<lambda>_. executions_UpdateStatus 0 ''x1'' ''bogus'')"
  have t: "\<not> inTx demo_store" by code_simp
  have r: "case fst (WithTx ?fn demo_store) of Inl e \<Rightarrow> errors_Is e ErrCheckViolation | Inr _ \<Rightarrow> False" by code_simp
  then obtain e s' where w: "WithTx ?fn demo_store = (Inl e, s')" "errors_Is e ErrCheckViolation"
    by (cases "WithTx ?fn demo_store") (auto split: sum.splits)
  with with_tx_atomic [of demo_store ?fn] t show ?thesis by blast
qed

text \<open>Fencing: once a step's lease has been acquired again, by whomever, the token held before is
  smaller than the new one and is never accepted again, whatever operations follow.\<close>

theorem lease_token_superseded:
  assumes "held_lease s e t h n" "store_evolves\<^sup>*\<^sup>* s s1" "leases_Acquire now e t h' s1 = (Inr m, s2)"
    "store_evolves\<^sup>*\<^sup>* s2 s3"
  shows "n < m \<and> \<not> held_lease s3 e t h'' n"
  using lease_fencing.superseded [of s "(e, t)" h n s1 now h' m s2 s3 h''] assms by simp

definition demo_leased :: FakeStore where
  "demo_leased = snd (leases_Acquire 0 ''x1'' ''a'' ''h1'' demo_store)"

theorem lease_token_superseded_witness:
  "held_lease demo_leased ''x1'' ''a'' ''h1'' 1 \<and>
   fst (leases_Acquire (61 * second) ''x1'' ''a'' ''h2'' demo_leased) = Inr 2 \<and>
   \<not> held_lease (snd (leases_Acquire (61 * second) ''x1'' ''a'' ''h2'' demo_leased)) ''x1'' ''a'' ''h1'' 1"
proof -
  have h: "held_lease demo_leased ''x1'' ''a'' ''h1'' 1" by code_simp
  have f: "fst (leases_Acquire (61 * second) ''x1'' ''a'' ''h2'' demo_leased) = Inr 2" by code_simp
  then have "leases_Acquire (61 * second) ''x1'' ''a'' ''h2'' demo_leased =
      (Inr 2, snd (leases_Acquire (61 * second) ''x1'' ''a'' ''h2'' demo_leased))"
    by (metis prod.collapse)
  from lease_token_superseded [OF h rtranclp.rtrancl_refl this rtranclp.rtrancl_refl] h f
  show ?thesis by blast
qed

text \<open>A lease excludes other holders for its lifetime: until it expires or is released, an attempt
  of another holder fails with \<^verbatim>\<open>ErrLeaseConflict\<close> and changes nothing; from its
  expiry, at most a minute after the last acquisition or renewal, any holder succeeds.\<close>

theorem lease_exclusive:
  assumes "leases_Acquire now e t h s = (Inr n, s')" "h' \<noteq> h" "now \<le> now'"
  shows "(if now' < ((now + lease_ttl) div second) * second
     then leases_Acquire now' e t h' s' = (Inl (sentinel_err ErrLeaseConflict), s')
     else \<exists>s''. leases_Acquire now' e t h' s' = (Inr (n + 1), s'')) \<and>
   (now + lease_ttl) div second * second \<le> now + lease_ttl"
proof -
  obtain l where "map_of (leases s') (stepKey e t) = Some l" "le_Holder l = h" "le_FencingToken l = n"
      "le_ExpiresAt l = rfc3339 (now + lease_ttl)"
    using assms(1) by (auto simp: leases_Acquire_def Let_def split: option.splits if_splits)
  moreover have "(now + lease_ttl) div second * second \<le> now + lease_ttl"
    using div_mult_mod_eq [of "now + lease_ttl" second] pos_mod_sign [of second "now + lease_ttl"]
    by (simp add: second_def)
  ultimately show ?thesis
    using assms(2) by (auto simp: leases_Acquire_def Let_def not_expired_def rfc3339_def)
qed

theorem lease_exclusive_witness:
  "leases_Acquire (30 * second) ''x1'' ''a'' ''h2'' demo_leased = (Inl (sentinel_err ErrLeaseConflict), demo_leased)"
proof -
  have "leases_Acquire 0 ''x1'' ''a'' ''h1'' demo_store = (Inr 1, demo_leased)"
    unfolding demo_leased_def by (rule prod_eqI) (simp_all, code_simp)
  from lease_exclusive [OF this, of "''h2''" "30 * second"] show ?thesis
    by (simp add: second_def lease_ttl_def)
qed

text \<open>The first decision on an interaction wins: after a successful \<^verbatim>\<open>Resolve\<close>,
  resolving again with the same idempotency key, whatever the decision and the time, returns the
  same resolved interaction and changes nothing; a wrong key or an unknown interaction is
  refused and changes nothing.\<close>

theorem interaction_first_decision:
  assumes "interactions_Resolve now i key d s = (r, s')"
  shows "(\<forall>it. r = Inr it \<longrightarrow> ia_Status it = ''resolved'' \<and>
      interactions_Resolve now' i key d' s' = (Inr it, s') \<and>
      (\<forall>key'. key' \<noteq> key \<longrightarrow> interactions_Resolve now' i key' d' s' = (Inl (sentinel_err ErrUniqueViolation), s'))) \<and>
    (\<forall>e. r = Inl e \<longrightarrow> s' = s)"
proof (cases "map_of (interactions s) i")
  case None
  with assms show ?thesis by (auto simp: interactions_Resolve_def)
next
  case (Some it0)
  show ?thesis
  proof (cases "ia_IdempotencyKey it0 = key \<and> ia_Status it0 \<noteq> ''resolved''")
    case False
    with Some assms show ?thesis by (cases "ia_IdempotencyKey it0 = key") (auto simp: interactions_Resolve_def)
  next
    case True
    let ?it = "it0\<lparr>ia_Status := ''resolved'', ia_Decision := Some d, ia_ResolvedAt := Some (rfc3339 now)\<rparr>"
    have "r = Inr ?it" "s' = s\<lparr>interactions := adjust i (\<lambda>_. ?it) (interactions s)\<rparr>"
      using assms Some True by (simp_all add: interactions_Resolve_def Let_def)
    then show ?thesis using Some True by (simp add: interactions_Resolve_def)
  qed
qed

definition demo_attempted :: FakeStore where
  "demo_attempted = snd (interactions_Create \<lparr>ia_ID = ''i1'', ia_AttemptID = ''t1'', ia_Type = ''permission'',
       ia_Status = ''pending'', ia_Decision = None, ia_IdempotencyKey = ''k'', ia_ResolvedAt = None\<rparr>
     (snd (attempts_Create 0 \<lparr>at_ID = ''t1'', at_ExecutionID = ''x1'', at_StepID = ''a'', at_GenerationID = ''g1'',
        at_Status = ''running'', at_StartedAt = None, at_EndedAt = None, at_TerminationReason = None,
        at_ResultDigest = None\<rparr>
     (snd (generations_Create 0 \<lparr>ge_ID = ''g1'', ge_ExecutionID = ''x1'', ge_StepID = ''a'', ge_Number = 1,
        ge_CreatedAt = None, ge_InvalidatedAt = None, ge_InvalidatedByStep = None\<rparr> demo_store)))))"

theorem interaction_first_decision_witness:
  "\<exists>it s'. interactions_Resolve 0 ''i1'' ''k'' ''allow'' demo_attempted = (Inr it, s') \<and>
     ia_Decision it = Some ''allow'' \<and> interactions_Resolve 5 ''i1'' ''k'' ''deny'' s' = (Inr it, s')"
proof -
  have "map_sum err_msg ia_Decision (fst (interactions_Resolve 0 ''i1'' ''k'' ''allow'' demo_attempted)) =
      Inr (Some ''allow'')" by code_simp
  from map_sum_InrD [OF this] obtain it where
    it: "fst (interactions_Resolve 0 ''i1'' ''k'' ''allow'' demo_attempted) = Inr it \<and> ia_Decision it = Some ''allow''"
    by (rule exE)
  define s' where "s' = snd (interactions_Resolve 0 ''i1'' ''k'' ''allow'' demo_attempted)"
  have s': "interactions_Resolve 0 ''i1'' ''k'' ''allow'' demo_attempted = (Inr it, s')"
    using it by (intro prod_eqI) (simp_all add: s'_def)
  from interaction_first_decision [OF s', of 5 "''deny''"]
  have "interactions_Resolve 5 ''i1'' ''k'' ''deny'' s' = (Inr it, s')" by simp
  with s' it show ?thesis by (intro exI [of _ it] exI [of _ s']) simp
qed

text \<open>The loops over maps do not depend on the iteration order that Go leaves open: in two
  well-formed stores with the same attempts and events in different orders the current attempt,
  the number of attempts, the next cursors and the list of transitions are the same; the next
  cursor is larger than every cursor in use and the transitions come in cursor order.\<close>

theorem map_order_independent:
  assumes "store_ok s" "mset (attempts s') = mset (attempts s)"
    "mset (inner (transitionEvents s') (stepKey e t)) = mset (inner (transitionEvents s) (stepKey e t))"
  shows "fst (attempts_CurrentByStep e t s') = fst (attempts_CurrentByStep e t s) \<and>
    fst (attempts_CountByStep e t s') = fst (attempts_CountByStep e t s) \<and>
    fst (events_NextTransitionCursor e t s') = fst (events_NextTransitionCursor e t s) \<and>
    fst (events_ListTransitions e t s') = fst (events_ListTransitions e t s) \<and>
    (\<exists>n l. fst (events_NextTransitionCursor e t s) = Inr n \<and> fst (events_ListTransitions e t s) = Inr l \<and>
       sorted (map te_Cursor l) \<and> distinct (map te_Cursor l) \<and> (\<forall>ev \<in> set l. te_Cursor ev < n))"
proof -
  let ?m = "inner (transitionEvents s) (stepKey e t)" and ?m' = "inner (transitionEvents s') (stepKey e t)"
  have "transition_events_ok (transitionEvents s)" using assms(1) by (simp add: store_ok_def)
  note T = transitions_listed [OF this, of "stepKey e t"]
  have mm: "mset (map snd ?m') = mset (map snd ?m)" using assms(3) by simp
  have "exchange_sort te_Cursor (map snd ?m') = exchange_sort te_Cursor (map snd ?m)"
    using exchange_sort_unique [OF mm [symmetric] T(1)] by simp
  moreover have "next_cursor ?m' = next_cursor ?m"
    using assms(3) by (metis next_cursor_eq mset_map set_mset_mset)
  ultimately show ?thesis
    using step_attempts_order [OF assms(1,2)] T
    by (simp add: attempts_CurrentByStep_def attempts_CountByStep_def events_NextTransitionCursor_def events_ListTransitions_def)
qed

theorem map_order_independent_witness:
  "fst (attempts_CurrentByStep ''x1'' ''a'' (demo_attempted\<lparr>attempts := rev (attempts demo_attempted)\<rparr>)) =
   fst (attempts_CurrentByStep ''x1'' ''a'' demo_attempted)"
proof -
  have "store_ok demo_attempted"
    unfolding demo_attempted_def
    by (intro keepsD [OF keeps_interactions_Create] keepsD [OF keeps_attempts_Create] keepsD [OF keeps_generations_Create]
        store_reachable_ok demo_store_reachable)
  from map_order_independent [OF this, of "demo_attempted\<lparr>attempts := rev (attempts demo_attempted)\<rparr>" "''x1''" "''a''"]
  show ?thesis by simp
qed

end
