(* ===== verification/Fenced.thy ===== *)
theory Fenced
  imports Store_Laws
begin

text \<open>
  The write-fenced view of the store that one attempt works on,
  \<^verbatim>\<open>internal/execution/fenced_store.go\<close>: every mutating method first validates that
  the attempt's lease is present, unexpired and still carries its holder and token. The view
  wraps the in-memory store; its own state is the identity of the lease. Acquiring a lease and
  the reads are not guarded in the code, and so not here.
\<close>

record FencedStore =
  fs_executionID :: string
  fs_stepID :: string
  fs_holder :: string
  fs_fencingToken :: int

definition NewFencedStore :: "string \<Rightarrow> string \<Rightarrow> string \<Rightarrow> int \<Rightarrow> FencedStore" where
  "NewFencedStore executionID stepID holder fencingToken =
     \<lparr>fs_executionID = executionID, fs_stepID = stepID, fs_holder = holder, fs_fencingToken = fencingToken\<rparr>"

text \<open>\<^verbatim>\<open>!expiresAt.After(time.Now())\<close> or a timestamp that does not parse.\<close>

definition lapsed :: "stamp \<Rightarrow> clock \<Rightarrow> bool" where
  "lapsed st now = (case st of None \<Rightarrow> True | Some e \<Rightarrow> e * second \<le> now)"

definition validate :: "clock \<Rightarrow> FencedStore \<Rightarrow> (FakeStore, unit) op" where
  "validate now f s =
     (case fst (leases_Get (fs_executionID f) (fs_stepID f) s) of
        Inl e \<Rightarrow> (Inl (violation ErrStaleLease (''lease unavailable: '' @ err_msg e)), s)
      | Inr lease \<Rightarrow>
          (if lapsed (le_ExpiresAt lease) now
           then (Inl (violation ErrStaleLease ''lease expired; reopen and rerun''), s)
           else if le_Holder lease \<noteq> fs_holder f \<or> le_FencingToken lease \<noteq> fs_fencingToken f
           then (Inl (violation ErrStaleLease ''lease fenced by a newer holder; reopen and rerun''), s)
           else (Inr (), s)))"

definition guard :: "clock \<Rightarrow> FencedStore \<Rightarrow> (FakeStore, 'a) op \<Rightarrow> (FakeStore, 'a) op" where
  "guard now f fn s =
     (case validate now f s of
        (Inl e, s') \<Rightarrow> (Inl e, s')
      | (Inr _, s') \<Rightarrow> fn s')"

definition fenced_WithTx :: "clock \<Rightarrow> FencedStore \<Rightarrow> (FencedStore \<Rightarrow> (FakeStore, 'a) op) \<Rightarrow> (FakeStore, 'a) op" where
  "fenced_WithTx now f fn s =
     (case validate now f s of
        (Inl e, s') \<Rightarrow> (Inl e, s')
      | (Inr _, s') \<Rightarrow>
          WithTx (fn (NewFencedStore (fs_executionID f) (fs_stepID f) (fs_holder f) (fs_fencingToken f))) s')"

definition fencedProjects_Create :: "clock \<Rightarrow> FencedStore \<Rightarrow> string \<Rightarrow> string \<Rightarrow> (FakeStore, unit) op" where
  "fencedProjects_Create now f i r = guard now f (projects_Create now i r)"

definition fencedProjects_Get :: "FencedStore \<Rightarrow> string \<Rightarrow> (FakeStore, Project) op" where
  "fencedProjects_Get f i = projects_Get i"

definition fencedExecutions_Create :: "clock \<Rightarrow> FencedStore \<Rightarrow> Execution \<Rightarrow> (FakeStore, Execution) op" where
  "fencedExecutions_Create now f e = guard now f (executions_Create now e)"

definition fencedExecutions_Get :: "FencedStore \<Rightarrow> string \<Rightarrow> (FakeStore, Execution) op" where
  "fencedExecutions_Get f i = executions_Get i"

definition fencedExecutions_UpdateStatus :: "clock \<Rightarrow> FencedStore \<Rightarrow> string \<Rightarrow> string \<Rightarrow> (FakeStore, unit) op" where
  "fencedExecutions_UpdateStatus now f i st = guard now f (executions_UpdateStatus now i st)"

definition fencedSteps_Create :: "clock \<Rightarrow> FencedStore \<Rightarrow> ExecutionStep \<Rightarrow> (FakeStore, unit) op" where
  "fencedSteps_Create now f st = guard now f (steps_Create st)"

definition fencedSteps_Get :: "FencedStore \<Rightarrow> string \<Rightarrow> string \<Rightarrow> (FakeStore, ExecutionStep) op" where
  "fencedSteps_Get f e t = steps_Get e t"

definition fencedSteps_List :: "FencedStore \<Rightarrow> string \<Rightarrow> (FakeStore, ExecutionStep list) op" where
  "fencedSteps_List f e = steps_List e"

definition fencedSteps_UpdateStatus :: "clock \<Rightarrow> FencedStore \<Rightarrow> string \<Rightarrow> string \<Rightarrow> string \<Rightarrow> (FakeStore, unit) op" where
  "fencedSteps_UpdateStatus now f e t st = guard now f (steps_UpdateStatus e t st)"

definition fencedSteps_UpdateGeneration :: "clock \<Rightarrow> FencedStore \<Rightarrow> string \<Rightarrow> string \<Rightarrow> int \<Rightarrow> (FakeStore, unit) op" where
  "fencedSteps_UpdateGeneration now f e t n = guard now f (steps_UpdateGeneration e t n)"

definition fencedSteps_SetPendingFeedback :: "clock \<Rightarrow> FencedStore \<Rightarrow> string \<Rightarrow> string \<Rightarrow> string option \<Rightarrow> (FakeStore, unit) op" where
  "fencedSteps_SetPendingFeedback now f e t fb = guard now f (steps_SetPendingFeedback e t fb)"

definition fencedAttempts_Create :: "clock \<Rightarrow> FencedStore \<Rightarrow> Attempt \<Rightarrow> (FakeStore, Attempt) op" where
  "fencedAttempts_Create now f a = guard now f (attempts_Create now a)"

definition fencedAttempts_Get :: "FencedStore \<Rightarrow> string \<Rightarrow> (FakeStore, Attempt) op" where
  "fencedAttempts_Get f i = attempts_Get i"

definition fencedAttempts_UpdateStatus :: "clock \<Rightarrow> FencedStore \<Rightarrow> string \<Rightarrow> string \<Rightarrow> stamp option \<Rightarrow> string option \<Rightarrow>
    string option \<Rightarrow> (FakeStore, unit) op" where
  "fencedAttempts_UpdateStatus now f i st ended reason dg = guard now f (attempts_UpdateStatus now i st ended reason dg)"

definition fencedAttempts_CountByStep :: "FencedStore \<Rightarrow> string \<Rightarrow> string \<Rightarrow> (FakeStore, nat) op" where
  "fencedAttempts_CountByStep f e t = attempts_CountByStep e t"

definition fencedAttempts_CurrentByStep :: "FencedStore \<Rightarrow> string \<Rightarrow> string \<Rightarrow> (FakeStore, Attempt) op" where
  "fencedAttempts_CurrentByStep f e t = attempts_CurrentByStep e t"

definition fencedGenerations_Create :: "clock \<Rightarrow> FencedStore \<Rightarrow> Generation \<Rightarrow> (FakeStore, Generation) op" where
  "fencedGenerations_Create now f g = guard now f (generations_Create now g)"

definition fencedGenerations_Get :: "FencedStore \<Rightarrow> string \<Rightarrow> (FakeStore, Generation) op" where
  "fencedGenerations_Get f i = generations_Get i"

definition fencedGenerations_GetByNumber :: "FencedStore \<Rightarrow> string \<Rightarrow> string \<Rightarrow> int \<Rightarrow> (FakeStore, Generation) op" where
  "fencedGenerations_GetByNumber f e t n = generations_GetByNumber e t n"

definition fencedGenerations_InvalidateByStep :: "clock \<Rightarrow> FencedStore \<Rightarrow> string \<Rightarrow> string \<Rightarrow> string \<Rightarrow> (FakeStore, unit) op" where
  "fencedGenerations_InvalidateByStep now f e t b = guard now f (generations_InvalidateByStep now e t b)"

definition fencedGenerations_ListByStep :: "FencedStore \<Rightarrow> string \<Rightarrow> string \<Rightarrow> (FakeStore, Generation list) op" where
  "fencedGenerations_ListByStep f e t = generations_ListByStep e t"

definition fencedEvents_CreateAttemptEvent :: "clock \<Rightarrow> FencedStore \<Rightarrow> AttemptEvent \<Rightarrow> (FakeStore, AttemptEvent) op" where
  "fencedEvents_CreateAttemptEvent now f ev = guard now f (events_CreateAttemptEvent now ev)"

definition fencedEvents_PriorOutputDelta :: "FencedStore \<Rightarrow> string \<Rightarrow> (FakeStore, AttemptEvent) op" where
  "fencedEvents_PriorOutputDelta f i = events_PriorOutputDelta i"

definition fencedEvents_CreateTransition :: "clock \<Rightarrow> FencedStore \<Rightarrow> StepTransitionEvent \<Rightarrow> (FakeStore, StepTransitionEvent) op" where
  "fencedEvents_CreateTransition now f ev = guard now f (events_CreateTransition now ev)"

definition fencedEvents_ListTransitions :: "FencedStore \<Rightarrow> string \<Rightarrow> string \<Rightarrow> (FakeStore, StepTransitionEvent list) op" where
  "fencedEvents_ListTransitions f e t = events_ListTransitions e t"

definition fencedEvents_NextAttemptCursor :: "FencedStore \<Rightarrow> string \<Rightarrow> (FakeStore, int) op" where
  "fencedEvents_NextAttemptCursor f i = events_NextAttemptCursor i"

definition fencedEvents_NextTransitionCursor :: "FencedStore \<Rightarrow> string \<Rightarrow> string \<Rightarrow> (FakeStore, int) op" where
  "fencedEvents_NextTransitionCursor f e t = events_NextTransitionCursor e t"

definition fencedEvents_ListAttemptEvents :: "FencedStore \<Rightarrow> string \<Rightarrow> int \<Rightarrow> int \<Rightarrow> (FakeStore, AttemptEvent list) op" where
  "fencedEvents_ListAttemptEvents f i c l = events_ListAttemptEvents i c l"

definition fencedTransport_Put :: "clock \<Rightarrow> FencedStore \<Rightarrow> Transport \<Rightarrow> (FakeStore, Transport) op" where
  "fencedTransport_Put now f t = guard now f (transport_Put t)"

definition fencedTransport_Get :: "FencedStore \<Rightarrow> string \<Rightarrow> (FakeStore, Transport) op" where
  "fencedTransport_Get f i = transport_Get i"

definition fencedPathClaims_Acquire :: "clock \<Rightarrow> FencedStore \<Rightarrow> PathClaim \<Rightarrow> (FakeStore, bool \<times> PathClaim option) op" where
  "fencedPathClaims_Acquire now f c = guard now f (claims_Acquire now c)"

definition fencedPathClaims_Release :: "clock \<Rightarrow> FencedStore \<Rightarrow> string \<Rightarrow> string \<Rightarrow> string \<Rightarrow> string \<Rightarrow> (FakeStore, unit) op" where
  "fencedPathClaims_Release now f p l e t = guard now f (claims_Release now p l e t)"

definition fencedPathClaims_ListActive :: "FencedStore \<Rightarrow> string \<Rightarrow> (FakeStore, PathClaim list) op" where
  "fencedPathClaims_ListActive f p = claims_ListActive p"

definition fencedLeases_Acquire :: "clock \<Rightarrow> FencedStore \<Rightarrow> string \<Rightarrow> string \<Rightarrow> string \<Rightarrow> (FakeStore, int) op" where
  "fencedLeases_Acquire now f e t h = leases_Acquire now e t h"

definition fencedLeases_Renew :: "clock \<Rightarrow> FencedStore \<Rightarrow> string \<Rightarrow> string \<Rightarrow> string \<Rightarrow> int \<Rightarrow> (FakeStore, unit) op" where
  "fencedLeases_Renew now f e t h n = guard now f (leases_Renew now e t h n)"

definition fencedLeases_Release :: "clock \<Rightarrow> FencedStore \<Rightarrow> string \<Rightarrow> string \<Rightarrow> string \<Rightarrow> int \<Rightarrow> (FakeStore, unit) op" where
  "fencedLeases_Release now f e t h n = guard now f (leases_Release now e t h n)"

definition fencedLeases_Get :: "FencedStore \<Rightarrow> string \<Rightarrow> string \<Rightarrow> (FakeStore, Lease) op" where
  "fencedLeases_Get f e t = leases_Get e t"

definition fencedInteractions_Create :: "clock \<Rightarrow> FencedStore \<Rightarrow> Interaction \<Rightarrow> (FakeStore, unit) op" where
  "fencedInteractions_Create now f i = guard now f (interactions_Create i)"

definition fencedInteractions_Get :: "FencedStore \<Rightarrow> string \<Rightarrow> (FakeStore, Interaction) op" where
  "fencedInteractions_Get f i = interactions_Get i"

definition fencedInteractions_Resolve :: "clock \<Rightarrow> FencedStore \<Rightarrow> string \<Rightarrow> string \<Rightarrow> string \<Rightarrow> (FakeStore, Interaction) op" where
  "fencedInteractions_Resolve now f i key d = guard now f (interactions_Resolve now i key d)"

section \<open>The guard\<close>

text \<open>The lease that the view stands for is in force.\<close>

definition in_force :: "clock \<Rightarrow> FencedStore \<Rightarrow> FakeStore \<Rightarrow> bool" where
  "in_force now f s \<longleftrightarrow>
     (\<exists>l. map_of (leases s) (stepKey (fs_executionID f) (fs_stepID f)) = Some l \<and> \<not> lapsed (le_ExpiresAt l) now \<and>
        le_Holder l = fs_holder f \<and> le_FencingToken l = fs_fencingToken f)"

lemma lapsed_iff: "st \<noteq> None \<Longrightarrow> lapsed st now \<longleftrightarrow> \<not> not_expired st now"
  by (auto simp: lapsed_def not_expired_def)

lemma validate_cases:
  "validate now f s = (Inr (), s) \<and> in_force now f s \<or>
   (\<exists>m. validate now f s = (Inl (violation ErrStaleLease m), s)) \<and> \<not> in_force now f s"
  by (auto simp: validate_def leases_Get_def lookup_row_def in_force_def split: option.splits)

lemma guard_in_force: "in_force now f s \<Longrightarrow> guard now f fn s = fn s"
  using validate_cases [of now f s] by (auto simp: guard_def)

lemma guard_stale:
  "\<not> in_force now f s \<Longrightarrow> \<exists>m. guard now f fn s = (Inl (violation ErrStaleLease m), s)"
  using validate_cases [of now f s] by (auto simp: guard_def)

lemma keeps_guard [keeps]: "keeps P fn \<Longrightarrow> keeps P (guard now f fn)"
proof (rule keepsI)
  fix s assume "keeps P fn" "P s"
  then show "P (snd (guard now f fn s))"
    using guard_in_force [of now f s fn] guard_stale [of now f s fn] by (cases "in_force now f s") (auto dest: keepsD)
qed

lemma in_force_held: "in_force now f s \<Longrightarrow> held_lease s (fs_executionID f) (fs_stepID f) (fs_holder f) (fs_fencingToken f)"
  by (auto simp: in_force_def held_lease_def)

text \<open>What every guarded method does when the lease is not in force: a stale-lease error and no
  change.\<close>

definition refused :: "(FakeStore, 'a) op \<Rightarrow> FakeStore \<Rightarrow> bool" where
  "refused m s \<longleftrightarrow> (\<exists>e. m s = (Inl e, s) \<and> errors_Is e ErrStaleLease)"

lemma refused_guard: "\<not> in_force now f s \<Longrightarrow> refused (guard now f fn) s"
  using guard_stale [of now f s fn] by (auto simp: refused_def)

lemma refused_WithTx: "\<not> in_force now f s \<Longrightarrow> refused (fenced_WithTx now f fn) s"
  using validate_cases [of now f s] by (auto simp: refused_def fenced_WithTx_def)

lemma held_lease_token: "held_lease s e t h n \<Longrightarrow> lease_token (e, t) s = n"
  by (auto simp: held_lease_def lease_token_def split: option.splits)

lemma lease_acquire_token:
  "leases_Acquire now e t h s = (Inr n, s') \<Longrightarrow> n = lease_token (e, t) s + 1 \<and> lease_token (e, t) s' = n"
  using lease_fencing.acquire_token [of now "(e, t)" h s n s'] by simp

text \<open>Acquiring a lease never lowers a token.\<close>

lemma acquire_raises: "lease_token k s \<le> lease_token k (snd (leases_Acquire now e t h s))"
  by (auto simp: lease_token_def leases_Acquire_def Let_def map_of_adjust split: option.splits)

section \<open>Properties\<close>

text \<open>C37. A fenced-off attempt can never write again: once the lease an attempt worked under has been
  acquired anew, in every later state, at every time, every method of its fenced store that writes to a repository, except for acquiring a lease,
  and every transaction on it is refused with \<^verbatim>\<open>ErrStaleLease\<close> and leaves the store
  exactly as it is. Acquiring a lease is not guarded: it does what the base store does; but it does not bring the attempt
  back, whose writes are refused after it as well.\<close>

theorem fenced_off_forever:
  assumes "in_force now0 f s0" "store_evolves\<^sup>*\<^sup>* s0 s1"
    "leases_Acquire now1 (fs_executionID f) (fs_stepID f) h s1 = (Inr m, s2)" "store_evolves\<^sup>*\<^sup>* s2 s"
  shows "refused (fencedProjects_Create now f i r) s \<and> refused (fencedExecutions_Create now f ex) s \<and>
    refused (fencedExecutions_UpdateStatus now f i st) s \<and> refused (fencedSteps_Create now f est) s \<and>
    refused (fencedSteps_UpdateStatus now f e t st) s \<and> refused (fencedSteps_UpdateGeneration now f e t n) s \<and>
    refused (fencedSteps_SetPendingFeedback now f e t fb) s \<and> refused (fencedAttempts_Create now f a) s \<and>
    refused (fencedAttempts_UpdateStatus now f i st ended rsn dg) s \<and> refused (fencedGenerations_Create now f g) s \<and>
    refused (fencedGenerations_InvalidateByStep now f e t b) s \<and> refused (fencedEvents_CreateAttemptEvent now f ev) s \<and>
    refused (fencedEvents_CreateTransition now f tev) s \<and> refused (fencedTransport_Put now f tp) s \<and>
    refused (fencedPathClaims_Acquire now f c) s \<and> refused (fencedPathClaims_Release now f p l e t) s \<and>
    refused (fencedLeases_Renew now f e t h' n) s \<and> refused (fencedLeases_Release now f e t h' n) s \<and>
    refused (fencedInteractions_Create now f ia) s \<and> refused (fencedInteractions_Resolve now f i key d) s \<and>
    refused (fenced_WithTx now f fn) s \<and>
    fencedLeases_Acquire now f e t h' s = leases_Acquire now e t h' s \<and>
    refused (guard now' f fn') (snd (fencedLeases_Acquire now f e t h' s))"
proof -
  let ?k = "(fs_executionID f, fs_stepID f)"
  have "fs_fencingToken f < lease_token ?k s"
    using held_lease_token [OF in_force_held [OF assms(1)]] lease_acquire_token [OF assms(3)]
      lease_fencing.token_mono_rtranclp [OF assms(2), of ?k] lease_fencing.token_mono_rtranclp [OF assms(4), of ?k] by simp
  then have t: "fs_fencingToken f < lease_token ?k s" "fs_fencingToken f < lease_token ?k (snd (leases_Acquire now e t h' s))"
    using acquire_raises [of ?k s now e t h'] by auto
  have stale: "\<not> in_force n f s'" if "fs_fencingToken f < lease_token ?k s'" for n s'
    using held_lease_token [OF in_force_held] that by fastforce
  have "\<not> in_force now' f (snd (leases_Acquire now e t h' s))" "\<not> in_force now f s" using stale t by blast+
  then show ?thesis
    by (simp add: refused_guard refused_WithTx fencedLeases_Acquire_def fencedProjects_Create_def fencedExecutions_Create_def
        fencedExecutions_UpdateStatus_def fencedSteps_Create_def fencedSteps_UpdateStatus_def fencedSteps_UpdateGeneration_def
        fencedSteps_SetPendingFeedback_def fencedAttempts_Create_def fencedAttempts_UpdateStatus_def
        fencedGenerations_Create_def fencedGenerations_InvalidateByStep_def fencedEvents_CreateAttemptEvent_def
        fencedEvents_CreateTransition_def fencedTransport_Put_def fencedPathClaims_Acquire_def fencedPathClaims_Release_def
        fencedLeases_Renew_def fencedLeases_Release_def fencedInteractions_Create_def fencedInteractions_Resolve_def)
qed

definition demo_fence :: FencedStore where
  "demo_fence = NewFencedStore ''x1'' ''a'' ''h1'' 1"

theorem fenced_off_forever_witness:
  "in_force 0 demo_fence demo_leased \<and>
   refused (fencedSteps_UpdateStatus (62 * second) demo_fence ''x1'' ''a'' ''completed'')
     (snd (leases_Acquire (61 * second) ''x1'' ''a'' ''h2'' demo_leased))"
proof -
  have "map_of (leases demo_leased) (stepKey ''x1'' ''a'') = Some \<lparr>le_ExecutionID = ''x1'', le_StepID = ''a'',
      le_Holder = ''h1'', le_FencingToken = 1, le_AcquiredAt = Some 0, le_ExpiresAt = Some 60\<rparr>" by code_simp
  then have f: "in_force 0 demo_fence demo_leased"
    by (simp add: in_force_def demo_fence_def NewFencedStore_def lapsed_def second_def)
  have "fst (leases_Acquire (61 * second) ''x1'' ''a'' ''h2'' demo_leased) = Inr 2" by code_simp
  then have "leases_Acquire (61 * second) (fs_executionID demo_fence) (fs_stepID demo_fence) ''h2'' demo_leased =
      (Inr 2, snd (leases_Acquire (61 * second) ''x1'' ''a'' ''h2'' demo_leased))"
    by (intro prod_eqI) (simp_all add: demo_fence_def NewFencedStore_def)
  then have "refused (fencedSteps_UpdateStatus (62 * second) demo_fence ''x1'' ''a'' ''completed'')
     (snd (leases_Acquire (61 * second) ''x1'' ''a'' ''h2'' demo_leased))"
    by (rule fenced_off_forever [OF f rtranclp.rtrancl_refl _ rtranclp.rtrancl_refl,
      THEN conjunct2, THEN conjunct2, THEN conjunct2, THEN conjunct2, THEN conjunct1])
  with f show ?thesis by (rule conjI)
qed

end
