(* ===== verification/Workflow.thy ===== *)
theory Workflow
  imports Claims
begin

text \<open>
  The data of package \<^verbatim>\<open>internal/workflow\<close> and the code that reads it:
  \<^verbatim>\<open>parse.go\<close>, \<^verbatim>\<open>errors.go\<close>,
  \<^verbatim>\<open>discover.go\<close> and \<^verbatim>\<open>path.go\<close>. The strict YAML decoder
  (a third-party package) is the parameter \<open>decode\<close>, which gives the text of its error
  or the decoded workflow; slices are lists, pointers are options, the maps
  \<^verbatim>\<open>env\<close> and \<^verbatim>\<open>bindings\<close> are association lists.
\<close>

section \<open>errors.go\<close>

definition ValidationError_Error :: "ValidationError \<Rightarrow> string" where
  "ValidationError_Error e =
     (if ve_Field e \<noteq> '''' then ve_Code e @ ''@'' @ ve_Field e @ '': '' @ ve_Message e
      else ve_Code e @ '': '' @ ve_Message e)"

definition newValidationError :: "string \<Rightarrow> string \<Rightarrow> string \<Rightarrow> goerr" where
  "newValidationError code field msg =
     (let e = \<lparr>ve_Code = code, ve_Field = field, ve_Message = msg\<rparr>
      in GoErr (Validation e) (ValidationError_Error e))"

definition err_code :: "goerr \<Rightarrow> string" where
  "err_code e = (case err_kind e of Validation v \<Rightarrow> ve_Code v | _ \<Rightarrow> '''')"

lemma err_code_newValidationError [simp]: "err_code (newValidationError c f m) = c"
  by (simp add: err_code_def newValidationError_def Let_def)

section \<open>parse.go: the types\<close>

record WorkspaceConfig =
  wc_Mode :: "string option"
  wc_OnLogicalConflict :: "string option"

record Input =
  in_Name :: string
  in_SatisfiedBy :: string

record Output =
  out_Name :: string
  out_ProducedBy :: string

record Step =
  ID :: string
  Type :: string
  Run :: string
  Env :: "(string, string) gomap"
  TimeoutSeconds :: "int option"
  DependsOn :: "string list"
  Requires :: "string list"
  Produces :: "string list"
  Harness :: "string list"
  Instructions :: string
  Mode :: string
  Workspace :: "WorkspaceConfig option"
  Source :: "string option"
  Bindings :: "(string, string) gomap"

record Workflow =
  wf_Version :: int
  wf_Name :: string
  wf_Workspace :: "WorkspaceConfig option"
  wf_Inputs :: "Input list"
  wf_Outputs :: "Output list"
  wf_Steps :: "Step list"

text \<open>The zero value of \<^verbatim>\<open>Step\<close>, on which literals of the code build.\<close>

definition zero_Step :: Step where
  "zero_Step = \<lparr>ID = '''', Type = '''', Run = '''', Env = [], TimeoutSeconds = None, DependsOn = [],
     Requires = [], Produces = [], Harness = [], Instructions = '''', Mode = '''', Workspace = None,
     Source = None, Bindings = []\<rparr>"

section \<open>parse.go: the functions\<close>

definition override_workspace :: "WorkspaceConfig option \<Rightarrow> string \<times> string \<Rightarrow> string \<times> string" where
  "override_workspace w mc =
     (case w of None \<Rightarrow> mc
      | Some c \<Rightarrow>
          (case wc_Mode c of None \<Rightarrow> fst mc | Some m \<Rightarrow> m,
           case wc_OnLogicalConflict c of None \<Rightarrow> snd mc | Some k \<Rightarrow> k))"

fun resolve_step :: "string \<Rightarrow> Step list \<Rightarrow> string \<times> string \<Rightarrow> string \<times> string" where
  "resolve_step stepID [] mc = mc"
| "resolve_step stepID (s # ss) mc =
     (if ID s = stepID \<and> Workspace s \<noteq> None then override_workspace (Workspace s) mc
      else resolve_step stepID ss mc)"

definition ResolveWorkspace :: "Workflow \<Rightarrow> string \<Rightarrow> string \<times> string" where
  "ResolveWorkspace flow stepID =
     resolve_step stepID (wf_Steps flow) (override_workspace (wf_Workspace flow) (''isolated'', ''block''))"

text \<open>The leftmost match of \<^verbatim>\<open>field ([^\s]+) not found\<close>; the class
  \<^verbatim>\<open>\s\<close> of package \<^verbatim>\<open>regexp\<close> has no vertical tab.\<close>

definition re_space :: "char \<Rightarrow> bool" where
  "re_space c \<longleftrightarrow> c \<in> {CHR '' '', CHR 0x09, CHR 0x0A, CHR 0x0C, CHR 0x0D}"

definition field_match_at :: "string \<Rightarrow> string option" where
  "field_match_at s =
     (if prefix ''field '' s then
        (let rest = drop 6 s; w = takeWhile (\<lambda>c. \<not> re_space c) rest in
         if w \<noteq> '''' \<and> prefix '' not found'' (drop (length w) rest) then Some w else None)
      else None)"

fun find_field :: "string \<Rightarrow> string option" where
  "find_field [] = None"
| "find_field (c # cs) =
     (case field_match_at (c # cs) of Some w \<Rightarrow> Some w | None \<Rightarrow> find_field cs)"

definition Parse :: "(string \<Rightarrow> string + Workflow) \<Rightarrow> goerr + string \<Rightarrow> goerr + Workflow" where
  "Parse decode rd =
     (case rd of
        Inl e \<Rightarrow> Inl (wrap_err ''read workflow'' e)
      | Inr data \<Rightarrow>
          (case decode data of
             Inl msg \<Rightarrow>
               (if sublist ''not found in type'' msg then
                  Inl (newValidationError ''unknown_field''
                         (case find_field msg of Some f \<Rightarrow> f | None \<Rightarrow> ''unknown'') msg)
                else if sublist ''line'' msg then Inl (newValidationError ''invalid_yaml'' '''' msg)
                else Inl (wrap_err ''unmarshal yaml'' (errorf msg)))
           | Inr flow \<Rightarrow>
               (if wf_Version flow \<noteq> 2 then
                  Inl (newValidationError ''invalid_version'' ''version''
                         (''unsupported version '' @ itoa (wf_Version flow) @ '': want 2''))
                else if wf_Steps flow = [] then
                  Inl (newValidationError ''missing_field'' ''steps''
                         ''workflow must have at least one step'')
                else Inr flow)))"

section \<open>discover.go\<close>

text \<open>What the operating system answers: a value, ``does not exist'', or another error.\<close>

datatype 'a io = IoOk 'a | IoNotExist goerr | IoErr goerr

record Discovered =
  d_Name :: string
  d_Path :: string
  d_Workflow :: Workflow

text \<open>A directory entry: its name and whether it is a directory. \<open>stat_isdir\<close> answers
  \<^verbatim>\<open>os.Stat\<close>, \<open>open_read\<close> opens and reads a file.\<close>

record wf_os =
  ReadDir :: "string \<Rightarrow> (string \<times> bool) list io"
  stat_isdir :: "string \<Rightarrow> bool io"
  open_file :: "string \<Rightarrow> goerr + (goerr + string)"

fun discover_loop :: "wf_os \<Rightarrow> (string \<Rightarrow> string + Workflow) \<Rightarrow> string \<Rightarrow> (string \<times> bool) list \<Rightarrow>
    Discovered list \<Rightarrow> goerr + Discovered list" where
  "discover_loop os decode base [] out = Inr out"
| "discover_loop os decode base ((name, isdir) # es) out =
     (if \<not> isdir then discover_loop os decode base es out
      else
        (let wfPath = Join [base, name, ''workflow.yaml''] in
         case stat_isdir os wfPath of
           IoNotExist e \<Rightarrow> discover_loop os decode base es out
         | IoErr e \<Rightarrow> Inl (wrap_err (''stat '' @ wfPath) e)
         | IoOk True \<Rightarrow> discover_loop os decode base es out
         | IoOk False \<Rightarrow>
             (case open_file os wfPath of
                Inl e \<Rightarrow> Inl (wrap_err (''open '' @ wfPath) e)
              | Inr rd \<Rightarrow>
                  (case Parse decode rd of
                     Inl e \<Rightarrow> Inl (wrap_err (''parse '' @ wfPath) e)
                   | Inr flow \<Rightarrow>
                       discover_loop os decode base es
                         (out @ [\<lparr>d_Name = name, d_Path = wfPath, d_Workflow = flow\<rparr>])))))"

definition Discover :: "wf_os \<Rightarrow> (string \<Rightarrow> string + Workflow) \<Rightarrow> string \<Rightarrow> goerr + Discovered list" where
  "Discover os decode root =
     (let base = Join [root, ''.haro'', ''workflows''] in
      case ReadDir os base of
        IoNotExist e \<Rightarrow> Inr []
      | IoErr e \<Rightarrow> Inl (wrap_err ''read workflows dir'' e)
      | IoOk entries \<Rightarrow>
          (case discover_loop os decode base entries [] of
             Inl e \<Rightarrow> Inl e
           | Inr out \<Rightarrow> Inr (sort_key d_Name out)))"

section \<open>path.go\<close>

function wf_resolve_walk :: "filesys \<Rightarrow> string \<Rightarrow> string \<Rightarrow> string \<Rightarrow> string list \<Rightarrow> goerr + string" where
  "wf_resolve_walk fs joined evalRoot cur sfx =
     (if lstat_ok fs cur then
        (case EvalSymlinks fs cur of
           Inl e \<Rightarrow> Inl e
         | Inr ev \<Rightarrow> Inr (Clean (foldr (\<lambda>s ev. Join [ev, s]) sfx ev)))
      else if cur = evalRoot \<or> cur = Dir cur then Inr (Clean joined)
      else if Dir cur = ''.'' then Inr (Clean joined)
      else wf_resolve_walk fs joined evalRoot (Dir cur) (sfx @ [Base cur]))"
  by pat_completeness auto

termination wf_resolve_walk
  by (relation "measure (\<lambda>(fs, joined, evalRoot, cur, sfx). path_size cur)")
     (auto simp: path_size_Dir)

declare wf_resolve_walk.simps [simp del]

definition wf_resolveWithSymlinks :: "filesys \<Rightarrow> string \<Rightarrow> string \<Rightarrow> goerr + string" where
  "wf_resolveWithSymlinks fs joined evalRoot =
     (if lstat_ok fs joined then
        (case EvalSymlinks fs joined of Inr ev \<Rightarrow> Inr ev | Inl e \<Rightarrow> Inl e)
      else wf_resolve_walk fs joined evalRoot joined [])"

definition ValidateContainedPath :: "filesys \<Rightarrow> string \<Rightarrow> string \<Rightarrow> goerr option" where
  "ValidateContainedPath fs root rel =
     (if IsAbs rel then Some (errorf (''absolute path not allowed: '' @ quoted rel))
      else
        (let cleanRel = Clean rel in
         if cleanRel = dotdot \<or> prefix (dotdot @ [slash]) cleanRel
         then Some (errorf (''path escapes root via ..: '' @ quoted rel))
         else
           (let cleanRel = (if cleanRel = ''.'' then '''' else cleanRel);
                joined = Join [root, cleanRel];
                evalRoot = eval_root fs root in
            case wf_resolveWithSymlinks fs joined evalRoot of
              Inl e \<Rightarrow> Some (wrap_err ''resolve path'' e)
            | Inr r \<Rightarrow>
                (let resolved = Clean r in
                 if \<not> inside resolved evalRoot
                 then Some (errorf (''path escapes root via symlink: '' @ quoted rel @ '' -> '' @
                        quoted resolved @ '' not inside '' @ quoted evalRoot))
                 else None))))"

section \<open>Lemmas\<close>

lemma resolve_step_eq:
  "resolve_step stepID ss mc =
     (case filter (\<lambda>s. ID s = stepID \<and> Workspace s \<noteq> None) ss of
        [] \<Rightarrow> mc | s # _ \<Rightarrow> override_workspace (Workspace s) mc)"
  by (induction ss) auto

lemma wf_resolve_walk_eq: "wf_resolve_walk fs joined er cur sfx = resolve_walk fs joined er cur sfx"
proof (induction fs joined er cur sfx rule: resolve_walk.induct)
  case (1 fs joined er cur sfx)
  then show ?case
    by (subst wf_resolve_walk.simps, subst resolve_walk.simps) auto
qed

lemma wf_resolveWithSymlinks_eq: "wf_resolveWithSymlinks = resolveWithSymlinks"
  by (auto simp: fun_eq_iff wf_resolveWithSymlinks_def resolveWithSymlinks_def wf_resolve_walk_eq
      split: sum.splits)

lemma clean_escape_iff:
  assumes "\<not> IsAbs p"
  shows "Clean p = dotdot \<or> prefix (dotdot @ [slash]) (Clean p) \<longleftrightarrow> dotdot \<in> set (comps p)"
proof (cases "comps p = []")
  case True
  with assms show ?thesis by (auto simp: Clean_dot_iff [THEN iffD2] dotdot_def)
next
  case False
  then have "clean_logical p = Clean p" using assms by (simp add: clean_logical_join Clean_rel)
  with escape_iff [OF assms] show ?thesis by simp
qed

lemma ValidateContainedPath_None_iff:
  "ValidateContainedPath fs root rel = None \<longleftrightarrow>
     \<not> IsAbs rel \<and> dotdot \<notin> set (comps rel) \<and>
     (\<exists>r. resolveWithSymlinks fs (Join [root, clean_logical rel]) (eval_root fs root) = Inr r \<and>
        inside (Clean r) (eval_root fs root))"
  using clean_escape_iff [of rel]
  by (auto simp: ValidateContainedPath_def clean_logical_def Let_def wf_resolveWithSymlinks_eq
      split: sum.splits)

text \<open>The entries of a directory that hold a parsable workflow.\<close>

definition found :: "wf_os \<Rightarrow> (string \<Rightarrow> string + Workflow) \<Rightarrow> string \<Rightarrow> Discovered \<Rightarrow> bool" where
  "found os dec b d \<longleftrightarrow>
     d_Path d = Join [b, d_Name d, ''workflow.yaml''] \<and> stat_isdir os (d_Path d) = IoOk False \<and>
     (\<exists>rd. open_file os (d_Path d) = Inr rd \<and> Parse dec rd = Inr (d_Workflow d))"

lemma discover_loop_skip:
  assumes "\<not> isdir \<or> stat_isdir os (Join [b, name, ''workflow.yaml'']) \<noteq> IoOk False"
    "discover_loop os dec b ((name, isdir) # es) out = Inr res"
  shows "discover_loop os dec b es out = Inr res"
  using assms by (cases isdir) (auto simp: Let_def split: io.splits bool.splits)

lemma discover_loop_take:
  assumes "stat_isdir os (Join [b, name, ''workflow.yaml'']) = IoOk False"
    "discover_loop os dec b ((name, True) # es) out = Inr res"
  obtains w where "found os dec b \<lparr>d_Name = name, d_Path = Join [b, name, ''workflow.yaml''], d_Workflow = w\<rparr>"
    "discover_loop os dec b es (out @ [\<lparr>d_Name = name, d_Path = Join [b, name, ''workflow.yaml''], d_Workflow = w\<rparr>])
       = Inr res"
  using assms by (auto simp: Let_def found_def split: sum.splits)

lemma discover_loop_Inr:
  assumes "discover_loop os dec b es out = Inr res"
  shows "set res = set out \<union> {d. (d_Name d, True) \<in> set es \<and> found os dec b d}"
  using assms
proof (induction es arbitrary: out)
  case (Cons e es)
  obtain name isdir where e: "e = (name, isdir)" by (cases e)
  show ?case
  proof (cases "isdir \<and> stat_isdir os (Join [b, name, ''workflow.yaml'']) = IoOk False")
    case False
    then have "discover_loop os dec b es out = Inr res"
      using discover_loop_skip Cons.prems e by blast
    moreover have "\<not> found os dec b d" if "d_Name d = name" isdir for d
      using False that by (auto simp: found_def)
    ultimately show ?thesis using Cons.IH by (auto simp: e)
  next
    case True
    then have "discover_loop os dec b ((name, True) # es) out = Inr res"
      "stat_isdir os (Join [b, name, ''workflow.yaml'']) = IoOk False"
      using Cons.prems by (simp_all add: e del: discover_loop.simps)
    from discover_loop_take [OF this(2,1)] obtain D where
      D: "found os dec b D" "d_Name D = name" "discover_loop os dec b es (out @ [D]) = Inr res"
      by (metis Discovered.select_convs(1))
    have "d = D" if "found os dec b d" "d_Name d = name" for d
    proof -
      from that D(1,2) have "d_Path d = d_Path D" by (simp add: found_def)
      moreover from this that D(1) have "d_Workflow d = d_Workflow D" by (auto simp: found_def)
      ultimately show ?thesis using that(2) D(2) by simp
    qed
    then have "{d. (d_Name d, True) \<in> set (e # es) \<and> found os dec b d} =
        insert D {d. (d_Name d, True) \<in> set es \<and> found os dec b d}"
      using D(1,2) True unfolding e by fastforce
    then show ?thesis using Cons.IH [OF D(3)] by simp
  qed
qed simp

lemma Parse_Inr_iff:
  "Parse dec rd = Inr w \<longleftrightarrow>
     (\<exists>data. rd = Inr data \<and> dec data = Inr w) \<and> wf_Version w = 2 \<and> wf_Steps w \<noteq> []"
  by (auto simp: Parse_def split: sum.splits)

section \<open>Properties\<close>

text \<open>\<^verbatim>\<open>Discover\<close>, when it succeeds on a readable directory, returns exactly the
  workflows of the subdirectories that hold a regular \<^verbatim>\<open>workflow.yaml\<close>, each parsed as
  version 2 with at least one step, sorted by directory name.\<close>

theorem discover_exact:
  assumes "ReadDir os (Join [root, ''.haro'', ''workflows'']) = IoOk es" "Discover os dec root = Inr ds"
  shows "sorted (map d_Name ds) \<and>
    set ds = {d. (d_Name d, True) \<in> set es \<and>
      d_Path d = Join [Join [root, ''.haro'', ''workflows''], d_Name d, ''workflow.yaml''] \<and>
      stat_isdir os (d_Path d) = IoOk False \<and>
      (\<exists>data. open_file os (d_Path d) = Inr (Inr data) \<and> dec data = Inr (d_Workflow d)) \<and>
      wf_Version (d_Workflow d) = 2 \<and> wf_Steps (d_Workflow d) \<noteq> []}"
proof -
  from assms obtain out where o: "discover_loop os dec (Join [root, ''.haro'', ''workflows'']) es [] = Inr out"
    "ds = sort_key d_Name out"
    by (auto simp: Discover_def Let_def split: sum.splits)
  show ?thesis
    using discover_loop_Inr [OF o(1)] by (auto simp: o(2) Parse_Inr_iff found_def)
qed

definition demo_os :: wf_os where
  "demo_os = \<lparr>ReadDir = (\<lambda>p. if p = ''/r/.haro/workflows'' then IoOk [(''b'', True), (''README'', False), (''a'', True)]
        else IoNotExist (errorf ''missing'')),
     stat_isdir = (\<lambda>p. if p = ''/r/.haro/workflows/a/workflow.yaml'' then IoOk False
        else IoNotExist (errorf ''missing'')),
     open_file = (\<lambda>p. Inr (Inr ''yaml''))\<rparr>"

definition demo_wf :: Workflow where
  "demo_wf = \<lparr>wf_Version = 2, wf_Name = ''w'', wf_Workspace = None, wf_Inputs = [], wf_Outputs = [],
     wf_Steps = [zero_Step]\<rparr>"

theorem discover_exact_witness:
  "\<exists>ds. Discover demo_os (\<lambda>_. Inr demo_wf) ''/r'' = Inr ds \<and> map d_Name ds = [''a''] \<and> sorted (map d_Name ds)"
proof -
  have r: "ReadDir demo_os (Join [''/r'', ''.haro'', ''workflows'']) =
      IoOk [(''b'', True), (''README'', False), (''a'', True)]" by code_simp
  have "map_sum err_msg (map d_Name) (Discover demo_os (\<lambda>_. Inr demo_wf) ''/r'') = Inr [''a'']"
    by code_simp
  from map_sum_InrD [OF this] obtain ds where
    ds: "Discover demo_os (\<lambda>_. Inr demo_wf) ''/r'' = Inr ds \<and> map d_Name ds = [''a'']" by (rule exE)
  have "sorted (map d_Name ds)"
    using discover_exact [OF r ds [THEN conjunct1]] by (rule conjunct1)
  with ds show ?thesis by (intro exI [of _ ds]) (simp only: simp_thms)
qed

definition inherited :: "'a \<Rightarrow> (WorkspaceConfig \<Rightarrow> 'a option) \<Rightarrow> WorkspaceConfig option list \<Rightarrow> 'a" where
  "inherited dflt field ws = (case [v. Some c \<leftarrow> ws, Some v \<leftarrow> [field c]] of [] \<Rightarrow> dflt | v # _ \<Rightarrow> v)"

text \<open>Workspace inheritance: each of mode and conflict policy is the step's value when the step
  sets it, else the workflow's, else the system default \<^verbatim>\<open>isolated\<close> and
  \<^verbatim>\<open>block\<close>.\<close>

theorem resolve_workspace_inherits:
  assumes "s \<in> set (wf_Steps f)" "distinct (map ID (wf_Steps f))"
  shows "ResolveWorkspace f (ID s) =
    (inherited ''isolated'' wc_Mode [Workspace s, wf_Workspace f],
     inherited ''block'' wc_OnLogicalConflict [Workspace s, wf_Workspace f])"
proof -
  have "filter (\<lambda>t. ID t = ID s \<and> Workspace t \<noteq> None) ss = (if Workspace s = None then [] else [s])"
    if "s \<in> set ss" "distinct (map ID ss)" for ss
    using that
  proof (induction ss)
    case (Cons t ss)
    then show ?case
      by (cases "s = t") (auto simp: filter_empty_conv image_iff)
  qed simp
  with assms show ?thesis
    by (auto simp: ResolveWorkspace_def resolve_step_eq override_workspace_def inherited_def split: option.splits)
qed

theorem resolve_workspace_inherits_witness:
  "ResolveWorkspace (demo_wf\<lparr>wf_Workspace := Some \<lparr>wc_Mode = Some ''shared'', wc_OnLogicalConflict = None\<rparr>\<rparr>) '''' =
   (''shared'', ''block'')"
  using resolve_workspace_inherits [of zero_Step
      "demo_wf\<lparr>wf_Workspace := Some \<lparr>wc_Mode = Some ''shared'', wc_OnLogicalConflict = None\<rparr>\<rparr>"]
  by (simp add: demo_wf_def zero_Step_def inherited_def)

text \<open>\<^verbatim>\<open>ValidateContainedPath\<close> accepts exactly the relative paths without a climb above
  the root whose symlink-resolved target is the resolved root or lies under it; on non-empty
  paths this is exactly when \<^verbatim>\<open>claim.Canonicalize\<close> accepts.\<close>

theorem validate_contained_path_iff:
  "(ValidateContainedPath fs root rel = None \<longleftrightarrow>
     \<not> IsAbs rel \<and> dotdot \<notin> set (comps rel) \<and>
     (\<exists>r. wf_resolveWithSymlinks fs (Join [root, clean_logical rel]) (eval_root fs root) = Inr r \<and>
        inside (Clean r) (eval_root fs root))) \<and>
   (comps rel = [] \<or> (ValidateContainedPath fs root rel = None) = (\<exists>c. Canonicalize fs root rel = Inr c))"
proof -
  have "(ValidateContainedPath fs root rel = None) = (\<exists>c. Canonicalize fs root rel = Inr c)" if "comps rel \<noteq> []"
  proof (cases "IsAbs rel \<or> dotdot \<in> set (comps rel)")
    case True
    then show ?thesis
      using Canonicalize_InrD(2,4) by (fastforce simp: ValidateContainedPath_None_iff)
  next
    case False
    have "rel \<noteq> ''''" using that by (auto simp: comps_def clean_elems_def)
    moreover have "clean_logical rel \<noteq> ''''" using that by (simp add: clean_logical_Nil_iff)
    ultimately show ?thesis
      using False escape_iff [of rel]
      by (auto simp: ValidateContainedPath_None_iff Canonicalize_def Let_def split: sum.splits)
  qed
  then show ?thesis by (auto simp: ValidateContainedPath_None_iff wf_resolveWithSymlinks_eq)
qed

end
