(* ===== verification/Json.thy ===== *)
theory Json
  imports Prelude
begin

text \<open>
  What Haro uses of \<^verbatim>\<open>unicode/utf8\<close> and \<^verbatim>\<open>encoding/json\<close>: the runes of
  a string, \<^verbatim>\<open>json.Marshal\<close> of a \<^verbatim>\<open>[]string\<close> and
  \<^verbatim>\<open>json.Unmarshal\<close> into one. The columns \<^verbatim>\<open>depends_on\<close>,
  \<^verbatim>\<open>requires\<close> and \<^verbatim>\<open>produces\<close> of a step row are written with the
  first and read with the second; the round trip is what the engine relies on.
\<close>

section \<open>UTF-8\<close>

definition byte :: "char \<Rightarrow> nat" where
  "byte c = of_char c"

definition in_range :: "nat \<Rightarrow> nat \<Rightarrow> char \<Rightarrow> bool" where
  "in_range lo hi c \<longleftrightarrow> lo \<le> byte c \<and> byte c \<le> hi"

definition continuation :: "char \<Rightarrow> bool" where
  "continuation c = in_range 0x80 0xBF c"

text \<open>The width of the well-formed sequence at the start of a string, 0 when there is none.\<close>

fun rune_width :: "string \<Rightarrow> nat" where
  "rune_width [] = 0"
| "rune_width (a # s) =
     (if byte a < 0x80 then 1
      else
        (case s of
           [] \<Rightarrow> 0
         | b # s \<Rightarrow>
             if in_range 0xC2 0xDF a then (if continuation b then 2 else 0)
             else
               (case s of
                  [] \<Rightarrow> 0
                | c # s \<Rightarrow>
                    if in_range 0xE0 0xEF a then
                      (if in_range (if byte a = 0xE0 then 0xA0 else 0x80) (if byte a = 0xED then 0x9F else 0xBF) b \<and>
                          continuation c then 3 else 0)
                    else
                      (case s of
                         [] \<Rightarrow> 0
                       | d # s \<Rightarrow>
                           if in_range 0xF0 0xF4 a \<and>
                              in_range (if byte a = 0xF0 then 0x90 else 0x80) (if byte a = 0xF4 then 0x8F else 0xBF) b \<and>
                              continuation c \<and> continuation d
                           then 4 else 0))))"

definition replacement :: string where
  "replacement = [char_of (0xEF::nat), char_of (0xBF::nat), char_of (0xBD::nat)]"

text \<open>\<^verbatim>\<open>for _, r := range s\<close>, each rune as the bytes of \<^verbatim>\<open>string(r)\<close>.\<close>

function runes :: "string \<Rightarrow> string list" where
  "runes [] = []"
| "runes (a # s) =
     (let n = rune_width (a # s) in
      if n = 0 then replacement # runes s else take n (a # s) # runes (drop n (a # s)))"
  by pat_completeness auto

termination runes
  by (relation "measure length") auto

definition valid_utf8 :: "string \<Rightarrow> bool" where
  "valid_utf8 s \<longleftrightarrow> concat (runes s) = s"

text \<open>\<^verbatim>\<open>strings.TrimSpace\<close>, on the runes of the string with malformed bytes kept.\<close>

function pieces :: "string \<Rightarrow> string list" where
  "pieces [] = []"
| "pieces (a # s) = (let n = max 1 (rune_width (a # s)) in take n (a # s) # pieces (drop n (a # s)))"
  by pat_completeness auto

termination pieces
  by (relation "measure length") auto

definition wide_spaces :: "nat list list" where
  "wide_spaces = [[0xC2, 0x85], [0xC2, 0xA0], [0xE1, 0x9A, 0x80]] @ map (\<lambda>n. [0xE2, 0x80, n]) [0x80..<0x8B] @
     [[0xE2, 0x80, 0xA8], [0xE2, 0x80, 0xA9], [0xE2, 0x80, 0xAF], [0xE2, 0x81, 0x9F], [0xE3, 0x80, 0x80]]"

definition space_rune :: "string \<Rightarrow> bool" where
  "space_rune r \<longleftrightarrow> (\<exists>c \<in> set r. r = [c] \<and> is_space c) \<or> map byte r \<in> set wide_spaces"

definition TrimSpace :: "string \<Rightarrow> string" where
  "TrimSpace s = concat (rev (dropWhile space_rune (rev (dropWhile space_rune (pieces s)))))"

section \<open>Marshal\<close>

definition hex4 :: "nat \<Rightarrow> string" where
  "hex4 n = [hex_digit (n div 4096 mod 16), hex_digit (n div 256 mod 16), hex_digit (n div 16 mod 16), hex_digit (n mod 16)]"

definition escape_u :: "nat \<Rightarrow> string" where
  "escape_u n = [CHR 0x5C, CHR ''u''] @ hex4 n"

definition json_ascii :: "char \<Rightarrow> string" where
  "json_ascii c =
     (if c = CHR 0x22 then [CHR 0x5C, CHR 0x22]
      else if c = CHR 0x5C then [CHR 0x5C, CHR 0x5C]
      else if c = CHR 0x08 then [CHR 0x5C, CHR ''b'']
      else if c = CHR 0x0C then [CHR 0x5C, CHR ''f'']
      else if c = CHR 0x0A then [CHR 0x5C, CHR ''n'']
      else if c = CHR 0x0D then [CHR 0x5C, CHR ''r'']
      else if c = CHR 0x09 then [CHR 0x5C, CHR ''t'']
      else if byte c < 32 \<or> c = CHR ''<'' \<or> c = CHR ''>'' \<or> c = CHR ''&'' then escape_u (byte c)
      else [c])"

definition line_separators :: "string list" where
  "line_separators = [[char_of (0xE2::nat), char_of (0x80::nat), char_of (0xA8::nat)],
     [char_of (0xE2::nat), char_of (0x80::nat), char_of (0xA9::nat)]]"

function json_chars :: "string \<Rightarrow> string" where
  "json_chars [] = []"
| "json_chars (a # s) =
     (let n = rune_width (a # s); r = take n (a # s) in
      if n = 0 then escape_u 0xFFFD @ json_chars s
      else if n = 1 then json_ascii a @ json_chars s
      else (if r = line_separators ! 0 then escape_u 0x2028
            else if r = line_separators ! 1 then escape_u 0x2029 else r) @ json_chars (drop n (a # s)))"
  by pat_completeness auto

termination json_chars
  by (relation "measure length") auto

definition json_string :: "string \<Rightarrow> string" where
  "json_string s = [CHR 0x22] @ json_chars s @ [CHR 0x22]"

text \<open>A \<^verbatim>\<open>nil\<close> slice is \<open>None\<close> and marshals to \<^verbatim>\<open>null\<close>.\<close>

definition json_strings :: "string list option \<Rightarrow> string" where
  "json_strings xs = (case xs of None \<Rightarrow> ''null'' | Some xs \<Rightarrow> ''['' @ join_with '','' (map json_string xs) @ '']'')"

section \<open>Unmarshal\<close>

datatype json = JNull | JBool bool | JNum string | JStr string | JArr "json list" | JObj "(string \<times> json) list"

definition json_space :: "char \<Rightarrow> bool" where
  "json_space c \<longleftrightarrow> c \<in> {CHR '' '', CHR 0x09, CHR 0x0A, CHR 0x0D}"

definition skip_space :: "string \<Rightarrow> string" where
  "skip_space s = dropWhile json_space s"

definition hex_value :: "char \<Rightarrow> nat option" where
  "hex_value c =
     (if in_range 48 57 c then Some (byte c - 48)
      else if in_range 97 102 c then Some (byte c - 87)
      else if in_range 65 70 c then Some (byte c - 55)
      else None)"

fun getu4 :: "string \<Rightarrow> nat option" where
  "getu4 (a # b # c # d # s) =
     (case (hex_value a, hex_value b, hex_value c, hex_value d) of
        (Some w, Some x, Some y, Some z) \<Rightarrow> Some (((w * 16 + x) * 16 + y) * 16 + z)
      | _ \<Rightarrow> None)"
| "getu4 _ = None"

text \<open>\<^verbatim>\<open>utf8.AppendRune\<close>\<close>

definition encode_rune :: "nat \<Rightarrow> string" where
  "encode_rune n =
     map char_of
       (if n < 0x80 then [n]
        else if n < 0x800 then [0xC0 + n div 64, 0x80 + n mod 64]
        else if 0xD800 \<le> n \<and> n \<le> 0xDFFF \<or> 0x10FFFF < n then [0xEF, 0xBF, 0xBD]
        else if n < 0x10000 then [0xE0 + n div 4096, 0x80 + n div 64 mod 64, 0x80 + n mod 64]
        else [0xF0 + n div 262144, 0x80 + n div 4096 mod 64, 0x80 + n div 64 mod 64, 0x80 + n mod 64])"

text \<open>The second half of a surrogate pair, when the text goes on with one.\<close>

definition low_surrogate :: "nat \<Rightarrow> string \<Rightarrow> nat option" where
  "low_surrogate hi s =
     (case s of
        a # b # s' \<Rightarrow>
          (if a = CHR 0x5C \<and> b = CHR ''u'' then
             (case getu4 s' of
                None \<Rightarrow> None
              | Some lo \<Rightarrow>
                  if 0xD800 \<le> hi \<and> hi < 0xDC00 \<and> 0xDC00 \<le> lo \<and> lo < 0xE000
                  then Some ((hi - 0xD800) * 1024 + (lo - 0xDC00) + 0x10000) else None)
           else None)
      | _ \<Rightarrow> None)"

text \<open>The body of a string literal after the opening quote: the string and the text after the
  closing quote. \<open>None\<close> is a syntax error.\<close>

function json_body :: "string \<Rightarrow> (string \<times> string) option" where
  "json_body [] = None"
| "json_body (a # s) =
     (if a = CHR 0x22 then Some ([], s)
      else if a = CHR 0x5C then
        (case s of
           [] \<Rightarrow> None
         | b # s \<Rightarrow>
             if b \<in> {CHR 0x22, CHR 0x5C, CHR ''/''} then map_option (apfst ((@) [b])) (json_body s)
             else if b = CHR ''b'' then map_option (apfst ((@) [CHR 0x08])) (json_body s)
             else if b = CHR ''f'' then map_option (apfst ((@) [CHR 0x0C])) (json_body s)
             else if b = CHR ''n'' then map_option (apfst ((@) [CHR 0x0A])) (json_body s)
             else if b = CHR ''r'' then map_option (apfst ((@) [CHR 0x0D])) (json_body s)
             else if b = CHR ''t'' then map_option (apfst ((@) [CHR 0x09])) (json_body s)
             else if b = CHR ''u'' then
               (case getu4 s of
                  None \<Rightarrow> None
                | Some n \<Rightarrow>
                    (case low_surrogate n (drop 4 s) of
                       Some m \<Rightarrow> map_option (apfst ((@) (encode_rune m))) (json_body (drop 10 s))
                     | None \<Rightarrow> map_option (apfst ((@) (encode_rune n))) (json_body (drop 4 s))))
             else None)
      else if byte a < 32 then None
      else
        (let n = rune_width (a # s) in
         if n = 0 then map_option (apfst ((@) replacement)) (json_body s)
         else map_option (apfst ((@) (take n (a # s)))) (json_body (drop n (a # s)))))"
  by pat_completeness auto

termination json_body
  by (relation "measure length") auto

text \<open>Numbers: \<^verbatim>\<open>-?(0|[1-9][0-9]*)(\.[0-9]+)?([eE][+-]?[0-9]+)?\<close>\<close>

definition json_digit :: "char \<Rightarrow> bool" where
  "json_digit c = in_range 48 57 c"

definition digits1 :: "string \<Rightarrow> (string \<times> string) option" where
  "digits1 s = (case takeWhile json_digit s of [] \<Rightarrow> None | ds \<Rightarrow> Some (ds, dropWhile json_digit s))"

definition integer_part :: "string \<Rightarrow> (string \<times> string) option" where
  "integer_part s =
     (case s of [] \<Rightarrow> None | c # r \<Rightarrow> if c = CHR ''0'' then Some ([c], r) else digits1 s)"

definition optional_part :: "(char \<Rightarrow> bool) \<Rightarrow> (char \<Rightarrow> bool) \<Rightarrow> string \<Rightarrow> string \<times> string" where
  "optional_part mark sign s =
     (case s of
        [] \<Rightarrow> ([], s)
      | c # r \<Rightarrow>
          if mark c then
            (let sg = (case r of d # _ \<Rightarrow> if sign d then [d] else [] | [] \<Rightarrow> []) in
             case digits1 (drop (length sg) r) of Some (ds, r') \<Rightarrow> (c # sg @ ds, r') | None \<Rightarrow> ([], s))
          else ([], s))"

definition json_number :: "string \<Rightarrow> (string \<times> string) option" where
  "json_number s =
     (let m = (case s of c # _ \<Rightarrow> if c = CHR ''-'' then [c] else [] | [] \<Rightarrow> []) in
      case integer_part (drop (length m) s) of
        None \<Rightarrow> None
      | Some (i, r) \<Rightarrow>
          (let (f, r) = optional_part (\<lambda>c. c = CHR ''.'') (\<lambda>_. False) r;
               (e, r) = optional_part (\<lambda>c. c = CHR ''e'' \<or> c = CHR ''E'') (\<lambda>c. c = CHR ''+'' \<or> c = CHR ''-'') r
           in Some (m @ i @ f @ e, r)))"

definition literal :: "string \<Rightarrow> json \<Rightarrow> string \<Rightarrow> (json \<times> string) option" where
  "literal w v s = (if prefix w s then Some (v, drop (length w) s) else None)"

text \<open>One value, then the text after it. The fuel bounds the number of nested calls: every call
  consumes a character, so the length of the text is enough. Arrays and objects nest at most
  10000 deep.\<close>

fun json_value :: "nat \<Rightarrow> nat \<Rightarrow> string \<Rightarrow> (json \<times> string) option"
and json_elems :: "nat \<Rightarrow> nat \<Rightarrow> string \<Rightarrow> (json list \<times> string) option"
and json_fields :: "nat \<Rightarrow> nat \<Rightarrow> string \<Rightarrow> ((string \<times> json) list \<times> string) option" where
  "json_value 0 d s = None"
| "json_value (Suc n) d s =
     (case skip_space s of
        [] \<Rightarrow> None
      | c # r \<Rightarrow>
          if c = CHR 0x22 then map_option (apfst JStr) (json_body r)
          else if c = CHR ''['' then
            (if d = 0 then None
             else
               (case skip_space r of
                  [] \<Rightarrow> None
                | c' # r' \<Rightarrow> if c' = CHR '']'' then Some (JArr [], r')
                    else map_option (apfst JArr) (json_elems n (d - 1) (c' # r'))))
          else if c = CHR ''{'' then
            (if d = 0 then None
             else
               (case skip_space r of
                  [] \<Rightarrow> None
                | c' # r' \<Rightarrow> if c' = CHR ''}'' then Some (JObj [], r')
                    else map_option (apfst JObj) (json_fields n (d - 1) (c' # r'))))
          else if c = CHR ''t'' then literal ''true'' (JBool True) (c # r)
          else if c = CHR ''f'' then literal ''false'' (JBool False) (c # r)
          else if c = CHR ''n'' then literal ''null'' JNull (c # r)
          else map_option (apfst JNum) (json_number (c # r)))"
| "json_elems 0 d s = None"
| "json_elems (Suc n) d s =
     (case json_value n d s of
        None \<Rightarrow> None
      | Some (v, r) \<Rightarrow>
          (case skip_space r of
             [] \<Rightarrow> None
           | c # r' \<Rightarrow>
               if c = CHR '']'' then Some ([v], r')
               else if c = CHR '','' then map_option (apfst ((#) v)) (json_elems n d r')
               else None))"
| "json_fields 0 d s = None"
| "json_fields (Suc n) d s =
     (case skip_space s of
        [] \<Rightarrow> None
      | q # r \<Rightarrow>
          if q \<noteq> CHR 0x22 then None
          else
            (case json_body r of
               None \<Rightarrow> None
             | Some (k, r) \<Rightarrow>
                 (case skip_space r of
                    [] \<Rightarrow> None
                  | c # r \<Rightarrow>
                      if c \<noteq> CHR '':'' then None
                      else
                        (case json_value n d r of
                           None \<Rightarrow> None
                         | Some (v, r) \<Rightarrow>
                             (case skip_space r of
                                [] \<Rightarrow> None
                              | c # r' \<Rightarrow>
                                  if c = CHR ''}'' then Some ([(k, v)], r')
                                  else if c = CHR '','' then map_option (apfst ((#) (k, v))) (json_fields n d r')
                                  else None)))))"

definition json_parse :: "string \<Rightarrow> json option" where
  "json_parse s =
     (case json_value (2 * length s + 2) 10000 s of
        None \<Rightarrow> None
      | Some (v, r) \<Rightarrow> if skip_space r = [] then Some v else None)"

text \<open>Decoding into a \<^verbatim>\<open>[]string\<close>: the slice and whether an error is reported. A value of
  another type reports an error and leaves its slot empty; \<^verbatim>\<open>null\<close> leaves it empty
  silently; after a syntax error nothing is decoded.\<close>

definition json_elem :: "json \<Rightarrow> string \<times> bool" where
  "json_elem v = (case v of JStr s \<Rightarrow> (s, False) | JNull \<Rightarrow> ([], False) | _ \<Rightarrow> ([], True))"

definition unmarshal_strings :: "string \<Rightarrow> string list \<times> bool" where
  "unmarshal_strings s =
     (case json_parse s of
        None \<Rightarrow> ([], True)
      | Some JNull \<Rightarrow> ([], False)
      | Some (JArr vs) \<Rightarrow> (map (fst \<circ> json_elem) vs, list_ex (snd \<circ> json_elem) vs)
      | Some _ \<Rightarrow> ([], True))"

section \<open>Round trip\<close>

lemma rune_width_bound: "rune_width s \<le> length s"
  by (cases s) (auto split: list.splits)

lemma four_cases:
  "s = [] \<or> (\<exists>a. s = [a]) \<or> (\<exists>a b. s = [a, b]) \<or> (\<exists>a b c. s = [a, b, c]) \<or> (\<exists>a b c d r. s = a # b # c # d # r)"
  by (metis neq_Nil_conv)

lemma rune_width_append: "rune_width s \<noteq> 0 \<Longrightarrow> rune_width (s @ t) = rune_width s"
  using four_cases [of s] by (elim disjE exE) (simp_all split: if_split_asm)

lemma rune_width_ascii: "byte a < 0x80 \<Longrightarrow> rune_width (a # s) = 1"
  by simp

lemma rune_width_one: "rune_width (a # s) = 1 \<Longrightarrow> byte a < 0x80"
  by (auto split: if_splits list.splits)

lemma hex_value_hex_digit: "d < 16 \<Longrightarrow> hex_value (hex_digit d) = Some d"
  by (auto simp: hex_value_def hex_digit_def in_range_def byte_def)

lemma getu4_hex4: "n < 65536 \<Longrightarrow> getu4 (hex4 n @ s) = Some n"
proof -
  assume "n < 65536"
  then have "n div 4096 < 16" by (simp add: less_mult_imp_div_less)
  moreover have "((n div 4096 * 16 + n div 256 mod 16) * 16 + n div 16 mod 16) * 16 + n mod 16 = n"
    using div_mult_mod_eq [of n 16] div_mult_mod_eq [of "n div 16" 16] div_mult_mod_eq [of "n div 256" 16]
    by (simp add: div_mult2_eq [symmetric])
  ultimately show ?thesis by (simp add: hex4_def hex_value_hex_digit)
qed

lemma rune_width_take: "rune_width (take (rune_width s) s) = rune_width s"
  using four_cases [of s] by (elim disjE exE) (simp_all)

lemma json_body_escape:
  assumes "n < 65536" "\<not> (0xD800 \<le> n \<and> n \<le> 0xDFFF)"
  shows "json_body (escape_u n @ s) = map_option (apfst ((@) (encode_rune n))) (json_body s)"
proof -
  have "low_surrogate n s = None"
    using assms(2) by (auto simp: low_surrogate_def split: list.splits option.splits)
  moreover have "length (hex4 n) = 4" by (simp add: hex4_def)
  ultimately show ?thesis using getu4_hex4 [OF assms(1), of s] by (simp add: escape_u_def)
qed

lemma json_body_ascii:
  assumes "byte a < 0x80"
  shows "json_body (json_ascii a @ s) = map_option (apfst ((@) [a])) (json_body s)"
proof -
  let ?named = "{CHR 0x22, CHR 0x5C, CHR 0x08, CHR 0x0C, CHR 0x0A, CHR 0x0D, CHR 0x09}"
  let ?esc = "byte a < 32 \<or> a = CHR ''<'' \<or> a = CHR ''>'' \<or> a = CHR ''&''"
  consider (named) "a \<in> ?named" | (esc) "json_ascii a = escape_u (byte a)"
    | (plain) "json_ascii a = [a]" "\<not> byte a < 32" "a \<noteq> CHR 0x22" "a \<noteq> CHR 0x5C"
    by (cases "a \<in> ?named"; cases ?esc) (simp_all add: json_ascii_def)
  then show ?thesis
  proof cases
    case named
    then show ?thesis by (elim insertE emptyE) (simp_all add: json_ascii_def)
  next
    case esc
    have "byte a < 65536" "\<not> (0xD800 \<le> byte a \<and> byte a \<le> 0xDFFF)" "encode_rune (byte a) = [a]"
      using assms by (simp_all add: encode_rune_def byte_def)
    with json_body_escape [OF this(1,2), of s] esc show ?thesis by simp
  next
    case plain
    then show ?thesis using assms by simp
  qed
qed

lemma json_body_rune:
  assumes "rune_width (a # s) = n" "0x80 \<le> byte a" "n \<noteq> 0"
  shows "json_body (take n (a # s) @ t) = map_option (apfst ((@) (take n (a # s)))) (json_body t)"
proof -
  have w: "rune_width (take n (a # s) @ t) = n"
    using assms rune_width_take [of "a # s"] rune_width_append [of "take n (a # s)" t] by simp
  obtain m where n: "n = Suc m" using assms(3) by (cases n) auto
  have l: "length (take n (a # s)) = n" using rune_width_bound [of "a # s"] assms(1) by simp
  have "a \<noteq> CHR 0x22" "a \<noteq> CHR 0x5C" "\<not> byte a < 32" using assms(2) by (auto simp: byte_def)
  then have "json_body (take n (a # s) @ t) =
      map_option (apfst ((@) (take n (take n (a # s) @ t)))) (json_body (drop n (take n (a # s) @ t)))"
    using w assms(3) by (simp add: n del: rune_width.simps)
  then show ?thesis using l by simp
qed

lemma json_body_chars: "json_body (json_chars s @ CHR 0x22 # t) = Some (concat (runes s), t)"
proof (induction s rule: json_chars.induct)
  case 1
  show ?case by simp
next
  case (2 a s)
  define n where "n = rune_width (a # s)"
  consider "n = 0" | "n = 1" | "n \<noteq> 0" "n \<noteq> 1" by blast
  then show ?case
  proof cases
    case 1
    have "encode_rune 0xFFFD = replacement" by (simp add: encode_rune_def replacement_def)
    then show ?thesis using 1 2(1) json_body_escape [of "0xFFFD"] by (simp add: n_def del: rune_width.simps json_body.simps)
  next
    case 2
    then have "byte a < 0x80" using rune_width_one n_def by metis
    from json_body_ascii [OF this] 2 "2.IH"(2) show ?thesis
      by (simp add: n_def del: rune_width.simps json_body.simps)
  next
    case 3
    have "0x80 \<le> byte a" using 3 rune_width_ascii [of a s] n_def by fastforce
    moreover have "encode_rune 0x2028 = line_separators ! 0" "encode_rune 0x2029 = line_separators ! 1"
      by (simp_all add: encode_rune_def line_separators_def)
    ultimately show ?thesis
      using 3 "2.IH"(3) json_body_rune [of a s n] json_body_escape [of "0x2028"] json_body_escape [of "0x2029"]
      by (simp add: Let_def flip: n_def del: rune_width.simps json_body.simps)
  qed
qed

lemma skip_space_simps [simp]:
  "skip_space (CHR 0x22 # s) = CHR 0x22 # s" "skip_space (CHR ''['' # s) = CHR ''['' # s"
  "skip_space (CHR '']'' # s) = CHR '']'' # s" "skip_space (CHR '','' # s) = CHR '','' # s" "skip_space [] = []"
  "skip_space (CHR ''n'' # s) = CHR ''n'' # s"
  by (simp_all add: skip_space_def json_space_def)

lemma json_value_string: "json_value (Suc n) d (json_string x @ t) = Some (JStr (concat (runes x)), t)"
  by (simp add: json_string_def json_body_chars)

lemma json_elems_strings:
  "xs \<noteq> [] \<Longrightarrow> length xs < n \<Longrightarrow>
   json_elems n d (join_with '','' (map json_string xs) @ CHR '']'' # t) = Some (map (\<lambda>x. JStr (concat (runes x))) xs, t)"
proof (induction xs arbitrary: n)
  case (Cons x xs)
  then obtain m where n: "n = Suc (Suc m)" "length xs < Suc m" by (cases n; cases "n - 1") auto
  show ?case
  proof (cases xs)
    case Nil
    then show ?thesis using n by (simp add: json_value_string del: json_value.simps)
  next
    case (Cons y ys)
    then show ?thesis using n Cons.IH [of "Suc m"] by (simp add: join_with_Cons json_value_string del: json_value.simps)
  qed
qed simp

lemma length_join_strings: "length xs \<le> length (join_with '','' (map json_string xs))"
proof (induction xs)
  case (Cons x xs)
  then show ?case by (simp add: join_with_Cons json_string_def)
qed simp

lemma json_string_Cons: "\<exists>r. json_string x = CHR 0x22 # r"
  by (simp add: json_string_def)

text \<open>Reading back what was written gives the list with every malformed byte replaced, and no error.\<close>

lemma unmarshal_marshal:
  "unmarshal_strings (json_strings (Some xs)) = (map (\<lambda>x. concat (runes x)) xs, False)"
proof (cases xs)
  case Nil
  then show ?thesis by (simp add: json_strings_def unmarshal_strings_def json_parse_def numeral_eq_Suc)
next
  case (Cons x ys)
  define b where "b = join_with '','' (map json_string xs)"
  obtain r where b: "b = CHR 0x22 # r"
    using json_string_Cons [of x] by (auto simp: b_def Cons join_with_Cons)
  have "json_elems (2 * length b + 5) 9999 (b @ CHR '']'' # []) = Some (map (\<lambda>x. JStr (concat (runes x))) xs, [])"
    unfolding b_def by (rule json_elems_strings) (use length_join_strings [of xs] Cons in auto)
  moreover have "json_value (Suc n) 10000 (CHR ''['' # b @ t) = map_option (apfst JArr) (json_elems n 9999 (b @ t))" for n t
    by (simp add: b)
  ultimately have "json_value (Suc (2 * length b + 5)) 10000 (CHR ''['' # b @ CHR '']'' # []) =
      Some (JArr (map (\<lambda>x. JStr (concat (runes x))) xs), [])"
    by (simp only: option.map apfst_conv)
  moreover have "2 * length (''['' @ b @ '']'') + 2 = Suc (2 * length b + 5)" by simp
  ultimately have "json_parse (''['' @ b @ '']'') = Some (JArr (map (\<lambda>x. JStr (concat (runes x))) xs))"
    unfolding json_parse_def by (simp only: append_Cons append_Nil) simp
  then show ?thesis
    by (simp add: json_strings_def b_def [symmetric] unmarshal_strings_def json_elem_def comp_def list_ex_iff)
qed

lemma unmarshal_null: "unmarshal_strings (json_strings None) = ([], False)"
  by (simp add: json_strings_def unmarshal_strings_def json_parse_def literal_def numeral_eq_Suc)

end
