(* ===== verification/Evidence.thy ===== *)
theory Evidence
  imports Workflow Json
begin

text \<open>
  \<^verbatim>\<open>internal/execution/evidence.go\<close>, \<^verbatim>\<open>fallback.go\<close> and the argument lexer of
  \<^verbatim>\<open>runner.go\<close>: what is kept of the output of commands and harnesses, with credentials
  redacted and lengths bounded, and how the fallback over harness candidates carries it. The regular
  expressions are deterministic matchers on bytes that return the length of the match at a
  position, given the byte before it.
\<close>

section \<open>Redaction\<close>

type_synonym matcher = "char option \<Rightarrow> string \<Rightarrow> nat option"

text \<open>\<^verbatim>\<open>ReplaceAllStringFunc\<close>: leftmost matches, left to right.\<close>

function replace_all :: "matcher \<Rightarrow> (string \<Rightarrow> string) \<Rightarrow> char option \<Rightarrow> string \<Rightarrow> string" where
  "replace_all m f p [] = []"
| "replace_all m f p (c # s) =
     (case m p (c # s) of
        Some (Suc n) \<Rightarrow> f (c # take n s) @ replace_all m f (Some (last (c # take n s))) (drop n s)
      | _ \<Rightarrow> c # replace_all m f (Some c) s)"
  by pat_completeness auto

termination replace_all
  by (relation "measure (\<lambda>(m, f, p, s). length s)") auto

definition span_len :: "(char \<Rightarrow> bool) \<Rightarrow> string \<Rightarrow> nat" where
  "span_len P s = length (takeWhile P s)"

definition is_upper :: "char \<Rightarrow> bool" where
  "is_upper c = in_range 65 90 c"

definition lower_char :: "char \<Rightarrow> char" where
  "lower_char c = (if is_upper c then char_of (byte c + 32) else c)"

definition alnum :: "char \<Rightarrow> bool" where
  "alnum c \<longleftrightarrow> in_range 48 57 c \<or> in_range 65 90 c \<or> in_range 97 122 c"

definition word_char :: "char \<Rightarrow> bool" where
  "word_char c \<longleftrightarrow> alnum c \<or> c = CHR ''_''"

definition boundary :: "char option \<Rightarrow> string \<Rightarrow> bool" where
  "boundary p s \<longleftrightarrow>
     (case p of None \<Rightarrow> False | Some c \<Rightarrow> word_char c) \<noteq> (case s of [] \<Rightarrow> False | c # _ \<Rightarrow> word_char c)"

text \<open>A literal, white space when \<open>sp\<close> is set, and at least \<open>k\<close> characters of a class.\<close>

definition lit_class :: "string \<Rightarrow> bool \<Rightarrow> nat \<Rightarrow> (char \<Rightarrow> bool) \<Rightarrow> string \<Rightarrow> nat option" where
  "lit_class w sp k cls s =
     (if prefix w s then
        (let r = drop (length w) s; a = (if sp then span_len re_space r else 0); b = span_len cls (drop a r) in
         if (sp \<longrightarrow> 0 < a) \<and> k \<le> b then Some (length w + a + b) else None)
      else None)"

definition bearerRe :: matcher where
  "bearerRe p s = lit_class ''Bearer'' True 1 (\<lambda>c. alnum c \<or> c \<in> {CHR ''-'', CHR ''_'', CHR ''.''}) s"

definition basicRe :: matcher where
  "basicRe p s = lit_class ''Basic'' True 1 (\<lambda>c. alnum c \<or> c \<in> {CHR ''+'', CHR ''/'', CHR ''=''}) s"

definition ghpRe :: matcher where
  "ghpRe p s = lit_class ''ghp_'' False 1 alnum s"

definition key_char :: "char \<Rightarrow> bool" where
  "key_char c \<longleftrightarrow> alnum c \<or> c = CHR ''-'' \<or> c = CHR ''_''"

definition skAntRe :: matcher where
  "skAntRe p s = lit_class ''sk-ant-'' False 1 key_char s"

definition skRe :: matcher where
  "skRe p s = (if boundary p s then lit_class ''sk-'' False 10 key_char s else None)"

text \<open>The keywords of \<^verbatim>\<open>tokenAssignRe\<close>, in the order the alternation tries them. Case folding
  also maps U+212A to k and U+017F to s.\<close>

definition keywords_assign :: "string list" where
  "keywords_assign =
     [''token'', ''secret'', ''api_token'', ''api-token'', ''apitoken'', ''api_key'', ''api-key'', ''apikey'',
      ''secret_key'', ''secret-key'', ''secretkey'', ''password'', ''passwd'', ''pwd'']"

definition fold_char :: "char \<Rightarrow> string \<Rightarrow> nat option" where
  "fold_char k s =
     (case s of
        [] \<Rightarrow> None
      | c # _ \<Rightarrow>
          if lower_char c = k then Some 1
          else if k = CHR ''k'' \<and> prefix (map char_of [0xE2, 0x84, 0xAA::nat]) s then Some 3
          else if k = CHR ''s'' \<and> prefix (map char_of [0xC5, 0xBF::nat]) s then Some 2
          else None)"

fun fold_prefix :: "string \<Rightarrow> string \<Rightarrow> nat option" where
  "fold_prefix [] s = Some 0"
| "fold_prefix (k # ks) s =
     (case fold_char k s of None \<Rightarrow> None | Some n \<Rightarrow> map_option ((+) n) (fold_prefix ks (drop n s)))"

definition value_char :: "char \<Rightarrow> bool" where
  "value_char c \<longleftrightarrow> \<not> re_space c \<and> c \<noteq> CHR 0x22 \<and> c \<noteq> CHR 0x27"

text \<open>What follows the keyword: \<^verbatim>\<open>\b\s*[:=]\s*([^\s"']+)\<close>\<close>

definition assign_rest :: "char option \<Rightarrow> string \<Rightarrow> nat option" where
  "assign_rest p s =
     (if boundary p s then
        (let a = span_len re_space s in
         case drop a s of
           [] \<Rightarrow> None
         | c # r \<Rightarrow>
             if c = CHR '':'' \<or> c = CHR ''='' then
               (let b = span_len re_space r; v = span_len value_char (drop b r) in
                if 0 < v then Some (a + 1 + b + v) else None)
             else None)
      else None)"

definition assign_with :: "string \<Rightarrow> string \<Rightarrow> nat option" where
  "assign_with s kw =
     (case fold_prefix kw s of
        None \<Rightarrow> None
      | Some n \<Rightarrow> map_option ((+) n) (assign_rest (Some (last (take n s))) (drop n s)))"

definition tokenAssignRe :: matcher where
  "tokenAssignRe p s = (if boundary p s then first_some (map (assign_with s) keywords_assign) else None)"

text \<open>\<^verbatim>\<open>strings.Index\<close> of a single byte\<close>

definition index_of :: "char \<Rightarrow> string \<Rightarrow> nat option" where
  "index_of c s = (if c \<in> set s then Some (length (takeWhile (\<lambda>x. x \<noteq> c) s)) else None)"

definition redact_assign :: "string \<Rightarrow> string" where
  "redact_assign m =
     (case (case index_of (CHR ''='') m of Some i \<Rightarrow> Some i | None \<Rightarrow> index_of (CHR '':'') m) of
        None \<Rightarrow> m
      | Some i \<Rightarrow> TrimSpace (take (i + 1) m) @ '' ***'')"

definition Redact :: "string \<Rightarrow> string" where
  "Redact s =
     (let s = replace_all bearerRe (\<lambda>_. ''Bearer ***'') None s;
          s = replace_all basicRe (\<lambda>_. ''Basic ***'') None s;
          s = replace_all tokenAssignRe redact_assign None s;
          s = replace_all ghpRe (\<lambda>_. ''***'') None s;
          s = replace_all skAntRe (\<lambda>_. ''***'') None s
      in replace_all skRe (\<lambda>_. ''***'') None s)"

section \<open>Bounds\<close>

definition VisibleLimit :: nat where "VisibleLimit = 16 * 1024"
definition SnapshotLimit :: nat where "SnapshotLimit = 1 * 1024 * 1024"
definition FallbackLimit :: nat where "FallbackLimit = 2 * 1024 * 1024"
definition AgentInstructionsLimit :: nat where "AgentInstructionsLimit = 4 * 1024"

definition visibleTruncationNotice :: string where
  "visibleTruncationNotice = newline @ ''[visible evidence truncated]''"

definition fallbackTruncationNotice :: string where
  "fallbackTruncationNotice = newline @ ''[fallback evidence truncated]''"

definition truncateWithNotice :: "string \<Rightarrow> nat \<Rightarrow> string \<Rightarrow> string" where
  "truncateWithNotice s limit notice =
     (if length s \<le> limit then s
      else if limit \<le> length notice then take limit notice
      else take (limit - length notice) s @ notice)"

definition VisibleEvidence :: "string \<Rightarrow> string" where
  "VisibleEvidence s = truncateWithNotice (Redact s) VisibleLimit visibleTruncationNotice"

definition BoundAgentInstructions :: "string \<Rightarrow> string" where
  "BoundAgentInstructions s = (if AgentInstructionsLimit < length s then take AgentInstructionsLimit s else s)"

definition CommandEvidence :: "string list \<Rightarrow> string \<Rightarrow> string \<Rightarrow> string" where
  "CommandEvidence argv stdout stderr = VisibleEvidence (''$ '' @ join_with '' '' argv @ newline @ stdout @ stderr)"

definition AgentEvidence :: "string \<Rightarrow> int \<Rightarrow> int \<Rightarrow> string \<Rightarrow> string \<Rightarrow> string \<Rightarrow> string" where
  "AgentEvidence harness index tot mode instructions output =
     VisibleEvidence (''harness: '' @ harness @ '' ('' @ itoa index @ ''/'' @ itoa tot @ '')'' @ newline @
       ''mode: '' @ mode @ newline @ ''instructions:'' @ newline @ BoundAgentInstructions instructions @ newline @
       ''--- output ---'' @ newline @ output)"

definition SnapshotEvidence :: "string \<Rightarrow> string" where
  "SnapshotEvidence s = (if SnapshotLimit < length s then take SnapshotLimit s else s)"

definition FallbackEvidence :: "string \<Rightarrow> string" where
  "FallbackEvidence s = truncateWithNotice s FallbackLimit fallbackTruncationNotice"

definition appendFallbackEvidence :: "string \<Rightarrow> string \<Rightarrow> string" where
  "appendFallbackEvidence existing nxt =
     (if FallbackLimit \<le> length existing then existing
      else if length nxt \<le> FallbackLimit - length existing then existing @ nxt
      else
        (let available = FallbackLimit - length existing in
         if available \<le> length fallbackTruncationNotice then take available existing
         else existing @ take (available - length fallbackTruncationNotice) nxt @ fallbackTruncationNotice))"

definition SnapshotBytes :: "string \<Rightarrow> string" where
  "SnapshotBytes b = (if SnapshotLimit < length b then take SnapshotLimit b else b)"

definition FallbackBytes :: "string \<Rightarrow> string" where
  "FallbackBytes b = (if FallbackLimit < length b then take FallbackLimit b else b)"

section \<open>Fallback\<close>

definition isTerminal :: "goerr \<Rightarrow> bool" where
  "isTerminal e =
     (let msg = err_msg e in
      if sublist ''unsupported_capability'' msg then True
      else if sublist ''permission'' msg \<and> sublist ''unsupported'' msg then True
      else if sublist ''terminal'' msg then True
      else if sublist ''protocol'' msg then True
      else if sublist ''process_start'' msg then True
      else if sublist ''unsupported'' (map lower_char msg) then True
      else if sublist ''timeout'' msg then True
      else if sublist ''contract'' msg then True
      else False)"

text \<open>The runner is a callback with a state of its own.\<close>

type_synonym 's harness_runner = "string \<Rightarrow> string \<Rightarrow> 's \<Rightarrow> (string \<times> goerr option) \<times> 's"

fun fallback_loop :: "'s harness_runner \<Rightarrow> string list \<Rightarrow> string \<Rightarrow> 's \<Rightarrow> (string \<times> goerr option) \<times> 's" where
  "fallback_loop runner [] accumulated s = (('''', Some (errorf ''no candidates'')), s)"
| "fallback_loop runner (harness # rest) accumulated s =
     (let ((output, err), s') = runner harness accumulated s;
          accumulated' = appendFallbackEvidence accumulated (VisibleEvidence output) in
      case err of
        None \<Rightarrow> ((accumulated', None), s')
      | Some e \<Rightarrow>
          if isTerminal e then ((accumulated', Some e), s')
          else if rest = [] then ((accumulated', Some (wrap_err ''exhausted candidates'' e)), s')
          else fallback_loop runner rest accumulated' s')"

definition RunFallback :: "string list \<Rightarrow> 's harness_runner \<Rightarrow> 's \<Rightarrow> (string \<times> goerr option) \<times> 's" where
  "RunFallback candidates runner s =
     (if candidates = [] then (('''', Some (errorf ''no candidates'')), s)
      else fallback_loop runner candidates '''' s)"

section \<open>Command lines\<close>

record lexer =
  lx_args :: "string list"
  lx_cur :: string
  lx_single :: bool
  lx_double :: bool
  lx_escaped :: bool

definition flush :: "lexer \<Rightarrow> lexer" where
  "flush l = (if lx_cur l \<noteq> [] then l\<lparr>lx_args := lx_args l @ [lx_cur l], lx_cur := []\<rparr> else l)"

definition lex_rune :: "string \<Rightarrow> lexer \<Rightarrow> lexer" where
  "lex_rune r l =
     (if lx_escaped l then l\<lparr>lx_cur := lx_cur l @ r, lx_escaped := False\<rparr>
      else if r = [CHR 0x5C] \<and> \<not> lx_single l then l\<lparr>lx_escaped := True\<rparr>
      else if r = [CHR 0x27] \<and> \<not> lx_double l then l\<lparr>lx_single := \<not> lx_single l\<rparr>
      else if r = [CHR 0x22] \<and> \<not> lx_single l then l\<lparr>lx_double := \<not> lx_double l\<rparr>
      else if \<not> lx_single l \<and> \<not> lx_double l \<and> (r = '' '' \<or> r = [CHR 0x09] \<or> r = [CHR 0x0A]) then flush l
      else l\<lparr>lx_cur := lx_cur l @ r\<rparr>)"

definition ParseArgv :: "string \<Rightarrow> goerr + string list" where
  "ParseArgv s0 =
     (let s = TrimSpace s0 in
      if s = '''' then Inr []
      else
        (let l = fold lex_rune (runes s)
               \<lparr>lx_args = [], lx_cur = [], lx_single = False, lx_double = False, lx_escaped = False\<rparr>;
             l = (if lx_escaped l then l\<lparr>lx_cur := lx_cur l @ [CHR 0x5C]\<rparr> else l) in
         if lx_single l \<or> lx_double l then Inl (errorf (''unclosed quote in '' @ quoted s))
         else Inr (lx_args (flush l))))"

section \<open>What redaction removes\<close>

fun no_match :: "matcher \<Rightarrow> char option \<Rightarrow> string \<Rightarrow> bool" where
  "no_match m p [] \<longleftrightarrow> True"
| "no_match m p (c # s) \<longleftrightarrow> m p (c # s) = None \<and> no_match m (Some c) s"

abbreviation stars :: "string \<Rightarrow> string" where
  "stars \<equiv> (\<lambda>_. ''***'')"

text \<open>A text that agrees with another up to a star.\<close>

definition starred :: "string \<Rightarrow> string \<Rightarrow> bool" where
  "starred t s \<longleftrightarrow> (\<exists>u v w. t = u @ v \<and> s = u @ w \<and> (v = [] \<or> (\<exists>r. v = CHR ''*'' # r)))"

lemma starred_Cons: "starred t s \<Longrightarrow> starred (c # t) (c # s)"
  unfolding starred_def by (metis append_Cons)

lemma starred_star: "starred (CHR ''*'' # t) s"
  unfolding starred_def by (metis append_Nil)

lemma starred_replace_all: "starred (replace_all m stars p s) s"
proof (induction m stars p s rule: replace_all.induct)
  case (1 m p)
  then show ?case by (auto simp: starred_def)
next
  case (2 m p c s)
  then show ?case by (auto split: option.splits nat.splits intro: starred_Cons starred_star)
qed

text \<open>Patterns that never match across the placeholder.\<close>

locale secret_pattern =
  fixes m :: matcher
  assumes bounded: "m p s = Some n \<Longrightarrow> 0 < n \<and> n \<le> length s"
    and starless: "m p s = Some n \<Longrightarrow> CHR ''*'' \<notin> set (take n s)"
    and extend: "m p s = Some n \<Longrightarrow> take n s' = take n s \<Longrightarrow> m p s' \<noteq> None"
    and maximal: "m p s = Some n \<Longrightarrow> m q (drop n s) = None"
begin

lemma at_star: "m p (CHR ''*'' # s) = None"
proof (cases "m p (CHR ''*'' # s)")
  case (Some n)
  then have "take n (CHR ''*'' # s) = CHR ''*'' # take (n - 1) s" using bounded by (cases n) auto
  with starless [OF Some] show ?thesis by simp
qed

lemma in_starred:
  assumes "starred t s" "m p t = Some n"
  shows "m p s \<noteq> None"
proof -
  obtain u v w where t: "t = u @ v" "s = u @ w" "v = [] \<or> (\<exists>r. v = CHR ''*'' # r)"
    using assms(1) unfolding starred_def by blast
  have "n \<le> length u"
  proof (rule ccontr)
    assume n: "\<not> n \<le> length u"
    then obtain r where "v = CHR ''*'' # r" using t bounded [OF assms(2)] by auto
    then have "CHR ''*'' \<in> set (take n t)" using n t(1) by (cases "n - length u") auto
    then show False using starless [OF assms(2)] by simp
  qed
  then have "take n s = take n t" using t by simp
  then show ?thesis using extend [OF assms(2)] by simp
qed

lemma stars_no_match: "no_match m q s \<Longrightarrow> no_match m p (''***'' @ s)" if "q = Some (CHR ''*'')"
  using that by (simp add: at_star)

lemma replaced_no_match:
  "p0 = p \<or> (\<forall>q. m q s = None) \<Longrightarrow> no_match m p0 (replace_all m stars p s)"
proof (induction s arbitrary: p p0 rule: length_induct)
  case (1 s)
  show ?case
  proof (cases s)
    case (Cons c r)
    note IH = "1.IH" [rule_format, unfolded Cons]
    show ?thesis
    proof (cases "m p (c # r)")
      case None
      have "m p0 (c # replace_all m stars (Some c) r) = None"
        using in_starred [OF starred_Cons [OF starred_replace_all], of p0 c m "Some c" r] "1.prems" None Cons
        by (cases "m p0 (c # replace_all m stars (Some c) r)") auto
      with IH [of r "Some c" "Some c"] None Cons show ?thesis by simp
    next
      case (Some k)
      then obtain n where n: "k = Suc n" using bounded by (cases k) auto
      have "\<forall>q. m q (drop n r) = None" using maximal [OF Some] n by simp
      with IH [of "drop n r" "Some (CHR ''*'')"] Some n Cons show ?thesis by (simp add: at_star)
    qed
  qed simp
qed

lemma replace_no_match: "no_match m p (replace_all m stars p s)"
  by (simp add: replaced_no_match)

end

locale context_free_secret = secret_pattern +
  assumes context_free: "m p s = m q s"
begin

lemma no_match_suffix: "no_match m p s \<Longrightarrow> no_match m q (drop n s)"
proof (induction s arbitrary: p q n)
  case (Cons c s)
  then show ?case using context_free [of q "c # s" p] by (cases n) auto
qed simp

lemma kept_no_match: "no_match m p s \<Longrightarrow> no_match m q (replace_all m' stars p' s)"
proof (induction m' stars p' s arbitrary: p q rule: replace_all.induct)
  case (1 m' p')
  then show ?case by simp
next
  case (2 m' p' c s)
  have drop: "no_match m (Some (CHR ''*'')) (replace_all m' stars r (drop n s))"
    if "m' p' (c # s) = Some (Suc n)" "r = Some (last (c # take n s))" for n r
    using 2(3) [OF that(1)] that(2) no_match_suffix [of "Some c" s "Some c" n] "2.prems" by simp
  have "m q (c # replace_all m' stars (Some c) s) = None"
    using in_starred [OF starred_Cons [OF starred_replace_all], of q c m' "Some c" s] context_free [of q "c # s" p] "2.prems"
    by (cases "m q (c # replace_all m' stars (Some c) s)") auto
  with 2(1,2) "2.prems" drop show ?case
    by (auto simp: at_star split: option.splits nat.splits)
qed

end

lemma lit_classD:
  assumes "lit_class w False k cls s = Some n"
  shows "\<exists>r. s = w @ r \<and> n = length w + length (takeWhile cls r) \<and> k \<le> length (takeWhile cls r)"
  using assms by (auto simp: lit_class_def span_len_def prefix_def Let_def split: if_splits)

lemma lit_class_append:
  "\<forall>c \<in> set x. cls c \<Longrightarrow> k \<le> length x \<Longrightarrow> lit_class w False k cls (w @ x @ r) \<noteq> None"
  by (simp add: lit_class_def span_len_def)

lemma lit_class_pattern:
  assumes "cls c" "\<not> cls (CHR ''*'')" "CHR ''*'' \<notin> set w"
  shows "lit_class (c # w) False k cls s = Some n \<Longrightarrow> 0 < n \<and> n \<le> length s"
    and "lit_class (c # w) False k cls s = Some n \<Longrightarrow> CHR ''*'' \<notin> set (take n s)"
    and "lit_class (c # w) False k cls s = Some n \<Longrightarrow> take n s' = take n s \<Longrightarrow> lit_class (c # w) False k cls s' \<noteq> None"
    and "lit_class (c # w) False k cls s = Some n \<Longrightarrow> lit_class (c # w) False k' cls (drop n s) = None"
proof -
  assume "lit_class (c # w) False k cls s = Some n"
  then obtain r where r: "s = (c # w) @ r" "n = length (c # w) + length (takeWhile cls r)" "k \<le> length (takeWhile cls r)"
    using lit_classD by blast
  have t: "take n s = (c # w) @ takeWhile cls r" "drop n s = dropWhile cls r"
    using r append_eq_conv_conj [of "(c # w) @ takeWhile cls r" "dropWhile cls r" s] by simp_all
  show "0 < n \<and> n \<le> length s" using r by (simp add: length_takeWhile_le)
  have "CHR ''*'' \<notin> set (takeWhile cls r)" "c \<noteq> CHR ''*''" using assms set_takeWhileD by metis+
  then show "CHR ''*'' \<notin> set (take n s)" unfolding t(1) using assms(3) by simp
  show "lit_class (c # w) False k' cls (drop n s) = None"
    using t(2) assms(1) hd_dropWhile [of cls r] by (cases "dropWhile cls r") (auto simp: lit_class_def)
  show "lit_class (c # w) False k cls s' \<noteq> None" if "take n s' = take n s"
  proof -
    have "s' = (c # w) @ takeWhile cls r @ drop n s'" using t(1) that by (metis append.assoc append_take_drop_id)
    then show ?thesis using lit_class_append [of "takeWhile cls r" cls k "c # w" "drop n s'"] r(3) set_takeWhileD by metis
  qed
qed

lemma class_facts:
  "alnum (CHR ''g'')" "\<not> alnum (CHR ''*'')" "key_char (CHR ''s'')" "\<not> key_char (CHR ''*'')"
  by (simp_all add: alnum_def key_char_def in_range_def byte_def)

interpretation ghp: context_free_secret ghpRe
  by unfold_locales
    (use lit_class_pattern [OF class_facts(1,2), of "''hp_''"] in \<open>simp_all add: ghpRe_def\<close>)

interpretation sk_ant: context_free_secret skAntRe
  by unfold_locales
    (use lit_class_pattern [OF class_facts(3,4), of "''k-ant-''"] in \<open>simp_all add: skAntRe_def\<close>)

lemma boundary_take: "0 < n \<Longrightarrow> take n s' = take n s \<Longrightarrow> boundary p s' = boundary p s"
  by (cases n; cases s; cases s') (auto simp: boundary_def)

interpretation sk: secret_pattern skRe
proof unfold_locales
  note pat = lit_class_pattern [OF class_facts(3,4), of "''k-''" 10, simplified]
  fix p q s s' n
  assume m: "skRe p s = Some n"
  then have b: "boundary p s" and l: "lit_class ''sk-'' False 10 key_char s = Some n"
    by (auto simp: skRe_def split: if_splits)
  show "0 < n \<and> n \<le> length s" using pat(1) [OF l] by simp
  show "CHR ''*'' \<notin> set (take n s)" using pat(2) [OF l] by simp
  show "skRe q (drop n s) = None" using pat(4) [OF l] by (simp add: skRe_def)
  show "skRe p s' \<noteq> None" if "take n s' = take n s"
    using pat(3) [OF l that] boundary_take [OF _ that, of p] pat(1) [OF l] b by (simp add: skRe_def)
qed

section \<open>Lemmas on bounds\<close>

lemma length_truncate: "length (truncateWithNotice s limit notice) \<le> limit"
  by (simp add: truncateWithNotice_def)

lemma length_append_fallback:
  "length existing \<le> FallbackLimit \<Longrightarrow> length (appendFallbackEvidence existing nxt) \<le> FallbackLimit"
  by (auto simp: appendFallbackEvidence_def Let_def)

text \<open>The candidates that fail cleanly, with the context each of them is given.\<close>

inductive clean_run :: "'s harness_runner \<Rightarrow> string \<Rightarrow> 's \<Rightarrow> string list \<Rightarrow> string \<Rightarrow> 's \<Rightarrow> bool"
  for runner :: "'s harness_runner" where
  clean_Nil: "clean_run runner acc s [] acc s"
| clean_Cons: "runner h acc s = ((out, Some e), s1) \<Longrightarrow> \<not> isTerminal e \<Longrightarrow>
    clean_run runner (appendFallbackEvidence acc (VisibleEvidence out)) s1 hs acc' s' \<Longrightarrow>
    clean_run runner acc s (h # hs) acc' s'"

definition fallback_verdict :: "goerr option \<Rightarrow> string list \<Rightarrow> goerr option \<Rightarrow> bool" where
  "fallback_verdict result post err \<longleftrightarrow>
     (case result of None \<Rightarrow> err = None
      | Some e \<Rightarrow> if isTerminal e then err = Some e
                  else post = [] \<and> err = Some (wrap_err ''exhausted candidates'' e))"

lemma fallback_loop_run:
  assumes "fallback_loop runner cs acc s = ((ev, err), s')" "cs \<noteq> []" "length acc \<le> FallbackLimit"
  shows "\<exists>pre h post acc' s1 out result. cs = pre @ h # post \<and> clean_run runner acc s pre acc' s1 \<and>
     runner h acc' s1 = ((out, result), s') \<and> fallback_verdict result post err \<and>
     ev = appendFallbackEvidence acc' (VisibleEvidence out) \<and> length acc' \<le> FallbackLimit"
  using assms
proof (induction runner cs acc s rule: fallback_loop.induct)
  case (2 runner h rest acc s)
  obtain out result s1 where r: "runner h acc s = ((out, result), s1)" by (metis prod.exhaust)
  show ?case
  proof (cases "\<exists>e. result = Some e \<and> \<not> isTerminal e \<and> rest \<noteq> []")
    case True
    then obtain e where e: "result = Some e" "\<not> isTerminal e" "rest \<noteq> []" by blast
    let ?acc = "appendFallbackEvidence acc (VisibleEvidence out)"
    have "fallback_loop runner rest ?acc s1 = ((ev, err), s')" using "2.prems"(1) r e by (simp add: Let_def)
    from "2.IH" [OF r [symmetric] refl refl refl e(1) e(2,3) this e(3) length_append_fallback [OF "2.prems"(3)]]
    obtain pre h' post acc' s2 out' result' where
      "rest = pre @ h' # post" "clean_run runner ?acc s1 pre acc' s2" "runner h' acc' s2 = ((out', result'), s')"
      "fallback_verdict result' post err" "ev = appendFallbackEvidence acc' (VisibleEvidence out')" "length acc' \<le> FallbackLimit"
      by blast
    moreover from this(2) have "clean_run runner acc s (h # pre) acc' s2" using r e by (auto intro: clean_Cons)
    ultimately show ?thesis by (metis append_Cons)
  next
    case False
    then have "fallback_verdict result rest err" "ev = appendFallbackEvidence acc (VisibleEvidence out)" "s' = s1"
      using "2.prems"(1) r by (auto simp: fallback_verdict_def Let_def split: option.splits if_splits)
    then show ?thesis using r clean_Nil "2.prems"(3) by (metis append_Nil)
  qed
qed simp

section \<open>Lemmas on command lines\<close>

declare rune_width.simps [simp del]

text \<open>Strings made of well-formed sequences only.\<close>

function clean_utf8 :: "string \<Rightarrow> bool" where
  "clean_utf8 [] \<longleftrightarrow> True"
| "clean_utf8 (a # s) = (if rune_width (a # s) = 0 then False else clean_utf8 (drop (rune_width (a # s)) (a # s)))"
  by pat_completeness auto

termination clean_utf8
  by (relation "measure length") (auto)

lemma runes_append: "clean_utf8 u \<Longrightarrow> runes (u @ v) = runes u @ runes v"
proof (induction u rule: clean_utf8.induct)
  case (2 a s)
  let ?n = "rune_width (a # s)"
  have n: "?n \<noteq> 0" using "2.prems" by (simp split: if_splits)
  then have w: "rune_width (a # s @ v) = ?n" using rune_width_append [of "a # s" v] by simp
  have "runes (drop ?n (a # s) @ v) = runes (drop ?n (a # s)) @ runes v" using 2 n by simp
  then show ?case
    using n w rune_width_bound [of "a # s"] take_append [of ?n "a # s" v] drop_append [of ?n "a # s" v]
    by (simp add: Let_def del: take_append drop_append)
qed simp

lemma concat_runes: "clean_utf8 u \<Longrightarrow> concat (runes u) = u"
proof (induction u rule: clean_utf8.induct)
  case (2 a s)
  have n: "rune_width (a # s) \<noteq> 0" using "2.prems" by (simp split: if_splits)
  then have "concat (runes (a # s)) = take (rune_width (a # s)) (a # s) @ concat (runes (drop (rune_width (a # s)) (a # s)))"
    by (simp add: Let_def)
  then show ?case using 2 n by (simp del: runes.simps)
qed simp

lemma runes_single: "r \<in> set (runes u) \<Longrightarrow> byte c < 0x80 \<Longrightarrow> r = [c] \<Longrightarrow> c \<in> set u"
proof (induction u rule: runes.induct)
  case (2 a s)
  let ?n = "rune_width (a # s)"
  show ?case
  proof (cases "?n = 0")
    case True
    then show ?thesis using 2 by (auto simp: Let_def replacement_def)
  next
    case False
    then consider "r = take ?n (a # s)" | "r \<in> set (runes (drop ?n (a # s)))"
      using "2.prems"(1) by (auto simp: Let_def)
    then show ?thesis
    proof cases
      case 1
      then show ?thesis using "2.prems"(3) in_set_takeD [of c ?n "a # s"] by (metis list.set_intros(1))
    next
      case 2
      then show ?thesis using "2.IH"(2) [OF refl False 2] "2.prems" in_set_dropD by metis
    qed
  qed
qed simp

definition single_quoted :: "string \<Rightarrow> string" where
  "single_quoted w = [CHR 0x27] @ w @ [CHR 0x27]"

lemma lex_inside_quotes:
  "\<forall>r \<in> set rs. r \<noteq> [CHR 0x27] \<Longrightarrow> lx_single l \<Longrightarrow> \<not> lx_double l \<Longrightarrow> \<not> lx_escaped l \<Longrightarrow>
   fold lex_rune rs l = l\<lparr>lx_cur := lx_cur l @ concat rs\<rparr>"
  by (induction rs arbitrary: l) (simp_all add: lex_rune_def)

lemma runes_ascii: "byte c < 0x80 \<Longrightarrow> runes (c # s) = [c] # runes s"
  by (simp add: rune_width_ascii)

lemma byte_ascii [simp]: "byte (CHR 0x27) < 128" "byte (CHR '' '') < 128"
  by (simp_all add: byte_def)

abbreviation lexing :: "string list \<Rightarrow> string \<Rightarrow> lexer" where
  "lexing args cur \<equiv> \<lparr>lx_args = args, lx_cur = cur, lx_single = False, lx_double = False, lx_escaped = False\<rparr>"

lemma lex_quoted:
  assumes "clean_utf8 w" "CHR 0x27 \<notin> set w"
  shows "fold lex_rune (runes (single_quoted w @ s)) (lexing args cur) = fold lex_rune (runes s) (lexing args (cur @ w))"
proof -
  have "runes (single_quoted w @ s) = [CHR 0x27] # runes w @ [CHR 0x27] # runes s"
    using runes_append [OF assms(1), of "CHR 0x27 # s"] by (simp add: single_quoted_def runes_ascii del: runes.simps)
  moreover have "\<forall>r \<in> set (runes w). r \<noteq> [CHR 0x27]" using runes_single [of _ w "CHR 0x27"] assms(2) by auto
  ultimately show ?thesis
    using concat_runes [OF assms(1)] by (simp add: lex_inside_quotes lex_rune_def del: runes.simps)
qed

lemma lex_words:
  assumes "ws \<noteq> []" "\<forall>w \<in> set ws. w \<noteq> [] \<and> clean_utf8 w \<and> CHR 0x27 \<notin> set w"
  shows "fold lex_rune (runes (join_with '' '' (map single_quoted ws))) (lexing args []) = lexing (args @ butlast ws) (last ws)"
  using assms
proof (induction ws arbitrary: args)
  case (Cons w ws)
  show ?case
  proof (cases "ws = []")
    case True
    then show ?thesis using lex_quoted [of w "[]"] Cons.prems by simp
  next
    case False
    have "lex_rune '' '' (lexing args w) = lexing (args @ [w]) []" using Cons.prems by (simp add: lex_rune_def flush_def)
    then have "fold lex_rune (runes (join_with '' '' (map single_quoted (w # ws)))) (lexing args []) =
        fold lex_rune (runes (join_with '' '' (map single_quoted ws))) (lexing (args @ [w]) [])"
      using lex_quoted [of w "CHR '' '' # join_with '' '' (map single_quoted ws)" args "[]"] Cons.prems False
      by (simp add: join_with_Cons runes_ascii del: runes.simps)
    then show ?thesis using Cons.IH [of "args @ [w]"] Cons.prems False by simp
  qed
qed simp

lemma clean_append: "clean_utf8 u \<Longrightarrow> clean_utf8 v \<Longrightarrow> clean_utf8 (u @ v)"
proof (induction u rule: clean_utf8.induct)
  case (2 a s)
  let ?n = "rune_width (a # s)"
  have n: "?n \<noteq> 0" using "2.prems" by (simp split: if_splits)
  then have w: "rune_width (a # s @ v) = ?n" using rune_width_append [of "a # s" v] by simp
  have "clean_utf8 (drop ?n (a # s) @ v)" using 2 n by simp
  then show ?case using n w rune_width_bound [of "a # s"] drop_append [of ?n "a # s" v] by (simp del: drop_append)
qed simp

lemma clean_ascii: "byte c < 0x80 \<Longrightarrow> clean_utf8 (c # s) = clean_utf8 s"
  by (simp add: rune_width_ascii)

lemma pieces_clean: "clean_utf8 u \<Longrightarrow> pieces u = runes u"
proof (induction u rule: clean_utf8.induct)
  case (2 a s)
  then have "rune_width (a # s) \<noteq> 0" by (simp split: if_splits)
  then show ?case using 2 by (simp add: Let_def max_def)
qed simp

lemma clean_words:
  "\<forall>w \<in> set ws. clean_utf8 w \<Longrightarrow> clean_utf8 (join_with '' '' (map single_quoted ws))"
proof (induction ws)
  case (Cons w ws)
  then show ?case
    by (auto simp: join_with_Cons single_quoted_def clean_ascii clean_append simp del: clean_utf8.simps(2))
qed simp

lemma trim_words:
  assumes "ws \<noteq> []" "\<forall>w \<in> set ws. clean_utf8 w"
  shows "TrimSpace (join_with '' '' (map single_quoted ws)) = join_with '' '' (map single_quoted ws)"
proof -
  let ?j = "join_with '' '' (map single_quoted ws)"
  obtain a where a: "?j = CHR 0x27 # a" using assms(1) by (cases ws) (simp_all add: join_with_Cons single_quoted_def)
  obtain u where "ws = butlast ws @ [last ws]" "clean_utf8 (last ws)" "?j = u @ [CHR 0x27]" "clean_utf8 u"
  proof -
    have "map single_quoted ws = map single_quoted (butlast ws) @ [single_quoted (last ws)]"
      using assms(1) by (metis append_butlast_last_id list.simps(8,9) map_append)
    then have "?j = (join_with '' '' (map single_quoted (butlast ws)) @ (if butlast ws = [] then [] else '' '') @ [CHR 0x27] @ last ws) @ [CHR 0x27]"
      by (simp add: join_with_append single_quoted_def)
    moreover have "clean_utf8 (join_with '' '' (map single_quoted (butlast ws)) @ (if butlast ws = [] then [] else '' '') @ [CHR 0x27] @ last ws)"
      using assms clean_words [of "butlast ws"] last_in_set [of ws] in_set_butlastD [of _ ws]
      by (simp add: clean_append clean_ascii del: clean_utf8.simps(2))
    ultimately show thesis using that assms last_in_set [of ws] by simp
  qed
  then have r: "runes ?j = runes u @ [[CHR 0x27]]"
    using runes_append [of u "[CHR 0x27]"] by (simp add: runes_ascii del: runes.simps(2))
  have l: "runes ?j = [CHR 0x27] # runes a" using a by (simp add: runes_ascii del: runes.simps(2))
  have q: "\<not> space_rune [CHR 0x27]" by code_simp
  have "dropWhile space_rune (runes ?j) = runes ?j" unfolding l using q by simp
  moreover have "dropWhile space_rune (rev (runes ?j)) = rev (runes ?j)" unfolding r using q by simp
  ultimately have "TrimSpace ?j = concat (runes ?j)"
    using pieces_clean [OF clean_words [OF assms(2)]] by (simp add: TrimSpace_def)
  then show ?thesis using concat_runes [OF clean_words [OF assms(2)]] by simp
qed

section \<open>Properties\<close>

text \<open>C39. No key survives redaction: in the text that \<^verbatim>\<open>Redact\<close> returns there is no match of the
  patterns for GitHub tokens, for Anthropic keys and for generic secret keys.\<close>

theorem redact_removes_keys:
  "no_match ghpRe None (Redact s) \<and> no_match skAntRe None (Redact s) \<and> no_match skRe None (Redact s)"
  unfolding Redact_def Let_def
  by (blast intro: ghp.kept_no_match sk_ant.kept_no_match ghp.replace_no_match sk_ant.replace_no_match sk.replace_no_match)

text \<open>The fallback over harness candidates: the candidates before the last one tried all failed
  cleanly, each was given the evidence accumulated so far; the last one tried decides, a success
  and a terminal error at once and a clean failure only when no candidate is left; the evidence
  carried and returned never exceeds 2 MiB.\<close>

theorem run_fallback_order:
  assumes "RunFallback candidates runner s = ((ev, err), s')" "candidates \<noteq> []"
  shows "\<exists>pre h post acc s1 out result. candidates = pre @ h # post \<and> clean_run runner '''' s pre acc s1 \<and>
     runner h acc s1 = ((out, result), s') \<and> fallback_verdict result post err \<and>
     ev = appendFallbackEvidence acc (VisibleEvidence out) \<and> length acc \<le> FallbackLimit \<and> length ev \<le> FallbackLimit"
proof -
  have "fallback_loop runner candidates '''' s = ((ev, err), s')" using assms by (simp add: RunFallback_def)
  from fallback_loop_run [OF this assms(2)] show ?thesis using length_append_fallback by fastforce
qed

definition demo_harness :: "nat harness_runner" where
  "demo_harness h ctx n = (if h = ''bad'' then ((''oops'', Some (errorf ''exit 1'')), Suc n) else ((''ok'', None), Suc n))"

theorem run_fallback_order_witness:
  "(\<exists>pre h post acc s1 out result. [''bad'', ''good''] = pre @ h # post \<and> clean_run demo_harness '''' 0 pre acc s1 \<and>
     demo_harness h acc s1 = ((out, result), 2) \<and> fallback_verdict result post None \<and>
     ''oopsok'' = appendFallbackEvidence acc (VisibleEvidence out) \<and> length acc \<le> FallbackLimit \<and>
     length ''oopsok'' \<le> FallbackLimit)"
proof (rule run_fallback_order)
  have "Redact ''oops'' = ''oops''" "Redact ''ok'' = ''ok''" "\<not> isTerminal (errorf ''exit 1'')" by code_simp+
  then show "RunFallback [''bad'', ''good''] demo_harness 0 = ((''oopsok'', None), 2)"
    by (simp add: RunFallback_def demo_harness_def VisibleEvidence_def truncateWithNotice_def VisibleLimit_def
        appendFallbackEvidence_def FallbackLimit_def numeral_2_eq_2)
qed simp

text \<open>The command-line lexer is inverse to quoting: words without a single quote, each between
  single quotes and separated by blanks, are returned one by one, whatever blanks, double
  quotes, backslashes or shell characters they contain.\<close>

theorem parse_argv_quoted:
  assumes "\<forall>w \<in> set ws. w \<noteq> [] \<and> clean_utf8 w \<and> CHR 0x27 \<notin> set w"
  shows "ParseArgv (join_with '' '' (map single_quoted ws)) = Inr ws"
proof (cases "ws = []")
  case False
  let ?j = "join_with '' '' (map single_quoted ws)"
  have "?j \<noteq> []" using False by (cases ws) (simp_all add: join_with_Cons single_quoted_def)
  moreover have "TrimSpace ?j = ?j" using trim_words False assms by blast
  moreover have "last ws \<noteq> []" using assms False by simp
  ultimately show ?thesis
    using lex_words [OF False assms, of "[]"] False by (simp add: ParseArgv_def flush_def)
qed (simp add: ParseArgv_def TrimSpace_def)

theorem parse_argv_quoted_witness:
  "ParseArgv (single_quoted ''echo'' @ '' '' @ single_quoted ''a $(b)'') = Inr [''echo'', ''a $(b)'']"
proof -
  have "\<forall>w \<in> set [''echo'', ''a $(b)'']. w \<noteq> [] \<and> clean_utf8 w \<and> CHR 0x27 \<notin> set w"
    by code_simp
  from parse_argv_quoted [OF this] show ?thesis by simp
qed

text \<open>Evidence is bounded: whatever the output, the visible evidence of a command or of a harness
  has at most 16 KiB, a snapshot at most 1 MiB and the fallback context at most 2 MiB; text within
  the bound is kept as it is after redaction.\<close>

theorem evidence_bounded:
  "length (CommandEvidence argv out err) \<le> VisibleLimit \<and> length (AgentEvidence h i n mode instr out) \<le> VisibleLimit \<and>
   length (FallbackEvidence s) \<le> FallbackLimit \<and> length (SnapshotBytes s) \<le> SnapshotLimit \<and>
   length (SnapshotEvidence s) \<le> SnapshotLimit \<and> length (FallbackBytes s) \<le> FallbackLimit \<and>
   length (BoundAgentInstructions s) \<le> AgentInstructionsLimit \<and>
   VisibleEvidence s = (if length (Redact s) \<le> VisibleLimit then Redact s
     else take (VisibleLimit - length visibleTruncationNotice) (Redact s) @ visibleTruncationNotice)"
  by (simp add: CommandEvidence_def AgentEvidence_def VisibleEvidence_def FallbackEvidence_def length_truncate
      SnapshotBytes_def SnapshotEvidence_def FallbackBytes_def BoundAgentInstructions_def)
    (simp add: truncateWithNotice_def VisibleLimit_def visibleTruncationNotice_def newline_def)

text \<open>Two behaviours that the comments of the code do not announce: after a colon, a value that contains
  an equals sign is redacted from that sign on only, and an empty quoted argument is dropped.\<close>

theorem redact_leaks_prefix:
  "Redact ''password: hunter2=x'' = ''password: hunter2= ***''"
  by code_simp

theorem parse_argv_drops_empty:
  "ParseArgv (''echo '' @ single_quoted [] @ '' x'') = Inr [''echo'', ''x'']"
  by code_simp

text \<open>When less room than the notice is left, the accumulated evidence is replaced by a short prefix
  of itself.\<close>

theorem fallback_evidence_lost:
  assumes "length existing = FallbackLimit - 1" "2 \<le> length nxt"
  shows "appendFallbackEvidence existing nxt = take 1 existing"
  using assms by (simp add: appendFallbackEvidence_def FallbackLimit_def fallbackTruncationNotice_def newline_def)

end
