(* ===== verification/Cycle.thy ===== *)
theory Cycle
  imports Workflow
begin

text \<open>
  Cycle detection of \<^verbatim>\<open>internal/workflow/validate.go\<close>
  (\<^verbatim>\<open>detectCycle\<close>): a depth-first search that colours steps white, gray and
  black, keeps the stack of gray steps and reports the first cycle it closes. The closure
  \<^verbatim>\<open>dfs\<close> is the function \<open>visit\<close>, which has the neighbours still
  to be examined as an argument; it terminates because every nested call either paints a white
  step that has an adjacency entry or starts with no neighbours. The search reports a cycle
  exactly when the dependency relation has one, and the reported path is a cycle.
\<close>

datatype colour = white | gray | black

type_synonym adjacency = "(string, string list) gomap"

definition neighbours :: "adjacency \<Rightarrow> string \<Rightarrow> string list" where
  "neighbours adj n = (case map_of adj n of None \<Rightarrow> [] | Some l \<Rightarrow> l)"

text \<open>\<^verbatim>\<open>adj[s.ID] = s.DependsOn\<close> for every step in turn.\<close>

definition adjacency :: "Step list \<Rightarrow> adjacency" where
  "adjacency steps = fold (\<lambda>s adj. AList.update (ID s) (DependsOn s) adj) steps []"

record dfs_state =
  color :: "string \<Rightarrow> colour"
  stack :: "string list"

definition enter :: "string \<Rightarrow> dfs_state \<Rightarrow> dfs_state" where
  "enter n st = st\<lparr>color := (color st)(n := gray), stack := stack st @ [n]\<rparr>"

definition leave :: "string \<Rightarrow> dfs_state \<Rightarrow> dfs_state" where
  "leave n st = st\<lparr>stack := butlast (stack st), color := (color st)(n := black)\<rparr>"

definition close_cycle :: "string \<Rightarrow> string \<Rightarrow> dfs_state \<Rightarrow> string list" where
  "close_cycle node nb st =
     (if nb \<in> set (stack st) then dropWhile (\<lambda>v. v \<noteq> nb) (stack st) @ [nb] else [nb, node, nb])"

function visit :: "adjacency \<Rightarrow> string \<Rightarrow> string list \<Rightarrow> dfs_state \<Rightarrow> string list option \<times> dfs_state" where
  "visit adj node [] st = (None, leave node st)"
| "visit adj node (nb # nbs) st =
     (if color st nb = gray then (Some (close_cycle node nb st), st)
      else if color st nb = white then
        (case visit adj nb (neighbours adj nb) (enter nb st) of
           (Some c, st') \<Rightarrow> (Some c, st')
         | (None, st') \<Rightarrow> visit adj node nbs st')
      else visit adj node nbs st)"
  by pat_completeness auto

definition whites :: "adjacency \<Rightarrow> dfs_state \<Rightarrow> string set" where
  "whites adj st = {n \<in> fst ` set adj. color st n = white}"

lemma enter_simps [simp]:
  "stack (enter n st) = stack st @ [n]" "color (enter n st) = (color st)(n := gray)"
  by (simp_all add: enter_def)

lemma finite_whites [simp]: "finite (whites adj st)"
  by (simp add: whites_def)

lemma whites_leave: "whites adj (leave n st) \<subseteq> whites adj st"
  by (auto simp: whites_def leave_def split: if_splits)

lemma whites_enter: "whites adj (enter n st) \<subseteq> whites adj st"
  by (auto simp: whites_def enter_def split: if_splits)

lemma neighbours_not_key: "n \<notin> fst ` set adj \<Longrightarrow> neighbours adj n = []"
  by (simp add: neighbours_def map_of_eq_None_iff [THEN iffD2])

lemma whites_enter_key:
  assumes "color st n = white" "n \<in> fst ` set adj"
  shows "whites adj (enter n st) \<subset> whites adj st"
proof -
  have "n \<in> whites adj st" "n \<notin> whites adj (enter n st)"
    using assms by (auto simp: whites_def enter_def)
  then show ?thesis using whites_enter by blast
qed

lemma whites_visit:
  "visit_dom (adj, node, nbs, st) \<Longrightarrow> whites adj (snd (visit adj node nbs st)) \<subseteq> whites adj st"
proof (induction adj node nbs st rule: visit.pinduct)
  case (1 adj node st)
  then show ?case by (simp add: visit.psimps whites_leave)
next
  case (2 adj node nb nbs st)
  show ?case
  proof (cases "color st nb = white")
    case True
    obtain r st' where v: "visit adj nb (neighbours adj nb) (enter nb st) = (r, st')"
      by (cases "visit adj nb (neighbours adj nb) (enter nb st)")
    have sub: "whites adj st' \<subseteq> whites adj st"
      using 2(2) [OF _ True] True whites_enter [of adj nb st] by (auto simp: v)
    show ?thesis
    proof (cases r)
      case None
      have "whites adj (snd (visit adj node nbs st')) \<subseteq> whites adj st'"
        using 2(3) [OF _ True v [symmetric] None] True by simp
      with sub 2(1) True v None show ?thesis by (auto simp: visit.psimps)
    next
      case (Some c)
      with sub 2(1) True v show ?thesis by (auto simp: visit.psimps)
    qed
  next
    case False
    with 2(1) 2(4) show ?thesis by (cases "color st nb") (auto simp: visit.psimps)
  qed
qed

termination visit
proof (relation "inv_image (finite_psubset <*lex*> less_than)
    (\<lambda>(adj, node, nbs, st). (whites adj st, length nbs))", goal_cases)
  case 1
  then show ?case by (simp add: wf_lex_prod wf_finite_psubset)
next
  case (2 adj node nb nbs st)
  show ?case
  proof (cases "nb \<in> fst ` set adj")
    case True
    with 2 show ?thesis by (simp add: whites_enter_key)
  next
    case False
    then have "whites adj (enter nb st) = whites adj st"
      by (auto simp: whites_def enter_def)
    with False show ?thesis by (simp add: neighbours_not_key)
  qed
next
  case (3 adj node nb nbs st r st')
  then have "whites adj st' \<subseteq> whites adj st"
    using whites_visit [OF 3(5)] whites_enter [of adj nb st] by (metis order_trans snd_conv)
  then show ?case by (auto simp: psubset_eq)
qed simp

fun dfs_roots :: "adjacency \<Rightarrow> Step list \<Rightarrow> dfs_state \<Rightarrow> string list option" where
  "dfs_roots adj [] st = None"
| "dfs_roots adj (s # ss) st =
     (if color st (ID s) = white then
        (case visit adj (ID s) (neighbours adj (ID s)) (enter (ID s) st) of
           (Some c, st') \<Rightarrow> Some c
         | (None, st') \<Rightarrow> dfs_roots adj ss st')
      else dfs_roots adj ss st)"

definition detectCycle :: "Step list \<Rightarrow> goerr option" where
  "detectCycle steps =
     (case dfs_roots (adjacency steps) steps \<lparr>color = (\<lambda>_. white), stack = []\<rparr> of
        None \<Rightarrow> None
      | Some c \<Rightarrow> Some (newValidationError ''cycle_detected'' ''''
          (''cycle detected: '' @ join_with '' -> '' c)))"

section \<open>The dependency relation\<close>

definition edges :: "adjacency \<Rightarrow> (string \<times> string) set" where
  "edges adj = {(n, nb). nb \<in> set (neighbours adj n)}"

definition dep_rel :: "Step list \<Rightarrow> (string \<times> string) set" where
  "dep_rel steps = {(ID s, d) | s d. s \<in> set steps \<and> d \<in> set (DependsOn s)}"

definition is_cycle :: "(string \<times> string) set \<Rightarrow> string list \<Rightarrow> bool" where
  "is_cycle r c \<longleftrightarrow> 2 \<le> length c \<and> hd c = last c \<and> successively (\<lambda>a b. (a, b) \<in> r) c"

lemma successively_trancl:
  "successively (\<lambda>a b. (a, b) \<in> r) (x # xs) \<Longrightarrow> xs \<noteq> [] \<Longrightarrow> (x, last xs) \<in> r\<^sup>+"
proof (induction xs arbitrary: x)
  case (Cons y ys)
  then show ?case by (cases ys) (auto intro: trancl_into_trancl2)
qed simp

lemma is_cycle_not_acyclic: "is_cycle r c \<Longrightarrow> \<not> acyclic r"
proof -
  assume "is_cycle r c"
  then obtain x xs where "c = x # xs" "xs \<noteq> []" "x = last xs" "successively (\<lambda>a b. (a, b) \<in> r) c"
    by (cases c; cases "tl c") (auto simp: is_cycle_def)
  then show ?thesis using successively_trancl by (metis acyclic_def)
qed

lemma map_of_adjacency_fold:
  "map_of (fold (\<lambda>s adj. AList.update (ID s) (DependsOn s) adj) steps adj) =
   map_of adj ++ map_of (rev (map (\<lambda>s. (ID s, DependsOn s)) steps))"
proof (induction steps arbitrary: adj)
  case (Cons s steps)
  then show ?case by (auto simp: map_add_def fun_eq_iff split: option.splits)
qed simp

lemma map_of_adjacency:
  assumes "distinct (map ID steps)" "s \<in> set steps"
  shows "map_of (adjacency steps) (ID s) = Some (DependsOn s)"
proof -
  have "map fst (rev (map (\<lambda>s. (ID s, DependsOn s)) steps)) = rev (map ID steps)"
    by (simp add: rev_map comp_def)
  then have "distinct (map fst (rev (map (\<lambda>s. (ID s, DependsOn s)) steps)))"
    using assms(1) by simp
  moreover have "(ID s, DependsOn s) \<in> set (rev (map (\<lambda>s. (ID s, DependsOn s)) steps))"
    using assms(2) by auto
  ultimately have "map_of (rev (map (\<lambda>s. (ID s, DependsOn s)) steps)) (ID s) = Some (DependsOn s)"
    by (rule map_of_is_SomeI)
  then show ?thesis by (simp add: adjacency_def map_of_adjacency_fold map_add_def)
qed

lemma map_of_adjacency_None: "n \<notin> ID ` set steps \<Longrightarrow> map_of (adjacency steps) n = None"
proof -
  assume "n \<notin> ID ` set steps"
  then have "map_of (rev (map (\<lambda>s. (ID s, DependsOn s)) steps)) n = None"
    by (auto simp: map_of_eq_None_iff)
  then show ?thesis by (simp add: adjacency_def map_of_adjacency_fold map_add_def)
qed

lemma edges_adjacency:
  assumes d: "distinct (map ID steps)"
  shows "edges (adjacency steps) = dep_rel steps"
proof -
  have "(n, nb) \<in> edges (adjacency steps) \<longleftrightarrow> (n, nb) \<in> dep_rel steps" for n nb
  proof (cases "n \<in> ID ` set steps")
    case True
    then obtain s where s: "s \<in> set steps" "n = ID s" by auto
    have u: "s' = s" if "s' \<in> set steps" "ID s' = ID s" for s'
      using d that s by (meson distinct_map inj_onD)
    have "(n, nb) \<in> edges (adjacency steps) \<longleftrightarrow> nb \<in> set (DependsOn s)"
      by (simp add: edges_def neighbours_def s map_of_adjacency [OF d s(1)])
    moreover have "(n, nb) \<in> dep_rel steps \<longleftrightarrow> nb \<in> set (DependsOn s)"
    proof
      assume "(n, nb) \<in> dep_rel steps"
      then obtain s' where "s' \<in> set steps" "ID s' = n" "nb \<in> set (DependsOn s')"
        by (auto simp: dep_rel_def)
      with s u show "nb \<in> set (DependsOn s)" by blast
    qed (use s in \<open>auto simp: dep_rel_def\<close>)
    ultimately show ?thesis by simp
  next
    case False
    then show ?thesis by (auto simp: edges_def neighbours_def dep_rel_def map_of_adjacency_None)
  qed
  then show ?thesis by auto
qed

section \<open>Correctness of the search\<close>

definition dfs_ok :: "adjacency \<Rightarrow> dfs_state \<Rightarrow> bool" where
  "dfs_ok adj st \<longleftrightarrow>
     distinct (stack st) \<and> (\<forall>n. color st n = gray \<longleftrightarrow> n \<in> set (stack st)) \<and>
     successively (\<lambda>a b. (a, b) \<in> edges adj) (stack st) \<and>
     (\<forall>b nb. color st b = black \<and> (b, nb) \<in> edges adj \<longrightarrow> color st nb = black) \<and>
     (\<forall>b. color st b = black \<longrightarrow> (b, b) \<notin> (edges adj)\<^sup>+)"

lemma dfs_okD:
  assumes "dfs_ok adj st"
  shows "distinct (stack st)" "color st n = gray \<longleftrightarrow> n \<in> set (stack st)"
    "successively (\<lambda>a b. (a, b) \<in> edges adj) (stack st)"
    "color st b = black \<Longrightarrow> (b, nb) \<in> edges adj \<Longrightarrow> color st nb = black"
    "color st b = black \<Longrightarrow> (b, b) \<notin> (edges adj)\<^sup>+"
  using assms by (auto simp: dfs_ok_def)

lemma dfs_ok_black_trancl:
  assumes "dfs_ok adj st" "(b, n) \<in> (edges adj)\<^sup>+" "color st b = black"
  shows "color st n = black"
  using assms(2,3) by (induction rule: trancl_induct) (auto dest: dfs_okD(4) [OF assms(1)])

lemma dfs_ok_enter:
  assumes "dfs_ok adj st" "color st n = white"
    "stack st = [] \<or> (last (stack st), n) \<in> edges adj"
  shows "dfs_ok adj (enter n st)"
proof -
  note D = dfs_okD [OF assms(1)]
  have "n \<notin> set (stack st)" using D(2) [of n] assms(2) by simp
  moreover have "successively (\<lambda>a b. (a, b) \<in> edges adj) (stack st @ [n])"
    using D(3) assms(3) by (auto simp: successively_append_iff)
  moreover have "nb \<noteq> n" if "color st b = black" "(b, nb) \<in> edges adj" for b nb
    using D(4) [OF that] assms(2) by auto
  ultimately show ?thesis
    using D by (auto simp: dfs_ok_def enter_def split: if_splits)
qed

lemma dfs_ok_leave:
  assumes "dfs_ok adj st" "stack st \<noteq> []" "last (stack st) = n"
    "\<forall>nb. (n, nb) \<in> edges adj \<longrightarrow> color st nb = black"
  shows "dfs_ok adj (leave n st)"
proof -
  note D = dfs_okD [OF assms(1)]
  obtain us where us: "stack st = us @ [n]" using assms(2,3) by (metis append_butlast_last_id)
  have g: "n \<notin> set us" "color st n = gray" using D(1) D(2) [of n] us by auto
  moreover have "(n, n) \<notin> (edges adj)\<^sup>+"
  proof
    assume "(n, n) \<in> (edges adj)\<^sup>+"
    then obtain m where m: "(n, m) \<in> edges adj" "m = n \<or> (m, n) \<in> (edges adj)\<^sup>+"
      by (metis tranclD rtranclD)
    then have "color st m = black" using assms(4) by blast
    with m(2) dfs_ok_black_trancl [OF assms(1)] g(2) show False by auto
  qed
  moreover have "successively (\<lambda>a b. (a, b) \<in> edges adj) us"
    using D(3) us by (simp add: successively_append_iff)
  ultimately show ?thesis
    using D assms(4) us by (auto simp: dfs_ok_def leave_def split: if_splits)
qed

lemma close_cycle_is_cycle:
  assumes "dfs_ok adj st" "stack st \<noteq> []" "last (stack st) = node" "(node, nb) \<in> edges adj"
    "color st nb = gray"
  shows "is_cycle (edges adj) (close_cycle node nb st)"
proof -
  have nb: "nb \<in> set (stack st)" using assms(1,5) by (simp add: dfs_okD(2))
  define us where "us = dropWhile (\<lambda>v. v \<noteq> nb) (stack st)"
  have st: "stack st = takeWhile (\<lambda>v. v \<noteq> nb) (stack st) @ us" by (simp add: us_def)
  have ne: "us \<noteq> []" using nb by (auto simp: us_def)
  then have "hd us = nb" using hd_dropWhile [of "\<lambda>v. v \<noteq> nb" "stack st"] by (simp add: us_def)
  moreover have "last us = node" using assms(3) ne by (subst (asm) st) simp
  moreover have "successively (\<lambda>a b. (a, b) \<in> edges adj) us"
    using dfs_okD(3) [OF assms(1)] by (subst (asm) st) (simp only: successively_append_iff)
  ultimately have "successively (\<lambda>a b. (a, b) \<in> edges adj) (us @ [nb])" "hd us = nb"
    using assms(4) ne by (auto simp: successively_append_iff)
  moreover have "close_cycle node nb st = us @ [nb]" using nb by (simp add: close_cycle_def us_def)
  ultimately show ?thesis using ne by (cases us) (auto simp: is_cycle_def)
qed

lemma visit_correct:
  assumes "dfs_ok adj st" "stack st \<noteq> []" "last (stack st) = node"
    "set nbs \<subseteq> set (neighbours adj node)"
    "\<forall>nb \<in> set (neighbours adj node). color st nb = black \<or> nb \<in> set nbs"
  shows "case visit adj node nbs st of
      (Some c, st') \<Rightarrow> is_cycle (edges adj) c
    | (None, st') \<Rightarrow> dfs_ok adj st' \<and> stack st' = butlast (stack st) \<and> color st' node = black \<and>
        (\<forall>b. color st b = black \<longrightarrow> color st' b = black)"
  using assms
proof (induction adj node nbs st rule: visit.induct)
  case (1 adj node st)
  then have "dfs_ok adj (leave node st)"
    by (intro dfs_ok_leave) (auto simp: edges_def)
  then show ?case by (simp add: leave_def)
next
  case (2 adj node nb nbs st)
  have e: "(node, nb) \<in> edges adj" using 2(7) by (simp add: edges_def)
  show ?case
  proof (cases "color st nb")
    case gray
    then show ?thesis using close_cycle_is_cycle [OF 2(4-6) e] by simp
  next
    case black
    have "\<forall>m \<in> set (neighbours adj node). color st m = black \<or> m \<in> set nbs"
      using 2(8) black by auto
    then show ?thesis using 2(3) [OF _ _ 2(4-6)] black 2(7) by simp
  next
    case white
    obtain r st' where v: "visit adj nb (neighbours adj nb) (enter nb st) = (r, st')"
      by (cases "visit adj nb (neighbours adj nb) (enter nb st)")
    have ok: "dfs_ok adj (enter nb st)" using 2(4-6) white e by (simp add: dfs_ok_enter)
    have IH: "case (r, st') of (Some c, st') \<Rightarrow> is_cycle (edges adj) c
      | (None, st') \<Rightarrow> dfs_ok adj st' \<and> stack st' = stack st \<and> color st' nb = black \<and>
        (\<forall>b. color (enter nb st) b = black \<longrightarrow> color st' b = black)"
      using 2(1) [OF _ white ok] white by (cases r) (simp_all add: v)
    show ?thesis
    proof (cases r)
      case (Some c)
      with IH white v show ?thesis by simp
    next
      case None
      then have IH': "dfs_ok adj st'" "stack st' = stack st" "color st' nb = black"
        "color st b = black \<Longrightarrow> color st' b = black" for b
        using IH white by (auto simp: enter_def split: if_splits)
      have nbs: "\<forall>m \<in> set (neighbours adj node). color st' m = black \<or> m \<in> set nbs"
        using 2(8) IH'(3,4) by auto
      have "case visit adj node nbs st' of (Some c, st'') \<Rightarrow> is_cycle (edges adj) c
        | (None, st'') \<Rightarrow> dfs_ok adj st'' \<and> stack st'' = butlast (stack st') \<and>
            color st'' node = black \<and> (\<forall>b. color st' b = black \<longrightarrow> color st'' b = black)"
        using 2(2) [OF _ white v [symmetric] None IH'(1) _ _ _ nbs] white IH'(2) 2(5-7) by simp
      with None white v IH' show ?thesis by (auto split: prod.splits option.splits)
    qed
  qed
qed

lemma dfs_roots_correct:
  assumes "dfs_ok adj st" "stack st = []"
  shows "case dfs_roots adj ss st of
      Some c \<Rightarrow> is_cycle (edges adj) c
    | None \<Rightarrow> \<exists>st'. dfs_ok adj st' \<and> (\<forall>s \<in> set ss. color st' (ID s) = black) \<and>
        (\<forall>b. color st b = black \<longrightarrow> color st' b = black)"
  using assms
proof (induction adj ss st rule: dfs_roots.induct)
  case (1 adj st)
  then show ?case by auto
next
  case (2 adj s ss st)
  show ?case
  proof (cases "color st (ID s) = white")
    case True
    obtain r st' where v: "visit adj (ID s) (neighbours adj (ID s)) (enter (ID s) st) = (r, st')"
      by (cases "visit adj (ID s) (neighbours adj (ID s)) (enter (ID s) st)")
    have "dfs_ok adj (enter (ID s) st)" using 2(3,4) True by (simp add: dfs_ok_enter)
    then have V: "case (r, st') of (Some c, st') \<Rightarrow> is_cycle (edges adj) c
      | (None, st') \<Rightarrow> dfs_ok adj st' \<and> stack st' = [] \<and> color st' (ID s) = black \<and>
        (\<forall>b. color (enter (ID s) st) b = black \<longrightarrow> color st' b = black)"
      using visit_correct [of adj "enter (ID s) st" "ID s" "neighbours adj (ID s)"] 2(4)
      by (cases r) (simp_all add: v)
    show ?thesis
    proof (cases r)
      case (Some c)
      with V v True show ?thesis by simp
    next
      case None
      with V have st': "dfs_ok adj st'" "stack st' = []" "color st' (ID s) = black"
        "\<forall>b. color st b = black \<longrightarrow> color st' b = black"
        using True by (auto simp: enter_def split: if_splits)
      have "case dfs_roots adj ss st' of Some c \<Rightarrow> is_cycle (edges adj) c
        | None \<Rightarrow> \<exists>st''. dfs_ok adj st'' \<and> (\<forall>s \<in> set ss. color st'' (ID s) = black) \<and>
            (\<forall>b. color st' b = black \<longrightarrow> color st'' b = black)"
        using 2(1) [OF True v [symmetric] None st'(1,2)] .
      with None True v st' show ?thesis by (auto split: option.splits)
    qed
  next
    case False
    then have "color st (ID s) = black"
      using dfs_okD(2) [OF 2(3), of "ID s"] 2(4) by (cases "color st (ID s)") auto
    with 2(2) [OF False 2(3,4)] False show ?thesis by (auto split: option.splits)
  qed
qed

lemma dfs_roots_iff:
  fixes steps :: "Step list"
  defines "adj \<equiv> adjacency steps" and "st0 \<equiv> \<lparr>color = (\<lambda>_. white), stack = []\<rparr>"
  shows "(dfs_roots adj steps st0 = None \<longleftrightarrow> acyclic (edges adj)) \<and>
    (\<forall>c. dfs_roots adj steps st0 = Some c \<longrightarrow> is_cycle (edges adj) c)"
proof -
  have R: "case dfs_roots adj steps st0 of
      Some c \<Rightarrow> is_cycle (edges adj) c
    | None \<Rightarrow> \<exists>st'. dfs_ok adj st' \<and> (\<forall>s \<in> set steps. color st' (ID s) = black) \<and>
        (\<forall>b. color st0 b = black \<longrightarrow> color st' b = black)"
    by (rule dfs_roots_correct) (auto simp: st0_def dfs_ok_def)
  have "acyclic (edges adj)" if "dfs_roots adj steps st0 = None"
  proof -
    from R that obtain st' where st': "dfs_ok adj st'" "\<forall>s \<in> set steps. color st' (ID s) = black"
      by auto
    have "(n, n) \<notin> (edges adj)\<^sup>+" for n
    proof
      assume c: "(n, n) \<in> (edges adj)\<^sup>+"
      then obtain m where "(n, m) \<in> edges adj" by (metis tranclD)
      then have "n \<in> ID ` set steps"
        by (rule contrapos_pp) (simp add: edges_def neighbours_def adj_def map_of_adjacency_None)
      with st' c show False by (auto dest: dfs_okD(5))
    qed
    then show ?thesis by (simp add: acyclic_def)
  qed
  with R show ?thesis using is_cycle_not_acyclic by (auto split: option.splits)
qed

lemma detectCycle_None_iff:
  "distinct (map ID steps) \<Longrightarrow> detectCycle steps = None \<longleftrightarrow> acyclic (dep_rel steps)"
  using dfs_roots_iff [of steps] by (auto simp: detectCycle_def edges_adjacency split: option.splits)

lemma detectCycle_SomeD:
  assumes "distinct (map ID steps)" "detectCycle steps = Some e"
  obtains c where "is_cycle (dep_rel steps) c"
    "e = newValidationError ''cycle_detected'' '''' (''cycle detected: '' @ join_with '' -> '' c)"
  using dfs_roots_iff [of steps] assms
  by (auto simp: detectCycle_def edges_adjacency split: option.splits)

end
