(* ===== verification/Validate.thy ===== *)
theory Validate
  imports Cycle Json
begin

text \<open>
  The validators of \<^verbatim>\<open>internal/workflow/validate.go\<close>:
  \<^verbatim>\<open>ValidateFile\<close> for one workflow file and
  \<^verbatim>\<open>ValidateFlat\<close> for the flattened graph. Every check is a definition that
  returns the error of the code or \<open>None\<close>, in the order of the code; the loops with a
  \<^verbatim>\<open>seen\<close> map carry the names already seen. The lemmas give the acceptance
  condition of each loop, and the properties the exact condition under which a file or a graph
  is accepted.
\<close>

definition indexed :: "string \<Rightarrow> nat \<Rightarrow> string \<Rightarrow> string" where
  "indexed field i rest = field @ ''['' @ itoa (int i) @ '']'' @ rest"

text \<open>\<^verbatim>\<open>^[a-z][a-z0-9_]*$\<close>\<close>

definition is_lower :: "char \<Rightarrow> bool" where
  "is_lower c \<longleftrightarrow> (97::nat) \<le> of_char c \<and> of_char c \<le> (122::nat)"

definition is_digit :: "char \<Rightarrow> bool" where
  "is_digit c \<longleftrightarrow> (48::nat) \<le> of_char c \<and> of_char c \<le> (57::nat)"

definition idPattern :: "string \<Rightarrow> bool" where
  "idPattern s =
     (case s of [] \<Rightarrow> False
      | c # cs \<Rightarrow> is_lower c \<and> list_all (\<lambda>c. is_lower c \<or> is_digit c \<or> c = CHR ''_'') cs)"

definition namePattern :: "string \<Rightarrow> bool" where
  "namePattern s =
     (case s of [] \<Rightarrow> False
      | c # cs \<Rightarrow> is_lower c \<and> list_all (\<lambda>c. is_lower c \<or> is_digit c \<or> c = CHR ''_'') cs)"

record FlatStep =
  fs_ID :: string
  fs_Type :: string
  fs_Run :: string
  fs_Env :: "(string, string) gomap"
  fs_TimeoutSeconds :: "int option"
  fs_DependsOn :: "string list"
  fs_Requires :: "string list"
  fs_Produces :: "string list"
  fs_Harness :: "string list"
  fs_Instructions :: string
  fs_Mode :: string
  fs_Workspace :: "WorkspaceConfig option"
  fs_Source :: "string option"
  fs_Bindings :: "(string, string) gomap"

record FlatDAG =
  dag_Steps :: "FlatStep list"
  dag_Hash :: string

section \<open>ValidateFile\<close>

fun check_inputs :: "nat \<Rightarrow> string list \<Rightarrow> Input list \<Rightarrow> goerr option" where
  "check_inputs i seen [] = None"
| "check_inputs i seen (inp # rest) =
     (if \<not> namePattern (in_Name inp) then
        Some (newValidationError ''invalid_pattern'' (indexed ''inputs'' i ''.name'')
          (''invalid input name '' @ quoted (in_Name inp)))
      else if in_SatisfiedBy inp = '''' then
        Some (newValidationError ''missing_field'' (indexed ''inputs'' i ''.satisfied_by'')
          ''satisfied_by required'')
      else if \<not> idPattern (in_SatisfiedBy inp) then
        Some (newValidationError ''invalid_pattern'' (indexed ''inputs'' i ''.satisfied_by'')
          (''invalid satisfied_by '' @ quoted (in_SatisfiedBy inp)))
      else if in_Name inp \<in> set seen then
        Some (newValidationError ''duplicate_input'' (indexed ''inputs'' i ''.name'')
          (''duplicate input '' @ quoted (in_Name inp)))
      else check_inputs (Suc i) (in_Name inp # seen) rest)"

fun check_outputs :: "nat \<Rightarrow> string list \<Rightarrow> Output list \<Rightarrow> goerr option" where
  "check_outputs i seen [] = None"
| "check_outputs i seen (out # rest) =
     (if \<not> namePattern (out_Name out) then
        Some (newValidationError ''invalid_pattern'' (indexed ''outputs'' i ''.name'')
          (''invalid output name '' @ quoted (out_Name out)))
      else if out_ProducedBy out = '''' then
        Some (newValidationError ''missing_field'' (indexed ''outputs'' i ''.produced_by'')
          ''produced_by required'')
      else if \<not> idPattern (out_ProducedBy out) then
        Some (newValidationError ''invalid_pattern'' (indexed ''outputs'' i ''.produced_by'')
          (''invalid produced_by '' @ quoted (out_ProducedBy out)))
      else if out_Name out \<in> set seen then
        Some (newValidationError ''duplicate_output'' (indexed ''outputs'' i ''.name'')
          (''duplicate output '' @ quoted (out_Name out)))
      else check_outputs (Suc i) (out_Name out # seen) rest)"

fun check_step_ids :: "nat \<Rightarrow> string list \<Rightarrow> Step list \<Rightarrow> goerr option" where
  "check_step_ids idx seen [] = None"
| "check_step_ids idx seen (s # rest) =
     (if \<not> idPattern (ID s) then
        Some (newValidationError ''invalid_pattern'' (indexed ''steps'' idx ''.id'')
          (''invalid id '' @ quoted (ID s)))
      else if ID s \<in> set seen then
        Some (newValidationError ''duplicate_step'' (indexed ''steps'' idx ''.id'')
          (''duplicate step id: '' @ ID s))
      else check_step_ids (Suc idx) (ID s # seen) rest)"

definition check_satisfied_by :: "string list \<Rightarrow> Input list \<Rightarrow> goerr option" where
  "check_satisfied_by stepIDs = first_error 0 (\<lambda>i inp.
     fail_if (in_SatisfiedBy inp \<notin> set stepIDs)
       (newValidationError ''contract_violation'' (indexed ''inputs'' i ''.satisfied_by'')
         (''satisfied_by '' @ quoted (in_SatisfiedBy inp) @ '' not found'')))"

definition check_produced_by :: "string list \<Rightarrow> Output list \<Rightarrow> goerr option" where
  "check_produced_by stepIDs = first_error 0 (\<lambda>i out.
     fail_if (out_ProducedBy out \<notin> set stepIDs)
       (newValidationError ''contract_violation'' (indexed ''outputs'' i ''.produced_by'')
         (''produced_by '' @ quoted (out_ProducedBy out) @ '' not found'')))"

definition check_command :: "nat \<Rightarrow> Step \<Rightarrow> goerr option" where
  "check_command i s = first_some [
     fail_if (Run s = '''') (newValidationError ''missing_field'' (indexed ''steps'' i ''.run'')
       (''command step '' @ quoted (ID s) @ '' must have run'')),
     fail_if (Source s \<noteq> None) (newValidationError ''invalid_field'' (indexed ''steps'' i ''.source'')
       ''source only for workflow type''),
     fail_if (Bindings s \<noteq> []) (newValidationError ''invalid_field'' (indexed ''steps'' i ''.bindings'')
       ''bindings only for workflow type''),
     fail_if (Harness s \<noteq> []) (newValidationError ''invalid_field'' (indexed ''steps'' i ''.harness'')
       ''harness only for agent''),
     fail_if (Instructions s \<noteq> '''') (newValidationError ''invalid_field''
       (indexed ''steps'' i ''.instructions'') ''instructions only for agent'')]"

definition check_agent :: "nat \<Rightarrow> Step \<Rightarrow> goerr option" where
  "check_agent i s = first_some [
     fail_if (Harness s = []) (newValidationError ''missing_field'' (indexed ''steps'' i ''.harness'')
       (''agent step '' @ quoted (ID s) @ '' must have non-empty harness'')),
     fail_if (Instructions s = '''') (newValidationError ''missing_field''
       (indexed ''steps'' i ''.instructions'')
       (''agent step '' @ quoted (ID s) @ '' must have instructions'')),
     fail_if (Mode s \<noteq> '''' \<and> Mode s \<noteq> ''headless'' \<and> Mode s \<noteq> ''supervised'' \<and> Mode s \<noteq> ''terminal'')
       (newValidationError ''invalid_enum'' (indexed ''steps'' i ''.mode'')
       (''invalid mode '' @ quoted (Mode s))),
     fail_if (Mode s = ''terminal'') (newValidationError ''workflow_invalid''
       (indexed ''steps'' i ''.mode'') ''terminal mode not supported (PTY deferred)''),
     fail_if (Source s \<noteq> None \<or> Bindings s \<noteq> []) (newValidationError ''invalid_field''
       (indexed ''steps'' i ''.source'') ''source/bindings only for workflow''),
     fail_if (Run s \<noteq> '''') (newValidationError ''invalid_field'' (indexed ''steps'' i ''.run'')
       ''run only for command'')]"

definition check_bindings :: "nat \<Rightarrow> (string, string) gomap \<Rightarrow> goerr option" where
  "check_bindings i bs = first_error 0 (\<lambda>_ (k, v).
     fail_if (TrimSpace k = '''' \<or> TrimSpace v = '''')
       (newValidationError ''invalid_field'' (indexed ''steps'' i (''.bindings.'' @ k))
         ''binding value must be non-empty'')) bs"

definition check_workflow :: "nat \<Rightarrow> Step \<Rightarrow> goerr option" where
  "check_workflow i s = first_some [
     fail_if (case Source s of None \<Rightarrow> True | Some src \<Rightarrow> TrimSpace src = '''')
       (newValidationError ''missing_field'' (indexed ''steps'' i ''.source'')
         (''workflow step '' @ quoted (ID s) @ '' must have source'')),
     (if Harness s \<noteq> [] \<or> Instructions s \<noteq> '''' \<or> Run s \<noteq> '''' then
        fail_if (Run s \<noteq> '''') (newValidationError ''invalid_field'' (indexed ''steps'' i ''.run'')
          ''run not allowed for workflow'')
      else None),
     check_bindings i (Bindings s)]"

text \<open>The workspace check is the same for a step and for the file, up to the field names.\<close>

definition check_workspace :: "string \<Rightarrow> WorkspaceConfig option \<Rightarrow> goerr option" where
  "check_workspace field w =
     (case w of None \<Rightarrow> None
      | Some c \<Rightarrow> first_some [
          (case wc_Mode c of None \<Rightarrow> None
           | Some m \<Rightarrow> fail_if (m \<noteq> ''isolated'' \<and> m \<noteq> ''shared'')
               (newValidationError ''invalid_enum'' (field @ ''workspace.mode'')
                 (''invalid workspace mode '' @ quoted m))),
          (case wc_OnLogicalConflict c of None \<Rightarrow> None
           | Some k \<Rightarrow> fail_if (k \<noteq> ''block'' \<and> k \<noteq> ''allow'')
               (newValidationError ''invalid_enum'' (field @ ''workspace.on_logical_conflict'')
                 (''invalid on_logical_conflict '' @ quoted k)))])"

definition check_step :: "nat \<Rightarrow> Step \<Rightarrow> goerr option" where
  "check_step i s = first_some [
     fail_if (Type s \<noteq> ''command'' \<and> Type s \<noteq> ''agent'' \<and> Type s \<noteq> ''workflow'')
       (newValidationError ''invalid_enum'' (indexed ''steps'' i ''.type'')
         (''invalid step type '' @ quoted (Type s))),
     (if Type s = ''command'' then check_command i s else None),
     (if Type s = ''agent'' then check_agent i s else None),
     (if Type s = ''workflow'' then check_workflow i s else None),
     check_workspace (indexed ''steps'' i ''.'') (Workspace s),
     (case TimeoutSeconds s of None \<Rightarrow> None
      | Some t \<Rightarrow> fail_if (t < 1) (newValidationError ''invalid_type''
          (indexed ''steps'' i ''.timeout_seconds'') ''timeout_seconds must be >=1''))]"

definition check_deps :: "string list \<Rightarrow> Step list \<Rightarrow> goerr option" where
  "check_deps stepIDs = first_error 0 (\<lambda>i s.
     first_error 0 (\<lambda>j dep. fail_if (dep \<notin> set stepIDs)
       (newValidationError ''contract_violation''
         (indexed ''steps'' i (indexed ''.depends_on'' j ''''))
         (''missing dependency '' @ quoted dep @ '' for step '' @ quoted (ID s)))) (DependsOn s))"

definition ValidateFile :: "Workflow option \<Rightarrow> string \<Rightarrow> bool \<Rightarrow> goerr option" where
  "ValidateFile w path isRoot =
     (case w of
        None \<Rightarrow> Some (newValidationError ''invalid_workflow'' '''' ''nil workflow'')
      | Some flow \<Rightarrow>
          (let stepIDs = map ID (wf_Steps flow) in
           first_some [
             fail_if (wf_Version flow \<noteq> 2) (newValidationError ''invalid_version'' ''version''
               (''unsupported version '' @ itoa (wf_Version flow) @ '': want 2'')),
             fail_if (wf_Steps flow = []) (newValidationError ''missing_field'' ''steps''
               ''workflow must have at least one step''),
             fail_if (isRoot \<and> wf_Inputs flow \<noteq> []) (newValidationError ''root_contract_forbidden''
               ''inputs'' ''root workflow must not declare inputs''),
             fail_if (isRoot \<and> wf_Outputs flow \<noteq> []) (newValidationError ''root_contract_forbidden''
               ''outputs'' ''root workflow must not declare outputs''),
             check_inputs 0 [] (wf_Inputs flow),
             check_outputs 0 [] (wf_Outputs flow),
             check_step_ids 0 [] (wf_Steps flow),
             check_satisfied_by stepIDs (wf_Inputs flow),
             check_produced_by stepIDs (wf_Outputs flow),
             first_error 0 check_step (wf_Steps flow),
             check_workspace '''' (wf_Workspace flow),
             check_deps stepIDs (wf_Steps flow),
             detectCycle (wf_Steps flow),
             fail_if (\<not> list_ex (\<lambda>s. DependsOn s = []) (wf_Steps flow))
               (newValidationError ''cycle_detected'' '''' ''no entry point: every step has dependencies'')]))"

definition ValidateLegacy :: "Workflow option \<Rightarrow> goerr option" where
  "ValidateLegacy w = ValidateFile w '''' False"

section \<open>ValidateFlat\<close>

fun check_flat_ids :: "nat \<Rightarrow> nat \<Rightarrow> string list \<Rightarrow> FlatStep list \<Rightarrow> goerr option" where
  "check_flat_ids sz i seen [] = None"
| "check_flat_ids sz i seen (s # rest) =
     (if fs_Type s = ''workflow'' then
        Some (newValidationError ''workflow_invalid'' (indexed ''steps'' i ''.type'')
          ''workflow node leaked to flat DAG'')
      else if fs_ID s = '''' then
        Some (newValidationError ''missing_field'' (indexed ''steps'' i ''.id'') ''step id required'')
      else if fs_ID s \<in> set seen then
        Some (newValidationError ''duplicate_step'' (indexed ''steps'' i ''.id'')
          (''duplicate step id '' @ fs_ID s))
      else if 256 < sz then
        Some (newValidationError ''guard_exceeded'' ''steps'' ''flattened steps exceeds 256'')
      else check_flat_ids sz (Suc i) (fs_ID s # seen) rest)"

definition check_flat_refs :: "string list \<Rightarrow> FlatStep list \<Rightarrow> goerr option" where
  "check_flat_refs seen = first_error 0 (\<lambda>i s. first_some [
     first_error 0 (\<lambda>j dep. fail_if (dep \<notin> set seen)
       (newValidationError ''contract_violation''
         (indexed ''steps'' i (indexed ''.depends_on'' j ''''))
         (''missing dependency '' @ quoted dep @ '' for step '' @ quoted (fs_ID s)))) (fs_DependsOn s),
     first_error 0 (\<lambda>j req. fail_if (req \<in> set seen)
       (newValidationError ''contract_violation''
         (indexed ''steps'' i (indexed ''.requires'' j ''''))
         (''requires '' @ quoted req @ '' targets internal step''))) (fs_Requires s)])"

definition flat_to_step :: "FlatStep \<Rightarrow> Step" where
  "flat_to_step s = zero_Step\<lparr>ID := fs_ID s, DependsOn := fs_DependsOn s, Type := fs_Type s\<rparr>"

text \<open>\<^verbatim>\<open>detectCycle\<close> only returns a \<^verbatim>\<open>*ValidationError\<close>; for any
  other error \<^verbatim>\<open>ValidateFlat\<close> would rebuild one.\<close>

definition flat_cycle :: "FlatStep list \<Rightarrow> goerr option" where
  "flat_cycle steps =
     (case detectCycle (map flat_to_step steps) of
        None \<Rightarrow> None
      | Some e \<Rightarrow>
          (case err_kind e of
             Validation v \<Rightarrow> Some e
           | _ \<Rightarrow> Some (newValidationError ''cycle_detected'' '''' (err_msg e))))"

definition ValidateFlat :: "FlatDAG option \<Rightarrow> goerr option" where
  "ValidateFlat d =
     (case d of
        None \<Rightarrow> Some (newValidationError ''invalid_workflow'' '''' ''nil flat dag'')
      | Some dag \<Rightarrow> first_some [
          fail_if (dag_Steps dag = []) (newValidationError ''missing_field'' ''steps''
            ''flat DAG must have at least one step''),
          check_flat_ids (length (dag_Steps dag)) 0 [] (dag_Steps dag),
          check_flat_refs (map fs_ID (dag_Steps dag)) (dag_Steps dag),
          flat_cycle (dag_Steps dag),
          fail_if (\<not> list_ex (\<lambda>s. fs_DependsOn s = []) (dag_Steps dag))
            (newValidationError ''cycle_detected'' '''' ''no entry point'')])"

section \<open>Acceptance conditions\<close>

lemma first_error_const_None_iff:
  "(\<And>i x. f i x = None \<longleftrightarrow> P x) \<Longrightarrow> first_error i f xs = None \<longleftrightarrow> (\<forall>x \<in> set xs. P x)"
  by (simp add: first_error_None_iff all_set_conv_all_nth)

lemma namePattern_eq: "namePattern = idPattern"
  by (simp add: fun_eq_iff namePattern_def idPattern_def)

lemma idPattern_neq [simp]: "idPattern s \<Longrightarrow> s \<noteq> []"
  by (auto simp: idPattern_def)

lemma idPattern_no_dot: "idPattern s \<Longrightarrow> CHR ''.'' \<notin> set s"
  by (auto simp: idPattern_def is_lower_def is_digit_def list_all_iff split: list.splits)

lemma check_inputs_None_iff:
  "check_inputs i seen inps = None \<longleftrightarrow>
     (\<forall>inp \<in> set inps. idPattern (in_Name inp) \<and> idPattern (in_SatisfiedBy inp) \<and> in_Name inp \<notin> set seen) \<and>
     distinct (map in_Name inps)"
  by (induction inps arbitrary: i seen) (auto simp: namePattern_eq image_iff)

lemma check_outputs_None_iff:
  "check_outputs i seen outs = None \<longleftrightarrow>
     (\<forall>out \<in> set outs. idPattern (out_Name out) \<and> idPattern (out_ProducedBy out) \<and> out_Name out \<notin> set seen) \<and>
     distinct (map out_Name outs)"
  by (induction outs arbitrary: i seen) (auto simp: namePattern_eq image_iff)

lemma check_step_ids_None_iff:
  "check_step_ids i seen ss = None \<longleftrightarrow>
     (\<forall>s \<in> set ss. idPattern (ID s) \<and> ID s \<notin> set seen) \<and> distinct (map ID ss)"
  by (induction ss arbitrary: i seen) (auto simp: image_iff)

lemma check_refs_None_iff:
  "check_satisfied_by ids inps = None \<longleftrightarrow> (\<forall>inp \<in> set inps. in_SatisfiedBy inp \<in> set ids)"
  "check_produced_by ids outs = None \<longleftrightarrow> (\<forall>out \<in> set outs. out_ProducedBy out \<in> set ids)"
  "check_deps ids ss = None \<longleftrightarrow> (\<forall>s \<in> set ss. set (DependsOn s) \<subseteq> set ids)"
  unfolding check_satisfied_by_def check_produced_by_def check_deps_def
  by (rule first_error_const_None_iff; auto simp: first_error_None_iff set_conv_nth)+

text \<open>When a step, a file and a flat graph are well formed.\<close>

definition workspace_wf :: "WorkspaceConfig option \<Rightarrow> bool" where
  "workspace_wf w \<longleftrightarrow> (\<forall>c. w = Some c \<longrightarrow>
     wc_Mode c \<in> {None, Some ''isolated'', Some ''shared''} \<and>
     wc_OnLogicalConflict c \<in> {None, Some ''block'', Some ''allow''})"

definition command_wf :: "Step \<Rightarrow> bool" where
  "command_wf s \<longleftrightarrow> Run s \<noteq> '''' \<and> Source s = None \<and> Bindings s = [] \<and> Harness s = [] \<and> Instructions s = ''''"

definition agent_wf :: "Step \<Rightarrow> bool" where
  "agent_wf s \<longleftrightarrow> Harness s \<noteq> [] \<and> Instructions s \<noteq> '''' \<and> Mode s \<in> {'''', ''headless'', ''supervised''} \<and>
     Source s = None \<and> Bindings s = [] \<and> Run s = ''''"

definition include_wf :: "Step \<Rightarrow> bool" where
  "include_wf s \<longleftrightarrow> (\<exists>src. Source s = Some src \<and> TrimSpace src \<noteq> '''') \<and> Run s = '''' \<and>
     (\<forall>(k, v) \<in> set (Bindings s). TrimSpace k \<noteq> '''' \<and> TrimSpace v \<noteq> '''')"

definition step_wf :: "Step \<Rightarrow> bool" where
  "step_wf s \<longleftrightarrow>
     (Type s = ''command'' \<and> command_wf s \<or> Type s = ''agent'' \<and> agent_wf s \<or>
      Type s = ''workflow'' \<and> include_wf s) \<and>
     workspace_wf (Workspace s) \<and> (\<forall>t. TimeoutSeconds s = Some t \<longrightarrow> 1 \<le> t)"

definition contract_wf :: "Workflow \<Rightarrow> bool" where
  "contract_wf f \<longleftrightarrow>
     (\<forall>inp \<in> set (wf_Inputs f). idPattern (in_Name inp) \<and> idPattern (in_SatisfiedBy inp) \<and>
        in_SatisfiedBy inp \<in> ID ` set (wf_Steps f)) \<and>
     (\<forall>out \<in> set (wf_Outputs f). idPattern (out_Name out) \<and> idPattern (out_ProducedBy out) \<and>
        out_ProducedBy out \<in> ID ` set (wf_Steps f)) \<and>
     distinct (map in_Name (wf_Inputs f)) \<and> distinct (map out_Name (wf_Outputs f))"

definition graph_wf :: "Step list \<Rightarrow> bool" where
  "graph_wf ss \<longleftrightarrow>
     ss \<noteq> [] \<and> distinct (map ID ss) \<and> (\<forall>s \<in> set ss. set (DependsOn s) \<subseteq> ID ` set ss) \<and>
     acyclic (dep_rel ss)"

definition file_wf :: "bool \<Rightarrow> Workflow \<Rightarrow> bool" where
  "file_wf isRoot f \<longleftrightarrow>
     wf_Version f = 2 \<and> (isRoot \<longrightarrow> wf_Inputs f = [] \<and> wf_Outputs f = []) \<and> contract_wf f \<and>
     (\<forall>s \<in> set (wf_Steps f). idPattern (ID s) \<and> step_wf s) \<and>
     workspace_wf (wf_Workspace f) \<and> graph_wf (wf_Steps f)"

lemma check_bindings_None_iff:
  "check_bindings i bs = None \<longleftrightarrow> (\<forall>(k, v) \<in> set bs. TrimSpace k \<noteq> '''' \<and> TrimSpace v \<noteq> '''')"
  unfolding check_bindings_def by (rule first_error_const_None_iff) (auto split: prod.splits)

lemma check_workspace_None_iff: "check_workspace p w = None \<longleftrightarrow> workspace_wf w"
  by (auto simp: check_workspace_def workspace_wf_def split: option.splits)

lemma check_step_None_iff: "check_step i s = None \<longleftrightarrow> step_wf s"
proof -
  have c: "check_command i s = None \<longleftrightarrow> command_wf s"
    by (simp add: check_command_def command_wf_def)
  have a: "check_agent i s = None \<longleftrightarrow> agent_wf s"
    by (auto simp: check_agent_def agent_wf_def)
  have w: "check_workflow i s = None \<longleftrightarrow> include_wf s"
    by (auto simp: check_workflow_def include_wf_def check_bindings_None_iff split: option.splits)
  show ?thesis
    by (auto simp: check_step_def step_wf_def c a w check_workspace_None_iff not_less
        split: option.splits if_splits)
qed

text \<open>In a finite acyclic graph whose dependencies exist some step has none, so the last check of
  both validators never fires on its own.\<close>

lemma graph_wf_entry: "graph_wf ss \<Longrightarrow> \<exists>s \<in> set ss. DependsOn s = []"
proof (rule ccontr)
  assume g: "graph_wf ss" and "\<not> (\<exists>s \<in> set ss. DependsOn s = [])"
  then have d: "\<forall>s \<in> set ss. \<exists>d. d \<in> set (DependsOn s) \<and> d \<in> ID ` set ss"
    by (metis graph_wf_def list.set_intros(1) neq_Nil_conv subsetD)
  have "dep_rel ss \<subseteq> ID ` set ss \<times> ID ` set ss"
    using g by (auto simp: dep_rel_def graph_wf_def)
  then have "finite (dep_rel ss)" by (rule finite_subset) simp
  then have "wf ((dep_rel ss)\<inverse>)"
    using g by (intro finite_acyclic_wf_converse) (auto simp: graph_wf_def)
  moreover from g obtain s where "s \<in> set ss" by (cases ss) (auto simp: graph_wf_def)
  ultimately obtain n where n: "n \<in> ID ` set ss" "\<And>m. (m, n) \<in> (dep_rel ss)\<inverse> \<Longrightarrow> m \<notin> ID ` set ss"
    by (metis wfE_min imageI)
  then obtain s where "s \<in> set ss" "n = ID s" by auto
  with d n(2) show False by (fastforce simp: dep_rel_def)
qed

lemma ValidateFile_None_iff: "ValidateFile (Some f) path isRoot = None \<longleftrightarrow> file_wf isRoot f"
proof -
  have s: "first_error 0 check_step ss = None \<longleftrightarrow> (\<forall>s \<in> set ss. step_wf s)" for ss
    by (rule first_error_const_None_iff) (rule check_step_None_iff)
  have "ValidateFile (Some f) path isRoot = None \<longleftrightarrow>
      file_wf isRoot f \<and> (\<exists>s \<in> set (wf_Steps f). DependsOn s = [])"
    by (auto simp: ValidateFile_def Let_def file_wf_def contract_wf_def graph_wf_def s
        check_inputs_None_iff check_outputs_None_iff check_step_ids_None_iff check_refs_None_iff
        check_workspace_None_iff detectCycle_None_iff list_ex_iff)
  then show ?thesis using graph_wf_entry by (auto simp: file_wf_def)
qed

lemma flat_to_step_simps [simp]:
  "ID (flat_to_step s) = fs_ID s" "DependsOn (flat_to_step s) = fs_DependsOn s"
  "ID \<circ> flat_to_step = fs_ID"
  by (simp_all add: flat_to_step_def zero_Step_def fun_eq_iff)

definition flat_rel :: "FlatStep list \<Rightarrow> (string \<times> string) set" where
  "flat_rel ss = {(fs_ID s, d) | s d. s \<in> set ss \<and> d \<in> set (fs_DependsOn s)}"

definition flat_wf :: "FlatStep list \<Rightarrow> bool" where
  "flat_wf ss \<longleftrightarrow>
     ss \<noteq> [] \<and> length ss \<le> 256 \<and> distinct (map fs_ID ss) \<and>
     (\<forall>s \<in> set ss. fs_Type s \<noteq> ''workflow'' \<and> fs_ID s \<noteq> '''' \<and>
        set (fs_DependsOn s) \<subseteq> fs_ID ` set ss \<and> set (fs_Requires s) \<inter> fs_ID ` set ss = {}) \<and>
     acyclic (flat_rel ss)"

lemma dep_rel_flat: "dep_rel (map flat_to_step ss) = flat_rel ss"
proof -
  have "(a, b) \<in> dep_rel (map flat_to_step ss) \<longleftrightarrow> (a, b) \<in> flat_rel ss" for a b
    unfolding dep_rel_def flat_rel_def by force
  then show ?thesis by auto
qed

lemma check_flat_ids_None_iff:
  "check_flat_ids n i seen ss = None \<longleftrightarrow>
     (\<forall>s \<in> set ss. fs_Type s \<noteq> ''workflow'' \<and> fs_ID s \<noteq> '''' \<and> fs_ID s \<notin> set seen) \<and>
     distinct (map fs_ID ss) \<and> (ss \<noteq> [] \<longrightarrow> n \<le> 256)"
  by (induction ss arbitrary: i seen) (auto simp: image_iff)

lemma check_flat_refs_None_iff:
  "check_flat_refs ids ss = None \<longleftrightarrow>
     (\<forall>s \<in> set ss. set (fs_DependsOn s) \<subseteq> set ids \<and> set (fs_Requires s) \<inter> set ids = {})"
proof -
  have a: "first_error 0 (\<lambda>j x. fail_if (P x) (e j x)) xs = None \<longleftrightarrow> (\<forall>x \<in> set xs. \<not> P x)"
    for P and e :: "nat \<Rightarrow> string \<Rightarrow> goerr" and xs
    by (rule first_error_const_None_iff) simp
  show ?thesis
    unfolding check_flat_refs_def by (rule first_error_const_None_iff) (auto simp: a)
qed

lemma flat_cycle_None_iff:
  "distinct (map fs_ID ss) \<Longrightarrow> flat_cycle ss = None \<longleftrightarrow> acyclic (flat_rel ss)"
  using detectCycle_None_iff [of "map flat_to_step ss"]
  by (auto simp: flat_cycle_def dep_rel_flat split: option.splits err_kind.splits)

lemma ValidateFlat_None_iff: "ValidateFlat (Some dag) = None \<longleftrightarrow> flat_wf (dag_Steps dag)"
proof -
  have "\<exists>s \<in> set ss. fs_DependsOn s = []" if "flat_wf ss" for ss
  proof -
    have "graph_wf (map flat_to_step ss)"
      using that by (auto simp: graph_wf_def flat_wf_def dep_rel_flat image_image)
    from graph_wf_entry [OF this] show ?thesis by auto
  qed
  moreover have "ValidateFlat (Some dag) = None \<longleftrightarrow>
      flat_wf (dag_Steps dag) \<and> (\<exists>s \<in> set (dag_Steps dag). fs_DependsOn s = [])"
    by (auto simp: ValidateFlat_def flat_wf_def check_flat_ids_None_iff check_flat_refs_None_iff
        flat_cycle_None_iff list_ex_iff ball_conj_distrib)
  ultimately show ?thesis by blast
qed

section \<open>Properties\<close>

text \<open>C29. \<^verbatim>\<open>ValidateFile\<close> accepts a workflow file exactly when it is well formed: version
  2, no contract on a root file, unique and well-spelled names, contracts and dependencies that
  refer to steps of the file, steps whose fields are those their type is checked for, and an acyclic dependency graph
  (whose entry point then exists). A step of the type \<^verbatim>\<open>workflow\<close> is checked for a source, for the absence of a command and for its
  bindings only: the harness and the instructions of an agent pass there, although a comment of the code says that such a step should not have them.\<close>

theorem validate_file_iff:
  "ValidateFile (Some f) path isRoot = None \<longleftrightarrow>
     wf_Version f = 2 \<and> (isRoot \<longrightarrow> wf_Inputs f = [] \<and> wf_Outputs f = []) \<and> contract_wf f \<and>
     (\<forall>s \<in> set (wf_Steps f). idPattern (ID s) \<and> step_wf s) \<and>
     workspace_wf (wf_Workspace f) \<and> graph_wf (wf_Steps f)"
  using ValidateFile_None_iff by (simp add: file_wf_def)

text \<open>A step that includes a workflow and has the fields of an agent is accepted.\<close>

lemma agent_fields_pass:
  "ValidateFile (Some \<lparr>wf_Version = 2, wf_Name = ''w'', wf_Workspace = None, wf_Inputs = [], wf_Outputs = [],
     wf_Steps = [zero_Step\<lparr>ID := ''a'', Type := ''workflow'', Source := Some ''b.yaml'', Harness := [''claude''], Instructions := ''go''\<rparr>]\<rparr>)
     ''w.yaml'' True = None"
  by code_simp

definition demo_step :: "string \<Rightarrow> string list \<Rightarrow> Step" where
  "demo_step i deps = zero_Step\<lparr>ID := i, Type := ''command'', Run := ''make'', DependsOn := deps\<rparr>"

definition demo_flow :: "Step list \<Rightarrow> Workflow" where
  "demo_flow ss = \<lparr>wf_Version = 2, wf_Name = ''w'', wf_Workspace = None, wf_Inputs = [],
     wf_Outputs = [], wf_Steps = ss\<rparr>"

theorem validate_file_iff_witness:
  "graph_wf [demo_step ''a'' [], demo_step ''b'' [''a'']] \<and>
   \<not> graph_wf [demo_step ''a'' [''b''], demo_step ''b'' [''a'']]"
proof -
  let ?f = "demo_flow [demo_step ''a'' [], demo_step ''b'' [''a'']]"
  let ?g = "demo_flow [demo_step ''a'' [''b''], demo_step ''b'' [''a'']]"
  have "ValidateFile (Some ?f) ''w.yaml'' True = None" by code_simp
  then have f: "graph_wf (wf_Steps ?f)"
    using validate_file_iff [of ?f "''w.yaml''" True] by blast
  have "detectCycle (wf_Steps ?g) \<noteq> None" by code_simp
  then have "\<not> acyclic (dep_rel (wf_Steps ?g))"
    using detectCycle_None_iff [of "wf_Steps ?g"] by (auto simp: demo_flow_def demo_step_def zero_Step_def)
  with f show ?thesis by (simp add: demo_flow_def graph_wf_def)
qed

text \<open>\<^verbatim>\<open>detectCycle\<close> on steps with distinct identifiers: it reports nothing exactly
  when the dependency relation is acyclic, and what it reports is a \<^verbatim>\<open>cycle_detected\<close>
  error whose text lists a closed walk along dependencies.\<close>

theorem detect_cycle_correct:
  assumes "distinct (map ID steps)"
  shows "(detectCycle steps = None \<longleftrightarrow> acyclic (dep_rel steps)) \<and>
    (\<forall>e. detectCycle steps = Some e \<longrightarrow> (\<exists>c. is_cycle (dep_rel steps) c \<and>
       e = newValidationError ''cycle_detected'' '''' (''cycle detected: '' @ join_with '' -> '' c)))"
  using detectCycle_None_iff [OF assms] detectCycle_SomeD [OF assms] by metis

theorem detect_cycle_correct_witness:
  "\<not> acyclic (dep_rel [demo_step ''a'' [''b''], demo_step ''b'' [''c''], demo_step ''c'' [''b'']]) \<and>
   err_msg (the (detectCycle [demo_step ''a'' [''b''], demo_step ''b'' [''c''], demo_step ''c'' [''b'']])) =
     ''cycle_detected: cycle detected: b -> c -> b''"
proof -
  let ?ss = "[demo_step ''a'' [''b''], demo_step ''b'' [''c''], demo_step ''c'' [''b'']]"
  have d: "distinct (map ID ?ss)" by code_simp
  have m: "map_option err_msg (detectCycle ?ss) = Some ''cycle_detected: cycle detected: b -> c -> b''"
    by code_simp
  then obtain e where e: "detectCycle ?ss = Some e"
      "err_msg e = ''cycle_detected: cycle detected: b -> c -> b''"
    by (auto simp: map_option_eq_Some)
  then have "detectCycle ?ss \<noteq> None" by simp
  with detect_cycle_correct [OF d] e show ?thesis by simp
qed

text \<open>\<^verbatim>\<open>ValidateFlat\<close> accepts a flat graph exactly when it has between 1 and 256
  steps with distinct non-empty identifiers and no workflow node, its dependencies name steps of
  the graph, no required artifact is named like a step, and the dependencies are acyclic.\<close>

theorem validate_flat_iff:
  "ValidateFlat (Some dag) = None \<longleftrightarrow>
     dag_Steps dag \<noteq> [] \<and> length (dag_Steps dag) \<le> 256 \<and> distinct (map fs_ID (dag_Steps dag)) \<and>
     (\<forall>s \<in> set (dag_Steps dag). fs_Type s \<noteq> ''workflow'' \<and> fs_ID s \<noteq> '''' \<and>
        set (fs_DependsOn s) \<subseteq> fs_ID ` set (dag_Steps dag) \<and>
        set (fs_Requires s) \<inter> fs_ID ` set (dag_Steps dag) = {}) \<and>
     acyclic (flat_rel (dag_Steps dag))"
  using ValidateFlat_None_iff by (simp add: flat_wf_def)

definition demo_flat :: "string \<Rightarrow> string list \<Rightarrow> FlatStep" where
  "demo_flat i deps = \<lparr>fs_ID = i, fs_Type = ''command'', fs_Run = ''make'', fs_Env = [],
     fs_TimeoutSeconds = None, fs_DependsOn = deps, fs_Requires = [], fs_Produces = [],
     fs_Harness = [], fs_Instructions = '''', fs_Mode = '''', fs_Workspace = None,
     fs_Source = None, fs_Bindings = []\<rparr>"

theorem validate_flat_iff_witness:
  "acyclic (flat_rel [demo_flat ''a'' [], demo_flat ''x.b'' [''a'']])"
proof -
  let ?d = "\<lparr>dag_Steps = [demo_flat ''a'' [], demo_flat ''x.b'' [''a'']], dag_Hash = ''''\<rparr>"
  have "ValidateFlat (Some ?d) = None" by code_simp
  then show ?thesis using validate_flat_iff [of ?d] by simp
qed

end
