(* ===== verification/Toposort.thy ===== *)
theory Toposort
  imports Validate
begin

text \<open>
  \<^verbatim>\<open>topoSort\<close> of \<^verbatim>\<open>internal/workflow/compose.go\<close>: Kahn's
  algorithm with a queue that is sorted after every step. The loop is a function on in-degrees,
  queue and output that terminates because an element enters the queue only when its in-degree
  falls to zero. The lemmas show that the output is a permutation of the input in which every
  dependency comes first, and that the sort fails exactly on cyclic or dangling dependencies.
\<close>

definition id_to_idx :: "FlatStep list \<Rightarrow> (string, nat) gomap" where
  "id_to_idx steps = fold (\<lambda>(i, s) m. AList.update (fs_ID s) i m) (enumerate 0 steps) []"

definition set_indegree :: "FlatStep \<Rightarrow> (string \<Rightarrow> int) \<Rightarrow> string \<Rightarrow> int" where
  "set_indegree s d = d(fs_ID s := int (length (fs_DependsOn s)))"

definition indegrees :: "FlatStep list \<Rightarrow> string \<Rightarrow> int" where
  "indegrees steps = fold set_indegree steps (\<lambda>_. 0)"

definition add_edge :: "string \<Rightarrow> string \<Rightarrow> adjacency \<Rightarrow> adjacency" where
  "add_edge dep i adj = AList.update dep (neighbours adj dep @ [i]) adj"

definition dependents :: "FlatStep list \<Rightarrow> adjacency" where
  "dependents steps = fold (\<lambda>s adj. fold (\<lambda>dep adj. add_edge dep (fs_ID s) adj) (fs_DependsOn s) adj) steps []"

fun relax :: "string list \<Rightarrow> (string \<Rightarrow> int) \<times> string list \<Rightarrow> (string \<Rightarrow> int) \<times> string list" where
  "relax [] st = st"
| "relax (nxt # rest) (indeg, queue) =
     (let indeg' = indeg(nxt := indeg nxt - 1) in
      relax rest (indeg', if indeg' nxt = 0 then queue @ [nxt] else queue))"

definition pending :: "adjacency \<Rightarrow> (string \<Rightarrow> int) \<Rightarrow> string set" where
  "pending adj indeg = {x \<in> \<Union> (set ` snd ` set adj). 0 < indeg x}"

lemma finite_pending [simp]: "finite (pending adj indeg)"
  by (auto simp: pending_def)

lemma relax_length:
  "set xs \<subseteq> \<Union> (set ` snd ` set adj) \<Longrightarrow>
   (case relax xs (indeg, queue) of (indeg', queue') \<Rightarrow>
      length queue' + card (pending adj indeg') \<le> length queue + card (pending adj indeg))"
proof (induction xs arbitrary: indeg queue)
  case (Cons x xs)
  define indeg' where "indeg' = indeg(x := indeg x - 1)"
  have sub: "pending adj indeg' \<subseteq> pending adj indeg"
    by (auto simp: pending_def indeg'_def split: if_splits)
  have "(if indeg' x = 0 then 1 else 0) + card (pending adj indeg') \<le> card (pending adj indeg)"
  proof (cases "indeg' x = 0")
    case True
    then have "x \<in> pending adj indeg" "x \<notin> pending adj indeg'"
      using Cons.prems by (auto simp: pending_def indeg'_def)
    with sub have "pending adj indeg' \<subset> pending adj indeg" by auto
    then show ?thesis using True by (simp add: psubset_card_mono Suc_leI)
  next
    case False
    with sub show ?thesis by (simp add: card_mono)
  qed
  then show ?case
    using Cons.IH [where indeg = indeg' and queue = "if indeg' x = 0 then queue @ [x] else queue"]
      Cons.prems
    by (auto simp: Let_def indeg'_def [symmetric] split: prod.splits if_splits)
qed simp

lemma neighbours_range: "set (neighbours adj n) \<subseteq> \<Union> (set ` snd ` set adj)"
proof (cases "map_of adj n")
  case (Some l)
  then have "l \<in> snd ` set adj" by (force dest: map_of_SomeD)
  with Some show ?thesis by (auto simp: neighbours_def)
qed (simp add: neighbours_def)

function kahn :: "FlatStep list \<Rightarrow> (string, nat) gomap \<Rightarrow> adjacency \<Rightarrow> (string \<Rightarrow> int) \<Rightarrow> string list \<Rightarrow>
    FlatStep list \<Rightarrow> FlatStep list" where
  "kahn steps idx adj indeg queue out =
     (case queue of
        [] \<Rightarrow> out
      | cur # rest \<Rightarrow>
          (let i = (case map_of idx cur of None \<Rightarrow> 0 | Some i \<Rightarrow> i);
               out' = out @ [steps ! i];
               (indeg', queue') = relax (neighbours adj cur) (indeg, rest)
           in kahn steps idx adj indeg' (sort queue') out'))"
  by pat_completeness auto

termination kahn
proof (relation "measure (\<lambda>(steps, idx, adj, indeg, queue, out). length queue + card (pending adj indeg))",
    goal_cases)
  case (2 steps idx adj indeg queue out cur rest i out' r indeg' queue')
  then have "relax (neighbours adj cur) (indeg, rest) = (indeg', queue')" by simp
  moreover have "set (neighbours adj cur) \<subseteq> \<Union> (set ` snd ` set adj)" by (rule neighbours_range)
  ultimately show ?case
    using relax_length [where xs = "neighbours adj cur" and adj = adj and indeg = indeg and queue = rest]
      2(1) by simp
qed simp

declare kahn.simps [simp del]

definition topoSort :: "FlatStep list \<Rightarrow> goerr + FlatStep list" where
  "topoSort steps =
     (let indeg = indegrees steps;
          queue = sort (filter (\<lambda>i. indeg i = 0) (map fs_ID steps));
          out = kahn steps (id_to_idx steps) (dependents steps) indeg queue []
      in if length out \<noteq> length steps
         then Inl (newValidationError ''cycle_detected'' '''' ''cycle in flat depends_on'')
         else Inr out)"

section \<open>The tables\<close>

lemma fold_set_indegree_other:
  "x \<notin> fs_ID ` set steps \<Longrightarrow> fold set_indegree steps d x = d x"
  by (induction steps arbitrary: d) (auto simp: set_indegree_def)

lemma indegrees_fold:
  "distinct (map fs_ID steps) \<Longrightarrow> s \<in> set steps \<Longrightarrow>
   fold set_indegree steps d0 (fs_ID s) = int (length (fs_DependsOn s))"
proof (induction steps arbitrary: d0)
  case (Cons t steps)
  then show ?case
    using fold_set_indegree_other [of "fs_ID t" steps "set_indegree t d0"]
    by (cases "s = t") (auto simp: set_indegree_def [of t d0])
qed simp

lemma indegrees_ID:
  "distinct (map fs_ID steps) \<Longrightarrow> s \<in> set steps \<Longrightarrow>
   indegrees steps (fs_ID s) = int (length (fs_DependsOn s))"
  by (simp add: indegrees_def indegrees_fold)

lemma id_to_idx_fold:
  "map_of (fold (\<lambda>(i, s) m. AList.update (fs_ID s) i m) ps m) x =
     (case filter (\<lambda>(i, s). fs_ID s = x) ps of [] \<Rightarrow> map_of m x | qs \<Rightarrow> Some (fst (last qs)))"
  by (induction ps arbitrary: m) (auto split: list.splits)

lemma id_to_idx_nth:
  assumes "distinct (map fs_ID steps)" "i < length steps"
  shows "map_of (id_to_idx steps) (fs_ID (steps ! i)) = Some i"
proof -
  define qs where "qs = filter (\<lambda>(j, s). fs_ID s = fs_ID (steps ! i)) (enumerate 0 steps)"
  have mem: "(j, s) \<in> set (enumerate 0 steps) \<longleftrightarrow> j < length steps \<and> s = steps ! j" for j s
    by (auto simp: in_set_enumerate_eq)
  have "q = (i, steps ! i)" if "q \<in> set qs" for q
  proof -
    from that obtain j where j: "q = (j, steps ! j)" "j < length steps" "fs_ID (steps ! j) = fs_ID (steps ! i)"
      using mem by (auto simp: qs_def)
    then have "j = i"
      using nth_eq_iff_index_eq [OF assms(1), of j i] assms(2) by simp
    then show ?thesis using j(1) by simp
  qed
  moreover have ne: "qs \<noteq> []"
  proof -
    have "(i, steps ! i) \<in> set qs" using assms(2) mem by (simp add: qs_def)
    then show ?thesis by auto
  qed
  ultimately have "last qs = (i, steps ! i)" by simp
  with ne show ?thesis
    unfolding id_to_idx_def id_to_idx_fold qs_def [symmetric] by (cases qs) simp_all
qed

lemma neighbours_add_edge:
  "neighbours (add_edge dep i adj) d = (if d = dep then neighbours adj d @ [i] else neighbours adj d)"
  by (simp add: add_edge_def neighbours_def)

lemma neighbours_add_edges:
  "count_list (neighbours (fold (\<lambda>dep adj. add_edge dep i adj) deps adj) d) x =
     count_list (neighbours adj d) x + (if x = i then count_list deps d else 0)"
  by (induction deps arbitrary: adj) (auto simp: neighbours_add_edge)

lemma neighbours_dependents_fold:
  "count_list (neighbours (fold (\<lambda>s adj. fold (\<lambda>dep adj. add_edge dep (fs_ID s) adj) (fs_DependsOn s) adj)
      steps adj) d) x =
     count_list (neighbours adj d) x + (\<Sum>s\<leftarrow>steps. if x = fs_ID s then count_list (fs_DependsOn s) d else 0)"
  by (induction steps arbitrary: adj) (simp_all add: neighbours_add_edges)

lemma count_dependents:
  "distinct (map fs_ID steps) \<Longrightarrow> s \<in> set steps \<Longrightarrow>
   count_list (neighbours (dependents steps) d) (fs_ID s) = count_list (fs_DependsOn s) d"
proof -
  have z: "(\<Sum>s\<leftarrow>ts. if x = fs_ID s then f s else 0) = (0::nat)" if "x \<notin> fs_ID ` set ts" for ts x f
    using that by (induction ts) auto
  have "distinct (map fs_ID ts) \<Longrightarrow> s \<in> set ts \<Longrightarrow>
      (\<Sum>t\<leftarrow>ts. if fs_ID s = fs_ID t then count_list (fs_DependsOn t) d else 0) =
      count_list (fs_DependsOn s) d" for ts
    by (induction ts) (auto simp: z image_iff)
  then show "distinct (map fs_ID steps) \<Longrightarrow> s \<in> set steps \<Longrightarrow> ?thesis"
    by (simp add: dependents_def neighbours_dependents_fold) (simp add: neighbours_def)
qed

lemma dependents_ids: "set (neighbours (dependents steps) d) \<subseteq> fs_ID ` set steps"
proof
  fix x assume x: "x \<in> set (neighbours (dependents steps) d)"
  then have "count_list (neighbours (dependents steps) d) x \<noteq> 0"
    by (simp add: count_list_0_iff)
  then have "(\<Sum>s\<leftarrow>steps. if x = fs_ID s then count_list (fs_DependsOn s) d else 0) \<noteq> 0"
    by (simp add: dependents_def neighbours_dependents_fold) (simp add: neighbours_def)
  then show "x \<in> fs_ID ` set steps" by (auto split: if_splits)
qed

lemma relax_spec:
  "\<exists>new. relax xs (indeg, queue) = (\<lambda>x. indeg x - int (count_list xs x), queue @ new) \<and> distinct new \<and>
     set new = {x. 0 < indeg x \<and> indeg x \<le> int (count_list xs x)}"
proof (induction xs arbitrary: indeg queue)
  case (Cons y ys)
  let ?i = "indeg(y := indeg y - 1)"
  obtain new where new: "relax ys (?i, if ?i y = 0 then queue @ [y] else queue) =
      (\<lambda>x. ?i x - int (count_list ys x), (if ?i y = 0 then queue @ [y] else queue) @ new)"
    "distinct new" "set new = {x. 0 < ?i x \<and> ?i x \<le> int (count_list ys x)}"
    using Cons.IH by blast
  define new' where "new' = (if indeg y = 1 then [y] else []) @ new"
  have "relax (y # ys) (indeg, queue) = (\<lambda>x. indeg x - int (count_list (y # ys) x), queue @ new')"
    using new(1) by (auto simp: new'_def Let_def fun_eq_iff)
  moreover have "distinct new'" using new(2,3) by (auto simp: new'_def)
  moreover have "x \<in> set new' \<longleftrightarrow> 0 < indeg x \<and> indeg x \<le> int (count_list (y # ys) x)" for x
    using new(3) by (cases "x = y") (auto simp: new'_def)
  then have "set new' = {x. 0 < indeg x \<and> indeg x \<le> int (count_list (y # ys) x)}" by blast
  ultimately show ?case by blast
qed auto

section \<open>The loop invariant\<close>

definition deps_first :: "FlatStep list \<Rightarrow> bool" where
  "deps_first out \<longleftrightarrow> (\<forall>us s vs. out = us @ s # vs \<longrightarrow> set (fs_DependsOn s) \<subseteq> fs_ID ` set us)"

definition open_deps :: "FlatStep list \<Rightarrow> FlatStep \<Rightarrow> string list" where
  "open_deps out s = filter (\<lambda>d. d \<notin> fs_ID ` set out) (fs_DependsOn s)"

definition kahn_inv :: "FlatStep list \<Rightarrow> (string \<Rightarrow> int) \<Rightarrow> string list \<Rightarrow> FlatStep list \<Rightarrow> bool" where
  "kahn_inv steps indeg queue out \<longleftrightarrow>
     set out \<subseteq> set steps \<and> distinct (map fs_ID out) \<and> deps_first out \<and>
     (\<forall>s \<in> set steps. indeg (fs_ID s) = int (length (open_deps out s))) \<and> distinct queue \<and>
     set queue = {fs_ID s | s. s \<in> set steps \<and> open_deps out s = [] \<and> fs_ID s \<notin> fs_ID ` set out}"

lemma deps_first_Nil [simp]: "deps_first []"
  by (simp add: deps_first_def)

lemma deps_first_snoc:
  "deps_first (out @ [s]) \<longleftrightarrow> deps_first out \<and> set (fs_DependsOn s) \<subseteq> fs_ID ` set out"
proof
  assume d: "deps_first (out @ [s])"
  then have "set (fs_DependsOn s) \<subseteq> fs_ID ` set out" by (auto simp: deps_first_def)
  moreover have "deps_first out" using d by (fastforce simp: deps_first_def)
  ultimately show "deps_first out \<and> set (fs_DependsOn s) \<subseteq> fs_ID ` set out" by simp
next
  assume d: "deps_first out \<and> set (fs_DependsOn s) \<subseteq> fs_ID ` set out"
  show "deps_first (out @ [s])"
    unfolding deps_first_def
  proof (intro allI impI)
    fix us t vs assume "out @ [s] = us @ t # vs"
    with d show "set (fs_DependsOn t) \<subseteq> fs_ID ` set us"
      by (cases vs rule: rev_cases) (auto simp: deps_first_def)
  qed
qed

lemma deps_first_closed: "deps_first out \<Longrightarrow> s \<in> set out \<Longrightarrow> set (fs_DependsOn s) \<subseteq> fs_ID ` set out"
  by (fastforce simp: deps_first_def dest: split_list)

lemma length_filter_snoc:
  "x \<notin> D \<Longrightarrow> length (filter (\<lambda>d. d \<notin> D) ds) =
     length (filter (\<lambda>d. d \<notin> insert x D) ds) + count_list ds x"
  by (induction ds) auto

lemma kahn_step:
  assumes d: "distinct (map fs_ID steps)" and inv: "kahn_inv steps indeg (fs_ID s # rest) out"
    and s: "s \<in> set steps"
  shows "case relax (neighbours (dependents steps) (fs_ID s)) (indeg, rest) of
    (indeg', queue') \<Rightarrow> kahn_inv steps indeg' (sort queue') (out @ [s])"
proof -
  let ?L = "neighbours (dependents steps) (fs_ID s)" and ?out = "out @ [s]"
  have sq: "fs_ID s \<in> set (fs_ID s # rest)" "distinct (fs_ID s # rest)"
    using inv by (auto simp: kahn_inv_def)
  have u: "t = s" if "t \<in> set steps" "fs_ID t = fs_ID s" for t
    using d s that by (meson distinct_map inj_onD)
  have o: "open_deps out s = []" "fs_ID s \<notin> fs_ID ` set out"
  proof -
    have "fs_ID s \<in> {fs_ID s | s. s \<in> set steps \<and> open_deps out s = [] \<and> fs_ID s \<notin> fs_ID ` set out}"
      using inv sq(1) unfolding kahn_inv_def by blast
    then show "open_deps out s = []" "fs_ID s \<notin> fs_ID ` set out" using u by auto
  qed
  then have sd: "set (fs_DependsOn s) \<subseteq> fs_ID ` set out"
    by (auto simp: open_deps_def filter_empty_conv)
  have cnt: "length (open_deps out t) = length (open_deps ?out t) + count_list ?L (fs_ID t)"
    if "t \<in> set steps" for t
    using count_dependents [OF d that, of "fs_ID s"] length_filter_snoc [OF o(2), of "fs_DependsOn t"]
    by (simp add: open_deps_def)
  obtain new where new: "relax ?L (indeg, rest) = (\<lambda>x. indeg x - int (count_list ?L x), rest @ new)"
      "distinct new" "set new = {x. 0 < indeg x \<and> indeg x \<le> int (count_list ?L x)}"
    using relax_spec by blast
  have ind: "indeg (fs_ID t) = int (length (open_deps out t))" if "t \<in> set steps" for t
    using inv that by (simp add: kahn_inv_def)
  have newI: "fs_ID t \<in> set new \<longleftrightarrow> open_deps out t \<noteq> [] \<and> open_deps ?out t = []"
    if "t \<in> set steps" for t
    using cnt [OF that] ind [OF that] unfolding new(3)
    by (auto simp: length_greater_0_conv [symmetric] simp del: length_greater_0_conv)
  have newids: "x \<in> fs_ID ` set steps" if "x \<in> set new" for x
    using that dependents_ids [of steps "fs_ID s"] count_notin [of x ?L] unfolding new(3) by fastforce
  have restI: "fs_ID t \<in> set rest \<longleftrightarrow> t \<noteq> s \<and> open_deps out t = [] \<and> fs_ID t \<notin> fs_ID ` set out"
    if t: "t \<in> set steps" for t
  proof -
    have inj: "t' = t" if "t' \<in> set steps" "fs_ID t' = fs_ID t" for t'
      using d t that by (meson distinct_map inj_onD)
    have "fs_ID t \<in> set (fs_ID s # rest) \<longleftrightarrow>
        (\<exists>t'. fs_ID t = fs_ID t' \<and> t' \<in> set steps \<and> open_deps out t' = [] \<and> fs_ID t' \<notin> fs_ID ` set out)"
      using inv unfolding kahn_inv_def by blast
    then have "fs_ID t \<in> set (fs_ID s # rest) \<longleftrightarrow> open_deps out t = [] \<and> fs_ID t \<notin> fs_ID ` set out"
      using inj t by metis
    then show ?thesis using sq(2) u [OF t] by auto
  qed
  have fin: "open_deps out t = []" if "t \<in> set steps" "fs_ID t \<in> fs_ID ` set out" for t
  proof -
    have "t \<in> set out"
    proof -
      from that(2) obtain t' where "t' \<in> set out" "fs_ID t = fs_ID t'" by blast
      moreover from this inv have "t' \<in> set steps" by (auto simp: kahn_inv_def)
      ultimately show ?thesis using d that(1) by (metis distinct_map inj_onD)
    qed
    then show ?thesis
      using inv deps_first_closed [of out t] by (auto simp: kahn_inv_def open_deps_def filter_empty_conv)
  qed
  have mono: "open_deps out t = [] \<Longrightarrow> open_deps ?out t = []" for t
    by (auto simp: open_deps_def filter_empty_conv)
  have queueI: "fs_ID t \<in> set (rest @ new) \<longleftrightarrow> open_deps ?out t = [] \<and> fs_ID t \<notin> fs_ID ` set ?out"
    if t: "t \<in> set steps" for t
    using newI [OF t] restI [OF t] fin [OF t] mono [of t] o(1) u [OF t] by auto
  have ids: "x \<in> fs_ID ` set steps" if "x \<in> set (rest @ new)" for x
    using that newids inv by (auto simp: kahn_inv_def)
  have "set (rest @ new) = {fs_ID t | t. t \<in> set steps \<and> open_deps ?out t = [] \<and> fs_ID t \<notin> fs_ID ` set ?out}"
    using queueI ids by blast
  moreover have "distinct (rest @ new)"
    using new(2) sq(2) ids newI restI by fastforce
  moreover have "\<forall>t \<in> set steps. indeg (fs_ID t) - int (count_list ?L (fs_ID t)) = int (length (open_deps ?out t))"
    using ind cnt by simp
  ultimately show ?thesis
    using inv s o(2) sd by (simp add: new(1) kahn_inv_def deps_first_snoc)
qed

lemma kahn_correct:
  assumes "distinct (map fs_ID steps)" "idx = id_to_idx steps" "adj = dependents steps"
    "kahn_inv steps indeg queue out"
  shows "\<exists>indeg'. kahn_inv steps indeg' [] (kahn steps idx adj indeg queue out)"
  using assms
proof (induction steps idx adj indeg queue out rule: kahn.induct)
  case (1 steps idx adj indeg queue out)
  show ?case
  proof (cases queue)
    case Nil
    with "1.prems" show ?thesis by (subst kahn.simps) auto
  next
    case (Cons cur rest)
    have "cur \<in> set queue" using Cons by simp
    then obtain s where s: "s \<in> set steps" "cur = fs_ID s"
      using "1.prems"(4) by (auto simp: kahn_inv_def)
    then obtain i where i: "i < length steps" "s = steps ! i" by (metis in_set_conv_nth)
    then have m: "map_of idx cur = Some i"
      using "1.prems"(1,2) s(2) by (simp add: id_to_idx_nth)
    obtain indeg' queue' where r: "relax (neighbours adj cur) (indeg, rest) = (indeg', queue')"
      by (cases "relax (neighbours adj cur) (indeg, rest)")
    have "kahn_inv steps indeg' (sort queue') (out @ [s])"
      using kahn_step [OF "1.prems"(1) _ s(1), of indeg rest out] "1.prems"(3,4) Cons s(2) r by simp
    then have "\<exists>indeg''. kahn_inv steps indeg'' [] (kahn steps idx adj indeg' (sort queue') (out @ [s]))"
      using "1.IH" [OF Cons refl refl r [symmetric] refl "1.prems"(1-3)] m i(2) by simp
    moreover have "kahn steps idx adj indeg queue out = kahn steps idx adj indeg' (sort queue') (out @ [s])"
      by (subst kahn.simps) (simp add: Cons m r i(2))
    ultimately show ?thesis by simp
  qed
qed

lemma kahn_inv_init:
  assumes "distinct (map fs_ID steps)"
  shows "kahn_inv steps (indegrees steps)
    (sort (filter (\<lambda>i. indegrees steps i = 0) (map fs_ID steps))) []"
  using assms by (auto simp: kahn_inv_def open_deps_def indegrees_ID)

lemma deps_first_acyclic:
  assumes "deps_first out" "distinct (map fs_ID out)"
  shows "acyclic (flat_rel out)"
proof -
  define pos where "pos x = length (takeWhile (\<lambda>y. y \<noteq> x) (map fs_ID out))" for x
  have "pos d < pos (fs_ID s)" if s: "s \<in> set out" "d \<in> set (fs_DependsOn s)" for s d
  proof -
    from s(1) obtain us vs where o: "out = us @ s # vs" by (meson split_list)
    then have d: "d \<in> set (map fs_ID us)" using assms(1) s(2) by (auto simp: deps_first_def)
    then have "length (takeWhile (\<lambda>y. y \<noteq> d) (map fs_ID us)) < length (map fs_ID us)"
      by (induction us) auto
    then have "pos d < length us"
      using d by (simp add: pos_def o takeWhile_append1)
    moreover have "fs_ID s \<notin> set (map fs_ID us)" using assms(2) o by auto
    then have "takeWhile (\<lambda>y. y \<noteq> fs_ID s) (map fs_ID us @ map fs_ID (s # vs)) = map fs_ID us @ []"
      by (subst takeWhile_append2) (auto simp: image_iff)
    then have "pos (fs_ID s) = length us" by (simp add: pos_def o)
    ultimately show ?thesis by simp
  qed
  then have "(flat_rel out)\<inverse> \<subseteq> measure pos" by (auto simp: flat_rel_def)
  then have "wf ((flat_rel out)\<inverse>)" by (rule wf_subset [OF wf_measure])
  then have "acyclic ((flat_rel out)\<inverse>)" by (rule wf_acyclic)
  then show ?thesis by (simp only: acyclic_converse)
qed

lemma kahn_complete:
  assumes inv: "kahn_inv steps indeg [] out"
    and closed: "\<forall>s \<in> set steps. set (fs_DependsOn s) \<subseteq> fs_ID ` set steps"
    and ac: "acyclic (flat_rel steps)"
  shows "fs_ID ` set steps \<subseteq> fs_ID ` set out"
proof (rule ccontr)
  assume "\<not> fs_ID ` set steps \<subseteq> fs_ID ` set out"
  then obtain x where x: "x \<in> fs_ID ` set steps - fs_ID ` set out" by blast
  have "flat_rel steps \<subseteq> fs_ID ` set steps \<times> fs_ID ` set steps"
    using closed by (auto simp: flat_rel_def)
  then have "finite (flat_rel steps)" by (rule finite_subset) simp
  with ac have "wf ((flat_rel steps)\<inverse>)" by (intro finite_acyclic_wf_converse)
  from wfE_min [OF this x] obtain n where n: "n \<in> fs_ID ` set steps - fs_ID ` set out"
    "\<And>m. (m, n) \<in> (flat_rel steps)\<inverse> \<Longrightarrow> m \<notin> fs_ID ` set steps - fs_ID ` set out" by blast
  then obtain s where s: "s \<in> set steps" "n = fs_ID s" by auto
  have "open_deps out s = []"
    using n(2) s closed by (fastforce simp: open_deps_def filter_empty_conv flat_rel_def)
  then show False using inv n(1) s by (auto simp: kahn_inv_def)
qed

lemma topoSort_kahn_inv:
  assumes "distinct (map fs_ID steps)"
  obtains indeg out where "kahn_inv steps indeg [] out"
    "topoSort steps = (if length out \<noteq> length steps
       then Inl (newValidationError ''cycle_detected'' '''' ''cycle in flat depends_on'') else Inr out)"
proof -
  obtain indeg where "kahn_inv steps indeg [] (kahn steps (id_to_idx steps) (dependents steps)
      (indegrees steps) (sort (filter (\<lambda>i. indegrees steps i = 0) (map fs_ID steps))) [])"
    using kahn_correct [OF assms refl refl kahn_inv_init [OF assms]] by blast
  then show ?thesis by (rule that) (simp add: topoSort_def Let_def)
qed

lemma topoSort_Inr:
  assumes d: "distinct (map fs_ID steps)" and t: "topoSort steps = Inr out"
  shows "mset out = mset steps" "deps_first out"
proof -
  obtain indeg where inv: "kahn_inv steps indeg [] out" and l: "length out = length steps"
    using topoSort_kahn_inv [OF d] t by (metis Inl_Inr_False sum.inject(2))
  show "deps_first out" using inv by (simp add: kahn_inv_def)
  have do: "distinct out" "set out \<subseteq> set steps" "distinct steps"
    using inv d by (auto simp: kahn_inv_def distinct_map)
  then have "set out = set steps"
    by (metis card_subset_eq distinct_card finite_set l)
  with do show "mset out = mset steps" by (simp add: set_eq_iff_mset_eq_distinct [symmetric])
qed

lemma topoSort_total:
  assumes d: "distinct (map fs_ID steps)"
    and closed: "\<forall>s \<in> set steps. set (fs_DependsOn s) \<subseteq> fs_ID ` set steps"
    and ac: "acyclic (flat_rel steps)"
  shows "\<exists>out. topoSort steps = Inr out"
proof -
  obtain indeg out where inv: "kahn_inv steps indeg [] out" and
    t: "topoSort steps = (if length out \<noteq> length steps
       then Inl (newValidationError ''cycle_detected'' '''' ''cycle in flat depends_on'') else Inr out)"
    using topoSort_kahn_inv [OF d] by metis
  have "fs_ID ` set steps = fs_ID ` set out"
    using kahn_complete [OF inv closed ac] inv by (auto simp: kahn_inv_def)
  moreover have "distinct (map fs_ID out)" using inv by (simp add: kahn_inv_def)
  ultimately have "length (map fs_ID out) = length (map fs_ID steps)"
    using d by (metis distinct_card set_map)
  with t show ?thesis by simp
qed

section \<open>Properties\<close>

text \<open>\<^verbatim>\<open>topoSort\<close> on steps with distinct identifiers returns a permutation of them in
  which every step comes after all its dependencies.\<close>

theorem topo_sort_sound:
  assumes "distinct (map fs_ID steps)" "topoSort steps = Inr out"
  shows "mset out = mset steps \<and>
    (\<forall>us s vs. out = us @ s # vs \<longrightarrow> set (fs_DependsOn s) \<subseteq> fs_ID ` set us)"
  using topoSort_Inr [OF assms] by (simp add: deps_first_def)

theorem topo_sort_sound_witness:
  "topoSort [demo_flat ''c'' [''a'', ''b''], demo_flat ''b'' [''a''], demo_flat ''a'' []] =
     Inr [demo_flat ''a'' [], demo_flat ''b'' [''a''], demo_flat ''c'' [''a'', ''b'']] \<and>
   mset [demo_flat ''a'' [], demo_flat ''b'' [''a''], demo_flat ''c'' [''a'', ''b'']] =
     mset [demo_flat ''c'' [''a'', ''b''], demo_flat ''b'' [''a''], demo_flat ''a'' []]"
proof -
  let ?ss = "[demo_flat ''c'' [''a'', ''b''], demo_flat ''b'' [''a''], demo_flat ''a'' []]"
  have t: "topoSort ?ss = Inr [demo_flat ''a'' [], demo_flat ''b'' [''a''], demo_flat ''c'' [''a'', ''b'']]"
    by code_simp
  have "distinct (map fs_ID ?ss)" by code_simp
  from topo_sort_sound [OF this t] t show ?thesis by blast
qed

text \<open>C32. On steps with distinct identifiers \<^verbatim>\<open>topoSort\<close> always ends: with all the steps in an order in which every
  step comes after its dependencies exactly when all dependencies exist and are acyclic, and
  otherwise with a \<^verbatim>\<open>cycle_detected\<close> error.\<close>

theorem topo_sort_total:
  assumes "distinct (map fs_ID steps)"
  shows "if (\<forall>s \<in> set steps. set (fs_DependsOn s) \<subseteq> fs_ID ` set steps) \<and> acyclic (flat_rel steps)
    then \<exists>out. topoSort steps = Inr out \<and> mset out = mset steps \<and>
      (\<forall>us s vs. out = us @ s # vs \<longrightarrow> set (fs_DependsOn s) \<subseteq> fs_ID ` set us)
    else topoSort steps = Inl (newValidationError ''cycle_detected'' '''' ''cycle in flat depends_on'')"
proof (cases "topoSort steps")
  case (Inr out)
  note o = topoSort_Inr [OF assms Inr]
  have "set out = set steps" using o(1) by (metis set_mset_mset)
  moreover have "distinct (map fs_ID out)" using o(1) assms by (metis mset_eq_imp_distinct_iff mset_map)
  ultimately have "(\<forall>s \<in> set steps. set (fs_DependsOn s) \<subseteq> fs_ID ` set steps) \<and> acyclic (flat_rel steps)"
    using deps_first_acyclic [OF o(2)] deps_first_closed [OF o(2)] by (simp add: flat_rel_def)
  then show ?thesis using Inr o by (simp add: deps_first_def)
next
  case (Inl e)
  then have "e = newValidationError ''cycle_detected'' '''' ''cycle in flat depends_on''"
    by (auto simp: topoSort_def Let_def split: if_splits)
  moreover have "\<not> ((\<forall>s \<in> set steps. set (fs_DependsOn s) \<subseteq> fs_ID ` set steps) \<and> acyclic (flat_rel steps))"
    using topoSort_total [OF assms] Inl by auto
  ultimately show ?thesis using Inl by auto
qed

theorem topo_sort_total_witness:
  "\<not> (acyclic (flat_rel [demo_flat ''a'' [''b''], demo_flat ''b'' [''a'']]))"
proof -
  let ?ss = "[demo_flat ''a'' [''b''], demo_flat ''b'' [''a'']]"
  have "case topoSort ?ss of Inl e \<Rightarrow> True | Inr out \<Rightarrow> False" by code_simp
  then have n: "\<not> (\<exists>out. topoSort ?ss = Inr out)" by auto
  have d: "distinct (map fs_ID ?ss)" and c: "\<forall>s \<in> set ?ss. set (fs_DependsOn s) \<subseteq> fs_ID ` set ?ss" by code_simp+
  show ?thesis
  proof
    assume "acyclic (flat_rel ?ss)"
    with c have "(\<forall>s \<in> set ?ss. set (fs_DependsOn s) \<subseteq> fs_ID ` set ?ss) \<and> acyclic (flat_rel ?ss)" by (rule conjI)
    from topo_sort_total [OF d, unfolded if_P [OF this]] n show False by blast
  qed
qed

end
