(* ===== verification/Compose.thy ===== *)
theory Compose
  imports Toposort
begin

text \<open>
  Composition of workflow files, \<^verbatim>\<open>internal/workflow/compose.go\<close> and
  \<^verbatim>\<open>hash.go\<close>: \<^verbatim>\<open>flattenRec\<close> expands the workflow nodes of
  a file recursively, with the guards on depth, expansions and steps, the containment checks on
  sources, the binding rewrite and the rewriting of dependencies on workflow nodes. The counters
  \<^verbatim>\<open>expansions\<close> and \<^verbatim>\<open>totalSteps\<close> are threaded through the
  recursion; the map \<^verbatim>\<open>stack\<close> is passed down, since the deferred
  \<^verbatim>\<open>delete\<close> restores it on return. The reader of files, the YAML decoder, the
  file system and the digest (JSON, SHA-256, hex) are parameters.
\<close>

record flat_env =
  readFile :: "string \<Rightarrow> goerr + string"
  decode :: "string \<Rightarrow> string + Workflow"
  fsys :: filesys
  base :: string

section \<open>Paths\<close>

definition find_size :: "string \<Rightarrow> nat" where
  "find_size p = (if p = ''.'' then 0 else Suc (path_size p))"

lemma find_size_Dir: "Dir p \<noteq> p \<Longrightarrow> find_size (Dir p) < find_size p"
proof -
  assume "Dir p \<noteq> p"
  moreover have "Dir ''.'' = ''.''" by code_simp
  ultimately show ?thesis using path_size_Dir [of p] by (auto simp: find_size_def)
qed

function find_root_loop :: "string \<Rightarrow> string \<Rightarrow> string" where
  "find_root_loop path dir =
     (if Base dir = ''.haro'' then Dir dir
      else if Dir dir = dir then Dir (Dir (Dir (Dir path)))
      else find_root_loop path (Dir dir))"
  by pat_completeness auto

termination find_root_loop
  by (relation "measure (\<lambda>(path, dir). find_size dir)") (auto simp: find_size_Dir)

declare find_root_loop.simps [simp del]

definition findRoot :: "string \<Rightarrow> string" where
  "findRoot path = find_root_loop path (Dir path)"

definition canonicalPath :: "filesys \<Rightarrow> string \<Rightarrow> string" where
  "canonicalPath fs p =
     (let clean = Clean p in
      case EvalSymlinks fs clean of Inr ev \<Rightarrow> Clean ev | Inl e \<Rightarrow> clean)"

definition isEscape :: "string \<Rightarrow> string \<Rightarrow> bool" where
  "isEscape resolved0 base0 =
     (let resolved = Clean resolved0; b = Clean base0 in
      if resolved = b then False
      else if prefix (b @ [slash]) resolved then False
      else True)"

definition contains :: "string list \<Rightarrow> string \<Rightarrow> bool" where
  "contains xs s = list_ex (\<lambda>v. v = s) xs"

section \<open>The pieces of one include\<close>

record wfInfo =
  nodeID :: string
  producerIDs :: "string list"
  allIDs :: "string list"

text \<open>Where the source of a workflow node leads, with the containment checks.\<close>

definition include_path :: "flat_env \<Rightarrow> string \<Rightarrow> nat \<Rightarrow> Step \<Rightarrow> goerr + string" where
  "include_path env currentPath idx step =
     (let src = (case Source step of None \<Rightarrow> '''' | Some s \<Rightarrow> s);
          field = indexed ''steps'' idx ''.source'' in
      if IsAbs src then
        Inl (newValidationError ''invalid_field'' field (''absolute path not allowed: '' @ quoted src))
      else
        (let cleaned = Clean (Join [Dir currentPath, src]) in
         if isEscape cleaned (base env) then
           Inl (newValidationError ''invalid_field'' field (''path escapes workflows: '' @ quoted src))
         else
           (let canonicalJoined = canonicalPath (fsys env) cleaned in
            if isEscape canonicalJoined (canonicalPath (fsys env) (base env)) then
              Inl (newValidationError ''invalid_field'' field (''path escapes workflows via symlink: '' @
                quoted src @ '' -> '' @ quoted canonicalJoined))
            else Inr cleaned)))"

definition load_include :: "flat_env \<Rightarrow> nat \<Rightarrow> Step \<Rightarrow> string \<Rightarrow> goerr + Workflow" where
  "load_include env idx step cleaned =
     (case readFile env cleaned of
        Inl e \<Rightarrow> Inl (newValidationError ''invalid_field'' (indexed ''steps'' idx ''.source'')
          (''source not found '' @ quoted (case Source step of None \<Rightarrow> '''' | Some s \<Rightarrow> s) @ '': '' @ err_msg e))
      | Inr incData \<Rightarrow> Parse (decode env) (Inr incData))"

definition check_unknown_bindings :: "nat \<Rightarrow> Step \<Rightarrow> Workflow \<Rightarrow> goerr option" where
  "check_unknown_bindings idx step incWf = first_error 0 (\<lambda>_ (k, v).
     fail_if (k \<notin> set (map in_Name (wf_Inputs incWf)) \<and> k \<notin> set (map out_Name (wf_Outputs incWf)))
       (newValidationError ''unknown_input'' (indexed ''steps'' idx (''.bindings.'' @ k))
         (''unknown binding '' @ quoted k))) (Bindings step)"

definition check_missing_inputs :: "nat \<Rightarrow> Step \<Rightarrow> Workflow \<Rightarrow> goerr option" where
  "check_missing_inputs idx step incWf = first_error 0 (\<lambda>_ inp.
     (let found = list_ex (\<lambda>s. ID s = in_SatisfiedBy inp \<and> in_Name inp \<in> set (Requires s)) (wf_Steps incWf) in
      fail_if (found \<and> \<not> has_key (in_Name inp) (Bindings step))
        (newValidationError ''missing_binding'' (indexed ''steps'' idx (''.bindings.'' @ in_Name inp))
          (''missing binding for input '' @ quoted (in_Name inp))))) (wf_Inputs incWf)"

definition check_missing_outputs :: "nat \<Rightarrow> Step \<Rightarrow> Workflow \<Rightarrow> goerr option" where
  "check_missing_outputs idx step incWf = first_error 0 (\<lambda>_ out.
     (let found = list_ex (\<lambda>s. ID s = out_ProducedBy out \<and> out_Name out \<in> set (Produces s)) (wf_Steps incWf) in
      fail_if (found \<and> \<not> has_key (out_Name out) (Bindings step))
        (newValidationError ''missing_binding'' (indexed ''steps'' idx (''.bindings.'' @ out_Name out))
          (''missing binding for output '' @ quoted (out_Name out))))) (wf_Outputs incWf)"

definition bind_name :: "(string, string) gomap \<Rightarrow> string \<Rightarrow> string" where
  "bind_name bs n = (case map_of bs n of Some bound \<Rightarrow> bound | None \<Rightarrow> n)"

definition rewrite_bindings :: "(string, string) gomap \<Rightarrow> FlatStep list \<Rightarrow> FlatStep list" where
  "rewrite_bindings bs = map (\<lambda>s. s\<lparr>fs_Requires := map (bind_name bs) (fs_Requires s),
     fs_Produces := map (bind_name bs) (fs_Produces s)\<rparr>)"

definition expand_deps :: "string \<Rightarrow> (string, wfInfo) gomap \<Rightarrow> string list \<Rightarrow> string list" where
  "expand_deps pfx wfMap deps = concat (map (\<lambda>dep.
     (let depID = pfx @ dep in
      case map_of wfMap depID of Some info \<Rightarrow> producerIDs info | None \<Rightarrow> [depID])) deps)"

definition merge_deps :: "string list \<Rightarrow> string list \<Rightarrow> string list" where
  "merge_deps parentDeps deps =
     fold (\<lambda>pd merged. if \<not> contains merged pd then merged @ [pd] else merged) parentDeps deps"

definition inherit_deps :: "string \<Rightarrow> string list \<Rightarrow> Input list \<Rightarrow> FlatStep list \<Rightarrow> FlatStep list" where
  "inherit_deps newPrefix parentDeps inputs subSteps =
     (if parentDeps = [] then subSteps
      else fold (\<lambda>inp. map (\<lambda>s. if fs_ID s = newPrefix @ in_SatisfiedBy inp
               then s\<lparr>fs_DependsOn := merge_deps parentDeps (fs_DependsOn s)\<rparr> else s)) inputs subSteps)"

definition include_info :: "string \<Rightarrow> string \<Rightarrow> Workflow \<Rightarrow> FlatStep list \<Rightarrow> wfInfo" where
  "include_info pfx stepID incWf subSteps =
     \<lparr>nodeID = pfx @ stepID,
      producerIDs = (if wf_Outputs incWf \<noteq> []
        then map (\<lambda>out. pfx @ stepID @ ''.'' @ out_ProducedBy out) (wf_Outputs incWf)
        else map fs_ID subSteps),
      allIDs = map fs_ID subSteps\<rparr>"

definition flat_of_step :: "string \<Rightarrow> (string, wfInfo) gomap \<Rightarrow> Step \<Rightarrow> FlatStep" where
  "flat_of_step pfx wfMap step =
     \<lparr>fs_ID = pfx @ ID step, fs_Type = Type step, fs_Run = Run step, fs_Env = Env step,
      fs_TimeoutSeconds = TimeoutSeconds step, fs_DependsOn = expand_deps pfx wfMap (DependsOn step),
      fs_Requires = Requires step, fs_Produces = Produces step, fs_Harness = Harness step,
      fs_Instructions = Instructions step, fs_Mode = Mode step, fs_Workspace = Workspace step,
      fs_Source = None, fs_Bindings = []\<rparr>"

text \<open>The part of an include before the recursive call: path, file and binding checks.\<close>

definition prepare_include :: "flat_env \<Rightarrow> string \<Rightarrow> nat \<Rightarrow> Step \<Rightarrow> goerr + (string \<times> Workflow)" where
  "prepare_include env currentPath idx step =
     (case include_path env currentPath idx step of
        Inl e \<Rightarrow> Inl e
      | Inr cleaned \<Rightarrow>
          (case load_include env idx step cleaned of
             Inl e \<Rightarrow> Inl e
           | Inr incWf \<Rightarrow>
               (case first_some [check_unknown_bindings idx step incWf,
                       check_missing_inputs idx step incWf, check_missing_outputs idx step incWf] of
                  Some e \<Rightarrow> Inl e
                | None \<Rightarrow> Inr (cleaned, incWf))))"

text \<open>The part after it: the included steps as the parent sees them.\<close>

definition finish_include :: "string \<Rightarrow> (string, wfInfo) gomap \<Rightarrow> Step \<Rightarrow> Workflow \<Rightarrow> FlatStep list \<Rightarrow> FlatStep list" where
  "finish_include pfx wfMap step incWf subSteps =
     inherit_deps (pfx @ ID step @ ''.'') (expand_deps pfx wfMap (DependsOn step)) (wf_Inputs incWf)
       (rewrite_bindings (Bindings step) subSteps)"

section \<open>The recursion\<close>

definition guard_error :: "string \<Rightarrow> string \<Rightarrow> goerr" where
  "guard_error field msg = newValidationError ''guard_exceeded'' field msg"

definition open_file_checks :: "flat_env \<Rightarrow> string \<Rightarrow> string list \<Rightarrow> nat \<Rightarrow> nat \<Rightarrow> goerr + (string \<times> Workflow)" where
  "open_file_checks env currentPath stk depth expansions =
     (if 16 < depth then Inl (guard_error ''depth'' ''composition depth exceeds 16'')
      else if 256 < expansions then Inl (guard_error ''expansions'' ''expansions exceeds 256'')
      else
        (let canonical = canonicalPath (fsys env) currentPath in
         if canonical \<in> set stk then
           Inl (newValidationError ''cycle_detected'' '''' (''cycle detected: '' @ canonical))
         else
           (case readFile env currentPath of
              Inl e \<Rightarrow> Inl (newValidationError ''invalid_field'' '''' (''read '' @ currentPath @ '': '' @ err_msg e))
            | Inr data \<Rightarrow>
                (case Parse (decode env) (Inr data) of
                   Inl e \<Rightarrow> Inl e
                 | Inr flow \<Rightarrow>
                     (case ValidateFile (Some flow) currentPath (depth = 0) of
                        Some e \<Rightarrow> Inl e
                      | None \<Rightarrow> Inr (canonical, flow))))))"

function flattenRec :: "flat_env \<Rightarrow> string \<Rightarrow> string \<Rightarrow> string list \<Rightarrow> nat \<Rightarrow> nat \<Rightarrow> nat \<Rightarrow>
    goerr + (FlatStep list \<times> nat \<times> nat)"
and flattenSteps :: "flat_env \<Rightarrow> string \<Rightarrow> string \<Rightarrow> string list \<Rightarrow> nat \<Rightarrow> nat \<Rightarrow> Step list \<Rightarrow>
    (string, wfInfo) gomap \<Rightarrow> FlatStep list \<Rightarrow> nat \<Rightarrow> nat \<Rightarrow> goerr + (FlatStep list \<times> nat \<times> nat)" where
  "flattenRec env currentPath pfx stk depth expansions totalSteps =
     (case open_file_checks env currentPath stk depth expansions of
        Inl e \<Rightarrow> Inl e
      | Inr (canonical, flow) \<Rightarrow>
          flattenSteps env currentPath pfx (canonical # stk) depth 0 (wf_Steps flow) [] [] expansions totalSteps)"
| "flattenSteps env currentPath pfx stk depth idx [] wfMap result expansions totalSteps =
     Inr (result, expansions, totalSteps)"
| "flattenSteps env currentPath pfx stk depth idx (step # steps) wfMap result expansions totalSteps =
     (if Type step = ''workflow'' then
        (if 256 < Suc expansions then Inl (guard_error ''expansions'' ''expansions exceeds 256'')
         else
           (case prepare_include env currentPath idx step of
              Inl e \<Rightarrow> Inl e
            | Inr (cleaned, incWf) \<Rightarrow>
                (case flattenRec env cleaned (pfx @ ID step @ ''.'') stk (Suc depth) (Suc expansions) totalSteps of
                   Inl e \<Rightarrow> Inl e
                 | Inr (sub, expansions', totalSteps') \<Rightarrow>
                     (let subSteps = finish_include pfx wfMap step incWf sub;
                          info = include_info pfx (ID step) incWf subSteps;
                          total = totalSteps' + length subSteps in
                      if 256 < total then Inl (guard_error ''steps'' ''flattened steps exceeds 256'')
                      else flattenSteps env currentPath pfx stk depth (Suc idx) steps
                             (AList.update (pfx @ ID step) info wfMap) (result @ subSteps) expansions' total))))
      else if 256 < Suc totalSteps then Inl (guard_error ''steps'' ''flattened steps exceeds 256'')
      else flattenSteps env currentPath pfx stk depth (Suc idx) steps wfMap
             (result @ [flat_of_step pfx wfMap step]) expansions (Suc totalSteps))"
  by pat_completeness auto

definition rec_size :: "nat \<Rightarrow> nat" where
  "rec_size depth = (if depth \<le> 16 then 2 * (17 - depth) + 1 else 0)"

definition loop_size :: "nat \<Rightarrow> nat" where
  "loop_size depth = (if depth \<le> 16 then 2 * (17 - depth) else 1)"

lemma open_file_checks_depth: "open_file_checks env p stk depth ex = Inr r \<Longrightarrow> depth \<le> 16"
  by (simp add: open_file_checks_def split: if_splits)

lemma flatten_sizes:
  "rec_size (Suc depth) < loop_size depth" "depth \<le> 16 \<Longrightarrow> loop_size depth < rec_size depth"
  by (auto simp: rec_size_def loop_size_def)

termination flattenRec
  by (relation "measures [
      (\<lambda>x. case x of Inl (env, p, pfx, stk, depth, ex, tot) \<Rightarrow> rec_size depth
                   | Inr (env, p, pfx, stk, depth, idx, ss, m, r, ex, tot) \<Rightarrow> loop_size depth),
      (\<lambda>x. case x of Inl _ \<Rightarrow> 0
                   | Inr (env, p, pfx, stk, depth, idx, ss, m, r, ex, tot) \<Rightarrow> length ss)]")
     (auto simp: flatten_sizes dest: open_file_checks_depth)

declare flattenRec.simps [simp del] flattenSteps.simps [simp del]

section \<open>hash.go and Flatten\<close>

record hashStep =
  h_ID :: string
  h_Type :: string
  h_Run :: string
  h_Env :: "(string, string) gomap"
  h_TimeoutSeconds :: "int option"
  h_DependsOn :: "string list"
  h_Requires :: "string list"
  h_Produces :: "string list"
  h_Harness :: "string list"
  h_Instructions :: string
  h_Mode :: string
  h_Workspace :: "WorkspaceConfig option"

text \<open>\<^verbatim>\<open>json.Marshal\<close> writes the entries of a map in key order.\<close>

definition hash_step :: "FlatStep \<Rightarrow> hashStep" where
  "hash_step s =
     \<lparr>h_ID = fs_ID s, h_Type = fs_Type s, h_Run = fs_Run s, h_Env = sort_key fst (fs_Env s),
      h_TimeoutSeconds = fs_TimeoutSeconds s, h_DependsOn = sort (fs_DependsOn s),
      h_Requires = sort (fs_Requires s), h_Produces = sort (fs_Produces s),
      h_Harness = sort (fs_Harness s), h_Instructions = fs_Instructions s, h_Mode = fs_Mode s,
      h_Workspace = fs_Workspace s\<rparr>"

definition ComputeHash :: "(hashStep list \<Rightarrow> goerr + string) \<Rightarrow> FlatDAG option \<Rightarrow> goerr + string" where
  "ComputeHash digest d =
     (case d of
        None \<Rightarrow> Inr ''''
      | Some dag \<Rightarrow> digest (sort_key h_ID (map hash_step (dag_Steps dag))))"

definition Flatten :: "(hashStep list \<Rightarrow> goerr + string) \<Rightarrow> (string \<Rightarrow> goerr + string) \<Rightarrow>
    (string \<Rightarrow> string + Workflow) \<Rightarrow> filesys \<Rightarrow> string \<Rightarrow> goerr + FlatDAG" where
  "Flatten digest rf dec fs rootPath =
     (let cleanRoot = Clean rootPath;
          root = findRoot cleanRoot;
          env = \<lparr>readFile = rf, decode = dec, fsys = fs, base = Join [root, ''.haro'', ''workflows'']\<rparr> in
      case flattenRec env cleanRoot '''' [] 0 0 0 of
        Inl e \<Rightarrow> Inl e
      | Inr (steps, _, _) \<Rightarrow>
          (if 256 < length steps then Inl (guard_error ''steps'' ''flattened steps exceeds 256'')
           else
             (case topoSort steps of
                Inl e \<Rightarrow> Inl e
              | Inr ordered \<Rightarrow>
                  (case ComputeHash digest (Some \<lparr>dag_Steps = ordered, dag_Hash = ''''\<rparr>) of
                     Inl e \<Rightarrow> Inl e
                   | Inr hash \<Rightarrow> Inr \<lparr>dag_Steps = ordered, dag_Hash = hash\<rparr>))))"

section \<open>Identifiers of flattened steps\<close>

text \<open>The steps that the node \<open>s\<close> of a file contributes are named after it: the node's own
  name, or that name, a dot and more.\<close>

definition owned :: "string \<Rightarrow> string \<Rightarrow> string \<Rightarrow> bool" where
  "owned pfx i x \<longleftrightarrow> (\<exists>rest. x = pfx @ i @ rest \<and> (rest = [] \<or> (\<exists>r. r \<noteq> [] \<and> rest = ''.'' @ r)))"

definition owner :: "string \<Rightarrow> string \<Rightarrow> string" where
  "owner pfx x = takeWhile (\<lambda>c. c \<noteq> CHR ''.'') (drop (length pfx) x)"

lemma owner_owned:
  assumes "owned pfx i x" "CHR ''.'' \<notin> set i"
  shows "owner pfx x = i"
proof -
  from assms(1) obtain rest where x: "x = pfx @ i @ rest" and r: "rest = [] \<or> (\<exists>r. rest = ''.'' @ r)"
    by (auto simp: owned_def)
  have "takeWhile (\<lambda>c. c \<noteq> CHR ''.'') (i @ rest) = i @ takeWhile (\<lambda>c. c \<noteq> CHR ''.'') rest"
    using assms(2) by (intro takeWhile_append2) auto
  moreover have "takeWhile (\<lambda>c. c \<noteq> CHR ''.'') rest = []" using r by auto
  ultimately show ?thesis by (simp add: owner_def x)
qed

lemma rewrite_bindings_simps [simp]:
  "map fs_ID (rewrite_bindings bs ss) = map fs_ID ss"
  "map fs_Type (rewrite_bindings bs ss) = map fs_Type ss"
  "length (rewrite_bindings bs ss) = length ss"
  by (simp_all add: rewrite_bindings_def comp_def)

lemma inherit_deps_simps [simp]:
  "map fs_ID (inherit_deps np pd inps ss) = map fs_ID ss"
  "map fs_Type (inherit_deps np pd inps ss) = map fs_Type ss"
proof -
  have "map fs_ID (fold (\<lambda>inp. map (\<lambda>s. if fs_ID s = np @ in_SatisfiedBy inp
          then s\<lparr>fs_DependsOn := merge_deps pd (fs_DependsOn s)\<rparr> else s)) inps ss) = map fs_ID ss \<and>
        map fs_Type (fold (\<lambda>inp. map (\<lambda>s. if fs_ID s = np @ in_SatisfiedBy inp
          then s\<lparr>fs_DependsOn := merge_deps pd (fs_DependsOn s)\<rparr> else s)) inps ss) = map fs_Type ss"
    by (induction inps arbitrary: ss) (auto simp: comp_def)
  then show "map fs_ID (inherit_deps np pd inps ss) = map fs_ID ss"
    "map fs_Type (inherit_deps np pd inps ss) = map fs_Type ss"
    by (simp_all add: inherit_deps_def)
qed

lemma finish_include_simps [simp]:
  "map fs_ID (finish_include pfx m step inc ss) = map fs_ID ss"
  "map fs_Type (finish_include pfx m step inc ss) = map fs_Type ss"
  by (simp_all add: finish_include_def)

lemma open_file_checks_InrD:
  assumes "open_file_checks env p stk depth ex = Inr (c, flow)"
  shows "file_wf (depth = 0) flow"
  using assms
  by (auto simp: open_file_checks_def Let_def ValidateFile_None_iff split: if_splits sum.splits option.splits)

text \<open>What the loop over the steps of a file keeps: the steps collected so far have distinct
  names, each owned by a node already processed, and none is a workflow node.\<close>

definition collected :: "string \<Rightarrow> string set \<Rightarrow> FlatStep list \<Rightarrow> bool" where
  "collected pfx ids result \<longleftrightarrow>
     distinct (map fs_ID result) \<and> (\<forall>s \<in> set result. fs_Type s \<noteq> ''workflow'') \<and>
     (\<forall>x \<in> set (map fs_ID result). \<exists>i \<in> ids. owned pfx i x)"

lemma collected_snoc:
  assumes "collected pfx ids result" "Type step \<noteq> ''workflow''" "ID step \<notin> ids"
    "\<forall>i \<in> insert (ID step) ids. CHR ''.'' \<notin> set i"
  shows "collected pfx (insert (ID step) ids) (result @ [flat_of_step pfx m step])"
proof -
  have o: "owned pfx (ID step) (pfx @ ID step)" by (simp add: owned_def)
  have "pfx @ ID step \<notin> set (map fs_ID result)"
  proof
    assume "pfx @ ID step \<in> set (map fs_ID result)"
    then obtain i where "i \<in> ids" "owned pfx i (pfx @ ID step)" using assms(1) by (auto simp: collected_def)
    with o assms(3,4) show False using owner_owned by (metis insertCI)
  qed
  with assms(1,2) o show ?thesis by (auto simp: collected_def flat_of_step_def)
qed

lemma collected_append:
  assumes "collected pfx ids result" "collected (pfx @ ID step @ ''.'') sub_ids sub"
    "map fs_ID sub' = map fs_ID sub" "map fs_Type sub' = map fs_Type sub"
    "ID step \<notin> ids" "\<forall>i \<in> insert (ID step) ids. CHR ''.'' \<notin> set i" "\<forall>i \<in> sub_ids. i \<noteq> []"
  shows "collected pfx (insert (ID step) ids) (result @ sub')"
proof -
  have o: "owned pfx (ID step) x" if "x \<in> set (map fs_ID sub')" for x
  proof -
    from that assms(2,3) obtain i where "i \<in> sub_ids" "owned (pfx @ ID step @ ''.'') i x"
      by (auto simp: collected_def)
    with assms(7) show ?thesis by (fastforce simp: owned_def)
  qed
  have "set (map fs_ID result) \<inter> set (map fs_ID sub') = {}"
  proof (rule ccontr)
    assume "set (map fs_ID result) \<inter> set (map fs_ID sub') \<noteq> {}"
    then obtain x where x: "x \<in> set (map fs_ID result)" "x \<in> set (map fs_ID sub')" by blast
    then obtain i where "i \<in> ids" "owned pfx i x" using assms(1) by (auto simp: collected_def)
    with o [OF x(2)] assms(5,6) show False using owner_owned by (metis insertCI)
  qed
  moreover have "\<forall>s \<in> set sub'. fs_Type s \<noteq> ''workflow''"
    using assms(2,4) by (auto simp: collected_def dest: map_eq_imp_length_eq)
      (metis (no_types, lifting) image_iff list.set_map)
  ultimately show ?thesis
    using assms(1,2,3) o by (auto simp: collected_def)
qed

lemma flatten_collected:
  "flattenRec env p pfx stk depth ex tot = Inr (steps, ex', tot') \<Longrightarrow>
     \<exists>ids. collected pfx ids steps \<and> (\<forall>i \<in> ids. idPattern i) \<and> steps \<noteq> []"
  "flattenSteps env p pfx stk depth idx ss m result ex tot = Inr (steps, ex', tot') \<Longrightarrow>
     collected pfx ids result \<Longrightarrow> (\<forall>i \<in> ids. idPattern i) \<Longrightarrow> distinct (map ID ss) \<Longrightarrow>
     ID ` set ss \<inter> ids = {} \<Longrightarrow> (\<forall>s \<in> set ss. idPattern (ID s)) \<Longrightarrow>
     collected pfx (ids \<union> ID ` set ss) steps \<and> length result + length ss \<le> length steps"
proof (induction env p pfx stk depth ex tot and env p pfx stk depth idx ss m result ex tot
    arbitrary: steps ex' tot' and ids steps ex' tot' rule: flattenRec_flattenSteps.induct)
  case (1 env p pfx stk depth ex tot)
  then obtain c flow where o: "open_file_checks env p stk depth ex = Inr (c, flow)"
    by (auto simp: flattenRec.simps split: sum.splits)
  from open_file_checks_InrD [OF this] have f: "distinct (map ID (wf_Steps flow))"
    "\<forall>s \<in> set (wf_Steps flow). idPattern (ID s)" "wf_Steps flow \<noteq> []"
    by (auto simp: file_wf_def graph_wf_def)
  have "flattenSteps env p pfx (c # stk) depth 0 (wf_Steps flow) [] [] ex tot = Inr (steps, ex', tot')"
    using "1.prems" o by (simp add: flattenRec.simps)
  from "1.IH" [OF o refl this, of "{}"] f show ?case
    by (intro exI [of _ "ID ` set (wf_Steps flow)"]) (auto simp: collected_def)
next
  case (2 env p pfx stk depth idx m result ex tot)
  then show ?case by (simp add: flattenSteps.simps)
next
  case (3 env p pfx stk depth idx step ss m result ex tot)
  have dots: "\<forall>i \<in> insert (ID step) ids. CHR ''.'' \<notin> set i"
    using "3.prems"(3,6) idPattern_no_dot by auto
  have fresh: "ID step \<notin> ids" using "3.prems"(5) by auto
  show ?case
  proof (cases "Type step = ''workflow''")
    case False
    let ?r = "result @ [flat_of_step pfx m step]"
    have "flattenSteps env p pfx stk depth (Suc idx) ss m ?r ex (Suc tot) = Inr (steps, ex', tot')"
      "\<not> 256 < Suc tot"
      using "3.prems"(1) False by (auto simp: flattenSteps.simps split: if_splits)
    moreover have "collected pfx (insert (ID step) ids) ?r"
      by (rule collected_snoc [OF "3.prems"(2) False fresh dots])
    ultimately have "collected pfx (insert (ID step) ids \<union> ID ` set ss) steps \<and>
        length ?r + length ss \<le> length steps"
      using False "3.prems"(3-6) by (intro "3.IH"(3)) auto
    then show ?thesis by simp
  next
    case True
    obtain cleaned inc sub e2 t2 where p: "\<not> 256 < Suc ex"
        "prepare_include env p idx step = Inr (cleaned, inc)"
        "flattenRec env cleaned (pfx @ ID step @ ''.'') stk (Suc depth) (Suc ex) tot = Inr (sub, e2, t2)"
      using "3.prems"(1) True by (auto simp: flattenSteps.simps split: if_splits sum.splits)
    let ?sub = "finish_include pfx m step inc sub"
    have r: "\<not> 256 < t2 + length ?sub"
        "flattenSteps env p pfx stk depth (Suc idx) ss
           (AList.update (pfx @ ID step) (include_info pfx (ID step) inc ?sub) m) (result @ ?sub) e2
           (t2 + length ?sub) = Inr (steps, ex', tot')"
      using "3.prems"(1) True p by (auto simp: flattenSteps.simps Let_def split: if_splits)
    obtain sub_ids where s: "collected (pfx @ ID step @ ''.'') sub_ids sub" "\<forall>i \<in> sub_ids. idPattern i" "sub \<noteq> []"
      using "3.IH"(1) [OF True p(1,2) refl p(3)] by blast
    have "collected pfx (insert (ID step) ids) (result @ ?sub)"
      by (rule collected_append [OF "3.prems"(2) s(1) _ _ fresh dots]) (use s(2) in auto)
    then have "collected pfx (insert (ID step) ids \<union> ID ` set ss) steps \<and>
        length (result @ ?sub) + length ss \<le> length steps"
      using r(1) "3.prems"(3-6) by (intro "3.IH"(2) [OF True p(1,2) refl p(3) refl refl refl refl refl _ r(2)]) auto
    moreover have "length ?sub = length sub"
      by (metis finish_include_simps(1) length_map)
    ultimately show ?thesis using s(3) by (cases sub) auto
  qed
qed

section \<open>Reads\<close>

text \<open>The files that composition may read: those whose path and resolved path stay under the
  directory of workflows.\<close>

definition contained :: "flat_env \<Rightarrow> string \<Rightarrow> bool" where
  "contained env p \<longleftrightarrow> \<not> isEscape p (base env) \<and>
     \<not> isEscape (canonicalPath (fsys env) p) (canonicalPath (fsys env) (base env))"

lemma include_path_contained: "include_path env p idx step = Inr q \<Longrightarrow> contained env q"
  by (auto simp: include_path_def contained_def Let_def split: if_splits)

lemma prepare_include_readFile:
  assumes "\<forall>q. contained env q \<longrightarrow> rf q = readFile env q"
  shows "prepare_include (env\<lparr>readFile := rf\<rparr>) p idx step = prepare_include env p idx step"
proof -
  have i: "include_path (env\<lparr>readFile := rf\<rparr>) p idx step = include_path env p idx step"
    by (simp add: include_path_def Let_def)
  show ?thesis
  proof (cases "include_path env p idx step")
    case (Inr q)
    then have "rf q = readFile env q" using assms include_path_contained by blast
    then have "load_include (env\<lparr>readFile := rf\<rparr>) idx step q = load_include env idx step q"
      by (simp add: load_include_def cong: sum.case_cong)
    with Inr i show ?thesis by (simp add: prepare_include_def)
  qed (simp add: i prepare_include_def)
qed

lemma prepare_include_contained: "prepare_include env p idx step = Inr (q, inc) \<Longrightarrow> contained env q"
  by (auto simp: prepare_include_def split: sum.splits option.splits dest: include_path_contained)

lemma flatten_readFile:
  "\<forall>q. contained env q \<or> q = p \<longrightarrow> rf q = readFile env q \<Longrightarrow>
     flattenRec (env\<lparr>readFile := rf\<rparr>) p pfx stk depth ex tot = flattenRec env p pfx stk depth ex tot"
  "\<forall>q. contained env q \<longrightarrow> rf q = readFile env q \<Longrightarrow>
     flattenSteps (env\<lparr>readFile := rf\<rparr>) p pfx stk depth idx ss m result ex tot =
     flattenSteps env p pfx stk depth idx ss m result ex tot"
proof (induction env p pfx stk depth ex tot and env p pfx stk depth idx ss m result ex tot
    rule: flattenRec_flattenSteps.induct)
  case (1 env p pfx stk depth ex tot)
  then have "open_file_checks (env\<lparr>readFile := rf\<rparr>) p stk depth ex = open_file_checks env p stk depth ex"
    by (simp add: open_file_checks_def Let_def cong: sum.case_cong)
  with 1 show ?case by (auto simp: flattenRec.simps split: sum.splits)
next
  case (2 env p pfx stk depth idx m result ex tot)
  then show ?case by (simp add: flattenSteps.simps)
next
  case (3 env p pfx stk depth idx step ss m result ex tot)
  note prep = prepare_include_readFile [OF "3.prems"]
  show ?case
  proof (cases "Type step = ''workflow'' \<and> \<not> 256 < Suc ex")
    case False
    with 3 show ?thesis by (auto simp: flattenSteps.simps)
  next
    case True
    show ?thesis
    proof (cases "prepare_include env p idx step")
      case (Inl e)
      with True prep show ?thesis by (simp add: flattenSteps.simps)
    next
      case (Inr r)
      obtain q inc where r: "r = (q, inc)" by (cases r)
      then have q: "contained env q" using Inr prepare_include_contained by simp
      have rec: "flattenRec (env\<lparr>readFile := rf\<rparr>) q (pfx @ ID step @ ''.'') stk (Suc depth) (Suc ex) tot =
          flattenRec env q (pfx @ ID step @ ''.'') stk (Suc depth) (Suc ex) tot"
        using "3.IH"(1) [OF _ _ Inr r [symmetric]] True "3.prems" q by auto
      show ?thesis
      proof (cases "flattenRec env q (pfx @ ID step @ ''.'') stk (Suc depth) (Suc ex) tot")
        case (Inl e)
        with True prep rec Inr r show ?thesis by (simp add: flattenSteps.simps)
      next
        case (Inr x)
        obtain sub e2 t2 where x: "x = (sub, e2, t2)" by (cases x) auto
        show ?thesis
          using "3.IH"(2) [OF _ _ \<open>prepare_include env p idx step = Inr r\<close> r [symmetric] Inr x [symmetric]
              refl refl refl refl _ "3.prems"]
            True prep rec Inr x r \<open>prepare_include env p idx step = Inr r\<close>
          by (simp add: flattenSteps.simps Let_def)
      qed
    qed
  qed
qed

section \<open>Properties\<close>

lemma Flatten_InrD:
  assumes "Flatten digest rf dec fs rootPath = Inr dag"
  obtains env steps ex tot where "flattenRec env (Clean rootPath) '''' [] 0 0 0 = Inr (steps, ex, tot)"
    "length steps \<le> 256" "topoSort steps = Inr (dag_Steps dag)"
  using assms by (auto simp: Flatten_def Let_def split: sum.splits if_splits)

text \<open>C28. Every graph that \<^verbatim>\<open>Flatten\<close> returns is well formed: between 1 and 256 steps
  with distinct non-empty names, no workflow node left, every step after all its dependencies
  (so none is missing and there is no cycle), and \<^verbatim>\<open>ValidateFlat\<close> accepts it
  unless a step requires an artifact that is named like a step.\<close>

theorem flatten_sound:
  assumes "Flatten digest rf dec fs rootPath = Inr dag"
  shows "dag_Steps dag \<noteq> [] \<and> length (dag_Steps dag) \<le> 256 \<and> distinct (map fs_ID (dag_Steps dag)) \<and>
    (\<forall>s \<in> set (dag_Steps dag). fs_Type s \<noteq> ''workflow'' \<and> fs_ID s \<noteq> '''') \<and>
    (\<forall>us s vs. dag_Steps dag = us @ s # vs \<longrightarrow> set (fs_DependsOn s) \<subseteq> fs_ID ` set us) \<and>
    (ValidateFlat (Some dag) = None \<longleftrightarrow>
       (\<forall>s \<in> set (dag_Steps dag). set (fs_Requires s) \<inter> fs_ID ` set (dag_Steps dag) = {}))"
proof -
  obtain env steps ex tot where f: "flattenRec env (Clean rootPath) '''' [] 0 0 0 = Inr (steps, ex, tot)"
    "length steps \<le> 256" "topoSort steps = Inr (dag_Steps dag)"
    using Flatten_InrD [OF assms] .
  obtain ids where i: "collected '''' ids steps" "\<forall>i \<in> ids. idPattern i" "steps \<noteq> []"
    using flatten_collected(1) [OF f(1)] by blast
  then have d: "distinct (map fs_ID steps)" by (simp add: collected_def)
  note t = topoSort_Inr [OF d f(3)]
  have st: "set (dag_Steps dag) = set steps" "length (dag_Steps dag) = length steps"
      "distinct (map fs_ID (dag_Steps dag))" "dag_Steps dag \<noteq> []"
    using t(1) d i(3) by (metis set_mset_mset, metis size_mset,
      metis mset_eq_imp_distinct_iff mset_map, metis mset_zero_iff)
  have ty: "\<forall>s \<in> set (dag_Steps dag). fs_Type s \<noteq> ''workflow'' \<and> fs_ID s \<noteq> ''''"
    using i(1,2) by (fastforce simp: st(1) collected_def owned_def)
  have "ValidateFlat (Some dag) = None \<longleftrightarrow>
      (\<forall>s \<in> set (dag_Steps dag). set (fs_Requires s) \<inter> fs_ID ` set (dag_Steps dag) = {})"
    using ty st f(2) deps_first_closed [OF t(2)] deps_first_acyclic [OF t(2) st(3)]
    by (auto simp: ValidateFlat_None_iff flat_wf_def)
  then show ?thesis using ty st f(2) t(2) unfolding deps_first_def by simp
qed

text \<open>C30. Composition reads nothing outside the workflows directory: two readers that agree on the
  root file and on the files whose cleaned and symlink-resolved paths stay under
  \<^verbatim>\<open>.haro/workflows\<close> give the same result.\<close>

theorem flatten_reads_contained:
  assumes "rf (Clean rootPath) = rf' (Clean rootPath)"
    and "\<forall>q. \<not> isEscape q (Join [findRoot (Clean rootPath), ''.haro'', ''workflows'']) \<and>
      \<not> isEscape (canonicalPath fs q) (canonicalPath fs (Join [findRoot (Clean rootPath), ''.haro'', ''workflows''])) \<longrightarrow>
      rf q = rf' q"
  shows "Flatten digest rf dec fs rootPath = Flatten digest rf' dec fs rootPath"
proof -
  let ?env = "\<lparr>readFile = rf, decode = dec, fsys = fs,
    base = Join [findRoot (Clean rootPath), ''.haro'', ''workflows'']\<rparr>"
  have "\<forall>q. contained ?env q \<or> q = Clean rootPath \<longrightarrow> rf' q = readFile ?env q"
    using assms by (auto simp: contained_def)
  from flatten_readFile(1) [OF this, of "''''" "[]" 0 0 0]
  show ?thesis by (simp add: Flatten_def Let_def)
qed

text \<open>A repository with two workflow files: \<^verbatim>\<open>main\<close> runs \<^verbatim>\<open>prep\<close>,
  then includes \<^verbatim>\<open>lib\<close>, whose step consumes an input of the parent. The file
  contents stand for themselves; the decoder maps each to its workflow.\<close>

definition demo_main :: Workflow where
  "demo_main = demo_flow
     [(demo_step ''prep'' [])\<lparr>Produces := [''src'']\<rparr>,
      zero_Step\<lparr>ID := ''inc'', Type := ''workflow'', DependsOn := [''prep''],
        Source := Some ''../lib/workflow.yaml'', Bindings := [(''code'', ''src'')]\<rparr>,
      demo_step ''ship'' [''inc'']]"

definition demo_lib :: Workflow where
  "demo_lib = (demo_flow [(demo_step ''build'' [])\<lparr>Requires := [''code'']\<rparr>])
     \<lparr>wf_Inputs := [\<lparr>in_Name = ''code'', in_SatisfiedBy = ''build''\<rparr>]\<rparr>"

definition demo_decode :: "string \<Rightarrow> string + Workflow" where
  "demo_decode d = (if d = ''main'' then Inr demo_main else if d = ''lib'' then Inr demo_lib else Inl ''line 1'')"

definition demo_read :: "string \<Rightarrow> string \<Rightarrow> goerr + string" where
  "demo_read other p =
     (if p = ''/r/.haro/workflows/main/workflow.yaml'' then Inr ''main''
      else if p = ''/r/.haro/workflows/lib/workflow.yaml'' then Inr ''lib''
      else if p = ''/etc/passwd'' then Inr other else Inl (errorf ''not found''))"

definition demo_digest :: "hashStep list \<Rightarrow> goerr + string" where
  "demo_digest hs = Inr (concat (map h_ID hs))"

definition demo_dag :: "goerr + FlatDAG" where
  "demo_dag = Flatten demo_digest (demo_read '''') demo_decode demo_fs ''/r/.haro/workflows/main/workflow.yaml''"

theorem flatten_sound_witness:
  "map_sum err_msg (\<lambda>d. map (\<lambda>s. (fs_ID s, fs_DependsOn s, fs_Requires s)) (dag_Steps d)) demo_dag =
     Inr [(''prep'', [], []), (''inc.build'', [''prep''], [''src'']), (''ship'', [''inc.build''], [])] \<and>
   (\<exists>d. demo_dag = Inr d \<and> distinct (map fs_ID (dag_Steps d)) \<and> ValidateFlat (Some d) = None)"
proof -
  have m: "map_sum err_msg (\<lambda>d. map (\<lambda>s. (fs_ID s, fs_DependsOn s, fs_Requires s)) (dag_Steps d)) demo_dag =
     Inr [(''prep'', [], []), (''inc.build'', [''prep''], [''src'']), (''ship'', [''inc.build''], [])]"
    by code_simp
  have r: "map_sum err_msg (\<lambda>d. \<forall>s \<in> set (dag_Steps d). set (fs_Requires s) \<inter> fs_ID ` set (dag_Steps d) = {})
      demo_dag = Inr True" by code_simp
  from map_sum_InrD [OF r] obtain d where d: "demo_dag = Inr d" and
    "\<forall>s \<in> set (dag_Steps d). set (fs_Requires s) \<inter> fs_ID ` set (dag_Steps d) = {}" by blast
  with flatten_sound [OF d [unfolded demo_dag_def]] m d show ?thesis by blast
qed

theorem flatten_reads_contained_witness:
  "Flatten demo_digest (demo_read ''root:x'') demo_decode demo_fs ''/r/.haro/workflows/main/workflow.yaml'' =
   Flatten demo_digest (demo_read '''') demo_decode demo_fs ''/r/.haro/workflows/main/workflow.yaml''"
proof -
  let ?r = "''/r/.haro/workflows/main/workflow.yaml''"
  have b: "Join [findRoot (Clean ?r), ''.haro'', ''workflows''] = ''/r/.haro/workflows''" by code_simp
  have e: "isEscape ''/etc/passwd'' ''/r/.haro/workflows''" by code_simp
  have "demo_read ''root:x'' q = demo_read '''' q" if "\<not> isEscape q ''/r/.haro/workflows''" for q
    using that e by (cases "q = ''/etc/passwd''") (simp_all add: demo_read_def)
  moreover have "demo_read ''root:x'' (Clean ?r) = demo_read '''' (Clean ?r)" by code_simp
  ultimately show ?thesis
    by (intro flatten_reads_contained) (simp_all add: b)
qed

definition reordered :: "FlatStep \<Rightarrow> FlatStep \<Rightarrow> bool" where
  "reordered s t \<longleftrightarrow>
     (\<exists>e d r p h src b. t = s\<lparr>fs_Env := e, fs_DependsOn := d, fs_Requires := r, fs_Produces := p, fs_Harness := h,
         fs_Source := src, fs_Bindings := b\<rparr> \<and>
       mset e = mset (fs_Env s) \<and> mset d = mset (fs_DependsOn s) \<and> mset r = mset (fs_Requires s) \<and>
       mset p = mset (fs_Produces s) \<and> mset h = mset (fs_Harness s))"

lemma hash_step_reordered: "reordered s t \<Longrightarrow> gomap (fs_Env s) \<Longrightarrow> hash_step t = hash_step s"
  unfolding reordered_def hash_step_def gomap_def
  by (auto intro: sort_mset_eq sort_key_unique [symmetric])

text \<open>The hash of a graph does not depend on the order of its steps, nor on the order of the
  dependencies, requirements, products, harnesses and environment entries of a step, whatever
  the digest of the canonical list.\<close>

theorem compute_hash_order_insensitive:
  assumes "distinct (map fs_ID (dag_Steps d))" "\<forall>s \<in> set (dag_Steps d). gomap (fs_Env s)"
    "\<forall>s \<in> set (dag_Steps d). reordered s (f s)" "mset (dag_Steps d') = mset (map f (dag_Steps d))"
  shows "ComputeHash digest (Some d') = ComputeHash digest (Some d)"
proof -
  have "map hash_step (map f (dag_Steps d)) = map hash_step (dag_Steps d)"
    using assms(2,3) by (simp add: hash_step_reordered)
  then have "mset (map hash_step (dag_Steps d')) = mset (map hash_step (dag_Steps d))"
    using assms(4) by (metis mset_map)
  moreover have "map h_ID (map hash_step (dag_Steps d)) = map fs_ID (dag_Steps d)"
    by (simp add: hash_step_def)
  ultimately have "sort_key h_ID (map hash_step (dag_Steps d)) = sort_key h_ID (map hash_step (dag_Steps d'))"
    using assms(1) sort_key_unique by metis
  then show ?thesis by (simp add: ComputeHash_def)
qed

theorem compute_hash_order_insensitive_witness:
  "ComputeHash demo_digest (Some \<lparr>dag_Steps = [demo_flat ''b'' [''y'', ''x''], demo_flat ''a'' []], dag_Hash = ''''\<rparr>) =
   ComputeHash demo_digest (Some \<lparr>dag_Steps = [demo_flat ''a'' [], demo_flat ''b'' [''x'', ''y'']], dag_Hash = ''''\<rparr>)"
  by (rule compute_hash_order_insensitive [where f = "\<lambda>s. s\<lparr>fs_DependsOn := rev (fs_DependsOn s)\<rparr>"])
     (auto simp: demo_flat_def reordered_def)

end
