(* ===== verification/Config.thy ===== *)
theory Config
  imports Workflow
begin

text \<open>
  \<^verbatim>\<open>internal/project/config.go\<close>: the project configuration \<^verbatim>\<open>.haro/config.yaml\<close>. The
  strict YAML decoder is a parameter; defaults and range checks are the code's.
\<close>

record HarnessConfig =
  hc_Binary :: string
  hc_Env :: "(string, string) gomap"
  hc_TimeoutSeconds :: int
  hc_Enabled :: "bool option"

record Config =
  cf_Version :: int
  cf_ExternalPaths :: "string list"
  cf_Harnesses :: "(string, HarnessConfig) gomap"

definition DefaultHarnessTimeoutSeconds :: int where
  "DefaultHarnessTimeoutSeconds = 300"

definition IsEnabled :: "HarnessConfig \<Rightarrow> bool" where
  "IsEnabled h \<longleftrightarrow> hc_Enabled h = None \<or> hc_Enabled h = Some True"

definition normalize_harness :: "HarnessConfig \<Rightarrow> HarnessConfig" where
  "normalize_harness hc =
     (let hc = (if hc_Enabled hc = None then hc\<lparr>hc_Enabled := Some True\<rparr> else hc) in
      if hc_TimeoutSeconds hc = 0 then hc\<lparr>hc_TimeoutSeconds := DefaultHarnessTimeoutSeconds\<rparr> else hc)"

fun normalize_loop :: "(string, HarnessConfig) gomap \<Rightarrow> goerr + (string, HarnessConfig) gomap" where
  "normalize_loop [] = Inr []"
| "normalize_loop ((name, hc0) # rest) =
     (let hc = normalize_harness hc0 in
      if hc_TimeoutSeconds hc < 1 \<or> hc_TimeoutSeconds hc > DefaultHarnessTimeoutSeconds
      then Inl (errorf (''harness '' @ quoted name @ '': timeout_seconds '' @ itoa (hc_TimeoutSeconds hc) @
             '' outside 1..'' @ itoa DefaultHarnessTimeoutSeconds))
      else map_sum id (\<lambda>hs. (name, hc) # hs) (normalize_loop rest))"

definition NormalizeHarnesses :: "Config \<Rightarrow> goerr + Config" where
  "NormalizeHarnesses c = map_sum id (\<lambda>hs. c\<lparr>cf_Harnesses := hs\<rparr>) (normalize_loop (cf_Harnesses c))"

text \<open>\<open>rf\<close> is \<^verbatim>\<open>os.ReadFile\<close> and \<open>dec\<close> the decoder with \<^verbatim>\<open>KnownFields\<close>.\<close>

definition LoadConfig :: "(string \<Rightarrow> string io) \<Rightarrow> (string \<Rightarrow> goerr + Config) \<Rightarrow> string \<Rightarrow> goerr + Config" where
  "LoadConfig rf dec root =
     (case rf (Join [root, ''.haro'', ''config.yaml'']) of
        IoNotExist e \<Rightarrow> Inr \<lparr>cf_Version = 2, cf_ExternalPaths = [], cf_Harnesses = []\<rparr>
      | IoErr e \<Rightarrow> Inl e
      | IoOk data \<Rightarrow>
          (case dec data of
             Inl e \<Rightarrow> Inl e
           | Inr cfg \<Rightarrow> NormalizeHarnesses (if cf_Version cfg = 0 then cfg\<lparr>cf_Version := 2\<rparr> else cfg)))"

definition harness_ok :: "HarnessConfig \<Rightarrow> bool" where
  "harness_ok h \<longleftrightarrow> hc_Enabled h \<noteq> None \<and> 1 \<le> hc_TimeoutSeconds h \<and> hc_TimeoutSeconds h \<le> 300"

lemma normalize_loop_ok:
  "normalize_loop hs = Inr hs' \<Longrightarrow>
   (\<forall>h \<in> snd ` set hs'. harness_ok h) \<and> hs' = map (\<lambda>(k, h). (k, normalize_harness h)) hs"
proof (induction hs arbitrary: hs')
  case (Cons kh hs)
  obtain k h where kh: "kh = (k, h)" by (cases kh)
  obtain r where r: "normalize_loop hs = Inr r" "hs' = (k, normalize_harness h) # r"
    and t: "1 \<le> hc_TimeoutSeconds (normalize_harness h)" "hc_TimeoutSeconds (normalize_harness h) \<le> 300"
    using Cons.prems unfolding kh
    by (auto simp: Let_def DefaultHarnessTimeoutSeconds_def split: if_splits dest!: map_sum_InrD)
  have "hc_Enabled (normalize_harness h) \<noteq> None" by (auto simp: normalize_harness_def Let_def)
  then show ?case using Cons.IH [OF r(1)] r t kh by (simp add: harness_ok_def)
qed simp

lemma normalize_loop_total:
  "\<forall>h \<in> snd ` set hs. 0 \<le> hc_TimeoutSeconds h \<and> hc_TimeoutSeconds h \<le> 300 \<Longrightarrow> \<exists>hs'. normalize_loop hs = Inr hs'"
  by (induction hs) (auto simp: Let_def normalize_harness_def DefaultHarnessTimeoutSeconds_def)

text \<open>C31. A configuration that loads has, for every harness, a timeout between 1 and 300 seconds and a
  definite enabled flag; loading fails for a harness exactly when its timeout is outside 0 to 300,
  and then 0 stands for 300 and an absent flag for true.\<close>

theorem load_config_normal:
  assumes "rf (Join [root, ''.haro'', ''config.yaml'']) = IoOk data" "dec data = Inr cfg"
  shows "(case LoadConfig rf dec root of
      Inr c \<Rightarrow> (\<forall>h \<in> snd ` set (cf_Harnesses c). harness_ok h) \<and> cf_Version c \<noteq> 0 \<and>
        cf_Harnesses c = map (\<lambda>(k, h). (k, normalize_harness h)) (cf_Harnesses cfg)
    | Inl e \<Rightarrow> True) \<and>
    ((\<exists>c. LoadConfig rf dec root = Inr c) \<longleftrightarrow>
       (\<forall>h \<in> snd ` set (cf_Harnesses cfg). 0 \<le> hc_TimeoutSeconds h \<and> hc_TimeoutSeconds h \<le> 300))"
proof -
  let ?v = "if cf_Version cfg = 0 then cfg\<lparr>cf_Version := 2\<rparr> else cfg"
  have l: "LoadConfig rf dec root = map_sum id (\<lambda>hs. ?v\<lparr>cf_Harnesses := hs\<rparr>) (normalize_loop (cf_Harnesses cfg))"
    using assms by (auto simp: LoadConfig_def NormalizeHarnesses_def)
  show ?thesis
  proof (cases "normalize_loop (cf_Harnesses cfg)")
    case (Inl e)
    then show ?thesis using l normalize_loop_total by fastforce
  next
    case (Inr hs)
    note ok = normalize_loop_ok [OF Inr]
    have "\<forall>h \<in> snd ` set (cf_Harnesses cfg). 0 \<le> hc_TimeoutSeconds h \<and> hc_TimeoutSeconds h \<le> 300"
    proof
      fix h assume "h \<in> snd ` set (cf_Harnesses cfg)"
      then have "normalize_harness h \<in> snd ` set hs" using ok by force
      then have "harness_ok (normalize_harness h)" using ok by blast
      then show "0 \<le> hc_TimeoutSeconds h \<and> hc_TimeoutSeconds h \<le> 300"
        by (simp add: harness_ok_def normalize_harness_def Let_def split: if_splits)
    qed
    then show ?thesis using l Inr ok by simp
  qed
qed

definition demo_config :: Config where
  "demo_config = \<lparr>cf_Version = 0, cf_ExternalPaths = [], cf_Harnesses = [(''claude'',
     \<lparr>hc_Binary = ''claude'', hc_Env = [], hc_TimeoutSeconds = 0, hc_Enabled = None\<rparr>)]\<rparr>"

theorem load_config_normal_witness:
  "\<exists>c. LoadConfig (\<lambda>_. IoOk ''x'') (\<lambda>_. Inr demo_config) ''/r'' = Inr c"
  using load_config_normal [of "\<lambda>_. IoOk ''x''" "''/r''" "''x''" "\<lambda>_. Inr demo_config" demo_config]
  by (simp add: demo_config_def)

end
