(* ===== verification/Adapter.thy ===== *)
theory Adapter
  imports Outcome Config Json
begin

text \<open>
  Package \<^verbatim>\<open>internal/adapter\<close>: capabilities and their negotiation, the permission gate and the
  manager that probes and initializes each registered adapter once. An adapter is a value of the
  interface \<^verbatim>\<open>adapter.Adapter\<close>: functions on a world \<open>'w\<close> of processes and files. A prompt is a
  dialogue: the harness asks for permissions, the host answers, and in the end the events of the
  session are known. The map \<^verbatim>\<open>Extra\<close> is empty when it is \<^verbatim>\<open>nil\<close>.
\<close>

section \<open>Data\<close>

record Capabilities =
  ca_ProtocolVersion :: int
  ca_Permission :: bool
  ca_Terminal :: bool
  ca_LoadSession :: bool
  ca_Extra :: "(string, json) gomap"

definition zero_Capabilities :: Capabilities where
  "zero_Capabilities = \<lparr>ca_ProtocolVersion = 0, ca_Permission = False, ca_Terminal = False, ca_LoadSession = False, ca_Extra = []\<rparr>"

record ProbeResult =
  po_Available :: bool
  po_Version :: string
  po_Capabilities :: Capabilities

record SessionBundle =
  sb_Instructions :: string
  sb_WorkspaceRoot :: string
  sb_Requires :: "(string, string) gomap"

record SessionEvent =
  sv_Cursor :: int
  sv_Type :: string
  sv_Payload :: string

record PermissionRequest =
  pq_Kind :: string
  pq_Description :: string
  pq_Options :: "string list"

record SessionTransport =
  sx_NativeSessionID :: string
  sx_ProtocolVersion :: int
  sx_Extra :: "string option"

text \<open>The decision of a host is the chosen option or an error.\<close>

datatype 'w dialogue =
    Ask PermissionRequest "goerr + string \<Rightarrow> 'w dialogue"
  | Settled "goerr + SessionEvent list" "SessionTransport option" 'w

record 'w Session =
  se_Prompt :: "string \<Rightarrow> 'w \<Rightarrow> 'w dialogue"
  se_Cancel :: "'w \<Rightarrow> 'w"

record 'w Adapter =
  ad_Probe :: "'w \<Rightarrow> (goerr + ProbeResult) \<times> 'w"
  ad_Initialize :: "Capabilities \<Rightarrow> 'w \<Rightarrow> (goerr + Capabilities) \<times> 'w"
  ad_NewSession :: "SessionBundle \<Rightarrow> 'w \<Rightarrow> (goerr + 'w Session) \<times> 'w"

record 'w Manager =
  mg_adapters :: "(string, 'w Adapter) gomap"
  mg_initialized :: "(string, Capabilities) gomap"
  mg_negotiated :: "(string, Capabilities) gomap"
  mg_initCalled :: "(string, bool) gomap"
  mg_probeResults :: "(string, ProbeResult) gomap option"

section \<open>Negotiation\<close>

definition put_all :: "('k, 'v) gomap \<Rightarrow> ('k, 'v) gomap \<Rightarrow> ('k, 'v) gomap" where
  "put_all src dst = fold (\<lambda>(k, v) m. AList.update k v m) src dst"

definition Negotiate :: "Capabilities \<Rightarrow> Capabilities \<Rightarrow> goerr + Capabilities" where
  "Negotiate core agent =
     (if ca_ProtocolVersion core \<noteq> ca_ProtocolVersion agent
      then Inl (errorf (''protocol version mismatch: core '' @ itoa (ca_ProtocolVersion core) @ '' vs agent '' @
             itoa (ca_ProtocolVersion agent)))
      else Inr \<lparr>ca_ProtocolVersion = ca_ProtocolVersion core, ca_Permission = (ca_Permission core \<and> ca_Permission agent),
             ca_Terminal = (ca_Terminal core \<and> ca_Terminal agent),
             ca_LoadSession = (ca_LoadSession core \<and> ca_LoadSession agent),
             ca_Extra = put_all (ca_Extra agent) (put_all (ca_Extra core) [])\<rparr>)"

definition CheckCapability :: "Capabilities \<Rightarrow> string \<Rightarrow> goerr option" where
  "CheckCapability caps method =
     (if method = ''Terminal'' then fail_if (\<not> ca_Terminal caps) (sentinel_err ErrUnsupportedCapability)
      else if method = ''LoadSession'' \<or> method = ''LoadPrevious''
      then fail_if (\<not> ca_LoadSession caps) (sentinel_err ErrUnsupportedCapability)
      else if method = ''Permission'' \<or> method = ''RequestPermission''
      then fail_if (\<not> ca_Permission caps) (sentinel_err ErrUnsupportedCapability)
      else None)"

section \<open>The manager\<close>

definition NewManager :: "(string, 'w Adapter) gomap \<Rightarrow> 'w Manager" where
  "NewManager adapters = \<lparr>mg_adapters = adapters, mg_initialized = [], mg_negotiated = [], mg_initCalled = [],
     mg_probeResults = None\<rparr>"

fun probe_loop :: "(string, 'w Adapter) gomap \<Rightarrow> (string, ProbeResult) gomap \<Rightarrow> 'w \<Rightarrow> (string, ProbeResult) gomap \<times> 'w" where
  "probe_loop [] results w = (results, w)"
| "probe_loop ((name, a) # rest) results w =
     (case ad_Probe a w of
        (Inl e, w') \<Rightarrow> probe_loop rest (AList.update name
          \<lparr>po_Available = False, po_Version = '''', po_Capabilities = zero_Capabilities\<rparr> results) w'
      | (Inr pr, w') \<Rightarrow> probe_loop rest (AList.update name pr results) w')"

definition Probe :: "('w Manager \<times> 'w, (string, ProbeResult) gomap) op" where
  "Probe mw =
     (case mw of (m, w) \<Rightarrow>
        (case mg_probeResults m of
           Some results \<Rightarrow> (Inr results, (m, w))
         | None \<Rightarrow>
             (case probe_loop (mg_adapters m) [] w of
                (results, w') \<Rightarrow> (Inr results, (m\<lparr>mg_probeResults := Some results\<rparr>, w')))))"

definition ProbeResults :: "'w Manager \<Rightarrow> (string, ProbeResult) gomap" where
  "ProbeResults m = (case mg_probeResults m of None \<Rightarrow> [] | Some r \<Rightarrow> r)"

definition Registered :: "'w Manager \<Rightarrow> string \<Rightarrow> bool" where
  "Registered m name = has_key name (mg_adapters m)"

definition init_called :: "'w Manager \<Rightarrow> string \<Rightarrow> bool" where
  "init_called m name = (map_of (mg_initCalled m) name = Some True)"

definition negotiated_at :: "'w Manager \<Rightarrow> string \<Rightarrow> Capabilities" where
  "negotiated_at m name = (case map_of (mg_negotiated m) name of None \<Rightarrow> zero_Capabilities | Some c \<Rightarrow> c)"

definition not_found_adapter :: "string \<Rightarrow> goerr" where
  "not_found_adapter name = errorf (''adapter '' @ quoted name @ '' not found'')"

definition Initialize :: "string \<Rightarrow> Capabilities \<Rightarrow> ('w Manager \<times> 'w, Capabilities) op" where
  "Initialize name core mw =
     (case mw of (m, w) \<Rightarrow>
        if init_called m name then (Inr (negotiated_at m name), (m, w))
        else
          (case map_of (mg_adapters m) name of
             None \<Rightarrow> (Inl (not_found_adapter name), (m, w))
           | Some a \<Rightarrow>
               (case ad_Initialize a core w of
                  (Inl e, w') \<Rightarrow> (Inl e, (m, w'))
                | (Inr neg, w') \<Rightarrow>
                    (Inr neg, (m\<lparr>mg_initialized := AList.update name core (mg_initialized m),
                       mg_negotiated := AList.update name neg (mg_negotiated m),
                       mg_initCalled := AList.update name True (mg_initCalled m)\<rparr>, w')))))"

text \<open>A session together with the capabilities that gate its permission requests.\<close>

definition NewSession :: "'w Manager \<Rightarrow> string \<Rightarrow> SessionBundle \<Rightarrow> 'w \<Rightarrow> (goerr + 'w Session \<times> Capabilities) \<times> 'w" where
  "NewSession m name bundle w =
     (if \<not> init_called m name then (Inl (sentinel_err ErrNotInitialized), w)
      else
        (case map_of (mg_adapters m) name of
           None \<Rightarrow> (Inl (not_found_adapter name), w)
         | Some a \<Rightarrow>
             (case ad_NewSession a bundle w of
                (Inl e, w') \<Rightarrow> (Inl e, w')
              | (Inr s, w') \<Rightarrow> (Inr (s, negotiated_at m name), w'))))"

definition gated_RequestPermission :: "Capabilities \<Rightarrow> (PermissionRequest \<Rightarrow> ('s, string) op) \<Rightarrow> PermissionRequest \<Rightarrow> ('s, string) op" where
  "gated_RequestPermission caps inner req =
     (if \<not> ca_Permission caps then op_fail (sentinel_err ErrUnsupportedCapability) else inner req)"

definition Negotiated :: "'w Manager \<Rightarrow> string \<Rightarrow> Capabilities \<times> bool" where
  "Negotiated m name = (negotiated_at m name, has_key name (mg_negotiated m))"

section \<open>Building the manager\<close>

text \<open>\<^verbatim>\<open>factory.NewManager\<close>: \<open>build\<close> makes the adapter of an enabled harness.\<close>

definition resolve_binary :: "string \<Rightarrow> string \<Rightarrow> string \<Rightarrow> string" where
  "resolve_binary seam configured dflt = (if seam \<noteq> '''' then seam else if configured \<noteq> '''' then configured else dflt)"

record 'w providers =
  getenv :: "string \<Rightarrow> string"
  claude_NewAdapter :: "string \<Rightarrow> (string, string) gomap \<Rightarrow> int \<Rightarrow> 'w Adapter"
  opencode_NewAdapter :: "string \<Rightarrow> (string, string) gomap \<Rightarrow> int \<Rightarrow> 'w Adapter"

definition ResolveBinary :: "(string \<Rightarrow> string) \<Rightarrow> string \<Rightarrow> string" where
  "ResolveBinary ge configured = resolve_binary (ge ''HARO_TEST_OPENCODE_BINARY'') configured ''opencode''"

definition ResolveClaudeBinary :: "(string \<Rightarrow> string) \<Rightarrow> string \<Rightarrow> string" where
  "ResolveClaudeBinary ge configured = resolve_binary (ge ''HARO_TEST_CLAUDE_BINARY'') configured ''claude''"

definition buildAdapter :: "'w providers \<Rightarrow> string \<Rightarrow> HarnessConfig \<Rightarrow> 'w Adapter" where
  "buildAdapter pv name hc =
     (let timeout = hc_TimeoutSeconds hc * second in
      if name = ''claude'' \<or> name = ''claudecode''
      then claude_NewAdapter pv (ResolveClaudeBinary (getenv pv) (hc_Binary hc)) (hc_Env hc) timeout
      else opencode_NewAdapter pv (ResolveBinary (getenv pv) (hc_Binary hc)) (hc_Env hc) timeout)"

definition build_adapters :: "'w providers \<Rightarrow> Config \<Rightarrow> (string, 'w Adapter) gomap" where
  "build_adapters pv cfg =
     fold (\<lambda>(name, hc) m. if \<not> IsEnabled hc then m else AList.update name (buildAdapter pv name hc) m) (cf_Harnesses cfg) []"

definition opencode_ProtocolVersion :: int where
  "opencode_ProtocolVersion = 1"

definition factory_NewManager :: "'w providers \<Rightarrow> Config \<Rightarrow> 'w \<Rightarrow> (goerr + unit) \<times> 'w Manager \<times> 'w" where
  "factory_NewManager pv cfg w =
     op_bind (op_wrap ''probe harnesses'' Probe) (\<lambda>probes.
     op_each (\<lambda>(name, pr).
       if \<not> po_Available pr then op_return ()
       else op_void (op_wrap (''initialize '' @ name)
         (Initialize name (zero_Capabilities\<lparr>ca_ProtocolVersion := opencode_ProtocolVersion\<rparr>)))) probes)
     (NewManager (build_adapters pv cfg), w)"

section \<open>Lemmas\<close>

lemma map_of_put_all: "map_of (put_all src dst) = map_of dst ++ map_of (rev src)"
proof (induction src arbitrary: dst)
  case (Cons kv src)
  then show ?case by (cases kv) (auto simp: put_all_def map_add_def fun_eq_iff split: option.splits)
qed (simp add: put_all_def)

lemma map_of_rev: "gomap m \<Longrightarrow> map_of (rev m) = map_of m"
  by (metis gomap_def gomap_mset_map_of mset_rev)

lemma probe_loop_keys: "fst ` set (fst (probe_loop as r w)) = fst ` set as \<union> fst ` set r"
proof (induction as r w rule: probe_loop.induct)
  case (2 name a rest results w)
  then show ?case by (cases "ad_Probe a w" rule: prod.exhaust; cases "fst (ad_Probe a w)")
      (auto simp: dom_update image_iff)
qed simp

text \<open>The states of a manager: from \<^verbatim>\<open>NewManager\<close> by \<^verbatim>\<open>Probe\<close> and \<^verbatim>\<open>Initialize\<close>, while the world
  changes in between.\<close>

inductive manager_reachable :: "(string, 'w Adapter) gomap \<Rightarrow> 'w Manager \<Rightarrow> bool" for as :: "(string, 'w Adapter) gomap" where
  new: "manager_reachable as (NewManager as)"
| probed: "manager_reachable as m \<Longrightarrow> Probe (m, w) = (r, (m', w')) \<Longrightarrow> manager_reachable as m'"
| initialized: "manager_reachable as m \<Longrightarrow> Initialize name core (m, w) = (r, (m', w')) \<Longrightarrow> manager_reachable as m'"

definition answered :: "(string, 'w Adapter) gomap \<Rightarrow> 'w Manager \<Rightarrow> bool" where
  "answered as m \<longleftrightarrow> mg_adapters m = as \<and>
     (\<forall>name. init_called m name \<longrightarrow> (\<exists>a core w w'. map_of as name = Some a \<and> ad_Initialize a core w = (Inr (negotiated_at m name), w')))"

lemma answered_Probe: "answered as m \<Longrightarrow> Probe (m, w) = (r, (m', w')) \<Longrightarrow> answered as m'"
  by (auto simp: Probe_def answered_def init_called_def negotiated_at_def split: option.splits prod.splits)

lemma answered_Initialize:
  assumes "answered as m" "Initialize name core (m, w) = (r, (m', w'))"
  shows "answered as m'"
proof (cases "m' = m")
  case False
  then obtain a neg where a: "map_of as name = Some a" "ad_Initialize a core w = (Inr neg, w')"
    "m' = m\<lparr>mg_initialized := AList.update name core (mg_initialized m), mg_negotiated := AList.update name neg (mg_negotiated m),
       mg_initCalled := AList.update name True (mg_initCalled m)\<rparr>"
    using assms by (auto simp: Initialize_def answered_def split: if_splits option.splits prod.splits sum.splits)
  have "init_called m' n \<longleftrightarrow> n = name \<or> init_called m n" "negotiated_at m' n = (if n = name then neg else negotiated_at m n)" for n
    by (auto simp: a(3) init_called_def negotiated_at_def)
  then show ?thesis using assms(1) a(1,2) by (auto simp: answered_def a(3))
qed (use assms in simp)

lemma manager_reachable_answered: "manager_reachable as m \<Longrightarrow> answered as m"
proof (induction rule: manager_reachable.induct)
  case new
  show ?case by (simp add: NewManager_def answered_def init_called_def)
qed (auto dest: answered_Probe answered_Initialize)

section \<open>Properties\<close>

text \<open>C40. The life cycle of adapters: in every state of a manager, a session is created only for a
  registered adapter that was initialized, and the capabilities that gate its permission requests
  are those this adapter answered with; without them the host is never consulted; a second
  initialization returns the same capabilities and does not call the adapter.\<close>

theorem manager_lifecycle:
  assumes "manager_reachable as m" "NewSession m name bundle w = (Inr (session, caps), w')"
  shows "(\<exists>a core w0 w1. map_of as name = Some a \<and> ad_Initialize a core w0 = (Inr caps, w1) \<and>
      ad_NewSession a bundle w = (Inr session, w')) \<and>
    Initialize name core' (m, w2) = (Inr caps, (m, w2)) \<and>
    (\<not> ca_Permission caps \<longrightarrow> gated_RequestPermission caps host req s = (Inl (sentinel_err ErrUnsupportedCapability), s))"
proof -
  obtain a where a: "init_called m name" "map_of (mg_adapters m) name = Some a" "ad_NewSession a bundle w = (Inr session, w')"
    "caps = negotiated_at m name"
    using assms(2) by (auto simp: NewSession_def split: if_splits option.splits prod.splits sum.splits)
  moreover have "answered as m" using manager_reachable_answered assms(1) by blast
  ultimately obtain core w0 w1 where "map_of as name = Some a" "ad_Initialize a core w0 = (Inr caps, w1)"
    unfolding answered_def by fastforce
  with a show ?thesis by (auto simp: Initialize_def gated_RequestPermission_def)
qed

definition demo_session :: "unit Session" where
  "demo_session = \<lparr>se_Prompt = (\<lambda>t w. Settled (Inr []) None w), se_Cancel = id\<rparr>"

definition demo_adapter :: "unit Adapter" where
  "demo_adapter = \<lparr>ad_Probe = (\<lambda>w. (Inr \<lparr>po_Available = True, po_Version = ''1'', po_Capabilities = zero_Capabilities\<rparr>, w)),
     ad_Initialize = (\<lambda>c w. (Inr c, w)), ad_NewSession = (\<lambda>b w. (Inr demo_session, w))\<rparr>"

definition demo_manager :: "unit Manager" where
  "demo_manager = fst (snd (Initialize ''h'' zero_Capabilities (NewManager [(''h'', demo_adapter)], ())))"

theorem manager_lifecycle_witness:
  "\<exists>w1. ad_Initialize demo_adapter zero_Capabilities () = (Inr zero_Capabilities, w1) \<and>
     Initialize ''h'' zero_Capabilities (demo_manager, ()) = (Inr zero_Capabilities, (demo_manager, ()))"
proof -
  let ?b = "\<lparr>sb_Instructions = [], sb_WorkspaceRoot = [], sb_Requires = []\<rparr>"
  have "Initialize ''h'' zero_Capabilities (NewManager [(''h'', demo_adapter)], ()) = (Inr zero_Capabilities, (demo_manager, ()))"
    by (simp add: demo_manager_def Initialize_def NewManager_def init_called_def demo_adapter_def)
  then have "manager_reachable [(''h'', demo_adapter)] demo_manager" by (rule initialized [OF new])
  moreover have "NewSession demo_manager ''h'' ?b () = (Inr (demo_session, zero_Capabilities), ())"
    by (simp add: demo_manager_def NewSession_def Initialize_def NewManager_def init_called_def negotiated_at_def demo_adapter_def)
  ultimately show ?thesis
    using manager_lifecycle [of "[(''h'', demo_adapter)]" demo_manager "''h''" ?b "()" demo_session zero_Capabilities "()"
        zero_Capabilities "()" "\<lambda>_. op_return []" undefined "()"]
    by (simp add: demo_adapter_def)
qed

text \<open>Each registered adapter is probed exactly once: the first probe covers exactly the registered
  names, and every later probe and every reader returns the same snapshot without touching the
  adapters.\<close>

theorem probe_once:
  assumes "Probe (m, w) = (Inr results, (m', w'))" "mg_probeResults m = None"
  shows "fst ` set results = fst ` set (mg_adapters m) \<and> Probe (m', w2) = (Inr results, (m', w2)) \<and> ProbeResults m' = results"
  using assms probe_loop_keys [of "mg_adapters m" "[]" w]
  by (auto simp: Probe_def ProbeResults_def split: prod.splits)

theorem probe_once_witness:
  "fst (Probe (NewManager [(''h'', demo_adapter)], ())) = Inr [(''h'',
     \<lparr>po_Available = True, po_Version = ''1'', po_Capabilities = zero_Capabilities\<rparr>)] \<and>
   ProbeResults (fst (snd (Probe (NewManager [(''h'', demo_adapter)], ())))) = [(''h'',
     \<lparr>po_Available = True, po_Version = ''1'', po_Capabilities = zero_Capabilities\<rparr>)]"
proof -
  let ?r = "[(''h'', \<lparr>po_Available = True, po_Version = ''1'', po_Capabilities = zero_Capabilities\<rparr>)]"
  let ?p = "Probe (NewManager [(''h'', demo_adapter)], ())"
  have p: "?p = (Inr ?r, (fst (snd ?p), ()))" by (simp add: Probe_def NewManager_def demo_adapter_def)
  have "mg_probeResults (NewManager [(''h'', demo_adapter)]) = None" by (simp add: NewManager_def)
  from probe_once [OF p this] p show ?thesis by (metis fst_conv)
qed

text \<open>Negotiation grants a capability only when both sides have it, fails exactly on different
  protocol versions, and keeps the additional keys of both sides, the agent's value where both
  have one.\<close>

theorem negotiate_meet:
  assumes "gomap (ca_Extra core)" "gomap (ca_Extra agent)"
  shows "(case Negotiate core agent of
      Inl e \<Rightarrow> ca_ProtocolVersion core \<noteq> ca_ProtocolVersion agent
    | Inr neg \<Rightarrow> ca_ProtocolVersion core = ca_ProtocolVersion agent \<and>
        (\<forall>meth. CheckCapability neg meth = None \<longleftrightarrow> CheckCapability core meth = None \<and> CheckCapability agent meth = None) \<and>
        map_of (ca_Extra neg) = map_of (ca_Extra core) ++ map_of (ca_Extra agent))"
  using assms by (auto simp: Negotiate_def CheckCapability_def map_of_put_all map_of_rev)

theorem negotiate_meet_witness:
  "CheckCapability (case Negotiate (zero_Capabilities\<lparr>ca_Terminal := True\<rparr>) zero_Capabilities of Inr n \<Rightarrow> n | Inl e \<Rightarrow> zero_Capabilities)
     ''Terminal'' \<noteq> None"
proof -
  have g: "gomap (ca_Extra (zero_Capabilities\<lparr>ca_Terminal := True\<rparr>))" "gomap (ca_Extra zero_Capabilities)"
    by (simp_all add: zero_Capabilities_def)
  obtain n where n: "Negotiate (zero_Capabilities\<lparr>ca_Terminal := True\<rparr>) zero_Capabilities = Inr n"
    by (simp add: Negotiate_def zero_Capabilities_def)
  have "CheckCapability zero_Capabilities ''Terminal'' \<noteq> None" by (simp add: CheckCapability_def zero_Capabilities_def)
  then show ?thesis using negotiate_meet [OF g] n by simp
qed

end
