(* ===== verification/Engine_Types.thy ===== *)
theory Engine_Types
  imports Outcome Fenced Evidence Compose Config Adapter
begin

text \<open>
  The state of \<^verbatim>\<open>execution.Engine\<close> (\<^verbatim>\<open>engine.go\<close>, \<^verbatim>\<open>async.go\<close>) and its surroundings.
  What the engine observes of the operating system at a moment is the record \<open>disk\<close>; commands,
  worktrees and snapshots change it. The fields of \<^verbatim>\<open>Engine\<close> that never change and everything
  outside the repository (processes, git, the YAML decoder, digests, identifiers, the clock) are the
  record \<open>env\<close>. The clock and the source of identifiers are read one value after the other.
\<close>

section \<open>Surroundings\<close>

record disk =
  dk_fs :: filesys
  dk_wf :: wf_os
  dk_ReadFile :: "string \<Rightarrow> string io"
  dk_Stat :: "string \<Rightarrow> goerr option"

record worktree =
  wt_Create :: "string \<Rightarrow> string \<Rightarrow> disk \<Rightarrow> (string \<times> goerr option) \<times> disk"
  wt_Remove :: "string \<Rightarrow> disk \<Rightarrow> disk"
  wt_Prune :: "string \<Rightarrow> disk \<Rightarrow> disk"

type_synonym run_result = "goerr + int \<times> string \<times> string"

record env =
  root :: string
  leaseHolder :: string
  worktreeMgr :: "worktree option"
  adapterMgr :: "disk Manager option"
  runner_Run :: "string \<Rightarrow> string list \<Rightarrow> (string, string) gomap \<Rightarrow> disk \<Rightarrow> run_result \<times> disk"
  git_rev_parse :: "string \<Rightarrow> disk \<Rightarrow> string \<times> goerr option"
  write_file :: "string \<Rightarrow> string \<Rightarrow> disk \<Rightarrow> disk"
  yaml_workflow :: "string \<Rightarrow> string + Workflow"
  yaml_config :: "string \<Rightarrow> goerr + Config"
  json_digest :: "hashStep list \<Rightarrow> goerr + string"
  sha256_hex :: "string \<Rightarrow> string"
  json_error :: "string \<Rightarrow> goerr"
  uuid_NewString :: "nat \<Rightarrow> string"
  time_Now :: "nat \<Rightarrow> clock"

section \<open>State\<close>

record attemptClaims =
  ac_executionID :: string
  ac_stepID :: string
  ac_paths :: "string list"

record attemptLease =
  al_executionID :: string
  al_stepID :: string
  al_token :: int

record Engine =
  e_store :: FakeStore
  e_disk :: disk
  activeClaims :: "(string, attemptClaims) gomap"
  activeLeases :: "(string, attemptLease) gomap"
  e_uuids :: nat
  e_ticks :: nat

definition NewEngine :: "FakeStore \<Rightarrow> disk \<Rightarrow> Engine" where
  "NewEngine s d = \<lparr>e_store = s, e_disk = d, activeClaims = [], activeLeases = [], e_uuids = 0, e_ticks = 0\<rparr>"

section \<open>Lifting\<close>

text \<open>A call on the store, with and without a reading of the clock.\<close>

definition st :: "(FakeStore, 'a) op \<Rightarrow> (Engine, 'a) op" where
  "st m e = (fst (m (e_store e)), e\<lparr>e_store := snd (m (e_store e))\<rparr>)"

definition clock_now :: "env \<Rightarrow> (Engine, clock) op" where
  "clock_now env e = (Inr (time_Now env (e_ticks e)), e\<lparr>e_ticks := Suc (e_ticks e)\<rparr>)"

definition timed :: "env \<Rightarrow> (clock \<Rightarrow> (FakeStore, 'a) op) \<Rightarrow> (Engine, 'a) op" where
  "timed env m = op_bind (clock_now env) (\<lambda>t. st (m t))"

definition fresh :: "env \<Rightarrow> (Engine, string) op" where
  "fresh env e = (Inr (uuid_NewString env (e_uuids e)), e\<lparr>e_uuids := Suc (e_uuids e)\<rparr>)"

definition on_disk :: "(disk \<Rightarrow> disk) \<Rightarrow> (Engine, unit) op" where
  "on_disk f = op_state (\<lambda>e. e\<lparr>e_disk := f (e_disk e)\<rparr>)"

definition observe :: "(disk \<Rightarrow> 'a) \<Rightarrow> (Engine, 'a) op" where
  "observe f = op_read (\<lambda>e. Inr (f (e_disk e)))"

text \<open>The calls of a \<^verbatim>\<open>store.Store\<close> that is either the engine's store or a fenced view of it.\<close>

definition view_steps_UpdateStatus :: "env \<Rightarrow> FencedStore option \<Rightarrow> string \<Rightarrow> string \<Rightarrow> string \<Rightarrow> (Engine, unit) op" where
  "view_steps_UpdateStatus env fo e t s =
     (case fo of None \<Rightarrow> st (steps_UpdateStatus e t s) | Some f \<Rightarrow> timed env (\<lambda>now. fencedSteps_UpdateStatus now f e t s))"

definition view_CreateTransition :: "env \<Rightarrow> FencedStore option \<Rightarrow> StepTransitionEvent \<Rightarrow> (Engine, unit) op" where
  "view_CreateTransition env fo ev =
     op_void (timed env (\<lambda>now. case fo of None \<Rightarrow> events_CreateTransition now ev | Some f \<Rightarrow> fencedEvents_CreateTransition now f ev))"

definition view_executions_UpdateStatus :: "env \<Rightarrow> FencedStore option \<Rightarrow> string \<Rightarrow> string \<Rightarrow> (Engine, unit) op" where
  "view_executions_UpdateStatus env fo i s =
     timed env (\<lambda>now. case fo of None \<Rightarrow> executions_UpdateStatus now i s | Some f \<Rightarrow> fencedExecutions_UpdateStatus now f i s)"

lemma snd_st [simp]: "snd (st m e) = e\<lparr>e_store := snd (m (e_store e))\<rparr>" "fst (st m e) = fst (m (e_store e))"
  by (simp_all add: st_def)

lemma st_read: "m (e_store e) = (r, e_store e) \<Longrightarrow> st m e = (r, e)"
  by (simp add: st_def)

lemma st_eq: "m (e_store e) = (r, s) \<Longrightarrow> st m e = (r, e\<lparr>e_store := s\<rparr>)"
  by (simp add: st_def)

lemma timed_apply:
  "timed env m e = st (m (time_Now env (e_ticks e))) (e\<lparr>e_ticks := Suc (e_ticks e)\<rparr>)"
  by (simp add: timed_def clock_now_def op_bind_def)

lemma observe_apply [simp]: "observe f e = (Inr (f (e_disk e)), e)"
  by (simp add: observe_def)

lemma op_bind_observe [simp]: "op_bind (observe f) g e = g (f (e_disk e)) e"
  by (simp add: op_bind_def)

lemma keeps_st: "keeps P m \<Longrightarrow> keeps (\<lambda>e. P (e_store e)) (st m)"
  by (simp add: keeps_def)

lemma keeps_timed: "(\<And>t. keeps P (m t)) \<Longrightarrow> keeps (\<lambda>e. P (e_store e)) (timed env m)"
  by (simp add: keeps_def timed_apply)

lemma keeps_surroundings:
  "keeps (\<lambda>e. P (e_store e)) (clock_now env)" "keeps (\<lambda>e. P (e_store e)) (fresh env)"
  "keeps (\<lambda>e. P (e_store e)) (on_disk f)" "keeps Q (observe g)"
  by (simp_all add: keeps_def clock_now_def fresh_def on_disk_def observe_def)

lemmas keeps_lift [keeps] = keeps_st keeps_timed keeps_surroundings

lemma keeps_views:
  assumes "\<And>e t s. keeps P (steps_UpdateStatus e t s)" "\<And>now ev. keeps P (events_CreateTransition now ev)"
    "\<And>now i s. keeps P (executions_UpdateStatus now i s)"
  shows "keeps (\<lambda>e. P (e_store e)) (view_steps_UpdateStatus env fo e t s)"
    "keeps (\<lambda>e. P (e_store e)) (view_CreateTransition env fo ev)"
    "keeps (\<lambda>e. P (e_store e)) (view_executions_UpdateStatus env fo i s)"
  unfolding view_steps_UpdateStatus_def view_CreateTransition_def view_executions_UpdateStatus_def
    fencedSteps_UpdateStatus_def fencedEvents_CreateTransition_def fencedExecutions_UpdateStatus_def
  by (cases fo; auto intro!: keeps assms)+

end
