(* ===== verification/Engine_State.thy ===== *)
theory Engine_State
  imports Engine_Types
begin

text \<open>
  The step state machine of \<^verbatim>\<open>internal/execution\<close>: transitions with their audit trail, the status of
  an execution recomputed from its steps (\<^verbatim>\<open>engine.go\<close>), reopening with its two closures and
  skipping (\<^verbatim>\<open>state.go\<close>).
\<close>

section \<open>Transitions\<close>

definition allowedTransitions :: "(string, (string, bool) gomap) gomap" where
  "allowedTransitions =
     [(''pending'', [(''running'', True), (''skipped'', True)]),
      (''running'', [(''completed'', True), (''failed'', True)]),
      (''completed'', [(''pending'', True)]),
      (''failed'', [(''pending'', True)])]"

definition isAllowed :: "string \<Rightarrow> string \<Rightarrow> bool" where
  "isAllowed from to =
     (case map_of allowedTransitions from of
        Some m \<Rightarrow> (case map_of m to of Some b \<Rightarrow> b | None \<Rightarrow> False)
      | None \<Rightarrow> False)"

definition cursor_or_zero :: "goerr + int \<Rightarrow> int" where
  "cursor_or_zero r = (case r of Inl e \<Rightarrow> 0 | Inr n \<Rightarrow> n)"

definition transition_event :: "string \<Rightarrow> string \<Rightarrow> int \<Rightarrow> string option \<Rightarrow> string \<Rightarrow> StepTransitionEvent" where
  "transition_event executionID stepID cursor from to =
     \<lparr>te_ID = 0, te_ExecutionID = executionID, te_StepID = stepID, te_Cursor = cursor,
      te_FromStatus = from, te_ToStatus = to, te_OccurredAt = None\<rparr>"

definition transitionStepWithStore ::
    "env \<Rightarrow> FencedStore option \<Rightarrow> string \<Rightarrow> string \<Rightarrow> string \<Rightarrow> string \<Rightarrow> (Engine, unit) op" where
  "transitionStepWithStore env fo executionID stepID from to =
     op_bind (st (steps_Get executionID stepID)) (\<lambda>cur.
     if es_Status cur = to then op_return ()
     else
       op_bind (view_steps_UpdateStatus env fo executionID stepID to) (\<lambda>_.
       op_bind (op_try (st (events_NextTransitionCursor executionID stepID))) (\<lambda>c.
       view_CreateTransition env fo (transition_event executionID stepID (cursor_or_zero c)
         (if from = '''' then None else Some from) to))))"

definition transitionStep :: "env \<Rightarrow> string \<Rightarrow> string \<Rightarrow> string \<Rightarrow> string \<Rightarrow> (Engine, unit) op" where
  "transitionStep env executionID stepID from to = transitionStepWithStore env None executionID stepID from to"

definition transitionStepWithForce :: "env \<Rightarrow> string \<Rightarrow> string \<Rightarrow> string \<Rightarrow> string \<Rightarrow> (Engine, unit) op" where
  "transitionStepWithForce env executionID stepID from to =
     op_bind (st (steps_Get executionID stepID)) (\<lambda>cur.
     if es_Status cur = to then op_return ()
     else
       op_bind (st (steps_UpdateStatus executionID stepID to)) (\<lambda>_.
       op_bind (op_try (st (events_NextTransitionCursor executionID stepID))) (\<lambda>c.
       view_CreateTransition env None (transition_event executionID stepID (cursor_or_zero c) (Some from) to))))"

section \<open>The status of an execution\<close>

definition resync_status :: "ExecutionStep list \<Rightarrow> string" where
  "resync_status ss =
     (let allCompleted = \<not> list_ex (\<lambda>s. es_Status s \<in> {''failed'', ''pending'', ''running''}) ss;
          hasFailed = list_ex (\<lambda>s. es_Status s = ''failed'') ss;
          hasRunning = list_ex (\<lambda>s. es_Status s = ''running'') ss;
          status =
            (if allCompleted \<and> 0 < length ss then
               (if list_all (\<lambda>s. es_Status s = ''completed'' \<or> es_Status s = ''skipped'') ss then ''completed'' else ''running'')
             else if hasFailed then
               (if \<not> list_ex (\<lambda>s. es_Status s = ''pending'' \<or> es_Status s = ''running'') ss then ''failed'' else ''running'')
             else ''running'')
      in if hasRunning then ''running'' else status)"

definition removable :: "env \<Rightarrow> Execution \<Rightarrow> bool" where
  "removable env ex \<longleftrightarrow> ex_WorkspaceMode ex = ''isolated'' \<and> ex_WorkspaceRoot ex \<noteq> '''' \<and> ex_WorkspaceRoot ex \<noteq> root env"

definition remove_worktree :: "env \<Rightarrow> string \<Rightarrow> (Engine, unit) op" where
  "remove_worktree env executionID =
     (case worktreeMgr env of
        None \<Rightarrow> op_return ()
      | Some wt \<Rightarrow>
          op_bind (op_try (st (executions_Get executionID))) (\<lambda>r.
          case r of
            Inl e \<Rightarrow> op_return ()
          | Inr ex \<Rightarrow> if removable env ex then on_disk (wt_Remove wt (ex_WorkspaceRoot ex)) else op_return ()))"

definition resyncExecutionWithStore :: "env \<Rightarrow> FencedStore option \<Rightarrow> string \<Rightarrow> (Engine, unit) op" where
  "resyncExecutionWithStore env fo executionID =
     op_bind (op_try (st (steps_List executionID))) (\<lambda>r.
     case r of
       Inl e \<Rightarrow> op_return ()
     | Inr ss \<Rightarrow>
         (let status = resync_status ss in
          op_bind (op_ignore (view_executions_UpdateStatus env fo executionID status)) (\<lambda>_.
          if status = ''completed'' \<or> status = ''failed'' then remove_worktree env executionID else op_return ())))"

definition resyncExecution :: "env \<Rightarrow> string \<Rightarrow> (Engine, unit) op" where
  "resyncExecution env executionID = resyncExecutionWithStore env None executionID"

section \<open>Reopening\<close>

definition step_deps :: "ExecutionStep \<Rightarrow> string list" where
  "step_deps s = fst (unmarshal_strings (es_DependsOn s))"

definition step_requires :: "ExecutionStep \<Rightarrow> string list" where
  "step_requires s = fst (unmarshal_strings (es_Requires s))"

definition step_produces :: "ExecutionStep \<Rightarrow> string list" where
  "step_produces s = fst (unmarshal_strings (es_Produces s))"

text \<open>One pass of the loop over all steps: a step is added when one of its dependencies is in the set.\<close>

definition reset_pass :: "ExecutionStep list \<Rightarrow> string list \<Rightarrow> string list" where
  "reset_pass ss toReset =
     fold (\<lambda>s R. if es_StepID s \<in> set R then R
                  else if list_ex (\<lambda>d. d \<in> set R) (step_deps s) then R @ [es_StepID s] else R) ss toReset"

lemma reset_pass_append: "\<exists>new. reset_pass ss R = R @ new \<and> set new \<subseteq> es_StepID ` set ss \<and> set new \<inter> set R = {}"
proof (induction ss arbitrary: R)
  case (Cons s ss)
  let ?R = "if es_StepID s \<in> set R then R
    else if list_ex (\<lambda>d. d \<in> set R) (step_deps s) then R @ [es_StepID s] else R"
  obtain new where "reset_pass ss ?R = ?R @ new" "set new \<subseteq> es_StepID ` set ss" "set new \<inter> set ?R = {}"
    using Cons.IH by blast
  then show ?case by (auto simp: reset_pass_def split: if_splits)
qed (simp add: reset_pass_def)

lemma reset_pass_grows:
  "reset_pass ss R \<noteq> R \<Longrightarrow> card (es_StepID ` set ss - set (reset_pass ss R)) < card (es_StepID ` set ss - set R)"
proof -
  assume "reset_pass ss R \<noteq> R"
  moreover obtain new where n: "reset_pass ss R = R @ new" "set new \<subseteq> es_StepID ` set ss" "set new \<inter> set R = {}"
    using reset_pass_append by blast
  ultimately obtain x where "x \<in> set new" by (cases new) auto
  then show ?thesis using n by (intro psubset_card_mono) auto
qed

function descendants :: "ExecutionStep list \<Rightarrow> string list \<Rightarrow> string list" where
  "descendants ss toReset =
     (let R = reset_pass ss toReset in if R \<noteq> toReset then descendants ss R else toReset)"
  by pat_completeness auto

termination descendants
  by (relation "measure (\<lambda>(ss, R). card (es_StepID ` set ss - set R))") (auto intro: reset_pass_grows)

declare descendants.simps [simp del]

definition producers :: "ExecutionStep list \<Rightarrow> string \<Rightarrow> string list" where
  "producers ss art = concat (map (\<lambda>s. map (\<lambda>_. es_StepID s) (filter (\<lambda>p. p = art) (step_produces s))) ss)"

definition requires_map :: "ExecutionStep list \<Rightarrow> (string, string list) gomap" where
  "requires_map ss = fold (\<lambda>s m. AList.update (es_StepID s) (step_requires s) m) ss []"

definition requires_at :: "ExecutionStep list \<Rightarrow> string \<Rightarrow> string list" where
  "requires_at ss i = (case map_of (requires_map ss) i of None \<Rightarrow> [] | Some rs \<Rightarrow> rs)"

text \<open>The producers of one artifact join the feeders, and what they require joins the queue.\<close>

definition add_feeders :: "ExecutionStep list \<Rightarrow> string list \<Rightarrow> string list \<Rightarrow> string list \<Rightarrow> string list \<times> string list \<Rightarrow>
    string list \<times> string list" where
  "add_feeders ss toReset visited ps fq =
     fold (\<lambda>p (F, q). if p \<in> set toReset \<or> p \<in> set F then (F, q)
                       else (F @ [p], q @ filter (\<lambda>r. r \<notin> set visited) (requires_at ss p))) ps fq"

lemma producers_subset: "set (producers ss art) \<subseteq> es_StepID ` set ss"
  by (auto simp: producers_def)

lemma add_feeders_append:
  "\<exists>new. fst (add_feeders ss R visited ps (F, q)) = F @ new \<and> set new \<subseteq> set ps \<and> set new \<inter> set F = {} \<and>
     (new = [] \<longrightarrow> snd (add_feeders ss R visited ps (F, q)) = q)"
proof (induction ps arbitrary: F q)
  case (Cons p ps)
  show ?case
  proof (cases "p \<in> set R \<or> p \<in> set F")
    case True
    then show ?thesis using Cons.IH [of F q] by (auto simp: add_feeders_def)
  next
    case False
    let ?q = "q @ filter (\<lambda>r. r \<notin> set visited) (requires_at ss p)"
    obtain new where "fst (add_feeders ss R visited ps (F @ [p], ?q)) = F @ [p] @ new" "set new \<subseteq> set ps"
      "set new \<inter> set (F @ [p]) = {}"
      using Cons.IH [of "F @ [p]" ?q] by auto
    then show ?thesis using False by (intro exI [of _ "p # new"]) (auto simp: add_feeders_def)
  qed
qed (simp add: add_feeders_def)

function feeder_bfs :: "ExecutionStep list \<Rightarrow> string list \<Rightarrow> string list \<Rightarrow> string list \<Rightarrow> string list \<Rightarrow> string list" where
  "feeder_bfs ss toReset queue visited F =
     (case queue of
        [] \<Rightarrow> F
      | art # rest \<Rightarrow>
          if art \<in> set visited then feeder_bfs ss toReset rest visited F
          else
            (let (F', q) = add_feeders ss toReset (art # visited) (producers ss art) (F, rest)
             in feeder_bfs ss toReset q (art # visited) F'))"
  by pat_completeness auto

lemma add_feeders_decreases:
  assumes "add_feeders ss R visited (producers ss art) (F, q) = (F', q')"
  shows "card (es_StepID ` set ss - set F') < card (es_StepID ` set ss - set F) \<or> F' = F \<and> q' = q"
proof -
  obtain new where n: "F' = F @ new" "set new \<subseteq> set (producers ss art)" "set new \<inter> set F = {}" "new = [] \<longrightarrow> q' = q"
    using add_feeders_append [of ss R visited "producers ss art" F q] assms by auto
  show ?thesis
  proof (cases new)
    case (Cons x xs)
    then have "es_StepID ` set ss - set F' \<subset> es_StepID ` set ss - set F" using n producers_subset [of ss art] by auto
    then show ?thesis by (auto intro: psubset_card_mono)
  qed (use n in simp)
qed

termination feeder_bfs
proof (relation "inv_image ({(x, y). x < y} <*lex*> {(x, y). x < y})
    (\<lambda>(ss, R, queue, visited, F). (card (es_StepID ` set ss - set F), length queue))", goal_cases)
  case 1
  show ?case by (simp add: wf_less wf_lex_prod wf_inv_image)
next
  case (3 ss R queue visited F art rest x F' q)
  then have "add_feeders ss R (art # visited) (producers ss art) (F, rest) = (F', q)" by simp
  from add_feeders_decreases [OF this] 3 show ?case by auto
qed auto

declare feeder_bfs.simps [simp del]

definition reopened_requires :: "ExecutionStep list \<Rightarrow> string \<Rightarrow> string list" where
  "reopened_requires ss stepID =
     (case find (\<lambda>s. es_StepID s = stepID) ss of None \<Rightarrow> [] | Some s \<Rightarrow> step_requires s)"

definition reset_set :: "ExecutionStep list \<Rightarrow> string \<Rightarrow> string list" where
  "reset_set ss stepID =
     (let toReset = descendants ss [stepID]
      in toReset @ feeder_bfs ss toReset (reopened_requires ss stepID) [] [])"

definition reset_step :: "env \<Rightarrow> string \<Rightarrow> string \<Rightarrow> string \<Rightarrow> (Engine, unit) op" where
  "reset_step env executionID stepID sid =
     op_bind (timed env (\<lambda>now. generations_InvalidateByStep now executionID sid stepID)) (\<lambda>_.
     op_bind (st (steps_Get executionID sid)) (\<lambda>cur.
     if es_Status cur \<noteq> ''pending'' then transitionStepWithForce env executionID sid (es_Status cur) ''pending''
     else op_return ()))"

definition ReopenStep :: "env \<Rightarrow> string \<Rightarrow> string \<Rightarrow> bool \<Rightarrow> string \<Rightarrow> (Engine, unit) op" where
  "ReopenStep env executionID stepID cascade feedback0 =
     (if length feedback0 > FallbackLimit
      then op_fail (errorf (''feedback exceeds '' @ itoa (int FallbackLimit) @ '' byte limit''))
      else
        op_bind (op_wrap ''get step'' (st (steps_Get executionID stepID))) (\<lambda>_.
        let feedback = (if feedback0 \<noteq> '''' then FallbackEvidence (Redact feedback0) else feedback0) in
        op_bind (if cascade
                 then op_bind (op_try (st (steps_List executionID)))
                   (\<lambda>r. op_return (reset_set (case r of Inl e \<Rightarrow> [] | Inr ss \<Rightarrow> ss) stepID))
                 else op_return [stepID]) (\<lambda>toReset.
        op_bind (op_each (reset_step env executionID stepID) (sort toReset)) (\<lambda>_.
        op_bind (if feedback \<noteq> '''' then st (steps_SetPendingFeedback executionID stepID (Some feedback)) else op_return ()) (\<lambda>_.
        resyncExecution env executionID)))))"

section \<open>Skipping\<close>

definition SkipStep :: "env \<Rightarrow> string \<Rightarrow> string \<Rightarrow> string \<Rightarrow> (Engine, unit) op" where
  "SkipStep env executionID stepID reason =
     (if TrimSpace reason = '''' then op_fail (errorf ''skip requires --reason'')
      else
        op_bind (op_wrap ''get step'' (st (steps_Get executionID stepID))) (\<lambda>step.
        if es_Status step \<noteq> ''pending'' then op_fail (errorf (''skip only virgin pending, got '' @ es_Status step))
        else
          op_bind (st (attempts_CountByStep executionID stepID)) (\<lambda>cnt.
          if cnt \<noteq> 0 then op_fail (errorf ''skip only virgin pending with no attempts'')
          else
            op_bind (transitionStep env executionID stepID ''pending'' ''skipped'') (\<lambda>_.
            resyncExecution env executionID))))"

definition TransitionForTest :: "env \<Rightarrow> string \<Rightarrow> string \<Rightarrow> string \<Rightarrow> (Engine, unit) op" where
  "TransitionForTest env executionID stepID to =
     op_bind (st (steps_Get executionID stepID)) (\<lambda>cur.
     if es_Status cur = to then op_return ()
     else if \<not> isAllowed (es_Status cur) to
     then op_fail (errorf (''forbidden transition '' @ es_Status cur @ '' -> '' @ to))
     else transitionStep env executionID stepID (es_Status cur) to)"

end
