(* ===== verification/Engine_Run.thy ===== *)
theory Engine_Run
  imports Engine_State
begin

text \<open>
  \<^verbatim>\<open>internal/execution/engine.go\<close>: creating an execution from a workflow, acquiring and releasing path
  claims, the checks before a step runs, the command cycle and the agent cycle with its fallback over
  harnesses. A panic is an error that no caller handles.
\<close>

section \<open>Observations\<close>

definition io_sum :: "'a io \<Rightarrow> goerr + 'a" where
  "io_sum r = (case r of IoOk a \<Rightarrow> Inr a | IoNotExist e \<Rightarrow> Inl e | IoErr e \<Rightarrow> Inl e)"

definition discover_on :: "env \<Rightarrow> disk \<Rightarrow> goerr + Discovered list" where
  "discover_on env d = Discover (dk_wf d) (yaml_workflow env) (root env)"

definition flatten_on :: "env \<Rightarrow> disk \<Rightarrow> string \<Rightarrow> goerr + FlatDAG" where
  "flatten_on env d path = Flatten (json_digest env) (io_sum \<circ> dk_ReadFile d) (yaml_workflow env) (dk_fs d) path"

definition config_on :: "env \<Rightarrow> disk \<Rightarrow> goerr + Config" where
  "config_on env d = LoadConfig (dk_ReadFile d) (yaml_config env) (root env)"

text \<open>\<^verbatim>\<open>os.Open\<close> followed by \<^verbatim>\<open>workflow.Parse\<close>\<close>

definition parse_source :: "env \<Rightarrow> disk \<Rightarrow> string \<Rightarrow> goerr + Workflow" where
  "parse_source env d path =
     (case open_file (dk_wf d) path of Inl e \<Rightarrow> Inl e | Inr rd \<Rightarrow> Parse (yaml_workflow env) rd)"

definition readBoundedFile :: "disk \<Rightarrow> string \<Rightarrow> nat \<Rightarrow> goerr + (string \<times> bool)" where
  "readBoundedFile d path limit =
     (case open_file (dk_wf d) path of
        Inl e \<Rightarrow> Inl e
      | Inr (Inl e) \<Rightarrow> Inl e
      | Inr (Inr data) \<Rightarrow> if limit < length data then Inr (take limit data, True) else Inr (data, False))"

definition artifactsRoot :: "env \<Rightarrow> string" where
  "artifactsRoot env = Join [root env, ''.haro'', ''artifacts'']"

section \<open>Creating an execution\<close>

definition resolveWorkspaceForFlat :: "Workflow \<Rightarrow> FlatStep \<Rightarrow> string" where
  "resolveWorkspaceForFlat rootWf flat =
     (let mode = (case wf_Workspace rootWf of
                    None \<Rightarrow> ''isolated''
                  | Some w \<Rightarrow> (case wc_Mode w of None \<Rightarrow> ''isolated'' | Some m \<Rightarrow> m))
      in case fs_Workspace flat of
           None \<Rightarrow> mode
         | Some w \<Rightarrow> (case wc_Mode w of None \<Rightarrow> mode | Some m \<Rightarrow> m))"

definition captureBaseCommit :: "env \<Rightarrow> disk \<Rightarrow> string \<Rightarrow> goerr + string option" where
  "captureBaseCommit env d resolvedRoot =
     (case git_rev_parse env resolvedRoot d of
        (out, Some err) \<Rightarrow>
          (let msg = map lower_char out in
           if sublist ''not a git repository'' msg \<or> sublist ''not a git repo'' msg then Inr None
           else if sublist ''executable file not found'' (err_msg err) then Inr None
           else Inl (GoErr (err_kind err) (''git rev-parse HEAD: '' @ err_msg err @ '' output: '' @ out)))
      | (out, None) \<Rightarrow>
          (let trimmed = TrimSpace out in
           if trimmed = '''' then Inl (errorf ''git rev-parse HEAD empty'') else Inr (Some trimmed)))"

definition execution_mode :: "Workflow \<Rightarrow> string" where
  "execution_mode flow =
     (case wf_Workspace flow of
        None \<Rightarrow> ''isolated''
      | Some w \<Rightarrow> (case wc_Mode w of None \<Rightarrow> ''isolated'' | Some m \<Rightarrow> m))"

definition create_worktree :: "env \<Rightarrow> string \<Rightarrow> string \<Rightarrow> (Engine, string) op" where
  "create_worktree env execMode execID e =
     (case worktreeMgr env of
        None \<Rightarrow> (Inr (root env), e)
      | Some wt \<Rightarrow>
          if execMode = ''isolated'' then
            (case wt_Create wt execID (root env) (e_disk e) of
               ((p, err), d) \<Rightarrow> (Inr (if err \<noteq> None \<and> p = '''' then root env else p), e\<lparr>e_disk := d\<rparr>))
          else (Inr (root env), e))"

definition step_row :: "Workflow \<Rightarrow> string \<Rightarrow> FlatStep \<Rightarrow> ExecutionStep" where
  "step_row flow execID s =
     \<lparr>es_ExecutionID = execID, es_StepID = fs_ID s, es_Type = fs_Type s, es_Status = ''pending'',
      es_DependsOn = json_strings (Some (fs_DependsOn s)), es_Requires = json_strings (Some (fs_Requires s)),
      es_Produces = json_strings (Some (fs_Produces s)), es_WorkspaceMode = resolveWorkspaceForFlat flow s,
      es_CurrentGeneration = 0, es_PendingFeedback = None\<rparr>"

definition create_rows :: "clock \<Rightarrow> Workflow \<Rightarrow> Execution \<Rightarrow> FlatDAG \<Rightarrow> (FakeStore, unit) op" where
  "create_rows now flow ex dag =
     op_bind (executions_Create now ex) (\<lambda>_. op_each (\<lambda>s. steps_Create (step_row flow (ex_ID ex) s)) (dag_Steps dag))"

definition find_workflow :: "string \<Rightarrow> Discovered list \<Rightarrow> Discovered option" where
  "find_workflow name ds = find (\<lambda>d. d_Name d = name \<or> wf_Name (d_Workflow d) = name) ds"

text \<open>Everything before the first side effect.\<close>

definition plan_execution :: "env \<Rightarrow> string \<Rightarrow> disk \<Rightarrow> goerr + Workflow \<times> string \<times> FlatDAG" where
  "plan_execution env workflowName d =
     (case discover_on env d of
        Inl e \<Rightarrow> Inl (wrap_err ''discover'' e)
      | Inr discovered \<Rightarrow>
          (case find_workflow workflowName discovered of
             None \<Rightarrow> Inl (errorf (''workflow '' @ quoted workflowName @ '' not found''))
           | Some fd \<Rightarrow>
               (case ValidateFile (Some (d_Workflow fd)) (d_Path fd) True of
                  Some e \<Rightarrow> Inl e
                | None \<Rightarrow>
                    (case flatten_on env d (d_Path fd) of
                       Inl e \<Rightarrow> Inl e
                     | Inr dag \<Rightarrow>
                         (case ValidateFlat (Some dag) of
                            Some e \<Rightarrow> Inl e
                          | None \<Rightarrow>
                              if list_ex (\<lambda>s. fs_Type s = ''workflow'') (dag_Steps dag)
                              then Inl (newValidationError ''workflow_invalid'' ''steps'' ''workflow node leaked to flat DAG'')
                              else Inr (d_Workflow fd, d_Path fd, dag))))))"

definition prune_worktrees :: "env \<Rightarrow> (Engine, unit) op" where
  "prune_worktrees env =
     (case worktreeMgr env of None \<Rightarrow> op_return () | Some wt \<Rightarrow> on_disk (wt_Prune wt (root env)))"

definition discard_worktree :: "env \<Rightarrow> string \<Rightarrow> string \<Rightarrow> (Engine, unit) op" where
  "discard_worktree env execMode workspaceRoot =
     (case worktreeMgr env of
        None \<Rightarrow> op_return ()
      | Some wt \<Rightarrow> if execMode = ''isolated'' \<and> workspaceRoot \<noteq> root env then on_disk (wt_Remove wt workspaceRoot) else op_return ())"

definition CreateExecution :: "env \<Rightarrow> string \<Rightarrow> (Engine, string) op" where
  "CreateExecution env workflowName =
     op_bind (observe (plan_execution env workflowName)) (\<lambda>plan.
     op_bind (op_result plan) (\<lambda>(flow, wfPath, dag).
     op_bind (prune_worktrees env) (\<lambda>_.
     op_bind (op_ignore (timed env (\<lambda>now. projects_Create now (root env) (root env)))) (\<lambda>_.
     op_bind (fresh env) (\<lambda>execID.
     let execMode = execution_mode flow in
     op_bind (observe (\<lambda>d. captureBaseCommit env d (eval_root (dk_fs d) (root env)))) (\<lambda>cap.
     op_bind (op_result cap) (\<lambda>baseCommit.
     op_bind (create_worktree env execMode execID) (\<lambda>workspaceRoot.
     op_bind (clock_now env) (\<lambda>t.
     let ex = \<lparr>ex_ID = execID, ex_ProjectID = root env, ex_WorkflowSource = wfPath, ex_Status = ''running'',
               ex_WorkspaceMode = execMode, ex_WorkspaceRoot = workspaceRoot, ex_StartedAt = rfc3339 t, ex_EndedAt = None,
               ex_DagHash = Some (dag_Hash dag), ex_BaseCommit = baseCommit\<rparr> in
     op_bind (op_try (st (WithTx (create_rows t flow ex dag)))) (\<lambda>r.
     case r of
       Inl err \<Rightarrow> op_bind (discard_worktree env execMode workspaceRoot) (\<lambda>_. op_fail err)
     | Inr _ \<Rightarrow> op_return execID))))))))))"

definition effectiveWorktreeRoot :: "env \<Rightarrow> string \<Rightarrow> (Engine, string) op" where
  "effectiveWorktreeRoot env executionID =
     op_bind (op_try (st (executions_Get executionID))) (\<lambda>r.
     op_return (case r of Inl e \<Rightarrow> root env | Inr ex \<Rightarrow> if ex_WorkspaceRoot ex \<noteq> '''' then ex_WorkspaceRoot ex else root env))"

section \<open>Path claims\<close>

definition LogicalConflictError_Error :: "LogicalConflictError \<Rightarrow> string" where
  "LogicalConflictError_Error e = ''logical_conflict: '' @ quoted (lc_LogicalPath e) @ '' owned by '' @ lc_OwnerExecutionID e @
     ''/'' @ lc_OwnerStepID e @ '' mode '' @ lc_Mode e"

definition logical_conflict :: "string \<Rightarrow> PathClaim option \<Rightarrow> goerr" where
  "logical_conflict lp conflict =
     (let e = (case conflict of
                 Some c \<Rightarrow> \<lparr>lc_LogicalPath = lp, lc_OwnerExecutionID = pc_OwnerExecutionID c, lc_OwnerStepID = pc_OwnerStepID c,
                             lc_Mode = pc_Mode c\<rparr>
               | None \<Rightarrow> \<lparr>lc_LogicalPath = lp, lc_OwnerExecutionID = '''', lc_OwnerStepID = '''', lc_Mode = ''''\<rparr>)
      in GoErr (LogicalConflict e) (LogicalConflictError_Error e))"

fun canonical_paths :: "filesys \<Rightarrow> string \<Rightarrow> string list \<Rightarrow> string list \<Rightarrow> goerr + string list" where
  "canonical_paths fs rt acc [] = Inr acc"
| "canonical_paths fs rt acc (raw # rest) =
     (case Canonicalize fs rt raw of
        Inl e \<Rightarrow> Inl (wrap_err (''canonicalize '' @ quoted raw) e)
      | Inr c \<Rightarrow> canonical_paths fs rt (if c = '''' \<or> c \<in> set acc then acc else acc @ [c]) rest)"

definition claim_mode :: "string \<Rightarrow> string \<Rightarrow> string list \<Rightarrow> string \<Rightarrow> string" where
  "claim_mode effMode executionID extPaths lp =
     (if IsExternal lp extPaths then ''shared''
      else if prefix ''isolated'' effMode then ''isolated:'' @ executionID
      else effMode)"

definition release_path :: "env \<Rightarrow> string \<Rightarrow> string \<Rightarrow> string \<Rightarrow> string \<Rightarrow> (Engine, unit) op" where
  "release_path env projectID executionID stepID lp =
     op_ignore (timed env (\<lambda>now. claims_Release now projectID lp executionID stepID))"

definition new_claim :: "string \<Rightarrow> string \<Rightarrow> string \<Rightarrow> string \<Rightarrow> string \<Rightarrow> PathClaim" where
  "new_claim projectID lp mode executionID stepID =
     \<lparr>pc_ID = 0, pc_ProjectID = projectID, pc_LogicalPath = lp, pc_Mode = mode, pc_OwnerExecutionID = executionID,
      pc_OwnerStepID = stepID, pc_AcquiredAt = None, pc_ReleasedAt = None\<rparr>"

fun acquire_loop :: "env \<Rightarrow> string \<Rightarrow> string \<Rightarrow> string \<Rightarrow> (string \<Rightarrow> string) \<Rightarrow> string list \<Rightarrow> string list \<Rightarrow>
    (Engine, string list) op" where
  "acquire_loop env projectID executionID stepID mode [] acquired = op_return acquired"
| "acquire_loop env projectID executionID stepID mode (lp # rest) acquired =
     op_bind (op_try (timed env (\<lambda>now. claims_Acquire now (new_claim projectID lp (mode lp) executionID stepID)))) (\<lambda>r.
     case r of
       Inl err \<Rightarrow> op_bind (op_each (release_path env projectID executionID stepID) acquired) (\<lambda>_. op_fail err)
     | Inr (ok, conflict) \<Rightarrow>
         if \<not> ok then
           op_bind (op_each (release_path env projectID executionID stepID) acquired) (\<lambda>_. op_fail (logical_conflict lp conflict))
         else acquire_loop env projectID executionID stepID mode rest (acquired @ [lp]))"

definition acquireClaims :: "env \<Rightarrow> string \<Rightarrow> string \<Rightarrow> (Engine, string list) op" where
  "acquireClaims env executionID stepID =
     op_bind (st (steps_Get executionID stepID)) (\<lambda>step.
     op_bind (st (executions_Get executionID)) (\<lambda>ex.
     let projectID = ex_ProjectID ex; all_paths = step_requires step @ step_produces step in
     op_bind (observe (config_on env)) (\<lambda>cfg.
     let extPaths = (case cfg of Inl e \<Rightarrow> [] | Inr c \<Rightarrow> cf_ExternalPaths c) in
     op_bind (observe (\<lambda>d. canonical_paths (dk_fs d) (root env) [] all_paths)) (\<lambda>cs.
     op_bind (op_result cs) (\<lambda>canonical.
     let effMode = (if es_WorkspaceMode step = '''' then ''isolated'' else es_WorkspaceMode step) in
     acquire_loop env projectID executionID stepID (claim_mode effMode executionID extPaths) canonical [])))))"

definition releaseClaims :: "env \<Rightarrow> string \<Rightarrow> string \<Rightarrow> string list \<Rightarrow> (Engine, unit) op" where
  "releaseClaims env executionID stepID paths =
     (if paths = [] then op_return ()
      else
        op_bind (op_try (st (executions_Get executionID))) (\<lambda>r.
        let projectID = (case r of Inl e \<Rightarrow> root env | Inr ex \<Rightarrow> ex_ProjectID ex) in
        op_each (release_path env projectID executionID stepID) paths))"

section \<open>Checks before a step runs\<close>

definition verifyDAGHash :: "env \<Rightarrow> string \<Rightarrow> (Engine, unit) op" where
  "verifyDAGHash env executionID =
     op_bind (op_try (st (executions_Get executionID))) (\<lambda>r.
     case r of
       Inl e \<Rightarrow> op_return ()
     | Inr ex \<Rightarrow>
         (case ex_DagHash ex of
            None \<Rightarrow> op_return ()
          | Some hash \<Rightarrow>
              if ex_WorkflowSource ex = '''' then op_return ()
              else
                op_bind (observe (\<lambda>d. flatten_on env d (ex_WorkflowSource ex))) (\<lambda>flat.
                case flat of
                  Inl err \<Rightarrow> op_fail (newValidationError ''workflow_invalid'' '''' (''re-flatten failed: '' @ err_msg err))
                | Inr dag \<Rightarrow>
                    if dag_Hash dag \<noteq> hash
                    then op_fail (newValidationError ''workflow_invalid'' ''dag_hash''
                           (''dag hash mismatch: stored '' @ quoted hash @ '' vs current '' @ quoted (dag_Hash dag)))
                    else op_return ())))"

definition latestInvalidGeneration :: "Generation list \<Rightarrow> Generation option" where
  "latestInvalidGeneration gens =
     (case fold (\<lambda>g latest. case latest of None \<Rightarrow> Some g | Some l \<Rightarrow> if ge_Number g > ge_Number l then Some g else latest) gens None of
        None \<Rightarrow> None
      | Some l \<Rightarrow> if ge_InvalidatedAt l = None then None else Some l)"

definition step_generations :: "string \<Rightarrow> string \<Rightarrow> FakeStore \<Rightarrow> Generation list" where
  "step_generations executionID stepID s =
     (case fst (generations_ListByStep executionID stepID s) of Inl e \<Rightarrow> [] | Inr gs \<Rightarrow> gs)"

definition steps_of :: "string \<Rightarrow> FakeStore \<Rightarrow> ExecutionStep list" where
  "steps_of executionID s = (case fst (steps_List executionID s) of Inl e \<Rightarrow> [] | Inr ss \<Rightarrow> ss)"

fun stale_loop :: "FakeStore \<Rightarrow> string \<Rightarrow> string \<Rightarrow> ExecutionStep list \<Rightarrow> int option" where
  "stale_loop s executionID req [] = None"
| "stale_loop s executionID req (row # rest) =
     (if req \<in> set (step_produces row) then
        (case latestInvalidGeneration (step_generations executionID (es_StepID row) s) of
           Some l \<Rightarrow> Some (ge_Number l)
         | None \<Rightarrow> stale_loop s executionID req rest)
      else stale_loop s executionID req rest)"

definition requiresStale :: "string \<Rightarrow> string \<Rightarrow> (FakeStore, int option) op" where
  "requiresStale executionID req = op_read (\<lambda>s. Inr (stale_loop s executionID req (steps_of executionID s)))"

definition check_dependency :: "string \<Rightarrow> string \<Rightarrow> (Engine, unit) op" where
  "check_dependency executionID dep =
     op_bind (op_wrap (''missing dependency '' @ quoted dep) (st (steps_Get executionID dep))) (\<lambda>depStep.
     if es_Status depStep \<noteq> ''completed'' \<and> es_Status depStep \<noteq> ''skipped''
     then op_fail (errorf (''unsatisfied dependency '' @ quoted dep @ '': status '' @ es_Status depStep))
     else op_return ())"

definition check_required :: "env \<Rightarrow> string \<Rightarrow> string \<Rightarrow> (Engine, unit) op" where
  "check_required env executionID req =
     op_bind (observe (\<lambda>d. ValidateContainedPath (dk_fs d) (artifactsRoot env) req)) (\<lambda>c.
     op_bind (op_wrap ''requires containment'' (op_check c)) (\<lambda>_.
     op_bind (observe (\<lambda>d. dk_Stat d (Join [artifactsRoot env, req]))) (\<lambda>m.
     op_bind (op_wrap (''requires '' @ quoted req @ '' missing'') (op_check m)) (\<lambda>_.
     op_bind (st (requiresStale executionID req)) (\<lambda>stale.
     case stale of
       Some n \<Rightarrow> op_fail (errorf (''requires '' @ quoted req @ '' invalidated (generation '' @ itoa n @ '')''))
     | None \<Rightarrow> op_return ())))))"

definition check_produced :: "env \<Rightarrow> string \<Rightarrow> (Engine, unit) op" where
  "check_produced env art =
     op_bind (observe (\<lambda>d. ValidateContainedPath (dk_fs d) (artifactsRoot env) art)) (\<lambda>c.
     op_wrap ''produces containment'' (op_check c))"

section \<open>Finishing an attempt\<close>

definition completeAttempt :: "env \<Rightarrow> string \<Rightarrow> string \<Rightarrow> string option \<Rightarrow> string option \<Rightarrow> (Engine, unit) op" where
  "completeAttempt env attemptID status reason digest =
     op_bind (clock_now env) (\<lambda>t. timed env (\<lambda>t'. attempts_UpdateStatus t' attemptID status (Some (rfc3339 t)) reason digest))"

definition failAttempt :: "env \<Rightarrow> string \<Rightarrow> string \<Rightarrow> string \<Rightarrow> string \<Rightarrow> (Engine, unit) op" where
  "failAttempt env attemptID executionID stepID reason =
     op_bind (clock_now env) (\<lambda>t.
     op_bind (op_ignore (timed env (\<lambda>t'. attempts_UpdateStatus t' attemptID ''failed'' (Some (rfc3339 t)) (Some reason) None))) (\<lambda>_.
     op_bind (op_ignore (transitionStep env executionID stepID ''running'' ''failed'')) (\<lambda>_.
     resyncExecution env executionID)))"

text \<open>\<^verbatim>\<open>completeAttempt\<close>, \<^verbatim>\<open>transitionStep\<close>, \<^verbatim>\<open>resyncExecution\<close> in a row, errors ignored.\<close>

definition settle :: "env \<Rightarrow> string \<Rightarrow> string \<Rightarrow> string \<Rightarrow> string \<Rightarrow> string option \<Rightarrow> string option \<Rightarrow> (Engine, unit) op" where
  "settle env attemptID executionID stepID status reason digest =
     op_bind (op_ignore (completeAttempt env attemptID status reason digest)) (\<lambda>_.
     op_bind (op_ignore (transitionStep env executionID stepID ''running'' status)) (\<lambda>_.
     resyncExecution env executionID))"

definition append_event :: "env \<Rightarrow> string \<Rightarrow> string \<Rightarrow> string option \<Rightarrow> string option \<Rightarrow> (Engine, unit) op" where
  "append_event env attemptID typ payloadRef payload =
     op_bind (op_try (st (events_NextAttemptCursor attemptID))) (\<lambda>c.
     op_ignore (timed env (\<lambda>now. events_CreateAttemptEvent now
       \<lparr>ae_ID = 0, ae_AttemptID = attemptID, ae_Cursor = cursor_or_zero c, ae_EventType = typ, ae_PayloadRef = payloadRef,
        ae_Payload = payload, ae_OccurredAt = None\<rparr>)))"

section \<open>Command steps\<close>

definition step_command :: "string \<Rightarrow> Step list \<Rightarrow> (string \<times> (string, string) gomap) option" where
  "step_command stepID ss = map_option (\<lambda>s. (Run s, Env s)) (find (\<lambda>s. ID s = stepID) ss)"

text \<open>One discovered workflow: the execution's own source wins, then the first non-empty command
  of a step with the same identifier.\<close>

definition command_in :: "string option \<Rightarrow> string \<Rightarrow> Discovered \<Rightarrow> string \<times> (string, string) gomap \<Rightarrow> string \<times> (string, string) gomap" where
  "command_in source stepID d cur =
     (let cur = (if source = Some (d_Path d)
                 then (case step_command stepID (wf_Steps (d_Workflow d)) of None \<Rightarrow> cur | Some c \<Rightarrow> c) else cur)
      in fold (\<lambda>s c. if ID s = stepID \<and> fst c = '''' then (Run s, Env s) else c) (wf_Steps (d_Workflow d)) cur)"

definition find_command :: "env \<Rightarrow> string option \<Rightarrow> string \<Rightarrow> disk \<Rightarrow> string \<times> (string, string) gomap" where
  "find_command env source stepID d =
     (let cmd = fold (command_in source stepID) (case discover_on env d of Inl e \<Rightarrow> [] | Inr ds \<Rightarrow> ds) ('''', [])
      in if fst cmd \<noteq> '''' then cmd
         else
           (case source of
              None \<Rightarrow> cmd
            | Some path \<Rightarrow>
                (case parse_source env d path of
                   Inl e \<Rightarrow> cmd
                 | Inr flow \<Rightarrow> (case step_command stepID (wf_Steps flow) of None \<Rightarrow> cmd | Some c \<Rightarrow> c))))"

definition execution_source :: "string \<Rightarrow> (Engine, string option) op" where
  "execution_source executionID =
     op_bind (op_try (st (executions_Get executionID))) (\<lambda>r.
     op_return (case r of Inl e \<Rightarrow> None | Inr ex \<Rightarrow> Some (ex_WorkflowSource ex)))"

definition delimited_feedback :: "string \<Rightarrow> string" where
  "delimited_feedback feedback = ''---FEEDBACK---'' @ newline @ feedback @ newline @ ''---END---''"

definition priorTruncationNotice :: string where
  "priorTruncationNotice = newline @ ''[prior evidence truncated]''"

definition prior_evidence :: "disk \<Rightarrow> goerr + AttemptEvent \<Rightarrow> string" where
  "prior_evidence d r =
     (case r of
        Inl e \<Rightarrow> ''''
      | Inr ev \<Rightarrow>
          (case ae_Payload ev of
             Some p \<Rightarrow> FallbackEvidence p
           | None \<Rightarrow>
               (case ae_PayloadRef ev of
                  None \<Rightarrow> ''''
                | Some ref \<Rightarrow>
                    (case readBoundedFile d ref FallbackLimit of
                       Inl e \<Rightarrow> ''''
                     | Inr (data, truncated) \<Rightarrow>
                         if truncated
                         then truncateWithNotice data (FallbackLimit - length fallbackTruncationNotice) priorTruncationNotice
                         else FallbackEvidence data))))"

definition record_feedback :: "env \<Rightarrow> string \<Rightarrow> string \<Rightarrow> (Engine, unit) op" where
  "record_feedback env attemptID feedback =
     (if feedback = '''' then op_return ()
      else
        op_bind (op_try (st (events_PriorOutputDelta attemptID))) (\<lambda>ev.
        op_bind (observe (\<lambda>d. prior_evidence d ev)) (\<lambda>prior0.
        let delimited = delimited_feedback feedback;
            available = FallbackLimit - length delimited;
            prior = (if length prior0 > available then truncateWithNotice prior0 available priorTruncationNotice else prior0);
            combined = FallbackEvidence (prior @ delimited) in
        op_bind (append_event env attemptID ''feedback'' (Some delimited) None) (\<lambda>_.
        if prior \<noteq> '''' then append_event env attemptID ''reconstruction_context'' (Some combined) None
        else op_return ()))))"

definition run_process :: "env \<Rightarrow> string \<Rightarrow> string list \<Rightarrow> (string, string) gomap \<Rightarrow> (Engine, run_result) op" where
  "run_process env cwd argv envMap e =
     (case runner_Run env cwd argv envMap (e_disk e) of (r, d) \<Rightarrow> (Inr r, e\<lparr>e_disk := d\<rparr>))"

fun snapshot_loop :: "env \<Rightarrow> string \<Rightarrow> string list \<Rightarrow> string list \<Rightarrow> (Engine, string list) op" where
  "snapshot_loop env attemptID [] missing = op_return missing"
| "snapshot_loop env attemptID (art # rest) missing =
     op_bind (observe (\<lambda>d. readBoundedFile d (Join [artifactsRoot env, art]) SnapshotLimit)) (\<lambda>r.
     case r of
       Inl e \<Rightarrow> snapshot_loop env attemptID rest (missing @ [art])
     | Inr (data, truncated) \<Rightarrow>
         op_bind (on_disk (write_file env (Join [artifactsRoot env, ''snapshots'', attemptID, art]) (SnapshotBytes data))) (\<lambda>_.
         snapshot_loop env attemptID rest missing))"

definition new_generation :: "string \<Rightarrow> string \<Rightarrow> string \<Rightarrow> int \<Rightarrow> clock \<Rightarrow> Generation" where
  "new_generation genID executionID stepID number t =
     \<lparr>ge_ID = genID, ge_ExecutionID = executionID, ge_StepID = stepID, ge_Number = number, ge_CreatedAt = rfc3339 t,
      ge_InvalidatedAt = None, ge_InvalidatedByStep = None\<rparr>"

definition new_attempt :: "string \<Rightarrow> string \<Rightarrow> string \<Rightarrow> string \<Rightarrow> clock \<Rightarrow> Attempt" where
  "new_attempt attemptID executionID stepID genID t =
     \<lparr>at_ID = attemptID, at_ExecutionID = executionID, at_StepID = stepID, at_GenerationID = genID, at_Status = ''running'',
      at_StartedAt = rfc3339 t, at_EndedAt = None, at_TerminationReason = None, at_ResultDigest = None\<rparr>"

definition conclude_command :: "env \<Rightarrow> string \<Rightarrow> string \<Rightarrow> string \<Rightarrow> string list \<Rightarrow> int \<Rightarrow> string \<Rightarrow> (Engine, unit) op" where
  "conclude_command env attemptID executionID stepID produces exitCode visible =
     op_bind (snapshot_loop env attemptID produces []) (\<lambda>missing.
     if exitCode \<noteq> 0 then
       settle env attemptID executionID stepID ''failed'' (Some (''exit '' @ itoa exitCode)) (Some visible)
     else if missing \<noteq> [] then
       (let reason = ''missing artifacts: '' @ join_with '', '' missing in
        op_bind (settle env attemptID executionID stepID ''failed'' (Some reason) (Some visible)) (\<lambda>_. op_fail (errorf reason)))
     else settle env attemptID executionID stepID ''completed'' None (Some (sha256_hex env visible)))"

definition execute_command :: "env \<Rightarrow> string \<Rightarrow> string \<Rightarrow> string \<Rightarrow> string list \<Rightarrow> (string, string) gomap \<Rightarrow> string list \<Rightarrow>
    string \<Rightarrow> (Engine, unit) op" where
  "execute_command env attemptID executionID stepID argv envMap produces feedback =
     op_bind (record_feedback env attemptID feedback) (\<lambda>_.
     op_bind (effectiveWorktreeRoot env executionID) (\<lambda>wtRoot.
     op_bind (run_process env wtRoot argv envMap) (\<lambda>r.
     case r of
       Inl runErr \<Rightarrow>
         op_bind (failAttempt env attemptID executionID stepID (err_msg runErr)) (\<lambda>_. op_fail (wrap_err ''runner'' runErr))
     | Inr (exitCode, stdout, stderr) \<Rightarrow>
         (let visible = CommandEvidence argv stdout stderr in
          op_bind (append_event env attemptID ''output_delta'' None (Some visible)) (\<lambda>_.
          conclude_command env attemptID executionID stepID produces exitCode visible)))))"

definition open_attempt :: "env \<Rightarrow> string \<Rightarrow> string \<Rightarrow> int \<Rightarrow> (Engine, string) op" where
  "open_attempt env executionID stepID genNumber =
     op_bind (fresh env) (\<lambda>genID.
     op_bind (clock_now env) (\<lambda>t.
     op_bind (op_wrap ''create generation''
       (timed env (\<lambda>now. generations_Create now (new_generation genID executionID stepID genNumber t)))) (\<lambda>_.
     op_bind (op_wrap ''update generation'' (st (steps_UpdateGeneration executionID stepID genNumber))) (\<lambda>_.
     op_bind (fresh env) (\<lambda>attemptID.
     op_bind (clock_now env) (\<lambda>t'.
     op_bind (op_wrap ''create attempt''
       (timed env (\<lambda>now. attempts_Create now (new_attempt attemptID executionID stepID genID t')))) (\<lambda>_.
     op_return attemptID)))))))"

definition run_claimed :: "env \<Rightarrow> string \<Rightarrow> string \<Rightarrow> ExecutionStep \<Rightarrow> string list \<Rightarrow> string \<Rightarrow> (Engine, unit) op" where
  "run_claimed env executionID stepID step produces feedback =
     op_bind (transitionStep env executionID stepID ''pending'' ''running'') (\<lambda>_.
     op_bind (open_attempt env executionID stepID (es_CurrentGeneration step + 1)) (\<lambda>attemptID.
     op_bind (execution_source executionID) (\<lambda>source.
     op_bind (observe (find_command env source stepID)) (\<lambda>(runStr, envMap).
     if runStr = '''' then op_fail (errorf (''run command empty for step '' @ quoted stepID))
     else
       (case ParseArgv runStr of
          Inl err \<Rightarrow>
            op_bind (failAttempt env attemptID executionID stepID (''parse argv: '' @ err_msg err)) (\<lambda>_.
            op_fail (wrap_err ''parse argv'' err))
        | Inr argv \<Rightarrow> execute_command env attemptID executionID stepID argv envMap produces feedback)))))"

text \<open>The step as it is when it may run: pending, or brought back to pending for feedback.\<close>

definition not_pending :: "string \<Rightarrow> string \<Rightarrow> goerr" where
  "not_pending stepID status = errorf (''step '' @ quoted stepID @ '' not pending (status='' @ status @ '')'')"

definition ready_step :: "env \<Rightarrow> string \<Rightarrow> string \<Rightarrow> string \<Rightarrow> ExecutionStep \<Rightarrow> (Engine, ExecutionStep) op" where
  "ready_step env executionID stepID feedback step =
     (if es_Status step \<noteq> ''pending'' then
        (if feedback \<noteq> '''' \<and> (es_Status step = ''completed'' \<or> es_Status step = ''failed'') then
           op_bind (transitionStep env executionID stepID (es_Status step) ''pending'') (\<lambda>_.
           st (steps_Get executionID stepID))
         else op_fail (not_pending stepID (es_Status step)))
      else op_return step)"

definition run_command_step :: "env \<Rightarrow> string \<Rightarrow> string \<Rightarrow> string \<Rightarrow> ExecutionStep \<Rightarrow> (Engine, unit) op" where
  "run_command_step env executionID stepID feedback step0 =
     op_bind (ready_step env executionID stepID feedback step0) (\<lambda>step.
     let deps = (if snd (unmarshal_strings (es_DependsOn step)) then [] else step_deps step) in
     op_bind (op_each (check_dependency executionID) deps) (\<lambda>_.
     op_bind (op_each (check_required env executionID) (step_requires step)) (\<lambda>_.
     op_bind (op_each (check_produced env) (step_produces step)) (\<lambda>_.
     op_bind (acquireClaims env executionID stepID) (\<lambda>acquired.
     op_finally (run_claimed env executionID stepID step (step_produces step) feedback)
       (releaseClaims env executionID stepID acquired))))))"

end
