(* ===== verification/Engine_Agent.thy ===== *)
theory Engine_Agent
  imports Engine_Run
begin

text \<open>
  The agent cycle of \<^verbatim>\<open>internal/execution/engine.go\<close>: the usable harnesses of a step, one attempt per
  harness with its transport row in one transaction, the session through the adapter manager, and
  the evidence that is carried from one harness to the next. \<^verbatim>\<open>RunStep\<close> dispatches on the step type.
\<close>

section \<open>Harness candidates\<close>

definition workflow_with :: "env \<Rightarrow> string option \<Rightarrow> string \<Rightarrow> disk \<Rightarrow> Workflow option" where
  "workflow_with env source stepID d =
     (case (case source of None \<Rightarrow> None | Some path \<Rightarrow> (case parse_source env d path of Inl e \<Rightarrow> None | Inr flow \<Rightarrow> Some flow)) of
        Some flow \<Rightarrow> Some flow
      | None \<Rightarrow>
          fold (\<lambda>d w. if list_ex (\<lambda>s. ID s = stepID) (wf_Steps (d_Workflow d)) then Some (d_Workflow d) else w)
            (case discover_on env d of Inl e \<Rightarrow> [] | Inr ds \<Rightarrow> ds) None)"

definition agent_fields :: "string \<Rightarrow> Workflow option \<Rightarrow> string list \<times> string \<times> string" where
  "agent_fields stepID w =
     (case w of
        None \<Rightarrow> ([], '''', '''')
      | Some flow \<Rightarrow>
          (case find (\<lambda>s. ID s = stepID) (wf_Steps flow) of
             None \<Rightarrow> ([], '''', '''')
           | Some s \<Rightarrow> (Harness s, Instructions s, Mode s)))"

definition skip_reason :: "Config \<Rightarrow> (string, ProbeResult) gomap \<Rightarrow> string \<Rightarrow> string option" where
  "skip_reason cfg probes h =
     (case map_of (cf_Harnesses cfg) h of
        None \<Rightarrow> Some ''not configured''
      | Some hc \<Rightarrow>
          if \<not> IsEnabled hc then Some ''disabled''
          else
            (case map_of probes h of
               None \<Rightarrow> Some ''not registered''
             | Some pr \<Rightarrow> if \<not> po_Available pr then Some ''unavailable'' else None))"

fun intersect :: "Config \<Rightarrow> (string, ProbeResult) gomap \<Rightarrow> string list \<Rightarrow> string list \<Rightarrow> string list \<times> string list \<Rightarrow>
    string list \<times> string list" where
  "intersect cfg probes seen [] r = r"
| "intersect cfg probes seen (h # hs) (candidates, diags) =
     (if h \<in> set seen then intersect cfg probes seen hs (candidates, diags)
      else
        (case skip_reason cfg probes h of
           Some why \<Rightarrow> intersect cfg probes (h # seen) hs (candidates, diags @ [''skipped '' @ quoted h @ '': '' @ why])
         | None \<Rightarrow> intersect cfg probes (h # seen) hs (candidates @ [h], diags)))"

section \<open>Sessions\<close>

definition index_panic :: goerr where
  "index_panic = errorf ''runtime error: index out of range [0] with length 0''"

definition agent_RequestPermission :: "env \<Rightarrow> string \<Rightarrow> PermissionRequest \<Rightarrow> (Engine, string) op" where
  "agent_RequestPermission env attemptID req =
     op_bind (append_event env attemptID ''permission_requested'' (Some (pq_Description req)) None) (\<lambda>_.
     case pq_Options req of [] \<Rightarrow> op_fail index_panic | opt # _ \<Rightarrow> op_return opt)"

primrec run_dialogue :: "env \<Rightarrow> string \<Rightarrow> Capabilities \<Rightarrow> disk dialogue \<Rightarrow>
    (Engine, (goerr + SessionEvent list) \<times> SessionTransport option) op" where
  "run_dialogue env attemptID caps (Ask req k) =
     op_bind (op_try (gated_RequestPermission caps (agent_RequestPermission env attemptID) req))
       (\<lambda>ans. if ans = Inl index_panic then op_fail index_panic else run_dialogue env attemptID caps (k ans))"
| "run_dialogue env attemptID caps (Settled r tr w) = op_bind (on_disk (\<lambda>_. w)) (\<lambda>_. op_return (r, tr))"

fun collect_events :: "string \<Rightarrow> SessionEvent list \<Rightarrow> string \<Rightarrow> string \<times> goerr option" where
  "collect_events harness [] got = (got, None)"
| "collect_events harness (ev # evs) got =
     (if sv_Type ev = ''output_delta'' then collect_events harness evs (appendFallbackEvidence got (sv_Payload ev))
      else if sv_Type ev = ''completed'' then (appendFallbackEvidence got (sv_Payload ev), None)
      else if sv_Type ev = ''failed'' then
        (appendFallbackEvidence got (sv_Payload ev),
         Some (errorf (''harness '' @ harness @ '' failed: '' @ sv_Payload ev)))
      else collect_events harness evs got)"

definition persist_transport :: "string \<Rightarrow> string \<Rightarrow> SessionTransport option \<Rightarrow> goerr option \<Rightarrow> (Engine, goerr option) op" where
  "persist_transport attemptID harness tr runErr =
     (case tr of
        None \<Rightarrow> op_return runErr
      | Some x \<Rightarrow>
          op_bind (op_try (st (transport_Put \<lparr>tp_AttemptID = attemptID, tp_AdapterName = harness,
            tp_NativeSessionID = Some (sx_NativeSessionID x), tp_ProtocolVersion = Some (sx_ProtocolVersion x),
            tp_Extra = (case sx_Extra x of None \<Rightarrow> ''{}'' | Some b \<Rightarrow> b)\<rparr>))) (\<lambda>r.
          op_return (case r of Inl e \<Rightarrow> Some (wrap_err ''transport persist failed'' e) | Inr _ \<Rightarrow> runErr)))"

definition new_session :: "env \<Rightarrow> string \<Rightarrow> SessionBundle \<Rightarrow> (Engine, goerr + disk Session \<times> Capabilities) op" where
  "new_session env harness bundle e =
     (case adapterMgr env of
        None \<Rightarrow> (Inl (errorf ''runtime error: invalid memory address or nil pointer dereference''), e)
      | Some m \<Rightarrow> (case NewSession m harness bundle (e_disk e) of (r, d) \<Rightarrow> (Inr r, e\<lparr>e_disk := d\<rparr>)))"

definition prompt_session :: "env \<Rightarrow> string \<Rightarrow> string \<Rightarrow> disk Session \<Rightarrow> Capabilities \<Rightarrow> string \<Rightarrow>
    (Engine, string \<times> goerr option) op" where
  "prompt_session env attemptID harness sess caps text =
     op_bind (op_bind (observe (se_Prompt sess text)) (run_dialogue env attemptID caps)) (\<lambda>(r, tr).
     let (output, runErr) =
       (case r of
          Inl pErr \<Rightarrow> (''prompt failed '' @ harness @ '': '' @ err_msg pErr, Some pErr)
        | Inr evs \<Rightarrow> collect_events harness evs '''') in
     op_bind (on_disk (se_Cancel sess)) (\<lambda>_.
     op_bind (persist_transport attemptID harness tr runErr) (\<lambda>runErr'. op_return (output, runErr'))))"

definition run_session :: "env \<Rightarrow> string \<Rightarrow> string \<Rightarrow> string \<Rightarrow> string \<Rightarrow> (string, string) gomap \<Rightarrow> string \<Rightarrow>
    (Engine, string \<times> goerr option) op" where
  "run_session env executionID attemptID harness instructions reqMap accumulated =
     op_bind (effectiveWorktreeRoot env executionID) (\<lambda>wtRoot.
     op_bind (new_session env harness \<lparr>sb_Instructions = instructions, sb_WorkspaceRoot = wtRoot, sb_Requires = reqMap\<rparr>) (\<lambda>r.
     case r of
       Inl sErr \<Rightarrow> op_return (''new session failed for '' @ harness @ '': '' @ err_msg sErr, Some sErr)
     | Inr (sess, caps) \<Rightarrow>
         prompt_session env attemptID harness sess caps
           (if accumulated \<noteq> '''' then accumulated @ newline @ instructions else instructions)))"

section \<open>The fallback loop\<close>

definition agent_rows :: "clock \<Rightarrow> Generation \<Rightarrow> Attempt \<Rightarrow> string \<Rightarrow> (FakeStore, unit) op" where
  "agent_rows now gen attempt harness =
     op_bind (generations_Create now gen) (\<lambda>_.
     op_bind (steps_UpdateGeneration (ge_ExecutionID gen) (ge_StepID gen) (ge_Number gen)) (\<lambda>_.
     op_bind (attempts_Create now attempt) (\<lambda>_.
     op_void (transport_Put \<lparr>tp_AttemptID = at_ID attempt, tp_AdapterName = harness, tp_NativeSessionID = None,
       tp_ProtocolVersion = None, tp_Extra = ''''\<rparr>))))"

definition open_agent_attempt :: "env \<Rightarrow> string \<Rightarrow> string \<Rightarrow> string \<Rightarrow> (Engine, string \<times> goerr option) op" where
  "open_agent_attempt env executionID stepID harness =
     op_bind (st (steps_Get executionID stepID)) (\<lambda>step.
     op_bind (fresh env) (\<lambda>genID.
     op_bind (clock_now env) (\<lambda>t.
     op_bind (fresh env) (\<lambda>attemptID.
     op_bind (clock_now env) (\<lambda>t'.
     op_bind (op_try (timed env (\<lambda>now. WithTx (agent_rows now
       (new_generation genID executionID stepID (es_CurrentGeneration step + 1) t)
       (new_attempt attemptID executionID stepID genID t') harness)))) (\<lambda>r.
     op_return (attemptID, case r of Inl e \<Rightarrow> Some e | Inr _ \<Rightarrow> None)))))))"

definition agent_failed :: "env \<Rightarrow> string \<Rightarrow> string \<Rightarrow> (Engine, unit) op" where
  "agent_failed env executionID stepID =
     op_bind (op_ignore (transitionStep env executionID stepID ''running'' ''failed'')) (\<lambda>_. resyncExecution env executionID)"

record agent_step =
  as_mode :: string
  as_instructions :: string
  as_requires :: "(string, string) gomap"
  as_total :: nat

fun agent_loop :: "env \<Rightarrow> string \<Rightarrow> string \<Rightarrow> agent_step \<Rightarrow> nat \<Rightarrow> string list \<Rightarrow> string \<Rightarrow> string \<Rightarrow> (Engine, unit) op" where
  "agent_loop env executionID stepID a idx [] evidences accumulated = op_fail (errorf ''no candidates'')"
| "agent_loop env executionID stepID a idx (harness # rest) evidences accumulated =
     op_bind (open_agent_attempt env executionID stepID harness) (\<lambda>(attemptID, txErr).
     case txErr of
       Some err \<Rightarrow>
         (let evs = appendFallbackEvidence evidences
                (VisibleEvidence (''transport error for '' @ harness @ '': '' @ err_msg err)) in
          if isTerminal err then
            op_bind (settle env attemptID executionID stepID ''failed''
              (Some (VisibleEvidence (''terminal: '' @ err_msg err))) (Some evs)) (\<lambda>_. op_fail err)
          else if rest = [] then
            op_bind (settle env attemptID executionID stepID ''failed'' (Some (VisibleEvidence evs)) (Some evs)) (\<lambda>_.
            op_fail (wrap_err ''exhausted candidates'' err))
          else agent_loop env executionID stepID a (Suc idx) rest evs evs)
     | None \<Rightarrow>
         op_bind (run_session env executionID attemptID harness (as_instructions a) (as_requires a) accumulated) (\<lambda>(output, runErr).
         let visible = AgentEvidence harness (int idx + 1) (int (as_total a)) (as_mode a) (as_instructions a) output;
             evs = appendFallbackEvidence evidences visible in
         op_bind (append_event env attemptID ''output_delta'' None (Some visible)) (\<lambda>_.
         case runErr of
           None \<Rightarrow> settle env attemptID executionID stepID ''completed'' None (Some (sha256_hex env visible))
         | Some err \<Rightarrow>
             if isTerminal err then
               op_bind (settle env attemptID executionID stepID ''failed''
                 (Some (VisibleEvidence (''terminal: '' @ err_msg err))) (Some evs)) (\<lambda>_. op_fail err)
             else
               op_bind (op_ignore (completeAttempt env attemptID ''failed'' (Some (VisibleEvidence (err_msg err))) (Some evs))) (\<lambda>_.
               if rest = [] then
                 op_bind (agent_failed env executionID stepID) (\<lambda>_. op_fail (wrap_err ''exhausted candidates'' err))
               else agent_loop env executionID stepID a (Suc idx) rest evs evs))))"

section \<open>The agent step\<close>

definition run_harnesses :: "env \<Rightarrow> string \<Rightarrow> string \<Rightarrow> string list \<Rightarrow> string \<Rightarrow> string \<Rightarrow> string list \<Rightarrow> Config \<Rightarrow> (Engine, unit) op" where
  "run_harnesses env executionID stepID harnessCandidates instructions mode requires cfg =
     (let probes = (case adapterMgr env of None \<Rightarrow> [] | Some m \<Rightarrow> ProbeResults m);
          (candidates, skipDiags) = intersect cfg probes [] harnessCandidates ([], []);
          accumulated = (if skipDiags \<noteq> [] then FallbackEvidence (VisibleEvidence (join_with newline skipDiags)) else '''') in
      if candidates = [] then
        op_bind (agent_failed env executionID stepID) (\<lambda>_.
        op_fail (errorf (''no usable harness for agent step '' @ quoted stepID @ '': '' @
          VisibleEvidence (join_with newline skipDiags))))
      else
        agent_loop env executionID stepID
          \<lparr>as_mode = mode, as_instructions = instructions,
           as_requires = fold (\<lambda>r m. AList.update r r m) requires [], as_total = length candidates\<rparr>
          0 candidates '''' accumulated)"

definition run_agent_claimed :: "env \<Rightarrow> string \<Rightarrow> string \<Rightarrow> string list \<Rightarrow> (Engine, unit) op" where
  "run_agent_claimed env executionID stepID requires =
     op_bind (transitionStep env executionID stepID ''pending'' ''running'') (\<lambda>_.
     op_bind (execution_source executionID) (\<lambda>source.
     op_bind (observe (\<lambda>d. agent_fields stepID (workflow_with env source stepID d))) (\<lambda>(harnessCandidates, instructions, mode).
     if harnessCandidates = [] then
       op_bind (failAttempt env ''no-attempt'' executionID stepID ''no harness candidates'') (\<lambda>_.
       op_fail (errorf (''no harness candidates for agent step '' @ quoted stepID)))
     else if mode = ''terminal'' \<or> mode = ''supervised'' then
       op_bind (failAttempt env ''no-attempt'' executionID stepID (mode @ '' mode not supported'')) (\<lambda>_.
       op_fail (errorf (mode @ '' mode not supported'')))
     else
       op_bind (observe (config_on env)) (\<lambda>cfg.
       case cfg of
         Inl cfgErr \<Rightarrow>
           op_bind (agent_failed env executionID stepID) (\<lambda>_. op_fail (wrap_err ''harness config'' cfgErr))
       | Inr c \<Rightarrow> run_harnesses env executionID stepID harnessCandidates instructions mode requires c))))"

definition leaked_node :: "string \<Rightarrow> goerr" where
  "leaked_node stepID = newValidationError ''workflow_invalid'' (''steps['' @ stepID @ ''].type'')
     (''workflow node '' @ quoted stepID @ '' leaked to runtime'')"

definition runAgentStep :: "env \<Rightarrow> string \<Rightarrow> string \<Rightarrow> string \<Rightarrow> (Engine, unit) op" where
  "runAgentStep env executionID stepID feedback =
     op_bind (verifyDAGHash env executionID) (\<lambda>_.
     op_bind (op_wrap ''get step'' (st (steps_Get executionID stepID))) (\<lambda>step0.
     if es_Type step0 = ''workflow'' then op_fail (leaked_node stepID)
     else
       op_bind (ready_step env executionID stepID feedback step0) (\<lambda>step.
       op_bind (op_each (check_dependency executionID) (step_deps step)) (\<lambda>_.
       op_bind (op_each (check_required env executionID) (step_requires step)) (\<lambda>_.
       op_bind (acquireClaims env executionID stepID) (\<lambda>acquired.
       op_finally (run_agent_claimed env executionID stepID (step_requires step))
         (releaseClaims env executionID stepID acquired)))))))"

definition RunStep :: "env \<Rightarrow> string \<Rightarrow> string \<Rightarrow> string \<Rightarrow> (Engine, unit) op" where
  "RunStep env executionID stepID feedback =
     op_bind (verifyDAGHash env executionID) (\<lambda>_.
     op_bind (op_wrap ''get step'' (st (steps_Get executionID stepID))) (\<lambda>step.
     if es_Type step = ''workflow'' then op_fail (leaked_node stepID)
     else if es_Type step = ''agent'' then runAgentStep env executionID stepID feedback
     else if es_Type step \<noteq> ''command'' then op_fail (errorf (''unsupported_step_type: '' @ es_Type step))
     else run_command_step env executionID stepID feedback step))"

end
