(* ===== verification/Engine_Async.thy ===== *)
theory Engine_Async
  imports Engine_Agent
begin

text \<open>
  \<^verbatim>\<open>internal/execution/async.go\<close>: starting a step for the broker, executing the attempt later through a
  store that is fenced by the attempt's lease, and cancelling it. The context of a call is a
  function from the moment to the error it reports; a transaction body runs at one reading of the
  clock.
\<close>

type_synonym ctx = "nat \<Rightarrow> goerr option"

definition ctx_Err :: "ctx \<Rightarrow> (Engine, goerr option) op" where
  "ctx_Err ctx = op_read (\<lambda>e. Inr (ctx (e_ticks e)))"

section \<open>Starting\<close>

definition stepMode :: "env \<Rightarrow> string \<Rightarrow> string \<Rightarrow> string \<Rightarrow> (Engine, string) op" where
  "stepMode env executionID stepID requested =
     (if requested \<noteq> '''' then op_return requested
      else
        op_bind (st (executions_Get executionID)) (\<lambda>ex.
        op_bind (observe (\<lambda>d. parse_source env d (ex_WorkflowSource ex))) (\<lambda>r.
        op_bind (op_result r) (\<lambda>flow.
        case find (\<lambda>s. ID s = stepID) (wf_Steps flow) of
          None \<Rightarrow> op_fail (errorf (''step '' @ quoted stepID @ '' not found in workflow''))
        | Some s \<Rightarrow> op_return (Mode s)))))"

definition decode_column :: "env \<Rightarrow> string \<Rightarrow> string \<Rightarrow> (Engine, string list) op" where
  "decode_column env what txt =
     (case unmarshal_strings txt of
        (xs, bad) \<Rightarrow> if bad then op_fail (wrap_err (''invalid '' @ what) (json_error env txt)) else op_return xs)"

definition checkStepInputs :: "env \<Rightarrow> string \<Rightarrow> ExecutionStep \<Rightarrow> (Engine, unit) op" where
  "checkStepInputs env executionID step =
     op_bind (decode_column env ''dependencies'' (es_DependsOn step)) (\<lambda>deps.
     op_bind (op_each (check_dependency executionID) deps) (\<lambda>_.
     op_bind (decode_column env ''requires'' (es_Requires step)) (\<lambda>requires.
     op_bind (decode_column env ''produces'' (es_Produces step)) (\<lambda>produces.
     op_bind (op_each (check_required env executionID) requires) (\<lambda>_.
     op_each (check_produced env) produces)))))"

definition setup_rows :: "clock \<Rightarrow> FencedStore \<Rightarrow> Generation \<Rightarrow> Attempt \<Rightarrow> (FakeStore, unit) op" where
  "setup_rows now f gen attempt =
     (let executionID = ge_ExecutionID gen; stepID = ge_StepID gen in
      op_bind (fencedSteps_UpdateStatus now f executionID stepID ''running'') (\<lambda>_.
      op_bind (fencedEvents_NextTransitionCursor f executionID stepID) (\<lambda>cursor.
      op_bind (fencedEvents_CreateTransition now f (transition_event executionID stepID cursor (Some ''pending'') ''running'')) (\<lambda>_.
      op_bind (fencedGenerations_Create now f gen) (\<lambda>_.
      op_bind (fencedSteps_UpdateGeneration now f executionID stepID (ge_Number gen)) (\<lambda>_.
      op_void (fencedAttempts_Create now f attempt)))))))"

definition trackAttemptClaims :: "string \<Rightarrow> string \<Rightarrow> string \<Rightarrow> string list \<Rightarrow> (Engine, unit) op" where
  "trackAttemptClaims attemptID executionID stepID claims =
     op_state (\<lambda>e. e\<lparr>activeClaims := AList.update attemptID
       \<lparr>ac_executionID = executionID, ac_stepID = stepID, ac_paths = claims\<rparr> (activeClaims e)\<rparr>)"

definition trackAttemptLease :: "string \<Rightarrow> string \<Rightarrow> string \<Rightarrow> int \<Rightarrow> (Engine, unit) op" where
  "trackAttemptLease attemptID executionID stepID token =
     op_state (\<lambda>e. e\<lparr>activeLeases := AList.update attemptID
       \<lparr>al_executionID = executionID, al_stepID = stepID, al_token = token\<rparr> (activeLeases e)\<rparr>)"

definition start_leased :: "env \<Rightarrow> string \<Rightarrow> string \<Rightarrow> ExecutionStep \<Rightarrow> string list \<Rightarrow> int \<Rightarrow> (Engine, Attempt) op" where
  "start_leased env executionID stepID step claims leaseToken =
     op_bind (clock_now env) (\<lambda>t.
     op_bind (fresh env) (\<lambda>genID.
     op_bind (fresh env) (\<lambda>attemptID.
     let gen = new_generation genID executionID stepID (es_CurrentGeneration step + 1) t;
         attempt = new_attempt attemptID executionID stepID genID t;
         setupStore = NewFencedStore executionID stepID (leaseHolder env) leaseToken in
     op_bind (op_try (timed env (\<lambda>now. fenced_WithTx now setupStore (\<lambda>tx. setup_rows now tx gen attempt)))) (\<lambda>r.
     case r of
       Inl err \<Rightarrow>
         op_bind (op_ignore (timed env (\<lambda>now. leases_Release now executionID stepID (leaseHolder env) leaseToken))) (\<lambda>_.
         op_bind (releaseClaims env executionID stepID claims) (\<lambda>_. op_fail err))
     | Inr _ \<Rightarrow>
         op_bind (trackAttemptClaims attemptID executionID stepID claims) (\<lambda>_.
         op_bind (trackAttemptLease attemptID executionID stepID leaseToken) (\<lambda>_. op_return attempt))))))"

definition StartStep :: "env \<Rightarrow> string \<Rightarrow> string \<Rightarrow> string \<Rightarrow> (Engine, Attempt) op" where
  "StartStep env executionID stepID requestedMode =
     op_bind (verifyDAGHash env executionID) (\<lambda>_.
     op_bind (op_wrap ''get step'' (st (steps_Get executionID stepID))) (\<lambda>step.
     if es_Type step = ''workflow'' then op_fail (errorf (''workflow node '' @ quoted stepID @ '' cannot run''))
     else
       op_bind (stepMode env executionID stepID requestedMode) (\<lambda>mode.
       if mode = ''supervised'' \<or> mode = ''terminal'' then op_fail (errorf (mode @ '' mode not supported''))
       else if es_Status step \<noteq> ''pending'' then op_fail (not_pending stepID (es_Status step))
       else
         op_bind (checkStepInputs env executionID step) (\<lambda>_.
         op_bind (acquireClaims env executionID stepID) (\<lambda>claims.
         op_bind (op_try (timed env (\<lambda>now. leases_Acquire now executionID stepID (leaseHolder env)))) (\<lambda>r.
         case r of
           Inl err \<Rightarrow> op_bind (releaseClaims env executionID stepID claims) (\<lambda>_. op_fail err)
         | Inr leaseToken \<Rightarrow> start_leased env executionID stepID step claims leaseToken))))))"

section \<open>Executing\<close>

definition fencedStoreForAttempt :: "env \<Rightarrow> Attempt \<Rightarrow> (Engine, FencedStore) op" where
  "fencedStoreForAttempt env attempt = op_read (\<lambda>e.
     case map_of (activeLeases e) (at_ID attempt) of
       None \<Rightarrow> Inl (violation ErrStaleLease ''attempt lease is not active; reopen and rerun'')
     | Some l \<Rightarrow> Inr (NewFencedStore (al_executionID l) (al_stepID l) (leaseHolder env) (al_token l)))"

definition releaseAttemptClaims :: "env \<Rightarrow> Attempt \<Rightarrow> (Engine, unit) op" where
  "releaseAttemptClaims env attempt e =
     (case map_of (activeClaims e) (at_ID attempt) of
        None \<Rightarrow> (Inr (), e)
      | Some c \<Rightarrow> releaseClaims env (ac_executionID c) (ac_stepID c) (ac_paths c)
          (e\<lparr>activeClaims := AList.delete (at_ID attempt) (activeClaims e)\<rparr>))"

definition releaseAttemptLease :: "env \<Rightarrow> Attempt \<Rightarrow> (Engine, unit) op" where
  "releaseAttemptLease env attempt e =
     (case map_of (activeLeases e) (at_ID attempt) of
        None \<Rightarrow> (Inr (), e)
      | Some l \<Rightarrow>
          op_ignore (timed env (\<lambda>now. leases_Release now (al_executionID l) (al_stepID l) (leaseHolder env) (al_token l)))
            (e\<lparr>activeLeases := AList.delete (at_ID attempt) (activeLeases e)\<rparr>))"

definition assertAttemptRunning :: "ctx \<Rightarrow> string \<Rightarrow> (Engine, unit) op" where
  "assertAttemptRunning ctx attemptID =
     op_bind (st (attempts_Get attemptID)) (\<lambda>attempt.
     if at_Status attempt \<noteq> ''running''
     then op_fail (errorf (''attempt '' @ quoted attemptID @ '' is stale (status='' @ at_Status attempt @ '')''))
     else op_bind (ctx_Err ctx) op_check)"

definition statusToStepStatus :: "string \<Rightarrow> string" where
  "statusToStepStatus status = (if status = ''completed'' then ''completed'' else ''failed'')"

definition finishAttempt :: "env \<Rightarrow> ctx \<Rightarrow> Attempt \<Rightarrow> string \<Rightarrow> string option \<Rightarrow> string option \<Rightarrow> (Engine, unit) op" where
  "finishAttempt env ctx attempt status reason digest =
     op_bind (assertAttemptRunning ctx (at_ID attempt)) (\<lambda>_.
     op_bind (fencedStoreForAttempt env attempt) (\<lambda>writeStore.
     op_bind (timed env (\<lambda>now. fencedAttempts_UpdateStatus now writeStore (at_ID attempt) status None reason digest)) (\<lambda>_.
     op_bind (transitionStepWithStore env (Some writeStore) (at_ExecutionID attempt) (at_StepID attempt) ''running''
       (statusToStepStatus status)) (\<lambda>_.
     resyncExecutionWithStore env (Some writeStore) (at_ExecutionID attempt)))))"

definition commandForStep :: "env \<Rightarrow> string \<Rightarrow> string \<Rightarrow> (Engine, string list \<times> (string, string) gomap) op" where
  "commandForStep env executionID stepID =
     op_bind (st (executions_Get executionID)) (\<lambda>ex.
     op_bind (observe (\<lambda>d. parse_source env d (ex_WorkflowSource ex))) (\<lambda>r.
     op_bind (op_result r) (\<lambda>flow.
     case find (\<lambda>s. ID s = stepID) (wf_Steps flow) of
       None \<Rightarrow> op_fail (errorf (''run command empty for step '' @ quoted stepID))
     | Some s \<Rightarrow> op_bind (op_result (ParseArgv (Run s))) (\<lambda>argv. op_return (argv, Env s)))))"

definition fenced_event :: "env \<Rightarrow> FencedStore \<Rightarrow> string \<Rightarrow> string \<Rightarrow> string \<Rightarrow> (Engine, unit) op" where
  "fenced_event env f attemptID typ payload =
     op_bind (st (fencedEvents_NextAttemptCursor f attemptID)) (\<lambda>cursor.
     op_void (timed env (\<lambda>now. fencedEvents_CreateAttemptEvent now f
       \<lparr>ae_ID = 0, ae_AttemptID = attemptID, ae_Cursor = cursor, ae_EventType = typ, ae_PayloadRef = None,
        ae_Payload = Some payload, ae_OccurredAt = None\<rparr>)))"

definition deliver_feedback :: "env \<Rightarrow> FencedStore \<Rightarrow> Attempt \<Rightarrow> ExecutionStep \<Rightarrow> (Engine, unit) op" where
  "deliver_feedback env writeStore attempt step =
     (case es_PendingFeedback step of
        None \<Rightarrow> op_return ()
      | Some fb \<Rightarrow>
          op_bind (op_ignore (fenced_event env writeStore (at_ID attempt) ''feedback'' (VisibleEvidence (delimited_feedback fb)))) (\<lambda>_.
          op_wrap ''clear pending feedback''
            (timed env (\<lambda>now. fencedSteps_SetPendingFeedback now writeStore (at_ExecutionID attempt) (at_StepID attempt) None))))"

definition conclude_attempt :: "env \<Rightarrow> ctx \<Rightarrow> FencedStore \<Rightarrow> Attempt \<Rightarrow> string list \<Rightarrow> run_result \<Rightarrow> (Engine, unit) op" where
  "conclude_attempt env ctx writeStore attempt argv r =
     (case r of
        Inl runErr \<Rightarrow>
          op_bind (ctx_Err ctx) (\<lambda>c.
          case c of
            Some err \<Rightarrow> op_fail err
          | None \<Rightarrow>
              op_bind (op_ignore (finishAttempt env ctx attempt ''failed'' (Some (err_msg runErr)) None)) (\<lambda>_.
              op_fail (wrap_err ''runner'' runErr)))
      | Inr (exitCode, stdout, stderr) \<Rightarrow>
          op_bind (assertAttemptRunning ctx (at_ID attempt)) (\<lambda>_.
          let visible = CommandEvidence argv stdout stderr in
          op_bind (fenced_event env writeStore (at_ID attempt) ''output_delta'' visible) (\<lambda>_.
          if exitCode \<noteq> 0
          then op_ignore (finishAttempt env ctx attempt ''failed'' (Some (''exit '' @ itoa exitCode)) (Some visible))
          else finishAttempt env ctx attempt ''completed'' None (Some visible))))"

definition execute_attempt_body :: "env \<Rightarrow> ctx \<Rightarrow> Attempt \<Rightarrow> FencedStore \<Rightarrow> (Engine, unit) op" where
  "execute_attempt_body env ctx attempt writeStore =
     op_bind (op_wrap ''get step'' (st (steps_Get (at_ExecutionID attempt) (at_StepID attempt)))) (\<lambda>step.
     if es_Type step \<noteq> ''command'' then
       (let reason = ''unsupported async step type: '' @ es_Type step in
        op_bind (op_ignore (finishAttempt env ctx attempt ''failed'' (Some reason) None)) (\<lambda>_. op_fail (errorf reason)))
     else
       op_bind (op_try (commandForStep env (at_ExecutionID attempt) (at_StepID attempt))) (\<lambda>c.
       case c of
         Inl err \<Rightarrow>
           op_bind (op_ignore (finishAttempt env ctx attempt ''failed'' (Some (err_msg err)) None)) (\<lambda>_. op_fail err)
       | Inr (argv, envMap) \<Rightarrow>
           op_bind (deliver_feedback env writeStore attempt step) (\<lambda>_.
           op_bind (effectiveWorktreeRoot env (at_ExecutionID attempt)) (\<lambda>cwd.
           op_bind (run_process env cwd argv envMap) (\<lambda>r.
           conclude_attempt env ctx writeStore attempt argv r)))))"

definition ExecuteAttempt :: "env \<Rightarrow> ctx \<Rightarrow> string \<Rightarrow> (Engine, unit) op" where
  "ExecuteAttempt env ctx attemptID =
     op_bind (op_wrap ''get attempt'' (st (attempts_Get attemptID))) (\<lambda>attempt.
     if at_Status attempt \<noteq> ''running'' then op_fail (errorf (''attempt '' @ quoted attemptID @ '' not running''))
     else
       op_bind (fencedStoreForAttempt env attempt) (\<lambda>writeStore.
       op_finally (op_finally (execute_attempt_body env ctx attempt writeStore) (releaseAttemptLease env attempt))
         (releaseAttemptClaims env attempt)))"

section \<open>Cancelling\<close>

definition CancelAttempt :: "env \<Rightarrow> string \<Rightarrow> (Engine, unit) op" where
  "CancelAttempt env attemptID =
     op_bind (st (attempts_Get attemptID)) (\<lambda>attempt.
     if at_Status attempt \<noteq> ''running'' then
       (if at_Status attempt = ''cancelled'' then op_return ()
        else op_fail (errorf (''attempt '' @ quoted attemptID @ '' is not running (status='' @ at_Status attempt @ '')'')))
     else
       op_bind (timed env (\<lambda>now. attempts_UpdateStatus now (at_ID attempt) ''cancelled'' None (Some ''cancelled'') None)) (\<lambda>_.
       op_bind (transitionStep env (at_ExecutionID attempt) (at_StepID attempt) ''running'' ''failed'') (\<lambda>_.
       op_bind (releaseAttemptClaims env attempt) (\<lambda>_.
       op_bind (releaseAttemptLease env attempt) (\<lambda>_.
       resyncExecution env (at_ExecutionID attempt))))))"

end
