(* ===== verification/Engine_Demo.thy ===== *)
theory Engine_Demo
  imports Engine_Async
begin

text \<open>
  A small repository on which the engine runs, for the concrete instances of the properties: two
  workflow files (\<open>demo_main\<close> includes \<open>demo_lib\<close>), a runner that reports success, no worktrees and no
  adapters. Identifiers are runs of one letter and the clock ticks once a second.
\<close>

definition demo_files :: "string \<Rightarrow> string option" where
  "demo_files p =
     (if p = ''/r/.haro/workflows/main/workflow.yaml'' then Some ''main''
      else if p = ''/r/.haro/workflows/lib/workflow.yaml'' then Some ''lib''
      else if p = ''/r/.haro/artifacts/src'' then Some ''int main'' else None)"

definition demo_disk :: disk where
  "demo_disk =
     \<lparr>dk_fs = demo_fs,
      dk_wf = \<lparr>ReadDir = (\<lambda>p. if p = ''/r/.haro/workflows'' then IoOk [(''main'', True), (''lib'', True)]
                 else IoNotExist (errorf ''missing'')),
               stat_isdir = (\<lambda>p. if demo_files p = None then IoNotExist (errorf ''missing'') else IoOk False),
               open_file = (\<lambda>p. case demo_files p of None \<Rightarrow> Inl (errorf ''missing'') | Some b \<Rightarrow> Inr (Inr b))\<rparr>,
      dk_ReadFile = (\<lambda>p. case demo_files p of None \<Rightarrow> IoNotExist (errorf ''missing'') | Some b \<Rightarrow> IoOk b),
      dk_Stat = (\<lambda>p. if demo_files p = None then Some (errorf ''missing'') else None)\<rparr>"

definition demo_env :: env where
  "demo_env =
     \<lparr>root = ''/r'', leaseHolder = ''h'', worktreeMgr = None, adapterMgr = None,
      runner_Run = (\<lambda>cwd argv envMap d. (Inr (0, ''ok'', ''''), d)),
      git_rev_parse = (\<lambda>p d. (''c0ffee'', None)), write_file = (\<lambda>p b d. d),
      yaml_workflow = demo_decode, yaml_config = (\<lambda>_. Inl (errorf ''no config'')), json_digest = demo_digest,
      sha256_hex = id, json_error = errorf, uuid_NewString = (\<lambda>n. replicate (Suc n) (CHR ''u'')),
      time_Now = (\<lambda>n. int n * second)\<rparr>"

definition demo_new :: Engine where
  "demo_new = NewEngine NewFakeStore demo_disk"

definition demo_created :: Engine where
  "demo_created = snd (CreateExecution demo_env ''main'' demo_new)"

definition demo_skipped :: Engine where
  "demo_skipped = snd (SkipStep demo_env ''u'' ''prep'' ''not needed'' demo_created)"

definition demo_started :: Engine where
  "demo_started = snd (StartStep demo_env ''u'' ''prep'' '''' demo_created)"

text \<open>The lease of the started step is acquired anew.\<close>

definition demo_stolen :: Engine where
  "demo_stolen = demo_started\<lparr>e_store := snd (leases_Acquire 0 ''u'' ''prep'' ''h'' (e_store demo_started))\<rparr>"

definition demo_worktree :: worktree where
  "demo_worktree = \<lparr>wt_Create = (\<lambda>i r d. ((''/w/'' @ i, None), d)), wt_Remove = (\<lambda>p d. d), wt_Prune = (\<lambda>r d. d)\<rparr>"

text \<open>The states are computed once each.\<close>

lemma demo_created_facts:
  "(let s = e_store demo_created in
     (map_option ex_ProjectID (map_of (executions s) ''u''), map snd (pathClaims s),
      map_option (\<lambda>r. (es_Status r, step_deps r, snd (unmarshal_strings (es_DependsOn r)))) (map_of (steps s) (stepKey ''u'' ''ship'')),
      map_option es_Status (map_of (steps s) (stepKey ''u'' ''inc.build'')))) =
   (Some ''/r'', [], Some (''pending'', [''inc.build''], False), Some ''pending'')"
  by code_simp

lemma demo_created_execution:
  "map_option ex_ProjectID (map_of (executions (e_store demo_created)) ''u'') = Some ''/r''"
  "pathClaims (e_store demo_created) = []"
  using demo_created_facts by (simp_all add: Let_def)

lemma demo_waiting:
  "map_option (\<lambda>r. (es_Status r, step_deps r, snd (unmarshal_strings (es_DependsOn r))))
     (map_of (steps (e_store demo_created)) (stepKey ''u'' ''ship'')) = Some (''pending'', [''inc.build''], False)"
  "map_option es_Status (map_of (steps (e_store demo_created)) (stepKey ''u'' ''inc.build'')) = Some ''pending''"
  using demo_created_facts unfolding Let_def prod.inject by blast+

lemma demo_skipped_facts:
  "(let s = e_store demo_skipped in
     (map_option (\<lambda>r. (es_ExecutionID r, es_Status r)) (map_of (steps s) (stepKey ''u'' ''prep'')),
      map_option ex_Status (map_of (executions s) ''u''))) = (Some (''u'', ''skipped''), Some ''running'')"
  by code_simp

lemma demo_skipped_row:
  "map_option (\<lambda>r. (es_ExecutionID r, es_Status r)) (map_of (steps (e_store demo_skipped)) (stepKey ''u'' ''prep'')) = Some (''u'', ''skipped'')"
  "map_option ex_Status (map_of (executions (e_store demo_skipped)) ''u'') = Some ''running''"
  using demo_skipped_facts unfolding Let_def prod.inject by blast+

lemma demo_started_attempt:
  "map_sum err_msg (\<lambda>a. (at_ID a, at_Status a)) (fst (StartStep demo_env ''u'' ''prep'' '''' demo_created)) = Inr (''uuu'', ''running'')"
  by code_simp

end
