(* ===== verification/Engine_Integrity.thy ===== *)
theory Engine_Integrity
  imports Engine_Demo
begin

text \<open>
  What the operations of the engine keep of the store. The engine reaches the store only through
  the repository methods it calls; the locales \<open>record_property\<close> and \<open>claim_property\<close> state what they
  promise for a property of the store, and every operation of the engine is shown once to keep
  such a property. They are interpreted for the integrity of the store and for its history: rows
  are never deleted and of a row only some columns change.
\<close>

section \<open>Properties of the store seen from the engine\<close>

definition kept :: "(FakeStore \<Rightarrow> bool) \<Rightarrow> (Engine, 'a) op \<Rightarrow> bool" where
  "kept P m \<longleftrightarrow> keeps (\<lambda>e. P (e_store e)) m"

named_theorems kept \<open>operations of the engine that keep a property of the store\<close>

lemma keptD: "kept P m \<Longrightarrow> P (e_store e) \<Longrightarrow> P (e_store (snd (m e)))"
  by (simp add: kept_def keeps_def)

lemma kept_combinators [kept]:
  "kept P (op_return a)" "kept P (op_fail x)" "kept P (op_read f)" "kept P (op_when b x)" "kept P (op_result r)"
  "kept P (op_check c)"
  "kept P m \<Longrightarrow> kept P (op_try m)" "kept P m \<Longrightarrow> kept P (op_ignore m)" "kept P m \<Longrightarrow> kept P (op_void m)"
  "kept P m \<Longrightarrow> kept P (op_wrap p m)" "kept P m \<Longrightarrow> kept P c' \<Longrightarrow> kept P (op_finally m c')"
  "kept P (clock_now env)" "kept P (fresh env)" "kept P (on_disk g)" "kept P (observe h)"
  unfolding kept_def by (intro keeps; assumption?)+

lemma kept_control [kept]:
  "kept P m \<Longrightarrow> (\<And>a. kept P (f a)) \<Longrightarrow> kept P (op_bind m f)"
  "(b \<Longrightarrow> kept P m) \<Longrightarrow> (\<not> b \<Longrightarrow> kept P m') \<Longrightarrow> kept P (if b then m else m')"
  "(\<And>x. x \<in> set xs \<Longrightarrow> kept P (h x)) \<Longrightarrow> kept P (op_each h xs)"
  "(\<And>x. x = t \<Longrightarrow> kept P (k x)) \<Longrightarrow> kept P (let x = t in k x)"
  unfolding kept_def by (rule keeps; simp)+

lemma kept_cases [kept]:
  "(x = None \<Longrightarrow> kept P m) \<Longrightarrow> (\<And>a. x = Some a \<Longrightarrow> kept P (f a)) \<Longrightarrow> kept P (case x of None \<Rightarrow> m | Some a \<Rightarrow> f a)"
  "(\<And>a. y = Inl a \<Longrightarrow> kept P (g a)) \<Longrightarrow> (\<And>b. y = Inr b \<Longrightarrow> kept P (h b)) \<Longrightarrow> kept P (case y of Inl a \<Rightarrow> g a | Inr b \<Rightarrow> h b)"
  "(\<And>a b. z = (a, b) \<Longrightarrow> kept P (k a b)) \<Longrightarrow> kept P (case z of (a, b) \<Rightarrow> k a b)"
  "(w = [] \<Longrightarrow> kept P m) \<Longrightarrow> (\<And>v vs. w = v # vs \<Longrightarrow> kept P (l v vs)) \<Longrightarrow> kept P (case w of [] \<Rightarrow> m | v # vs \<Rightarrow> l v vs)"
  by (simp_all split: option.split sum.split prod.split list.split)

lemma kept_store [kept]:
  "keeps P m \<Longrightarrow> kept P (st m)" "(\<And>t. keeps P (n t)) \<Longrightarrow> kept P (timed env n)"
  unfolding kept_def by (auto intro: keeps_st keeps_timed)

lemma kept_state: "(\<And>e. e_store (f e) = e_store e) \<Longrightarrow> kept P (op_state f)"
  by (simp add: kept_def keeps_def)

section \<open>The interface\<close>

locale record_property =
  fixes P :: "FakeStore \<Rightarrow> bool"
  assumes project [keeps]: "keeps P (projects_Create now i r)"
    and execution [keeps]: "keeps P (executions_Create now ex)"
    and execution_status [keeps]: "keeps P (executions_UpdateStatus now i s)"
    and step [keeps]: "keeps P (steps_Create row)"
    and step_status [keeps]: "keeps P (steps_UpdateStatus i t s)"
    and step_generation [keeps]: "keeps P (steps_UpdateGeneration i t n)"
    and step_feedback [keeps]: "keeps P (steps_SetPendingFeedback i t fb)"
    and attempt [keeps]: "keeps P (attempts_Create now a)"
    and attempt_status [keeps]: "keeps P (attempts_UpdateStatus now i s en trm dg)"
    and generation [keeps]: "keeps P (generations_Create now g)"
    and generation_invalid [keeps]: "keeps P (generations_InvalidateByStep now i t by_step)"
    and attempt_event [keeps]: "keeps P (events_CreateAttemptEvent now ev)"
    and transition [keeps]: "keeps P (events_CreateTransition now tev)"
    and transport [keeps]: "keeps P (transport_Put tp)"
    and lease [keeps]: "keeps P (leases_Acquire now i t h)"
    and lease_release [keeps]: "keeps P (leases_Release now i t h n)"
    and in_tx: "P (fs\<lparr>inTx := b\<rparr>) = P fs"
begin

lemma tx [keeps]: "keeps P fn \<Longrightarrow> keeps P (WithTx fn)"
  using in_tx by (auto simp: keeps_def WithTx_def clone_def split: prod.splits sum.splits) (metis in_tx snd_conv)

lemma fenced_tx [keeps]: "(\<And>f. keeps P (fn f)) \<Longrightarrow> keeps P (fenced_WithTx now f fn)"
  by (rule keepsI) (auto simp: fenced_WithTx_def Fenced.validate_def intro!: keepsD [OF tx] split: sum.splits prod.splits if_splits)

lemmas fenced_unfold = fencedSteps_UpdateStatus_def fencedSteps_UpdateGeneration_def fencedSteps_SetPendingFeedback_def
  fencedAttempts_Create_def fencedAttempts_UpdateStatus_def fencedGenerations_Create_def fencedEvents_CreateAttemptEvent_def
  fencedEvents_CreateTransition_def fencedExecutions_UpdateStatus_def fencedEvents_NextTransitionCursor_def
  fencedEvents_NextAttemptCursor_def

lemma views [kept]:
  "kept P (view_steps_UpdateStatus env fo i t s)" "kept P (view_CreateTransition env fo tev)"
  "kept P (view_executions_UpdateStatus env fo i s)"
  unfolding view_steps_UpdateStatus_def view_CreateTransition_def view_executions_UpdateStatus_def fenced_unfold
  by (cases fo; auto intro!: kept keeps)+

lemma transitions [kept]:
  "kept P (transitionStepWithStore env fo i t a b)" "kept P (transitionStep env i t a b)"
  "kept P (transitionStepWithForce env i t a b)"
  unfolding transitionStepWithStore_def transitionStep_def transitionStepWithForce_def by (intro kept keeps)+

lemma resync [kept]: "kept P (resyncExecutionWithStore env fo i)" "kept P (resyncExecution env i)"
  unfolding resyncExecutionWithStore_def resyncExecution_def remove_worktree_def by (intro kept keeps)+

lemma state_machine [kept]:
  "kept P (ReopenStep env i t cascade fb)" "kept P (SkipStep env i t reason)" "kept P (TransitionForTest env i t s)"
  unfolding ReopenStep_def SkipStep_def TransitionForTest_def reset_step_def by (intro kept keeps)+

lemma creating [kept]: "kept P (CreateExecution env name)"
  unfolding CreateExecution_def create_rows_def prune_worktrees_def discard_worktree_def
  by (intro kept keeps) (simp add: create_worktree_def kept_def keeps_def split: option.split prod.split)

lemma checks [kept]:
  "kept P (verifyDAGHash env i)" "kept P (effectiveWorktreeRoot env i)" "kept P (check_dependency i d)"
  "kept P (check_required env i q)" "kept P (check_produced env q)" "kept P (execution_source i)"
  unfolding verifyDAGHash_def effectiveWorktreeRoot_def check_dependency_def check_required_def check_produced_def
    execution_source_def requiresStale_def
  by (intro kept keeps)+

lemma finishing [kept]:
  "kept P (completeAttempt env a s r d)" "kept P (failAttempt env a i t why)" "kept P (settle env a i t s r d)"
  "kept P (append_event env a typ pr pl)"
  unfolding settle_def failAttempt_def completeAttempt_def append_event_def by (intro kept keeps)+

lemma processes [kept]: "kept P (run_process env cwd argv envMap)" "kept P (new_session env h b)"
  by (simp_all add: run_process_def new_session_def kept_def keeps_def split: prod.split option.split)

lemma snapshots [kept]: "kept P (snapshot_loop env a arts missing)"
  by (induction arts arbitrary: missing) (simp_all, (intro kept keeps | assumption)+)

lemma run_claimed [kept]: "kept P (run_claimed env i t row produces fb)"
  unfolding run_claimed_def open_attempt_def execute_command_def record_feedback_def conclude_command_def
  by (intro kept keeps)

lemma ready [kept]: "kept P (ready_step env i t fb row)"
  unfolding ready_step_def by (intro kept keeps)

lemma sessions [kept]: "kept P (run_session env i a h instr req acc)"
proof -
  have "kept P (agent_RequestPermission env a req)" for req
    unfolding agent_RequestPermission_def by (intro kept keeps)
  then have g: "kept P (gated_RequestPermission caps (agent_RequestPermission env a) req)" for caps req
    unfolding gated_RequestPermission_def by (intro kept keeps)
  have "kept P (run_dialogue env a caps d)" for caps d
  proof (induction d)
    case (Ask req k)
    then show ?case by (auto intro!: kept g)
  qed (simp, intro kept)
  then show ?thesis
    unfolding run_session_def prompt_session_def persist_transport_def by (intro kept keeps)
qed

lemma run_agent_claimed [kept]: "kept P (run_agent_claimed env i t requires)"
proof -
  have o: "kept P (open_agent_attempt env i t h)" for h
    unfolding open_agent_attempt_def agent_rows_def by (intro kept keeps)
  have f: "kept P (agent_failed env i t)"
    unfolding agent_failed_def by (intro kept keeps)
  have "kept P (agent_loop env i t a idx hs evs acc)" for a idx hs evs acc
    by (induction hs arbitrary: idx evs acc) (simp_all, (intro kept keeps o f | assumption)+)
  then show ?thesis
    unfolding run_agent_claimed_def run_harnesses_def by (intro kept keeps f)
qed

lemma inputs [kept]: "kept P (stepMode env i t mode)" "kept P (checkStepInputs env i row)"
proof -
  have d: "kept P (decode_column env what col)" for what col
    unfolding decode_column_def by (intro kept keeps)
  show "kept P (stepMode env i t mode)" "kept P (checkStepInputs env i row)"
    unfolding stepMode_def checkStepInputs_def by (intro kept keeps d)+
qed

lemma release_lease [kept]: "kept P (releaseAttemptLease env a)"
proof -
  have l: "kept P (op_ignore (timed env (\<lambda>now. leases_Release now i t h n)))" for i t h n by (intro kept keeps)
  show ?thesis
    unfolding kept_def releaseAttemptLease_def by (rule keepsI) (auto split: option.split intro!: keptD [OF l] simp del: op_combinators)
qed

lemma finish_attempt [kept]: "kept P (finishAttempt env ctx a s r d)"
  unfolding finishAttempt_def assertAttemptRunning_def ctx_Err_def fencedStoreForAttempt_def fenced_unfold
  by (intro kept keeps)

lemma execute_body [kept]: "kept P (execute_attempt_body env ctx a f)"
  unfolding execute_attempt_body_def conclude_attempt_def deliver_feedback_def fenced_event_def
    commandForStep_def assertAttemptRunning_def ctx_Err_def fenced_unfold
  by (intro kept keeps)

end

locale claim_property =
  fixes P :: "FakeStore \<Rightarrow> bool"
  assumes claim [keeps]: "keeps P (claims_Acquire now c)"
    and claim_release [keeps]: "keeps P (claims_Release now p l i t)"
begin

lemma claiming [kept]: "kept P (acquireClaims env i t)" "kept P (releaseClaims env i t paths)"
proof -
  have r [kept]: "kept P (release_path env p i t lp)" for p lp
    unfolding release_path_def by (intro kept keeps)
  have "kept P (acquire_loop env p i t mode lps acq)" for p mode lps acq
    by (induction lps arbitrary: acq) (simp_all, (intro kept keeps | assumption)+)
  then show "kept P (acquireClaims env i t)" unfolding acquireClaims_def by (intro kept keeps)
  show "kept P (releaseClaims env i t paths)" unfolding releaseClaims_def by (intro kept keeps)
qed

lemma release_claims [kept]: "kept P (releaseAttemptClaims env a)"
proof -
  have c: "kept P (releaseClaims env i t paths)" for i t paths by (rule claiming)
  show ?thesis
    unfolding kept_def releaseAttemptClaims_def by (rule keepsI) (auto split: option.split intro!: keptD [OF c])
qed

end

text \<open>Together they cover every operation of the engine.\<close>

locale store_property = record_property P + claim_property P for P
begin

lemma running [kept]: "kept P (RunStep env i t fb)"
  unfolding RunStep_def run_command_step_def runAgentStep_def by (intro kept keeps)

lemma starting [kept]: "kept P (StartStep env i t mode)"
  unfolding StartStep_def start_leased_def setup_rows_def trackAttemptClaims_def trackAttemptLease_def fenced_unfold
  by (intro kept keeps kept_state) simp_all

lemma executing [kept]: "kept P (ExecuteAttempt env ctx i)"
  unfolding ExecuteAttempt_def fencedStoreForAttempt_def by (intro kept keeps)

lemma cancelling [kept]: "kept P (CancelAttempt env i)"
  unfolding CancelAttempt_def by (intro kept keeps)

end

interpretation integrity: store_property store_ok
  by unfold_locales (auto intro: keeps)

section \<open>History\<close>

text \<open>No row is ever deleted, and of a row only some columns change: \<open>extends R m m'\<close> says that every
  row of \<open>m\<close> is still in \<open>m'\<close>, related to what it was.\<close>

definition extends :: "('v \<Rightarrow> 'v \<Rightarrow> bool) \<Rightarrow> ('k, 'v) gomap \<Rightarrow> ('k, 'v) gomap \<Rightarrow> bool" where
  "extends R m m' \<longleftrightarrow> (\<forall>k v. map_of m k = Some v \<longrightarrow> (\<exists>v'. map_of m' k = Some v' \<and> R v v'))"

lemma extends_refl: "(\<And>v. R v v) \<Longrightarrow> extends R m m"
  by (simp add: extends_def)

lemma extendsD: "extends R m m' \<Longrightarrow> map_of m k = Some v \<Longrightarrow> \<exists>v'. map_of m' k = Some v' \<and> R v v'"
  by (simp add: extends_def)

lemma extends_update: "extends R m0 m \<Longrightarrow> \<not> has_key k m \<Longrightarrow> extends R m0 (AList.update k v m)"
  by (fastforce simp: extends_def has_key_def)

lemma extends_put: "extends (\<lambda>_ _. True) m0 m \<Longrightarrow> extends (\<lambda>_ _. True) m0 (AList.update k v m)"
  by (auto simp: extends_def update_conv)

lemma extends_adjust:
  assumes "extends R m0 m" "\<And>v v'. map_of m k = Some v' \<Longrightarrow> R v v' \<Longrightarrow> R v (f v')"
  shows "extends R m0 (adjust k f m)"
  unfolding extends_def
proof (intro allI impI)
  fix q v assume "map_of m0 q = Some v"
  then obtain v' where "map_of m q = Some v'" "R v v'" using assms(1) extendsD by fast
  then show "\<exists>v'. map_of (adjust k f m) q = Some v' \<and> R v v'" using assms(2) by (auto simp: map_of_adjust)
qed

lemma extends_map: "extends R m0 m \<Longrightarrow> (\<And>v v'. R v v' \<Longrightarrow> R v (f v')) \<Longrightarrow> extends R m0 (map (\<lambda>(k, v). (k, f v)) m)"
  by (fastforce simp: extends_def map_of_map_snd)

lemma extends_ensure: "extends R m0 m \<Longrightarrow> extends R m0 (ensure_inner k m)"
  by (simp add: ensure_inner_def extends_update)

lemma extends_log:
  assumes "extends (extends (=)) m0 m" "\<not> has_key c (inner m k)"
  shows "extends (extends (=)) m0 (adjust k (AList.update c v) m)"
  using assms by (auto intro!: extends_adjust extends_update simp: inner_def)

definition same_execution :: "Execution \<Rightarrow> Execution \<Rightarrow> bool" where
  "same_execution x y \<longleftrightarrow> y = x\<lparr>ex_Status := ex_Status y, ex_EndedAt := ex_EndedAt y\<rparr> \<and>
     (ex_EndedAt x \<noteq> None \<longrightarrow> ex_EndedAt y = ex_EndedAt x)"

definition same_step :: "ExecutionStep \<Rightarrow> ExecutionStep \<Rightarrow> bool" where
  "same_step x y \<longleftrightarrow> y = x\<lparr>es_Status := es_Status y, es_CurrentGeneration := es_CurrentGeneration y,
     es_PendingFeedback := es_PendingFeedback y\<rparr>"

definition same_row :: "Generation \<Rightarrow> Generation \<Rightarrow> bool" where
  "same_row x y \<longleftrightarrow> y = x\<lparr>ge_InvalidatedAt := ge_InvalidatedAt y, ge_InvalidatedByStep := ge_InvalidatedByStep y\<rparr> \<and>
     (ge_InvalidatedAt x \<noteq> None \<longrightarrow> y = x)"

definition same_attempt :: "Attempt \<Rightarrow> Attempt \<Rightarrow> bool" where
  "same_attempt x y \<longleftrightarrow> y = x\<lparr>at_Status := at_Status y, at_EndedAt := at_EndedAt y,
     at_TerminationReason := at_TerminationReason y, at_ResultDigest := at_ResultDigest y\<rparr>"

definition same_claim :: "PathClaim \<Rightarrow> PathClaim \<Rightarrow> bool" where
  "same_claim x y \<longleftrightarrow> y = x\<lparr>pc_ReleasedAt := pc_ReleasedAt y\<rparr> \<and> (pc_ReleasedAt x \<noteq> None \<longrightarrow> y = x)"

definition newer_lease :: "Lease \<Rightarrow> Lease \<Rightarrow> bool" where
  "newer_lease x y \<longleftrightarrow> le_ExecutionID y = le_ExecutionID x \<and> le_StepID y = le_StepID x \<and>
     le_FencingToken x \<le> le_FencingToken y \<and> (le_FencingToken x = le_FencingToken y \<longrightarrow> le_Holder y = le_Holder x)"

definition continues :: "FakeStore \<Rightarrow> FakeStore \<Rightarrow> bool" where
  "continues s s' \<longleftrightarrow> extends (=) (projects s) (projects s') \<and> extends same_execution (executions s) (executions s') \<and>
     extends same_step (steps s) (steps s') \<and> extends same_row (generations s) (generations s') \<and>
     extends same_attempt (attempts s) (attempts s') \<and> extends (extends (=)) (attemptEvents s) (attemptEvents s') \<and>
     extends (extends (=)) (transitionEvents s) (transitionEvents s') \<and>
     extends (\<lambda>_ _. True) (transports s) (transports s') \<and>
     extends same_claim (pathClaims s) (pathClaims s') \<and> extends newer_lease (leases s) (leases s') \<and>
     extends (=) (interactions s) (interactions s')"

lemmas same_defs = same_execution_def same_step_def same_row_def same_attempt_def same_claim_def newer_lease_def

lemma continues_refl: "continues s s"
  by (simp add: continues_def extends_refl same_defs)

text \<open>Apart from the two operations on claims, which rely on the integrity of the claims table, every
  operation continues any store.\<close>

lemma same_closed:
  "same_execution x y \<Longrightarrow> same_execution x (set_execution_status now status y)"
  "same_step r q \<Longrightarrow> same_step r (q\<lparr>es_Status := status\<rparr>)" "same_step r q \<Longrightarrow> same_step r (q\<lparr>es_CurrentGeneration := n\<rparr>)"
  "same_step r q \<Longrightarrow> same_step r (q\<lparr>es_PendingFeedback := fb\<rparr>)"
  "same_row g h \<Longrightarrow> same_row g (invalidate now i t origin h)"
  "same_attempt a b \<Longrightarrow> same_attempt a (b\<lparr>at_Status := status, at_EndedAt := en, at_TerminationReason := trm, at_ResultDigest := dg\<rparr>)"
  by (cases x; cases y; cases r; cases q; cases g; cases h; cases a; cases b;
      simp add: same_defs set_execution_status_def invalidate_def Let_def)+

lemma same_claim_release: "same_claim x y \<Longrightarrow> pc_ReleasedAt y = None \<Longrightarrow> same_claim x (y\<lparr>pc_ReleasedAt := r\<rparr>)"
  by (cases x; cases y) (auto simp: same_claim_def)

lemma keeps_continues:
  "keeps (continues old) (projects_Create now i r)" "keeps (continues old) (executions_Create now x)"
  "keeps (continues old) (executions_UpdateStatus now i status)" "keeps (continues old) (steps_Create row)"
  "keeps (continues old) (steps_UpdateStatus i t status)" "keeps (continues old) (steps_UpdateGeneration i t n)"
  "keeps (continues old) (steps_SetPendingFeedback i t fb)" "keeps (continues old) (attempts_Create now a)"
  "keeps (continues old) (attempts_UpdateStatus now i status en trm dg)" "keeps (continues old) (generations_Create now g)"
  "keeps (continues old) (generations_InvalidateByStep now i t origin)"
  by (auto simp: keeps_def continues_def projects_Create_def executions_Create_def executions_UpdateStatus_def
      steps_Create_def steps_UpdateStatus_def steps_UpdateGeneration_def steps_SetPendingFeedback_def attempts_Create_def
      attempts_UpdateStatus_def generations_Create_def generations_InvalidateByStep_def Let_def
      intro!: extends_update extends_adjust extends_map same_closed)

lemma keeps_continues_log:
  "keeps (continues old) (events_CreateAttemptEvent now ev)" "keeps (continues old) (events_CreateTransition now tev)"
  "keeps (continues old) (transport_Put tp)" "keeps (continues old) (leases_Acquire now i t h)"
  "keeps (continues old) (leases_Release now i t h n)"
  by (auto simp: keeps_def continues_def events_CreateAttemptEvent_def events_CreateTransition_def transport_Put_def
      leases_Acquire_def leases_Release_def Let_def newer_lease_def has_key_def
      intro!: extends_put extends_update extends_adjust extends_log extends_ensure split: option.splits)

lemma keeps_continues_claim:
  assumes "store_ok s" "continues old s"
  shows "continues old (snd (claims_Acquire now c s))" "continues old (snd (claims_Release now p l i t s))"
proof -
  have ok: "gomap (pathClaims s)" "rows (\<lambda>k c. k \<le> pathClaimNextID s) (pathClaims s)"
    using assms(1) by (auto simp: store_ok_def claims_ok_def elim: rows_mono)
  have "\<not> has_key (pathClaimNextID s + 1) (pathClaims s)" using rowsD [OF ok(2)] by (force simp: has_key_iff)
  with assms(2) show "continues old (snd (claims_Acquire now c s))"
    by (auto simp: claims_Acquire_def continues_def Let_def extends_update split: option.split)
  have "pc_ReleasedAt c = None" if "find (\<lambda>(k, pc). held_by p l i t pc) (pathClaims s) = Some (k, c')"
    "map_of (pathClaims s) k = Some c" for k c c'
  proof -
    have "(k, c') \<in> set (pathClaims s)" "held_by p l i t c'"
      using that(1) by (auto simp: find_Some_iff in_set_conv_nth)
    then have "map_of (pathClaims s) k = Some c'" using ok(1) by (simp add: gomap_def)
    then show ?thesis using \<open>held_by p l i t c'\<close> that(2) by (simp add: held_by_def)
  qed
  with assms(2) show "continues old (snd (claims_Release now p l i t s))"
    by (auto simp: claims_Release_def continues_def intro!: extends_adjust same_claim_release split: option.split)
qed

lemma keeps_both: "keeps P m \<Longrightarrow> keeps Q m \<Longrightarrow> keeps (\<lambda>s. P s \<and> Q s) m"
  by (simp add: keeps_def)

interpretation history: store_property "\<lambda>s. store_ok s \<and> continues old s" for old
proof (unfold_locales, goal_cases)
  case (18 now c)
  show ?case by (rule keepsI) (auto intro: keeps_continues_claim keepsD keeps)
next
  case (19 now p l i t)
  show ?case by (rule keepsI) (auto intro: keeps_continues_claim keepsD keeps)
next
  case (17 s b)
  show ?case by (simp add: continues_def)
qed (intro keeps_both keeps keeps_continues keeps_continues_log)+

section \<open>Runs of the engine\<close>

text \<open>A step of the engine is one call of an operation with any arguments, or a change of the disk by
  something else.\<close>

inductive engine_step :: "env \<Rightarrow> Engine \<Rightarrow> Engine \<Rightarrow> bool" for env where
  create: "engine_step env e (snd (CreateExecution env name e))"
| run: "engine_step env e (snd (RunStep env i t fb e))"
| reopen: "engine_step env e (snd (ReopenStep env i t cascade fb e))"
| skip: "engine_step env e (snd (SkipStep env i t reason e))"
| start: "engine_step env e (snd (StartStep env i t mode e))"
| execute: "engine_step env e (snd (ExecuteAttempt env ctx a e))"
| cancel: "engine_step env e (snd (CancelAttempt env a e))"
| outside: "engine_step env e (e\<lparr>e_disk := d\<rparr>)"

inductive_simps engine_step_iff: "engine_step env e e'"

context store_property
begin

lemma engine_step: "engine_step env e e' \<Longrightarrow> P (e_store e) \<Longrightarrow> P (e_store e')"
  by (induction rule: engine_step.induct) (auto intro: kept keptD)

lemma engine_run: "(engine_step env)\<^sup>*\<^sup>* e e' \<Longrightarrow> P (e_store e) \<Longrightarrow> P (e_store e')"
  by (induction rule: rtranclp_induct) (auto dest: engine_step)

end

section \<open>Properties\<close>

text \<open>C1. Whatever sequence of operations the engine performs, with whatever results of processes,
  adapters, decoders and disk: the store keeps its integrity (references, keys, enumerations,
  exclusive claims), no row is ever deleted, an execution keeps its source, hash, workspace and
  base commit, a step keeps its declaration, an attempt its generation, an invalidated generation
  stays invalidated, a released claim stays released, both event logs only grow and fencing
  tokens never decrease.\<close>

theorem engine_integrity:
  assumes "(engine_step env)\<^sup>*\<^sup>* e e'" "store_ok (e_store e)"
  shows "store_ok (e_store e') \<and> continues (e_store e) (e_store e')"
  using history.engine_run [OF assms(1), of "e_store e"] assms(2) continues_refl by simp

lemma demo_run: "(engine_step demo_env)\<^sup>*\<^sup>* demo_new demo_created" "(engine_step demo_env)\<^sup>*\<^sup>* demo_new demo_skipped"
  unfolding demo_created_def demo_skipped_def
  by (blast intro: engine_step.intros r_into_rtranclp rtranclp.rtrancl_into_rtrancl)+

lemma demo_new_ok: "store_ok (e_store demo_new)"
  by (simp add: demo_new_def NewEngine_def store_ok_New)

lemma demo_ok: "store_ok (e_store demo_created)" "store_ok (e_store demo_skipped)"
  using integrity.engine_run [OF demo_run(1)] integrity.engine_run [OF demo_run(2)] demo_new_ok by simp_all

theorem engine_integrity_witness:
  "store_ok (e_store demo_skipped) \<and> continues (e_store demo_new) (e_store demo_skipped) \<and>
   continues (e_store demo_created) (e_store demo_skipped)"
proof -
  have "engine_step demo_env demo_created demo_skipped" unfolding demo_skipped_def by (rule engine_step.skip)
  with engine_integrity [OF demo_run(2) demo_new_ok] engine_integrity [OF _ demo_ok(1)] show ?thesis by blast
qed

end
