(* ===== verification/Engine_Claims.thy ===== *)
theory Engine_Claims
  imports Engine_Integrity
begin

text \<open>
  The path claims of a step. The active claims of a project are split into those the step holds and
  those of others; acquiring appends to the first part, releasing removes from it, and nothing
  else of the engine touches either, so a step that runs or fails to start leaves the active
  claims as they were.
\<close>

section \<open>The claims of one step\<close>

definition mine :: "string \<Rightarrow> string \<Rightarrow> string \<Rightarrow> PathClaim \<Rightarrow> bool" where
  "mine p i t c \<longleftrightarrow> pc_ProjectID c = p \<and> pc_OwnerExecutionID c = i \<and> pc_OwnerStepID c = t \<and> pc_ReleasedAt c = None"

definition held :: "string \<Rightarrow> string \<Rightarrow> string \<Rightarrow> (int, PathClaim) gomap \<Rightarrow> string multiset" where
  "held p i t cs = mset (map pc_LogicalPath (filter (mine p i t) (map snd cs)))"

definition others :: "string \<Rightarrow> string \<Rightarrow> string \<Rightarrow> (int, PathClaim) gomap \<Rightarrow> PathClaim list" where
  "others p i t cs = filter (\<lambda>c. pc_ReleasedAt c = None \<and> \<not> mine p i t c) (map snd cs)"

definition claim_view :: "string \<Rightarrow> string \<Rightarrow> string \<Rightarrow> string multiset \<Rightarrow> PathClaim list \<Rightarrow> FakeStore \<Rightarrow> bool" where
  "claim_view p i t M Oc s \<longleftrightarrow> store_ok s \<and> held p i t (pathClaims s) = M \<and> others p i t (pathClaims s) = Oc \<and>
     (\<exists>x. map_of (executions s) i = Some x \<and> ex_ProjectID x = p)"

lemma active_when_none_held:
  "held p i t (pathClaims s) = {#} \<Longrightarrow> active_claims q s = filter (\<lambda>c. pc_ProjectID c = q) (others p i t (pathClaims s))"
  by (simp add: held_def others_def active_claims_def filter_empty_conv) (rule filter_cong, auto)

lemma claims_frame:
  "pathClaims (snd (projects_Create now i r s)) = pathClaims s" "pathClaims (snd (executions_Create now ex s)) = pathClaims s"
  "pathClaims (snd (executions_UpdateStatus now i status s)) = pathClaims s" "pathClaims (snd (steps_Create row s)) = pathClaims s"
  "pathClaims (snd (steps_UpdateStatus i t status s)) = pathClaims s"
  "pathClaims (snd (steps_UpdateGeneration i t n s)) = pathClaims s"
  "pathClaims (snd (steps_SetPendingFeedback i t fb s)) = pathClaims s" "pathClaims (snd (attempts_Create now a s)) = pathClaims s"
  "pathClaims (snd (attempts_UpdateStatus now i status en trm dg s)) = pathClaims s"
  "pathClaims (snd (generations_Create now g s)) = pathClaims s"
  "pathClaims (snd (generations_InvalidateByStep now i t origin s)) = pathClaims s"
  "pathClaims (snd (events_CreateAttemptEvent now ev s)) = pathClaims s"
  "pathClaims (snd (events_CreateTransition now tev s)) = pathClaims s" "pathClaims (snd (transport_Put tp s)) = pathClaims s"
  "pathClaims (snd (leases_Acquire now i t h s)) = pathClaims s" "pathClaims (snd (leases_Release now i t h n s)) = pathClaims s"
  by (simp_all add: projects_Create_def executions_Create_def executions_UpdateStatus_def steps_Create_def
      steps_UpdateStatus_def steps_UpdateGeneration_def steps_SetPendingFeedback_def attempts_Create_def
      attempts_UpdateStatus_def generations_Create_def generations_InvalidateByStep_def
      events_CreateAttemptEvent_def events_CreateTransition_def transport_Put_def leases_Acquire_def
      leases_Release_def Let_def split: option.splits)

text \<open>The project of an execution never changes.\<close>

lemma project_kept:
  assumes "store_ok s" "continues s s'" "\<exists>x. map_of (executions s) i = Some x \<and> ex_ProjectID x = p"
  shows "\<exists>x. map_of (executions s') i = Some x \<and> ex_ProjectID x = p"
proof -
  obtain x where x: "map_of (executions s) i = Some x" "ex_ProjectID x = p" using assms(3) by blast
  then obtain y where "map_of (executions s') i = Some y" "same_execution x y"
    using assms(2) extendsD unfolding continues_def by fast
  then show ?thesis using x(2) by (cases x; cases y) (auto simp: same_execution_def)
qed

lemma claim_view_keeps:
  assumes "keeps store_ok m" "\<And>old. keeps (continues old) m" "\<And>s. pathClaims (snd (m s)) = pathClaims s"
  shows "keeps (claim_view p i t M Oc) m"
proof (rule keepsI)
  fix s assume "claim_view p i t M Oc s"
  moreover have "continues s (snd (m s))" using keepsD [OF assms(2) continues_refl] .
  ultimately show "claim_view p i t M Oc (snd (m s))"
    using project_kept assms(3) keepsD [OF assms(1)] unfolding claim_view_def by auto
qed

interpretation claim_view: record_property "claim_view p i t M Oc" for p i t M Oc
  by unfold_locales
     ((rule claim_view_keeps, (rule keeps)+, rule keeps_continues keeps_continues_log, rule claims_frame) |
      simp add: claim_view_def)+

section \<open>Acquiring and releasing\<close>

lemma held_by_mine: "held_by p lp i t c \<longleftrightarrow> mine p i t c \<and> pc_LogicalPath c = lp"
  by (auto simp: held_by_def mine_def)

lemma released_rows:
  assumes "gomap cs" "find (\<lambda>(k, c). held_by p lp i t c) cs = Some (k, c)"
  shows "held p i t (adjust k (\<lambda>c. c\<lparr>pc_ReleasedAt := Some r\<rparr>) cs) = held p i t cs - {#lp#} \<and>
    others p i t (adjust k (\<lambda>c. c\<lparr>pc_ReleasedAt := Some r\<rparr>) cs) = others p i t cs"
  using assms
proof (induction cs)
  case (Cons kc cs)
  obtain k' c' where kc: "kc = (k', c')" by fastforce
  show ?case
  proof (cases "held_by p lp i t c'")
    case True
    then have "k' = k" using Cons.prems(2) kc by auto
    moreover have "adjust k f cs = cs" for f
      using Cons.prems(1) kc \<open>k' = k\<close> by (force simp: gomap_def adjust_def intro!: map_idI)
    ultimately show ?thesis using True kc by (simp add: adjust_def held_def others_def held_by_mine mine_def)
  next
    case False
    then have f: "find (\<lambda>(k, c). held_by p lp i t c) cs = Some (k, c)" using Cons.prems(2) kc by simp
    then have "k \<in> fst ` set cs" by (force simp: find_Some_iff in_set_conv_nth)
    then have "k' \<noteq> k" using Cons.prems(1) kc by (auto simp: gomap_def)
    then show ?thesis using Cons.IH f Cons.prems False kc
      by (auto simp: adjust_def gomap_def held_def others_def held_by_mine)
  qed
qed simp

lemma update_fresh: "\<not> has_key k m \<Longrightarrow> AList.update k v m = m @ [(k, v)]"
  by (induction m) (auto simp: has_key_def split: if_splits)

lemma acquire_view:
  assumes v: "claim_view p i t M Oc s" and a: "claims_Acquire now (new_claim p lp mode i t) s = (r, s')"
  shows "claim_view p i t (case r of Inr (True, _) \<Rightarrow> add_mset lp M | _ \<Rightarrow> M) Oc s'"
proof (cases "r = Inr (True, None)")
  case True
  let ?n = "pathClaimNextID s + 1"
  have ok: "store_ok s'" using v a keepsD [OF keeps_claims_Acquire, of s now] by (metis claim_view_def snd_conv)
  have "\<not> has_key ?n (pathClaims s)"
    using v by (fastforce simp: claim_view_def store_ok_def claims_ok_def has_key_iff dest: rowsD)
  then have "pathClaims s' = pathClaims s @ [(?n, (new_claim p lp mode i t)\<lparr>pc_ID := ?n, pc_AcquiredAt := rfc3339 now, pc_ReleasedAt := None\<rparr>)]"
    "executions s' = executions s"
    using a True by (auto simp: claims_Acquire_def Let_def update_fresh new_claim_def split: if_splits option.splits)
  then show ?thesis
    using v ok True by (simp add: claim_view_def held_def others_def mine_def new_claim_def)
next
  case False
  then have "s' = s" "\<forall>c. r \<noteq> Inr (True, c)" using a by (auto simp: claims_Acquire_def Let_def split: if_splits option.splits)
  then show ?thesis using v by (auto split: sum.split bool.split)
qed

lemma release_view:
  assumes v: "claim_view p i t M Oc s"
  shows "claim_view p i t (M - {#lp#}) Oc (snd (claims_Release now p lp i t s))"
proof (cases "find (\<lambda>(k, c). held_by p lp i t c) (pathClaims s)")
  case None
  then have "lp \<notin># held p i t (pathClaims s)" by (force simp: find_None_iff held_def held_by_mine)
  then show ?thesis using v None by (simp add: claims_Release_def claim_view_def diff_single_trivial)
next
  case (Some kc)
  obtain k c where kc: "kc = (k, c)" by fastforce
  have ok: "store_ok (snd (claims_Release now p lp i t s))" using v keepsD [OF keeps_claims_Release] by (simp add: claim_view_def)
  have "gomap (pathClaims s)" using v by (simp add: claim_view_def store_ok_def claims_ok_def)
  from released_rows [OF this Some [unfolded kc], of "rfc3339 now"] show ?thesis
    using v ok Some kc by (simp add: claims_Release_def claim_view_def)
qed

section \<open>The claims of a step in the engine\<close>

abbreviation viewing :: "string \<Rightarrow> string \<Rightarrow> string \<Rightarrow> PathClaim list \<Rightarrow> string multiset \<Rightarrow> Engine \<Rightarrow> bool" where
  "viewing p i t Oc M e \<equiv> claim_view p i t M Oc (e_store e)"

lemma kept_outcome: "kept P m \<Longrightarrow> outcome (\<lambda>e. P (e_store e)) m (\<lambda>_ e. P (e_store e)) (\<lambda>_ e. P (e_store e))"
  unfolding kept_def by (rule outcome_keeps)

lemma release_path_outcome:
  "outcome (viewing p i t Oc M) (release_path env p i t lp) (\<lambda>_. viewing p i t Oc (M - {#lp#})) E"
  by (rule outcomeI) (auto simp: release_path_def timed_apply release_view)

lemma release_each_outcome:
  "outcome (viewing p i t Oc (M + mset lps)) (op_each (release_path env p i t) lps) (\<lambda>_. viewing p i t Oc M) E"
proof (induction lps)
  case (Cons lp lps)
  have "outcome (viewing p i t Oc (M + mset (lp # lps))) (release_path env p i t lp) (\<lambda>_. viewing p i t Oc (M + mset lps)) E"
    using release_path_outcome [of p i t "M + mset (lp # lps)" Oc env lp E] by simp
  from outcome_bind [OF this Cons.IH] show ?case by simp
qed (auto simp: outcome_def)

lemma acquire_outcome:
  "outcome (viewing p i t Oc M) (op_try (timed env (\<lambda>now. claims_Acquire now (new_claim p lp mode i t))))
     (\<lambda>r. viewing p i t Oc (case r of Inr (True, _) \<Rightarrow> add_mset lp M | _ \<Rightarrow> M)) E"
  by (rule outcomeI) (auto simp: timed_apply intro!: acquire_view prod.collapse [symmetric])

lemma acquire_loop_outcome:
  "outcome (viewing p i t Oc (M + mset acq)) (acquire_loop env p i t mode lps acq) (\<lambda>A. viewing p i t Oc (M + mset A)) (\<lambda>_. viewing p i t Oc M)"
proof (induction lps arbitrary: acq)
  case (Cons lp lps)
  have r: "outcome (viewing p i t Oc (M + mset acq)) (op_bind (op_each (release_path env p i t) acq) (\<lambda>_. op_fail err))
      (\<lambda>A. viewing p i t Oc (M + mset A)) (\<lambda>_. viewing p i t Oc M)" for err
    by (rule outcome_bind [OF release_each_outcome]) (rule outcome_fail)
  have i: "outcome (viewing p i t Oc (add_mset lp (M + mset acq))) (acquire_loop env p i t mode lps (acq @ [lp]))
      (\<lambda>A. viewing p i t Oc (M + mset A)) (\<lambda>_. viewing p i t Oc M)"
    using Cons.IH [of "acq @ [lp]"] by simp
  show ?case
    unfolding acquire_loop.simps
    by (rule outcome_bind [OF acquire_outcome]) (auto split: sum.split intro!: r i)
qed (unfold acquire_loop.simps, rule outcome_return)

lemma execution_project_outcome:
  "outcome (viewing p i t Oc M) (st (executions_Get i)) (\<lambda>x e. viewing p i t Oc M e \<and> ex_ProjectID x = p) (\<lambda>_. viewing p i t Oc M)"
  by (rule outcomeI) (auto simp: st_def executions_Get_def lookup_row_def claim_view_def split: option.splits)

lemma acquireClaims_outcome:
  "outcome (viewing p i t Oc M) (acquireClaims env i t) (\<lambda>A. viewing p i t Oc (M + mset A)) (\<lambda>_. viewing p i t Oc M)"
proof -
  have g: "outcome (viewing p i t Oc M) (st (steps_Get i t)) (\<lambda>_. viewing p i t Oc M) (\<lambda>_. viewing p i t Oc M)"
    by (rule kept_outcome) (intro kept keeps)
  have o: "outcome (viewing p i t Oc M) (observe f) (\<lambda>_. viewing p i t Oc M) (\<lambda>_. viewing p i t Oc M)" for f :: "disk \<Rightarrow> 'a"
    by (rule kept_outcome) (intro kept keeps)
  have c: "outcome (viewing p i t Oc M) (op_result r) (\<lambda>_. viewing p i t Oc M) (\<lambda>_. viewing p i t Oc M)" for r :: "goerr + string list"
    by (rule kept_outcome) (intro kept keeps)
  have l: "outcome (viewing p i t Oc M) (acquire_loop env p i t mode lps []) (\<lambda>A. viewing p i t Oc (M + mset A)) (\<lambda>_. viewing p i t Oc M)" for mode lps
    using acquire_loop_outcome [of p i t M "[]" Oc env mode lps] by simp
  show ?thesis
    unfolding acquireClaims_def Let_def
    by (rule outcome_bind [OF g], rule outcome_bind [OF execution_project_outcome], rule outcome_fact,
        rule outcome_bind [OF o], rule outcome_bind [OF o], rule outcome_bind [OF c])
      (simp add: l)
qed

lemma releaseClaims_outcome:
  "outcome (viewing p i t Oc (M + mset A)) (releaseClaims env i t A) (\<lambda>_. viewing p i t Oc M) (\<lambda>_. viewing p i t Oc M)"
proof (cases "A = []")
  case True
  then show ?thesis unfolding releaseClaims_def by (simp, intro outcome_return)
next
  case False
  have "outcome (viewing p i t Oc (M + mset A)) (op_try (st (executions_Get i)))
      (\<lambda>r e. viewing p i t Oc (M + mset A) e \<and> (case r of Inl e \<Rightarrow> root env | Inr ex \<Rightarrow> ex_ProjectID ex) = p) (\<lambda>_. viewing p i t Oc M)"
    by (rule outcomeI) (auto simp: st_def executions_Get_def lookup_row_def claim_view_def)
  then show ?thesis
    using False unfolding releaseClaims_def Let_def
    by simp (rule outcome_bind, assumption, rule outcome_fact, simp add: release_each_outcome)
qed

text \<open>Acquire, run, release: whatever happens in between, the step holds at the end what it held before.\<close>

lemma claimed_section:
  assumes "\<And>M. kept (claim_view p i t M Oc) m"
  shows "kept (claim_view p i t M Oc) (op_bind (acquireClaims env i t) (\<lambda>A. op_finally m (releaseClaims env i t A)))"
  unfolding kept_def
  by (intro keeps_outcome outcome_bind [OF acquireClaims_outcome] outcome_finally [OF kept_outcome [OF assms] releaseClaims_outcome])

lemma RunStep_claims: "kept (claim_view p i t M Oc) (RunStep env i t fb)"
  unfolding RunStep_def run_command_step_def runAgentStep_def by (intro kept keeps claimed_section)

section \<open>Starting a step\<close>

lemma never_fails:
  "outcome (\<lambda>e. P (e_store e)) (clock_now env) (\<lambda>_ e. P (e_store e)) E"
  "outcome (\<lambda>e. P (e_store e)) (fresh env) (\<lambda>_ e. P (e_store e)) E"
  "kept P m \<Longrightarrow> outcome (\<lambda>e. P (e_store e)) (op_try m) (\<lambda>_ e. P (e_store e)) E"
  "kept P m \<Longrightarrow> outcome (\<lambda>e. P (e_store e)) (op_ignore m) (\<lambda>_ e. P (e_store e)) E"
  by (auto simp: outcome_def clock_now_def fresh_def keptD)

lemma give_up:
  "outcome (viewing p i t Oc (M + mset A)) (op_bind (releaseClaims env i t A) (\<lambda>_. op_fail err)) Q (\<lambda>_. viewing p i t Oc M)"
  by (rule outcome_bind [OF releaseClaims_outcome]) (rule outcome_fail)

lemma track_outcome:
  "outcome (viewing p i t Oc M) (op_bind (trackAttemptClaims a i t A) (\<lambda>_. op_bind (trackAttemptLease a i t n) (\<lambda>_. op_return b)))
     (\<lambda>_ e. \<exists>M. viewing p i t Oc M e) E"
  by (auto simp: outcome_def op_bind_def trackAttemptClaims_def trackAttemptLease_def)

lemma start_leased_outcome:
  "outcome (viewing p i t Oc (M + mset A)) (start_leased env i t row A n) (\<lambda>_ e. \<exists>M. viewing p i t Oc M e) (\<lambda>_. viewing p i t Oc M)"
proof -
  have tx: "kept (claim_view p i t M Oc) (timed env (\<lambda>now. fenced_WithTx now f (\<lambda>tx. setup_rows now tx gen att)))" for M f gen att
    unfolding setup_rows_def Let_def claim_view.fenced_unfold by (intro kept keeps)
  have lr: "kept (claim_view p i t M Oc) (timed env (\<lambda>now. leases_Release now i t h n))" for M h by (intro kept keeps)
  show ?thesis
    unfolding start_leased_def Let_def
    by (rule outcome_bind [OF never_fails(1)], rule outcome_bind [OF never_fails(2)], rule outcome_bind [OF never_fails(2)],
        rule outcome_bind [OF never_fails(3) [OF tx]], rule outcome_case_sum)
      (rule outcome_bind [OF never_fails(4) [OF lr]] give_up track_outcome)+
qed

lemma StartStep_claims:
  "outcome (viewing p i t Oc M) (StartStep env i t mode) (\<lambda>_ e. \<exists>M. viewing p i t Oc M e) (\<lambda>_. viewing p i t Oc M)"
proof -
  let ?v = "claim_view p i t M Oc"
  have r: "outcome (viewing p i t Oc M) m (\<lambda>_. viewing p i t Oc M) (\<lambda>_. viewing p i t Oc M)" if "kept ?v m" for m :: "(Engine, 'a) op"
    using kept_outcome [OF that] .
  have l: "outcome (viewing p i t Oc N) (op_try (timed env (\<lambda>now. leases_Acquire now i t h))) (\<lambda>_. viewing p i t Oc N) E" for N h E
    by (rule never_fails(3)) (intro kept keeps)
  have leased: "outcome (viewing p i t Oc (M + mset A)) (op_bind (op_try (timed env (\<lambda>now. leases_Acquire now i t (leaseHolder env)))) (\<lambda>r.
      case r of Inl err \<Rightarrow> op_bind (releaseClaims env i t A) (\<lambda>_. op_fail err) | Inr n \<Rightarrow> start_leased env i t row A n))
      (\<lambda>_ e. \<exists>M. viewing p i t Oc M e) (\<lambda>_. viewing p i t Oc M)" for A row
    by (rule outcome_bind [OF l], rule outcome_case_sum) (rule give_up start_leased_outcome)+
  have k: "kept ?v (verifyDAGHash env i)" "kept ?v (op_wrap ''get step'' (st (steps_Get i t)))" "kept ?v (stepMode env i t mode)"
    "kept ?v (checkStepInputs env i row)" for row
    by (intro kept keeps)+
  show ?thesis
    unfolding StartStep_def
    by (rule outcome_bind [OF r [OF k(1)]], rule outcome_bind [OF r [OF k(2)]], rule outcome_if, rule outcome_fail, assumption,
        rule outcome_bind [OF r [OF k(3)]], rule outcome_if, rule outcome_fail, assumption, rule outcome_if, rule outcome_fail, assumption,
        rule outcome_bind [OF r [OF k(4)]], rule outcome_bind [OF acquireClaims_outcome], rule leased)
qed

section \<open>Properties\<close>

text \<open>C3. Path claims are all or nothing and never leak. After \<^verbatim>\<open>RunStep\<close>, whether the step was
  refused, blocked by a conflict after some of its paths were acquired, failed or succeeded, and after a \<^verbatim>\<open>StartStep\<close> that fails,
  the active claims of every other step are the ones before, and the step itself holds as many active claims on every path of its project as
  before. A step that held none of its project before holds none after, and then
  the active claims of every project are exactly the ones before. A step can hold the same path twice, after a start, a reopening and a run; then a release
  frees one of the two, here and in the in-memory store, while the SQL of the other store frees both.\<close>

theorem claims_never_leak:
  assumes "store_ok (e_store e)" "map_of (executions (e_store e)) i = Some x"
    "e' = snd (RunStep env i t fb e) \<or> (\<exists>err. StartStep env i t mode e = (Inl err, e'))"
  shows "filter (\<lambda>c. pc_ReleasedAt c = None \<and> \<not> mine (ex_ProjectID x) i t c) (map snd (pathClaims (e_store e'))) =
      filter (\<lambda>c. pc_ReleasedAt c = None \<and> \<not> mine (ex_ProjectID x) i t c) (map snd (pathClaims (e_store e))) \<and>
    (\<forall>lp. count (held (ex_ProjectID x) i t (pathClaims (e_store e'))) lp = count (held (ex_ProjectID x) i t (pathClaims (e_store e))) lp) \<and>
    ((\<forall>c \<in> set (active_claims (ex_ProjectID x) (e_store e)). pc_OwnerExecutionID c \<noteq> i \<or> pc_OwnerStepID c \<noteq> t) \<longrightarrow>
       (\<forall>q. active_claims q (e_store e') = active_claims q (e_store e)))"
proof -
  let ?p = "ex_ProjectID x"
  let ?Oc = "others ?p i t (pathClaims (e_store e))" and ?M = "held ?p i t (pathClaims (e_store e))"
  have v: "claim_view ?p i t ?M ?Oc (e_store e)" using assms(1,2) by (simp add: claim_view_def)
  have w: "claim_view ?p i t ?M ?Oc (e_store e')"
    using assms(3) keptD [OF RunStep_claims v] outcome_Inl [OF StartStep_claims [of ?p i t ?M ?Oc env mode] v] by blast
  have n: "?M = {#}" if "\<forall>c \<in> set (active_claims ?p (e_store e)). pc_OwnerExecutionID c \<noteq> i \<or> pc_OwnerStepID c \<noteq> t"
    using that by (auto simp: held_def active_claims_def filter_empty_conv mine_def)
  have "active_claims q (e_store e') = active_claims q (e_store e)" if "?M = {#}" for q
    using w that active_when_none_held [OF that, of q] active_when_none_held [of ?p i t "e_store e'" q] by (simp add: claim_view_def)
  then show ?thesis using w n by (auto simp: claim_view_def others_def)
qed

theorem claims_never_leak_witness:
  "active_claims ''/r'' (e_store (snd (RunStep demo_env ''u'' ''prep'' '''' demo_created))) = active_claims ''/r'' (e_store demo_created)"
proof -
  obtain x where "map_of (executions (e_store demo_created)) ''u'' = Some x"
    using demo_created_execution by auto
  moreover have "pathClaims (e_store demo_created) = []" by (rule demo_created_execution)
  ultimately show ?thesis
    using claims_never_leak [OF demo_ok(1) _ disjI1 [OF refl], of "''u''" _ "''prep''" demo_env "''''"] by (simp add: active_claims_def)
qed

end
