(* ===== verification/Engine_Attempts.thy ===== *)
theory Engine_Attempts
  imports Engine_Integrity
begin

text \<open>
  Attempts: which steps may run, what \<^verbatim>\<open>StartStep\<close> leaves behind, and what an attempt whose lease was
  taken over can still do. The checks before a run only read; \<open>refuses\<close> says that an operation
  returns an error and changes nothing.
\<close>

section \<open>Reading\<close>

definition refuses :: "('s, 'a) op \<Rightarrow> 's \<Rightarrow> bool" where
  "refuses m e \<longleftrightarrow> (\<exists>err. m e = (Inl err, e))"

lemma refuses_fail: "refuses (op_fail err) e"
  by (simp add: refuses_def)

lemma refuses_first: "refuses m e \<Longrightarrow> refuses (op_bind m f) e"
  by (auto simp: refuses_def op_bind_def)

lemma refuses_bind:
  assumes "snd (m e) = e" "\<And>a. m e = (Inr a, e) \<Longrightarrow> refuses (f a) e"
  shows "refuses (op_bind m f) e"
proof (cases "fst (m e)")
  case (Inl err)
  then have "m e = (Inl err, e)" using assms(1) by (metis prod.collapse)
  then show ?thesis by (simp add: refuses_def op_bind_def)
next
  case (Inr a)
  then have "m e = (Inr a, e)" using assms(1) by (metis prod.collapse)
  then show ?thesis using assms(2) by (simp add: refuses_def op_bind_def)
qed

lemma reads_st: "(\<And>P. keeps P m) \<Longrightarrow> keeps Q (st m)"
proof (rule keepsI)
  fix e assume k: "\<And>P. keeps P m" and "Q e"
  have "snd (m (e_store e)) = e_store e" using keepsD [OF k, of "\<lambda>s. s = e_store e"] by simp
  then show "Q (snd (st m e))" using \<open>Q e\<close> by simp
qed

text \<open>The checks keep every property, so they change nothing.\<close>

lemma reads_checks:
  "keeps Q (verifyDAGHash env i)" "keeps Q (op_wrap w (st (steps_Get i t)))" "keeps Q (check_dependency i d)"
  "keeps Q (check_required env i q)" "keeps Q (check_produced env q)" "keeps Q (stepMode env i t mode)"
  "keeps Q (checkStepInputs env i row)"
proof -
  show d: "keeps Q (check_dependency i d)" for d
    unfolding check_dependency_def by (intro keeps reads_st)
  show r: "keeps Q (check_required env i q)" for q
    unfolding check_required_def requiresStale_def by (intro keeps reads_st)
  show p: "keeps Q (check_produced env q)" for q
    unfolding check_produced_def by (intro keeps reads_st)
  have c: "keeps Q (decode_column env what col)" for what col
    unfolding decode_column_def by (intro keeps)
  show "keeps Q (verifyDAGHash env i)" "keeps Q (op_wrap w (st (steps_Get i t)))" "keeps Q (stepMode env i t mode)"
    "keeps Q (checkStepInputs env i row)"
    unfolding verifyDAGHash_def stepMode_def checkStepInputs_def by (intro keeps reads_st d r p c)+
qed

lemma unchanged: "(\<And>Q. keeps Q m) \<Longrightarrow> snd (m e) = e"
  using keepsD [of "\<lambda>x. x = e" m e] by blast

lemma each_refuses:
  "(\<And>x Q. keeps Q (f x)) \<Longrightarrow> x \<in> set xs \<Longrightarrow> refuses (f x) e \<Longrightarrow> refuses (op_each f xs) e"
  by (induction xs) (auto intro: refuses_first refuses_bind unchanged)

section \<open>Readiness\<close>

definition dependency_done :: "string \<Rightarrow> FakeStore \<Rightarrow> string \<Rightarrow> bool" where
  "dependency_done i s d \<longleftrightarrow> (\<exists>r. map_of (steps s) (stepKey i d) = Some r \<and> (es_Status r = ''completed'' \<or> es_Status r = ''skipped''))"

text \<open>The newest generation of a step, if it has one, is not invalidated.\<close>

definition current_valid :: "string \<Rightarrow> string \<Rightarrow> FakeStore \<Rightarrow> bool" where
  "current_valid i t s \<longleftrightarrow> (\<forall>g \<in> set (step_generations i t s).
     (\<forall>h \<in> set (step_generations i t s). ge_Number h \<le> ge_Number g) \<longrightarrow> ge_InvalidatedAt g = None)"

definition input_ready :: "env \<Rightarrow> string \<Rightarrow> Engine \<Rightarrow> string \<Rightarrow> bool" where
  "input_ready env i e q \<longleftrightarrow> ValidateContainedPath (dk_fs (e_disk e)) (artifactsRoot env) q = None \<and>
     dk_Stat (e_disk e) (Join [artifactsRoot env, q]) = None \<and>
     (\<forall>r \<in> set (steps_of i (e_store e)). q \<in> set (step_produces r) \<longrightarrow> current_valid i (es_StepID r) (e_store e))"

lemma check_dependency_iff: "fst (check_dependency i d e) = Inr () \<longleftrightarrow> dependency_done i (e_store e) d"
  by (auto simp: check_dependency_def dependency_done_def op_bind_def op_wrap_def st_def steps_Get_def lookup_row_def
      split: option.splits)

lemma latest_generation:
  "fold (\<lambda>g latest. case latest of None \<Rightarrow> Some g | Some l \<Rightarrow> if ge_Number g > ge_Number l then Some g else latest) gs None = r \<Longrightarrow>
   (case r of None \<Rightarrow> gs = [] | Some l \<Rightarrow> l \<in> set gs \<and> (\<forall>g \<in> set gs. ge_Number g \<le> ge_Number l))"
proof (induction gs arbitrary: r rule: rev_induct)
  case (snoc g gs)
  then show ?case by (fastforce split: option.splits if_splits)
qed simp

lemma stale_loop_None:
  "stale_loop s i q rs = None \<longleftrightarrow>
     (\<forall>r \<in> set rs. q \<in> set (step_produces r) \<longrightarrow> latestInvalidGeneration (step_generations i (es_StepID r) s) = None)"
  by (induction rs) (auto split: option.splits)

lemma generation_numbers:
  assumes "store_ok s" "g \<in> set (step_generations i t s)" "h \<in> set (step_generations i t s)" "ge_Number g = ge_Number h"
  shows "g = h"
proof -
  have ok: "gomap (generations s)"
    "\<And>k g k' g'. map_of (generations s) k = Some g \<Longrightarrow> map_of (generations s) k' = Some g' \<Longrightarrow>
        same_generation (ge_ExecutionID g) (ge_StepID g) (ge_Number g) g' \<Longrightarrow> k = k'"
    using assms(1) by (auto simp: store_ok_def generations_ok_def)
  obtain k k' where "(k, g) \<in> set (generations s)" "(k', h) \<in> set (generations s)"
    "ge_ExecutionID g = i" "ge_StepID g = t" "ge_ExecutionID h = i" "ge_StepID h = t"
    using assms(2,3) by (auto simp: step_generations_def generations_ListByStep_def)
  then have "map_of (generations s) k = Some g" "map_of (generations s) k' = Some h" "k = k'"
    using ok assms(4) by (auto simp: gomap_def same_generation_def)
  then show ?thesis by simp
qed

lemma latestInvalidGeneration_iff:
  assumes "store_ok s"
  shows "latestInvalidGeneration (step_generations i t s) = None \<longleftrightarrow> current_valid i t s"
proof -
  let ?gs = "step_generations i t s"
  let ?r = "fold (\<lambda>g latest. case latest of None \<Rightarrow> Some g | Some l \<Rightarrow> if ge_Number g > ge_Number l then Some g else latest) ?gs None"
  show ?thesis
  proof (cases ?r)
    case None
    then show ?thesis using latest_generation [OF None] by (simp add: latestInvalidGeneration_def current_valid_def)
  next
    case (Some l)
    then have l: "l \<in> set ?gs" "\<forall>g \<in> set ?gs. ge_Number g \<le> ge_Number l" using latest_generation [OF Some] by auto
    have g: "g = l" if "g \<in> set ?gs" "\<forall>h \<in> set ?gs. ge_Number h \<le> ge_Number g" for g
    proof -
      have "ge_Number g = ge_Number l" using l that by (meson order_antisym)
      then show ?thesis using generation_numbers [OF assms that(1) l(1)] by blast
    qed
    have "latestInvalidGeneration ?gs = None \<longleftrightarrow> ge_InvalidatedAt l = None" using Some by (simp add: latestInvalidGeneration_def)
    also have "\<dots> \<longleftrightarrow> current_valid i t s" unfolding current_valid_def using g l by blast
    finally show ?thesis .
  qed
qed

lemma stale_iff:
  "store_ok s \<Longrightarrow> stale_loop s i q (steps_of i s) = None \<longleftrightarrow>
     (\<forall>r \<in> set (steps_of i s). q \<in> set (step_produces r) \<longrightarrow> current_valid i (es_StepID r) s)"
  by (simp add: stale_loop_None latestInvalidGeneration_iff)

lemma check_required_iff: "store_ok (e_store e) \<Longrightarrow> fst (check_required env i q e) = Inr () \<longleftrightarrow> input_ready env i e q"
  unfolding input_ready_def stale_iff [symmetric]
  by (auto simp: check_required_def op_bind_def op_wrap_def op_check_def st_def requiresStale_def split: option.splits)

lemma not_Inr_refuses: "(\<And>Q. keeps Q m) \<Longrightarrow> fst (m e) \<noteq> Inr () \<Longrightarrow> refuses m e"
  using unchanged [of m e] unfolding refuses_def by (cases "fst (m e)"; cases "m e") auto

lemma unready_refused:
  "\<not> dependency_done i (e_store e) d \<Longrightarrow> refuses (check_dependency i d) e"
  "store_ok (e_store e) \<Longrightarrow> \<not> input_ready env i e q \<Longrightarrow> refuses (check_required env i q) e"
  by (rule not_Inr_refuses; simp add: reads_checks check_dependency_iff check_required_iff)+

section \<open>Refusal\<close>

definition step_ready :: "env \<Rightarrow> string \<Rightarrow> Engine \<Rightarrow> ExecutionStep \<Rightarrow> bool" where
  "step_ready env i e row \<longleftrightarrow> (\<forall>d \<in> set (step_deps row). dependency_done i (e_store e) d) \<and>
     (\<forall>q \<in> set (step_requires row). input_ready env i e q)"

lemma inputs_refused:
  assumes "store_ok (e_store e)" "\<not> step_ready env i e row"
  shows "refuses (op_bind (op_each (check_dependency i) (step_deps row)) (\<lambda>_.
    op_bind (op_each (check_required env i) (step_requires row)) f)) e"
proof (cases "\<forall>d \<in> set (step_deps row). dependency_done i (e_store e) d")
  case True
  then obtain q where "q \<in> set (step_requires row)" "\<not> input_ready env i e q" using assms(2) by (auto simp: step_ready_def)
  then have "refuses (op_each (check_required env i) (step_requires row)) e"
    using unready_refused(2) [OF assms(1)] by (intro each_refuses [of "check_required env i" q]) (simp_all add: reads_checks)
  moreover have "snd (op_each (check_dependency i) (step_deps row) e) = e"
    by (rule unchanged) (intro keeps reads_checks)
  ultimately show ?thesis by (intro refuses_bind refuses_first)
next
  case False
  then obtain d where "d \<in> set (step_deps row)" "\<not> dependency_done i (e_store e) d" by blast
  then have "refuses (op_each (check_dependency i) (step_deps row)) e"
    using unready_refused(1) by (intro each_refuses [of "check_dependency i" d]) (simp_all add: reads_checks)
  then show ?thesis by (rule refuses_first)
qed

lemma get_step: "map_of (steps (e_store e)) (stepKey i t) = Some row \<Longrightarrow> op_wrap w (st (steps_Get i t)) e = (Inr row, e)"
  by (simp add: op_wrap_def st_def steps_Get_def lookup_row_def)

text \<open>\<^verbatim>\<open>RunStep\<close> with feedback first moves a completed or failed step back to pending.\<close>

definition reset_only :: "string \<Rightarrow> string \<Rightarrow> string \<Rightarrow> Engine \<Rightarrow> Engine \<Rightarrow> bool" where
  "reset_only i t old e e' \<longleftrightarrow> e_disk e' = e_disk e \<and>
     (\<exists>now cursor. e_store e' = snd (events_CreateTransition now (transition_event i t cursor (Some old) ''pending'')
        ((e_store e)\<lparr>steps := adjust (stepKey i t) (\<lambda>r. r\<lparr>es_Status := ''pending''\<rparr>) (steps (e_store e))\<rparr>)))"

lemma reset_only_log:
  assumes "reset_only i t old e e'"
  shows "\<exists>log. e_store e' = (e_store e)\<lparr>
     steps := adjust (stepKey i t) (\<lambda>r. r\<lparr>es_Status := ''pending''\<rparr>) (steps (e_store e)), transitionEvents := log\<rparr>"
proof -
  have "\<exists>log. snd (events_CreateTransition now tev s) = s\<lparr>transitionEvents := log\<rparr>" for now tev s
    by (cases s) (auto simp: events_CreateTransition_def Let_def)
  then show ?thesis using assms by (auto simp: reset_only_def)
qed

definition same_or_reset :: "string \<Rightarrow> string \<Rightarrow> string \<Rightarrow> ExecutionStep \<Rightarrow> Engine \<Rightarrow> Engine \<Rightarrow> bool" where
  "same_or_reset i t fb row e e' \<longleftrightarrow> e' = e \<or>
     fb \<noteq> '''' \<and> es_Status row \<in> {''completed'', ''failed''} \<and> reset_only i t (es_Status row) e e'"

definition fails_into :: "(Engine \<Rightarrow> bool) \<Rightarrow> (Engine, 'a) op \<Rightarrow> Engine \<Rightarrow> bool" where
  "fails_into R m e \<longleftrightarrow> (\<exists>err e'. m e = (Inl err, e') \<and> R e')"

lemma fails_into_read:
  assumes "snd (m e) = e" "R e" "\<And>a. m e = (Inr a, e) \<Longrightarrow> fails_into R (f a) e"
  shows "fails_into R (op_bind m f) e"
  using assms by (cases "m e"; cases "fst (m e)") (auto simp: fails_into_def op_bind_def)

lemma refuses_fails: "refuses m e \<Longrightarrow> R e \<Longrightarrow> fails_into R m e"
  by (auto simp: refuses_def fails_into_def)

lemma transition_reset:
  assumes "map_of (steps (e_store e)) (stepKey i t) = Some row" "es_Status row \<noteq> ''pending''" "old \<noteq> ''''"
  shows "reset_only i t old e (snd (transitionStep env i t old ''pending'' e))"
proof -
  have u: "steps_UpdateStatus i t ''pending'' (e_store e) =
      (Inr (), (e_store e)\<lparr>steps := adjust (stepKey i t) (\<lambda>r. r\<lparr>es_Status := ''pending''\<rparr>) (steps (e_store e))\<rparr>)"
    using assms(1) by (auto simp: steps_UpdateStatus_def has_key_def isValidStepStatus_def)
  show ?thesis
    using assms u
    by (auto simp: reset_only_def transitionStep_def transitionStepWithStore_def op_bind_def st_def steps_Get_def lookup_row_def
        view_steps_UpdateStatus_def view_CreateTransition_def events_NextTransitionCursor_def timed_apply op_void_def
        split: prod.splits sum.splits)
qed

lemma still_unready:
  assumes "reset_only i t old e e'" "step_ready env i e' (row\<lparr>es_Status := x\<rparr>)"
  shows "step_ready env i e row"
proof -
  obtain log where s: "e_disk e' = e_disk e" "e_store e' = (e_store e)\<lparr>
     steps := adjust (stepKey i t) (\<lambda>r. r\<lparr>es_Status := ''pending''\<rparr>) (steps (e_store e)), transitionEvents := log\<rparr>"
    using assms(1) reset_only_log [OF assms(1)] by (auto simp: reset_only_def)
  have d: "dependency_done i (e_store e') q \<Longrightarrow> dependency_done i (e_store e) q" for q
    using s(2) by (auto simp: dependency_done_def map_of_adjust split: if_splits)
  have v: "current_valid i q (e_store e') = current_valid i q (e_store e)" for q
    using s(2) by (simp add: current_valid_def step_generations_def generations_ListByStep_def)
  have p: "\<exists>r' \<in> set (steps_of i (e_store e')). es_StepID r' = es_StepID r \<and> step_produces r' = step_produces r"
    if "r \<in> set (steps_of i (e_store e))" for r
    using that s(2) by (force simp: steps_of_def steps_List_def adjust_def step_produces_def)
  have "input_ready env i e' q \<Longrightarrow> input_ready env i e q" for q
    unfolding input_ready_def s(1) v using p by metis
  then show ?thesis using assms(2) d by (simp add: step_ready_def step_deps_def step_requires_def)
qed

lemma ready_step_unready:
  assumes "store_ok (e_store e)" "map_of (steps (e_store e)) (stepKey i t) = Some row" "\<not> step_ready env i e row"
    and nxt: "\<And>row' e'. same_or_reset i t fb row e e' \<Longrightarrow> store_ok (e_store e') \<Longrightarrow> \<not> step_ready env i e' row' \<Longrightarrow>
      es_DependsOn row' = es_DependsOn row \<Longrightarrow> refuses (f row') e'"
  shows "fails_into (same_or_reset i t fb row e) (op_bind (ready_step env i t fb row) f) e"
proof (cases "fb \<noteq> '''' \<and> (es_Status row = ''completed'' \<or> es_Status row = ''failed'')")
  case False
  show ?thesis
  proof (cases "es_Status row = ''pending''")
    case True
    then show ?thesis using nxt [of e row] assms by (intro refuses_fails) (auto simp: ready_step_def same_or_reset_def)
  next
    case pending: False
    then have "refuses (op_bind (ready_step env i t fb row) f) e" using False by (intro refuses_first) (auto simp: ready_step_def refuses_fail)
    then show ?thesis by (rule refuses_fails) (simp add: same_or_reset_def)
  qed
next
  case True
  let ?tr = "transitionStep env i t (es_Status row) ''pending''"
  obtain r e' where tr: "?tr e = (r, e')" by fastforce
  have n: "es_Status row \<noteq> ''pending''" "es_Status row \<noteq> ''''" using True by auto
  then have rs: "reset_only i t (es_Status row) e e'" using transition_reset [OF assms(2) n, of env] tr by simp
  then have sr: "same_or_reset i t fb row e e'" using True by (auto simp: same_or_reset_def)
  have ok: "store_ok (e_store e')" using keptD [OF integrity.transitions(2) assms(1)] tr by (metis snd_conv)
  have row: "map_of (steps (e_store e')) (stepKey i t) = Some (row\<lparr>es_Status := ''pending''\<rparr>)"
    using reset_only_log [OF rs] assms(2) by (auto simp: map_of_adjust)
  have u: "\<not> step_ready env i e' (row\<lparr>es_Status := ''pending''\<rparr>)" using still_unready [OF rs] assms(3) by blast
  have rd: "ready_step env i t fb row = op_bind ?tr (\<lambda>_. st (steps_Get i t))" using True by (auto simp: ready_step_def)
  show ?thesis
  proof (cases r)
    case (Inl err)
    then show ?thesis using tr sr by (auto simp: fails_into_def op_bind_def rd)
  next
    case (Inr x)
    have "refuses (f (row\<lparr>es_Status := ''pending''\<rparr>)) e'" by (rule nxt [OF sr ok u]) simp
    then obtain err where "f (row\<lparr>es_Status := ''pending''\<rparr>) e' = (Inl err, e')" by (auto simp: refuses_def)
    moreover have "st (steps_Get i t) e' = (Inr (row\<lparr>es_Status := ''pending''\<rparr>), e')" using row by (simp add: st_def steps_Get_def lookup_row_def)
    ultimately show ?thesis using tr Inr sr by (auto simp: fails_into_def op_bind_def rd)
  qed
qed

lemma run_command_unready:
  assumes "store_ok (e_store e)" "map_of (steps (e_store e)) (stepKey i t) = Some row" "\<not> step_ready env i e row"
    "\<not> snd (unmarshal_strings (es_DependsOn row))"
  shows "fails_into (same_or_reset i t fb row e) (run_command_step env i t fb row) e"
  unfolding run_command_step_def
  by (rule ready_step_unready [OF assms(1-3)]) (use inputs_refused assms(4) in simp)

lemma run_agent_unready:
  assumes "store_ok (e_store e)" "map_of (steps (e_store e)) (stepKey i t) = Some row" "\<not> step_ready env i e row"
  shows "fails_into (same_or_reset i t fb row e) (runAgentStep env i t fb) e"
  unfolding runAgentStep_def
proof (rule fails_into_read, rule unchanged, rule reads_checks, simp add: same_or_reset_def,
    rule fails_into_read, rule unchanged, rule reads_checks, simp add: same_or_reset_def)
  fix row' assume "op_wrap ''get step'' (st (steps_Get i t)) e = (Inr row', e)"
  then have row: "row' = row" using get_step [OF assms(2)] by simp
  show "fails_into (same_or_reset i t fb row e) (if es_Type row' = ''workflow'' then op_fail (leaked_node t)
     else op_bind (ready_step env i t fb row') (\<lambda>step. op_bind (op_each (check_dependency i) (step_deps step)) (\<lambda>_.
       op_bind (op_each (check_required env i) (step_requires step)) (\<lambda>_. op_bind (acquireClaims env i t) (\<lambda>acquired.
         op_finally (run_agent_claimed env i t (step_requires step)) (releaseClaims env i t acquired)))))) e"
    unfolding row using ready_step_unready [OF assms, of fb, OF inputs_refused]
    by (auto simp: same_or_reset_def intro: refuses_fails [OF refuses_fail])
qed

lemma RunStep_unready:
  assumes "store_ok (e_store e)" "map_of (steps (e_store e)) (stepKey i t) = Some row" "\<not> step_ready env i e row"
    "\<not> snd (unmarshal_strings (es_DependsOn row))"
  shows "fails_into (same_or_reset i t fb row e) (RunStep env i t fb) e"
  unfolding RunStep_def
proof (rule fails_into_read, rule unchanged, rule reads_checks, simp add: same_or_reset_def,
    rule fails_into_read, rule unchanged, rule reads_checks, simp add: same_or_reset_def)
  fix row' assume "op_wrap ''get step'' (st (steps_Get i t)) e = (Inr row', e)"
  then have "row' = row" using get_step [OF assms(2)] by simp
  then show "fails_into (same_or_reset i t fb row e) (if es_Type row' = ''workflow'' then op_fail (leaked_node t)
     else if es_Type row' = ''agent'' then runAgentStep env i t fb
     else if es_Type row' \<noteq> ''command'' then op_fail (errorf (''unsupported_step_type: '' @ es_Type row'))
     else run_command_step env i t fb row') e"
    using run_command_unready [OF assms] run_agent_unready [OF assms(1-3)]
    by (auto simp: same_or_reset_def intro: refuses_fails [OF refuses_fail])
qed

lemma checkStepInputs_refused:
  assumes "store_ok (e_store e)" "\<not> step_ready env i e row"
  shows "refuses (checkStepInputs env i row) e"
proof -
  have dec: "decode_column env what col e = (Inr xs, e) \<Longrightarrow> xs = fst (unmarshal_strings col)" for what col xs
    by (auto simp: decode_column_def split: prod.splits if_splits)
  have dq: "keeps Q (decode_column env what col)" for Q what col unfolding decode_column_def by (intro keeps)
  have "refuses (op_bind (op_each (check_dependency i) (step_deps row)) (\<lambda>_. op_bind (decode_column env w1 c1) (\<lambda>requires.
      op_bind (decode_column env w2 c2) (\<lambda>produces. op_bind (op_each (check_required env i) requires) (\<lambda>_.
      op_each (check_produced env) produces))))) e" if "c1 = es_Requires row" for w1 c1 w2 c2
  proof (cases "\<forall>d \<in> set (step_deps row). dependency_done i (e_store e) d")
    case True
    then obtain q where "q \<in> set (step_requires row)" "\<not> input_ready env i e q" using assms(2) by (auto simp: step_ready_def)
    then have r: "refuses (op_each (check_required env i) (step_requires row)) e"
      using unready_refused(2) [OF assms(1)] by (intro each_refuses [of "check_required env i" q]) (simp_all add: reads_checks)
    show ?thesis
      by (intro refuses_bind unchanged keeps reads_checks dq)
        (use r dec that in \<open>auto simp: step_requires_def refuses_def\<close>)
  next
    case False
    then obtain d where "d \<in> set (step_deps row)" "\<not> dependency_done i (e_store e) d" by blast
    then have "refuses (op_each (check_dependency i) (step_deps row)) e"
      using unready_refused(1) by (intro each_refuses [of "check_dependency i" d]) (simp_all add: reads_checks)
    then show ?thesis by (rule refuses_first)
  qed
  then show ?thesis
    unfolding checkStepInputs_def
    by - (rule refuses_bind, rule unchanged, rule dq, auto dest!: dec simp: step_deps_def)
qed

lemma StartStep_refused:
  assumes "store_ok (e_store e)" "map_of (steps (e_store e)) (stepKey i t) = Some row" "\<not> step_ready env i e row"
  shows "refuses (StartStep env i t mode) e"
  unfolding StartStep_def
proof (rule refuses_bind, rule unchanged, rule reads_checks, rule refuses_bind, rule unchanged, rule reads_checks)
  fix row' assume "op_wrap ''get step'' (st (steps_Get i t)) e = (Inr row', e)"
  then have row: "row' = row" using get_step [OF assms(2)] by simp
  have m: "snd (stepMode env i t mode e) = e" by (intro unchanged reads_checks)
  note c = checkStepInputs_refused [OF assms(1,3)]
  show "refuses (if es_Type row' = ''workflow'' then op_fail (errorf (''workflow node '' @ quoted t @ '' cannot run''))
     else op_bind (stepMode env i t mode) (\<lambda>mode.
       if mode = ''supervised'' \<or> mode = ''terminal'' then op_fail (errorf (mode @ '' mode not supported''))
       else if es_Status row' \<noteq> ''pending'' then op_fail (not_pending t (es_Status row'))
       else op_bind (checkStepInputs env i row') (\<lambda>_. op_bind (acquireClaims env i t) (\<lambda>claims.
         op_bind (op_try (timed env (\<lambda>now. leases_Acquire now i t (leaseHolder env)))) (\<lambda>r.
         case r of Inl err \<Rightarrow> op_bind (releaseClaims env i t claims) (\<lambda>_. op_fail err)
         | Inr leaseToken \<Rightarrow> start_leased env i t row' claims leaseToken))))) e"
    unfolding row using refuses_first [OF c] by (auto intro!: refuses_bind [of "stepMode env i t mode" e, OF m] simp: refuses_fail)
qed

section \<open>Starting a step\<close>

lemma guard_Inr: "guard now f m s = (Inr a, s') \<Longrightarrow> m s = (Inr a, s')"
  by (auto simp: guard_def Fenced.validate_def split: sum.splits if_splits)

lemma WithTx_Inr:
  assumes "WithTx fn s = (Inr a, s')"
  shows "\<exists>c b. fn (s\<lparr>inTx := True\<rparr>) = (Inr a, c) \<and> s' = c\<lparr>inTx := b\<rparr>"
proof (cases "inTx s")
  case True
  then have "s\<lparr>inTx := True\<rparr> = s" "s'\<lparr>inTx := inTx s'\<rparr> = s'" by (cases s; cases s'; simp)+
  then show ?thesis using assms True by (metis WithTx_def)
next
  case False
  then show ?thesis using assms by (auto simp: WithTx_def clone_def split: prod.splits sum.splits)
qed

lemma fenced_WithTx_Inr: "fenced_WithTx now f fn s = (Inr a, s') \<Longrightarrow> \<exists>f'. WithTx (fn f') s = (Inr a, s')"
  by (auto simp: fenced_WithTx_def Fenced.validate_def split: sum.splits if_splits)

lemma store_writes_Inr:
  "steps_UpdateStatus i t status s = (Inr u, s') \<Longrightarrow> s' = s\<lparr>steps := adjust (stepKey i t) (\<lambda>r. r\<lparr>es_Status := status\<rparr>) (steps s)\<rparr>"
  "steps_UpdateGeneration i t n s = (Inr u, s') \<Longrightarrow> s' = s\<lparr>steps := adjust (stepKey i t) (\<lambda>r. r\<lparr>es_CurrentGeneration := n\<rparr>) (steps s)\<rparr>"
  "events_CreateTransition now tev s = (Inr v, s') \<Longrightarrow> \<exists>log. s' = s\<lparr>transitionEvents := log\<rparr>"
  "generations_Create now g s = (Inr h, s') \<Longrightarrow> s' = s\<lparr>generations := AList.update (ge_ID g) (g\<lparr>ge_CreatedAt := default_stamp now (ge_CreatedAt g)\<rparr>) (generations s)\<rparr>"
  "attempts_Create now a s = (Inr b, s') \<Longrightarrow> \<not> has_key (at_ID a) (attempts s) \<and>
     s' = s\<lparr>attempts := AList.update (at_ID a) (a\<lparr>at_StartedAt := default_stamp now (at_StartedAt a)\<rparr>) (attempts s)\<rparr>"
  by (auto simp: steps_UpdateStatus_def steps_UpdateGeneration_def events_CreateTransition_def generations_Create_def
      attempts_Create_def Let_def split: if_splits) blast?

lemma setup_rows_Inr:
  assumes "setup_rows now f gen att s = (Inr (), s')"
  shows "\<not> has_key (at_ID att) (attempts s) \<and>
    steps s' = adjust (stepKey (ge_ExecutionID gen) (ge_StepID gen)) (\<lambda>r. r\<lparr>es_CurrentGeneration := ge_Number gen\<rparr>)
      (adjust (stepKey (ge_ExecutionID gen) (ge_StepID gen)) (\<lambda>r. r\<lparr>es_Status := ''running''\<rparr>) (steps s)) \<and>
    generations s' = AList.update (ge_ID gen) (gen\<lparr>ge_CreatedAt := default_stamp now (ge_CreatedAt gen)\<rparr>) (generations s) \<and>
    attempts s' = AList.update (at_ID att) (att\<lparr>at_StartedAt := default_stamp now (at_StartedAt att)\<rparr>) (attempts s) \<and>
    leases s' = leases s"
  using assms unfolding setup_rows_def Let_def fencedSteps_UpdateStatus_def fencedEvents_NextTransitionCursor_def
    fencedEvents_CreateTransition_def fencedGenerations_Create_def fencedSteps_UpdateGeneration_def fencedAttempts_Create_def
    op_void_def op_bind_eq_Inr
  by (auto dest!: guard_Inr store_writes_Inr simp: events_NextTransitionCursor_def)

text \<open>The operations on claims change the claims only.\<close>

definition but_claims :: "FakeStore \<Rightarrow> FakeStore" where
  "but_claims s = s\<lparr>pathClaims := [], pathClaimNextID := 0\<rparr>"

interpretation claim_frame: claim_property "\<lambda>s. but_claims s = s0" for s0
  by unfold_locales (auto simp: keeps_def but_claims_def claims_Acquire_def claims_Release_def Let_def split: option.split)

lemma but_claims_eq:
  assumes "but_claims s' = but_claims s"
  shows "steps s' = steps s" "generations s' = generations s" "attempts s' = attempts s" "leases s' = leases s"
    "executions s' = executions s" "transitionEvents s' = transitionEvents s" "attemptEvents s' = attemptEvents s" "inTx s' = inTx s"
  using arg_cong [OF assms, of steps] arg_cong [OF assms, of generations] arg_cong [OF assms, of attempts]
    arg_cong [OF assms, of leases] arg_cong [OF assms, of executions] arg_cong [OF assms, of transitionEvents]
    arg_cong [OF assms, of attemptEvents] arg_cong [OF assms, of inTx]
  by (simp_all add: but_claims_def)

lemma bind_total:
  "op_bind (clock_now env) f e = f (time_Now env (e_ticks e)) (e\<lparr>e_ticks := Suc (e_ticks e)\<rparr>)"
  "op_bind (fresh env) g e = g (uuid_NewString env (e_uuids e)) (e\<lparr>e_uuids := Suc (e_uuids e)\<rparr>)"
  "op_bind (op_try m) h s = h (fst (m s)) (snd (m s))" "op_bind (op_state d) k s = k () (d s)"
  by (simp_all add: op_bind_def clock_now_def fresh_def)

lemma new_attempt_ID [simp]: "at_ID (new_attempt a i t g now) = a"
  by (simp add: new_attempt_def)

lemma start_leased_Inr:
  assumes "start_leased env i t row claims n e = (Inr a, e')"
  shows "at_Status a = ''running'' \<and> at_ExecutionID a = i \<and> at_StepID a = t \<and> at_EndedAt a = None \<and>
    \<not> has_key (at_ID a) (attempts (e_store e)) \<and> map_of (attempts (e_store e')) (at_ID a) = Some a \<and>
    steps (e_store e') = adjust (stepKey i t) (\<lambda>r. r\<lparr>es_CurrentGeneration := es_CurrentGeneration row + 1\<rparr>)
      (adjust (stepKey i t) (\<lambda>r. r\<lparr>es_Status := ''running''\<rparr>) (steps (e_store e))) \<and>
    (\<exists>g. map_of (generations (e_store e')) (at_GenerationID a) = Some g \<and> ge_ExecutionID g = i \<and> ge_StepID g = t \<and>
       ge_Number g = es_CurrentGeneration row + 1 \<and> ge_InvalidatedAt g = None) \<and>
    leases (e_store e') = leases (e_store e) \<and>
    map_of (activeLeases e') (at_ID a) = Some \<lparr>al_executionID = i, al_stepID = t, al_token = n\<rparr> \<and>
    map_of (activeClaims e') (at_ID a) = Some \<lparr>ac_executionID = i, ac_stepID = t, ac_paths = claims\<rparr>"
proof -
  let ?t = "time_Now env (e_ticks e)"
  let ?g = "new_generation (uuid_NewString env (e_uuids e)) i t (es_CurrentGeneration row + 1) ?t"
  let ?a = "new_attempt (uuid_NewString env (Suc (e_uuids e))) i t (uuid_NewString env (e_uuids e)) ?t"
  let ?f = "NewFencedStore i t (leaseHolder env) n"
  let ?m = "timed env (\<lambda>now. fenced_WithTx now ?f (\<lambda>tx. setup_rows now tx ?g ?a))"
  define e1 where "e1 = e\<lparr>e_ticks := Suc (e_ticks e), e_uuids := Suc (Suc (e_uuids e))\<rparr>"
  have eq: "start_leased env i t row claims n e = (case fst (?m e1) of
       Inl err \<Rightarrow> op_bind (op_ignore (timed env (\<lambda>now. leases_Release now i t (leaseHolder env) n)))
         (\<lambda>_. op_bind (releaseClaims env i t claims) (\<lambda>_. op_fail err))
     | Inr _ \<Rightarrow> op_bind (trackAttemptClaims (uuid_NewString env (Suc (e_uuids e))) i t claims) (\<lambda>_.
         op_bind (trackAttemptLease (uuid_NewString env (Suc (e_uuids e))) i t n) (\<lambda>_. op_return ?a))) (snd (?m e1))"
    by (simp add: start_leased_def bind_total Let_def e1_def)
  obtain u where u: "fst (?m e1) = Inr u"
    using assms unfolding eq by (cases "fst (?m e1)") (auto simp: op_bind_eq_Inr)
  define e2 where "e2 = snd (?m e1)"
  have "op_bind (trackAttemptClaims (uuid_NewString env (Suc (e_uuids e))) i t claims) (\<lambda>_.
      op_bind (trackAttemptLease (uuid_NewString env (Suc (e_uuids e))) i t n) (\<lambda>_. op_return ?a)) e2 = (Inr a, e')"
    using assms unfolding eq u e2_def [symmetric] by (simp only: sum.case)
  then have e': "a = ?a" "e_store e' = e_store e2"
    "map_of (activeLeases e') (uuid_NewString env (Suc (e_uuids e))) = Some \<lparr>al_executionID = i, al_stepID = t, al_token = n\<rparr>"
    "map_of (activeClaims e') (uuid_NewString env (Suc (e_uuids e))) = Some \<lparr>ac_executionID = i, ac_stepID = t, ac_paths = claims\<rparr>"
    by (auto simp: trackAttemptClaims_def trackAttemptLease_def bind_total)
  let ?now = "time_Now env (e_ticks e1)"
  have "fenced_WithTx ?now ?f (\<lambda>tx. setup_rows ?now tx ?g ?a) (e_store e) = (Inr u, e_store e2)"
    using u by (simp add: e2_def timed_apply e1_def prod_eq_iff)
  then obtain f where "WithTx (setup_rows ?now f ?g ?a) (e_store e) = (Inr u, e_store e2)" by (auto dest: fenced_WithTx_Inr)
  then obtain c b where c: "setup_rows ?now f ?g ?a ((e_store e)\<lparr>inTx := True\<rparr>) = (Inr (), c)" "e_store e2 = c\<lparr>inTx := b\<rparr>"
    by (auto dest: WithTx_Inr)
  from setup_rows_Inr [OF c(1)] show ?thesis
    by (simp add: e' c(2) new_attempt_def new_generation_def default_stamp_def rfc3339_def)
qed

lemma acquire_lease_Inr:
  assumes "leases_Acquire now i t h s = (Inr n, s')"
  shows "held_lease s' i t h n \<and> n = lease_token (i, t) s + 1 \<and> steps s' = steps s \<and> attempts s' = attempts s \<and> generations s' = generations s"
  using assms by (auto simp: leases_Acquire_def held_lease_def lease_token_def Let_def split: option.splits if_splits)

lemma reads_eq:
  "verifyDAGHash env i e = (r, e') \<Longrightarrow> e' = e" "stepMode env i t mode e = (r2, e') \<Longrightarrow> e' = e"
  "checkStepInputs env i row e = (r3, e') \<Longrightarrow> e' = e \<and> fst (checkStepInputs env i row e) = r3"
  "op_wrap w (st (steps_Get i t)) e = (Inr row, e') \<Longrightarrow> e' = e \<and> map_of (steps (e_store e)) (stepKey i t) = Some row"
proof -
  show "e' = e" if "verifyDAGHash env i e = (r, e')" for r using unchanged [OF reads_checks(1), of env i e] that by simp
  show "e' = e" if "stepMode env i t mode e = (r, e')" for r using unchanged [OF reads_checks(6), of env i t mode e] that by simp
  show "e' = e \<and> fst (checkStepInputs env i row e) = r" if "checkStepInputs env i row e = (r, e')" for r using unchanged [OF reads_checks(7), of env i row e] that by simp
  show "e' = e \<and> map_of (steps (e_store e)) (stepKey i t) = Some row" if "op_wrap w (st (steps_Get i t)) e = (Inr row, e')"
    using that by (auto simp: op_wrap_def st_def steps_Get_def lookup_row_def split: option.splits)
qed

lemma StartStep_Inr:
  assumes "StartStep env i t mode e = (Inr a, e')"
  shows "\<exists>row claims e1 now n e2. map_of (steps (e_store e)) (stepKey i t) = Some row \<and> es_Type row \<noteq> ''workflow'' \<and>
    es_Status row = ''pending'' \<and> fst (checkStepInputs env i row e) = Inr () \<and> acquireClaims env i t e = (Inr claims, e1) \<and>
    leases_Acquire now i t (leaseHolder env) (e_store e1) = (Inr n, e_store e2) \<and>
    start_leased env i t row claims n e2 = (Inr a, e')"
proof -
  obtain row e1 claims r e2 where o: "map_of (steps (e_store e)) (stepKey i t) = Some row" "es_Type row \<noteq> ''workflow''"
    "es_Status row = ''pending''" "fst (checkStepInputs env i row e) = Inr ()" "acquireClaims env i t e = (Inr claims, e1)"
    "r = fst (timed env (\<lambda>now. leases_Acquire now i t (leaseHolder env)) e1)" "e2 = snd (timed env (\<lambda>now. leases_Acquire now i t (leaseHolder env)) e1)"
    "(case r of Inl err \<Rightarrow> op_bind (releaseClaims env i t claims) (\<lambda>_. op_fail err)
      | Inr leaseToken \<Rightarrow> start_leased env i t row claims leaseToken) e2 = (Inr a, e')"
    using assms unfolding StartStep_def op_bind_eq_Inr
    by (auto dest!: reads_eq simp: op_bind_eq_Inr bind_total split: if_splits)
  then obtain n where n: "r = Inr n" by (auto simp: op_bind_eq_Inr split: sum.splits)
  then have "start_leased env i t row claims n e2 = (Inr a, e')" using o(8) by simp
  moreover have "leases_Acquire (time_Now env (e_ticks e1)) i t (leaseHolder env) (e_store e1) = (Inr n, e_store e2)"
    using o(6,7) n by (simp add: timed_apply prod_eq_iff)
  ultimately show ?thesis using o(1-5) by blast
qed

lemma started_lease:
  assumes "StartStep env i t mode e = (Inr a, e')"
  shows "\<exists>n. held_lease (e_store e') i t (leaseHolder env) n \<and> n = lease_token (i, t) (e_store e) + 1 \<and>
    map_of (activeLeases e') (at_ID a) = Some \<lparr>al_executionID = i, al_stepID = t, al_token = n\<rparr>"
proof -
  obtain row claims e1 now n e2 where o: "acquireClaims env i t e = (Inr claims, e1)"
    "leases_Acquire now i t (leaseHolder env) (e_store e1) = (Inr n, e_store e2)" "start_leased env i t row claims n e2 = (Inr a, e')"
    using StartStep_Inr [OF assms] by blast
  have "but_claims (e_store e1) = but_claims (e_store e)"
    using keptD [OF claim_frame.claiming(1) [of "but_claims (e_store e)" env i t], of e] o(1) by simp
  note c = but_claims_eq [OF this] and l = acquire_lease_Inr [OF o(2)] and s = start_leased_Inr [OF o(3)]
  have "held_lease (e_store e2) i t (leaseHolder env) n" "leases (e_store e') = leases (e_store e2)" using l s by blast+
  then have "held_lease (e_store e') i t (leaseHolder env) n" by (simp add: held_lease_def)
  moreover have "n = lease_token (i, t) (e_store e) + 1" using l c by (simp add: lease_token_def)
  ultimately show ?thesis using s by blast
qed

section \<open>Properties\<close>

text \<open>C5. A step that is not ready never runs: when a dependency is neither completed nor skipped, or a
  required artifact lies outside the artifacts directory, is missing, or its producer's newest
  generation was invalidated, then, whatever the status of the step, \<^verbatim>\<open>StartStep\<close> returns an error and changes nothing,
  and \<^verbatim>\<open>RunStep\<close> returns an error and changes nothing, except that with feedback it may have moved a completed or failed step
  back to pending, with the event of this transition. The column of the dependencies is one that decodes; \<^verbatim>\<open>RunStep\<close>
  takes an undecodable one for empty.\<close>

theorem unready_never_runs:
  assumes "store_ok (e_store e)" "map_of (steps (e_store e)) (stepKey i t) = Some row"
    "\<not> snd (unmarshal_strings (es_DependsOn row))"
    "\<not> ((\<forall>d \<in> set (step_deps row). dependency_done i (e_store e) d) \<and> (\<forall>q \<in> set (step_requires row). input_ready env i e q))"
  shows "(\<exists>err. StartStep env i t mode e = (Inl err, e)) \<and>
    (\<exists>err e'. RunStep env i t fb e = (Inl err, e') \<and>
      (e' = e \<or> fb \<noteq> '''' \<and> es_Status row \<in> {''completed'', ''failed''} \<and> e_disk e' = e_disk e \<and>
        (\<exists>now cursor. e_store e' = snd (events_CreateTransition now (transition_event i t cursor (Some (es_Status row)) ''pending'')
           ((e_store e)\<lparr>steps := adjust (stepKey i t) (\<lambda>r. r\<lparr>es_Status := ''pending''\<rparr>) (steps (e_store e))\<rparr>)))))"
proof -
  have n: "\<not> step_ready env i e row" using assms(4) by (simp add: step_ready_def)
  show ?thesis
    using RunStep_unready [OF assms(1,2) n assms(3), of fb] StartStep_refused [OF assms(1,2) n]
    unfolding refuses_def fails_into_def same_or_reset_def reset_only_def by blast
qed

theorem unready_never_runs_witness:
  "(\<exists>err. RunStep demo_env ''u'' ''ship'' '''' demo_created = (Inl err, demo_created)) \<and>
   (\<exists>err. StartStep demo_env ''u'' ''ship'' '''' demo_created = (Inl err, demo_created))"
proof -
  obtain row where row: "map_of (steps (e_store demo_created)) (stepKey ''u'' ''ship'') = Some row" "es_Status row = ''pending''"
    "\<not> snd (unmarshal_strings (es_DependsOn row))" "step_deps row = [''inc.build'']"
    using demo_waiting(1) by auto
  have "\<not> dependency_done ''u'' (e_store demo_created) ''inc.build''"
    using demo_waiting(2) by (auto simp: dependency_done_def)
  then show ?thesis using unready_never_runs [OF demo_ok(1) row(1,3), of demo_env "''''" "''''"] row(4) by simp
qed

text \<open>C6. A successful StartStep: the step was pending and ready. It now runs at the next generation; a
  new attempt is recorded as running with that generation, which is valid; the engine holds the
  lease of the step with the next fencing token, and remembers it and the claims for the attempt.\<close>

theorem start_step_exact:
  assumes "store_ok (e_store e)" "StartStep env i t mode e = (Inr a, e')"
  shows "\<exists>row n claims g.
    map_of (steps (e_store e)) (stepKey i t) = Some row \<and> es_Status row = ''pending'' \<and> es_Type row \<noteq> ''workflow'' \<and>
    (\<forall>d \<in> set (step_deps row). dependency_done i (e_store e) d) \<and> (\<forall>q \<in> set (step_requires row). input_ready env i e q) \<and>
    map_of (steps (e_store e')) (stepKey i t) =
      Some (row\<lparr>es_Status := ''running'', es_CurrentGeneration := es_CurrentGeneration row + 1\<rparr>) \<and>
    (\<forall>k. k \<noteq> stepKey i t \<longrightarrow> map_of (steps (e_store e')) k = map_of (steps (e_store e)) k) \<and>
    \<not> has_key (at_ID a) (attempts (e_store e)) \<and> map_of (attempts (e_store e')) (at_ID a) = Some a \<and>
    at_ExecutionID a = i \<and> at_StepID a = t \<and> at_Status a = ''running'' \<and> at_EndedAt a = None \<and>
    map_of (generations (e_store e')) (at_GenerationID a) = Some g \<and> ge_ExecutionID g = i \<and> ge_StepID g = t \<and>
      ge_Number g = es_CurrentGeneration row + 1 \<and> ge_InvalidatedAt g = None \<and>
    n = lease_token (i, t) (e_store e) + 1 \<and> held_lease (e_store e') i t (leaseHolder env) n \<and>
    map_of (activeLeases e') (at_ID a) = Some \<lparr>al_executionID = i, al_stepID = t, al_token = n\<rparr> \<and>
    map_of (activeClaims e') (at_ID a) = Some \<lparr>ac_executionID = i, ac_stepID = t, ac_paths = claims\<rparr>"
proof -
  obtain row claims e1 now n e2 where o: "map_of (steps (e_store e)) (stepKey i t) = Some row" "es_Type row \<noteq> ''workflow''"
    "es_Status row = ''pending''" "fst (checkStepInputs env i row e) = Inr ()" "acquireClaims env i t e = (Inr claims, e1)"
    "leases_Acquire now i t (leaseHolder env) (e_store e1) = (Inr n, e_store e2)" "start_leased env i t row claims n e2 = (Inr a, e')"
    using StartStep_Inr [OF assms(2)] by blast
  have ready: "step_ready env i e row" using checkStepInputs_refused [OF assms(1)] o(4) unfolding refuses_def by fastforce
  have "but_claims (e_store e1) = but_claims (e_store e)"
    using keptD [OF claim_frame.claiming(1) [of "but_claims (e_store e)" env i t], of e] o(5) by simp
  note c = but_claims_eq [OF this]
  note l = acquire_lease_Inr [OF o(6)] and s = start_leased_Inr [OF o(7)]
  have "held_lease (e_store e') i t (leaseHolder env) n \<and> n = lease_token (i, t) (e_store e) + 1"
    using started_lease [OF assms(2)] s by auto
  moreover have "map_of (steps (e_store e')) k = (if k = stepKey i t
      then Some (row\<lparr>es_Status := ''running'', es_CurrentGeneration := es_CurrentGeneration row + 1\<rparr>) else map_of (steps (e_store e)) k)" for k
    using l s c o(1) by (simp add: map_of_adjust)
  ultimately show ?thesis using o(1-3) ready l s c unfolding step_ready_def by auto
qed

theorem start_step_exact_witness:
  "\<exists>a n. at_ID a = ''uuu'' \<and> map_of (attempts (e_store demo_started)) ''uuu'' = Some a \<and> at_Status a = ''running'' \<and>
     held_lease (e_store demo_started) ''u'' ''prep'' ''h'' n"
proof -
  obtain a where "fst (StartStep demo_env ''u'' ''prep'' '''' demo_created) = Inr a" "at_ID a = ''uuu''"
    using map_sum_InrD [OF demo_started_attempt] by auto
  then have "StartStep demo_env ''u'' ''prep'' '''' demo_created = (Inr a, demo_started)" "at_ID a = ''uuu''"
    by (simp_all add: demo_started_def prod_eq_iff)
  moreover have "leaseHolder demo_env = ''h''" by (simp add: demo_env_def)
  ultimately show ?thesis using start_step_exact [OF demo_ok(1)] by metis
qed

end
