(* ===== verification/Engine_Create.thy ===== *)
theory Engine_Create
  imports Engine_Claims Engine_Attempts
begin

text \<open>
  Creating an execution: the rows \<^verbatim>\<open>CreateExecution\<close> writes are one transaction, and the JSON columns of
  a step row decode to what the planned step declares.
\<close>

section \<open>Rows\<close>

text \<open>Strings as a JSON column keeps them: bytes that are not UTF-8 become the replacement character.\<close>

definition as_utf8 :: "string \<Rightarrow> string" where
  "as_utf8 x = concat (runes x)"

lemma step_row_columns:
  "step_deps (step_row flow i x) = map as_utf8 (fs_DependsOn x)" "step_requires (step_row flow i x) = map as_utf8 (fs_Requires x)"
  "step_produces (step_row flow i x) = map as_utf8 (fs_Produces x)" "es_Status (step_row flow i x) = ''pending''"
  "es_StepID (step_row flow i x) = fs_ID x" "es_ExecutionID (step_row flow i x) = i" "es_Type (step_row flow i x) = fs_Type x"
  by (simp_all add: step_deps_def step_requires_def step_produces_def step_row_def unmarshal_marshal as_utf8_def)

lemma create_steps_Inr:
  "op_each (\<lambda>x. steps_Create (f x)) xs s = (Inr (), s') \<Longrightarrow>
   s' = s\<lparr>steps := steps s @ map (\<lambda>x. (stepKey (es_ExecutionID (f x)) (es_StepID (f x)), f x)) xs\<rparr>"
proof (induction xs arbitrary: s)
  case (Cons x xs)
  then obtain s1 where "steps_Create (f x) s = (Inr (), s1)" and r: "op_each (\<lambda>x. steps_Create (f x)) xs s1 = (Inr (), s')"
    by (auto simp: op_bind_eq_Inr)
  then have "s1 = s\<lparr>steps := steps s @ [(stepKey (es_ExecutionID (f x)) (es_StepID (f x)), f x)]\<rparr>"
    by (auto simp: steps_Create_def Let_def update_fresh split: if_splits)
  with Cons.IH [OF r] show ?case by simp
qed simp

lemma create_rows_Inr:
  assumes "create_rows now flow ex dag s = (Inr (), s')"
  shows "\<not> has_key (ex_ID ex) (executions s) \<and> executions s' = AList.update (ex_ID ex) (ex\<lparr>ex_StartedAt := default_stamp now (ex_StartedAt ex)\<rparr>) (executions s) \<and>
    steps s' = steps s @ map (\<lambda>x. (stepKey (ex_ID ex) (fs_ID x), step_row flow (ex_ID ex) x)) (dag_Steps dag) \<and>
    attempts s' = attempts s \<and> generations s' = generations s"
proof -
  obtain x s1 where "executions_Create now ex s = (Inr x, s1)" and r: "op_each (\<lambda>st. steps_Create (step_row flow (ex_ID ex) st)) (dag_Steps dag) s1 = (Inr (), s')"
    using assms by (auto simp: create_rows_def op_bind_eq_Inr)
  then have "\<not> has_key (ex_ID ex) (executions s) \<and> s1 = s\<lparr>executions := AList.update (ex_ID ex) (ex\<lparr>ex_StartedAt := default_stamp now (ex_StartedAt ex)\<rparr>) (executions s)\<rparr>"
    by (auto simp: executions_Create_def Let_def split: if_splits)
  with create_steps_Inr [OF r] show ?thesis by (simp add: step_row_columns)
qed

lemma WithTx_Inl: "WithTx fn s = (Inl err, s') \<Longrightarrow> \<not> inTx s \<Longrightarrow> s' = s"
  by (auto simp: WithTx_def split: prod.splits sum.splits)

section \<open>The transaction in the engine\<close>

text \<open>A store that differs at most in its projects.\<close>

definition untouched :: "FakeStore \<Rightarrow> FakeStore \<Rightarrow> bool" where
  "untouched s s' \<longleftrightarrow> (\<exists>ps. s' = s\<lparr>projects := ps\<rparr>)"

definition created :: "FakeStore \<Rightarrow> env \<Rightarrow> Workflow \<Rightarrow> string \<Rightarrow> FlatDAG \<Rightarrow> string \<Rightarrow> FakeStore \<Rightarrow> bool" where
  "created s env flow path dag i s' \<longleftrightarrow> \<not> has_key i (executions s) \<and>
     (\<exists>x. map_of (executions s') i = Some x \<and> ex_ProjectID x = root env \<and> ex_WorkflowSource x = path \<and> ex_Status x = ''running'' \<and>
        ex_DagHash x = Some (dag_Hash dag) \<and> ex_WorkspaceMode x = execution_mode flow \<and> ex_EndedAt x = None) \<and>
     (\<forall>k. k \<noteq> i \<longrightarrow> map_of (executions s') k = map_of (executions s) k) \<and>
     steps s' = steps s @ map (\<lambda>x. (stepKey i (fs_ID x), step_row flow i x)) (dag_Steps dag) \<and>
     attempts s' = attempts s \<and> generations s' = generations s"

lemma untouched_total:
  "outcome (\<lambda>e. untouched s (e_store e)) (prune_worktrees env) (\<lambda>_ e. untouched s (e_store e)) (\<lambda>_ e. untouched s (e_store e))"
  "outcome (\<lambda>e. untouched s (e_store e)) (op_ignore (timed env (\<lambda>now. projects_Create now p q))) (\<lambda>_ e. untouched s (e_store e)) (\<lambda>_ e. untouched s (e_store e))"
  "outcome (\<lambda>e. untouched s (e_store e)) (fresh env) (\<lambda>_ e. untouched s (e_store e)) (\<lambda>_ e. untouched s (e_store e))"
  "outcome (\<lambda>e. untouched s (e_store e)) (create_worktree env mode i) (\<lambda>_ e. untouched s (e_store e)) (\<lambda>_ e. untouched s (e_store e))"
  "outcome (\<lambda>e. untouched s (e_store e)) (clock_now env) (\<lambda>_ e. untouched s (e_store e)) (\<lambda>_ e. untouched s (e_store e))"
  "outcome (\<lambda>e. untouched s (e_store e)) (observe g) (\<lambda>_ e. untouched s (e_store e)) (\<lambda>_ e. untouched s (e_store e))"
  "outcome (\<lambda>e. untouched s (e_store e)) (op_result r) (\<lambda>_ e. untouched s (e_store e)) (\<lambda>_ e. untouched s (e_store e))"
  "outcome (\<lambda>e. untouched s (e_store e)) (discard_worktree env mode w) (\<lambda>_ e. untouched s (e_store e)) (\<lambda>_ e. untouched s (e_store e))"
proof -
  have "untouched s (snd (projects_Create now p q s'))" if "untouched s s'" for now s'
    using that by (auto simp: untouched_def projects_Create_def)
  then show "outcome (\<lambda>e. untouched s (e_store e)) (op_ignore (timed env (\<lambda>now. projects_Create now p q)))
      (\<lambda>_ e. untouched s (e_store e)) (\<lambda>_ e. untouched s (e_store e))"
    by (auto simp: outcome_def timed_apply)
qed (auto simp: outcome_def fresh_def clock_now_def create_worktree_def prune_worktrees_def discard_worktree_def on_disk_def
    split: option.splits prod.splits if_splits)

lemma create_rows_outcome:
  assumes "\<not> inTx s" "i = ex_ID ex"
    "ex_ProjectID ex = root env" "ex_WorkflowSource ex = path" "ex_Status ex = ''running''" "ex_DagHash ex = Some (dag_Hash dag)"
    "ex_WorkspaceMode ex = execution_mode flow" "ex_EndedAt ex = None"
  shows "outcome (\<lambda>e. untouched s (e_store e)) (op_bind (op_try (st (WithTx (create_rows now flow ex dag)))) (\<lambda>r.
      case r of Inl err \<Rightarrow> op_bind (discard_worktree env mode w) (\<lambda>_. op_fail err) | Inr _ \<Rightarrow> op_return i))
    (\<lambda>i e. created s env flow path dag i (e_store e)) (\<lambda>_ e. untouched s (e_store e))"
proof -
  have c: "created s env flow path dag i s'" if tx: "WithTx (create_rows now flow ex dag) s1 = (Inr u, s')" and s1: "untouched s s1" for u s1 s'
  proof -
    obtain c b where c: "create_rows now flow ex dag (s1\<lparr>inTx := True\<rparr>) = (Inr (), c)" "s' = c\<lparr>inTx := b\<rparr>"
      using WithTx_Inr [OF tx] by auto
    from create_rows_Inr [OF c(1)] s1 show ?thesis
      using assms by (auto simp: c(2) created_def untouched_def)
  qed
  have f: "s' = s1" if "WithTx (create_rows now flow ex dag) s1 = (Inl err, s')" "untouched s s1" for err s1 s'
    using WithTx_Inl [OF that(1)] that(2) assms(1) by (auto simp: untouched_def)
  have t: "outcome (\<lambda>e. untouched s (e_store e)) (op_try (st (WithTx (create_rows now flow ex dag))))
    (\<lambda>r e. case r of Inl _ \<Rightarrow> untouched s (e_store e) | Inr _ \<Rightarrow> created s env flow path dag i (e_store e)) (\<lambda>_ e. untouched s (e_store e))"
  proof (rule outcomeI)
    fix e r e' assume u: "untouched s (e_store e)" and x: "op_try (st (WithTx (create_rows now flow ex dag))) e = (Inr r, e')"
    then have w: "WithTx (create_rows now flow ex dag) (e_store e) = (r, e_store e')" by (auto simp: prod_eq_iff)
    show "case r of Inl _ \<Rightarrow> untouched s (e_store e') | Inr _ \<Rightarrow> created s env flow path dag i (e_store e')"
      using c [OF _ u] f [OF _ u] w u by (cases r) auto
  qed simp
  show ?thesis
  proof (rule outcome_bind [OF t])
    show "outcome (\<lambda>e. case r of Inl _ \<Rightarrow> untouched s (e_store e) | Inr _ \<Rightarrow> created s env flow path dag i (e_store e))
        (case r of Inl err \<Rightarrow> op_bind (discard_worktree env mode w) (\<lambda>_. op_fail err) | Inr _ \<Rightarrow> op_return i)
        (\<lambda>i e. created s env flow path dag i (e_store e)) (\<lambda>_ e. untouched s (e_store e))" for r
    proof (cases r)
      case (Inl err)
      show ?thesis unfolding Inl sum.case by (rule outcome_bind [OF untouched_total(8)]) (rule outcome_fail)
    next
      case (Inr u)
      show ?thesis unfolding Inr sum.case by (rule outcome_return)
    qed
  qed
qed

lemma CreateExecution_outcome:
  assumes "plan_execution env name d = Inr (flow, path, dag)" "\<not> inTx s"
  shows "outcome (\<lambda>e. untouched s (e_store e) \<and> e_disk e = d) (CreateExecution env name)
    (\<lambda>i e. created s env flow path dag i (e_store e)) (\<lambda>_ e. untouched s (e_store e))"
proof -
  have o: "outcome (\<lambda>e. untouched s (e_store e) \<and> e_disk e = d) (observe (plan_execution env name))
      (\<lambda>p e. untouched s (e_store e) \<and> p = Inr (flow, path, dag)) (\<lambda>_ e. untouched s (e_store e))"
    using assms(1) by (auto simp: outcome_def)
  have r: "outcome (\<lambda>e. untouched s (e_store e) \<and> p = Inr (flow, path, dag)) (op_result p)
      (\<lambda>x e. untouched s (e_store e) \<and> x = (flow, path, dag)) (\<lambda>_ e. untouched s (e_store e))" for p
    by (auto simp: outcome_def)
  show ?thesis
    unfolding CreateExecution_def Let_def
    apply (rule outcome_bind [OF o], rule outcome_bind [OF r], rule outcome_fact)
    apply (simp only: prod.case)
    apply (rule outcome_bind [OF untouched_total(1)], rule outcome_bind [OF untouched_total(2)], rule outcome_bind [OF untouched_total(3)],
      rule outcome_bind [OF untouched_total(6)], rule outcome_bind [OF untouched_total(7)], rule outcome_bind [OF untouched_total(4)],
      rule outcome_bind [OF untouched_total(5)])
    apply (rule create_rows_outcome [OF assms(2)], simp_all)
    done
qed

section \<open>Properties\<close>

text \<open>C7. Creating an execution is all or nothing. On an error the store is unchanged except that the
  project may have been registered. On success the plan was valid and a new execution is running
  with the source and the hash of its graph; its steps are exactly the steps of the flattened
  graph, each once and in no particular order, all pending, and the dependencies, requirements and products read back
  from the stored columns are those of the graph; no other execution or step changes.\<close>

theorem create_execution_exact:
  assumes "store_ok (e_store e)" "\<not> inTx (e_store e)" "CreateExecution env name e = (r, e')"
  shows "(case r of
      Inl err \<Rightarrow> \<exists>ps. e_store e' = (e_store e)\<lparr>projects := ps\<rparr>
    | Inr i \<Rightarrow> \<exists>flow path dag x. plan_execution env name (e_disk e) = Inr (flow, path, dag) \<and>
        \<not> has_key i (executions (e_store e)) \<and> map_of (executions (e_store e')) i = Some x \<and> ex_Status x = ''running'' \<and>
        ex_WorkflowSource x = path \<and> ex_DagHash x = Some (dag_Hash dag) \<and>
        {#(es_StepID row, step_deps row, step_requires row, step_produces row). row \<in># mset (steps_of i (e_store e'))#} =
          {#(fs_ID x, map as_utf8 (fs_DependsOn x), map as_utf8 (fs_Requires x), map as_utf8 (fs_Produces x)). x \<in># mset (dag_Steps dag)#} \<and>
        (\<forall>row \<in> set (steps_of i (e_store e')). es_Status row = ''pending'') \<and>
        (\<forall>k. k \<noteq> i \<longrightarrow> map_of (executions (e_store e')) k = map_of (executions (e_store e)) k \<and>
           mset (steps_of k (e_store e')) = mset (steps_of k (e_store e))))"
proof (cases "plan_execution env name (e_disk e)")
  case (Inl err)
  then have "e_store e' = e_store e" "r = Inl err" using assms(3) by (auto simp: CreateExecution_def op_bind_def)
  then show ?thesis by (auto intro: exI [of _ "projects (e_store e)"])
next
  case (Inr plan)
  obtain flow path dag where p: "plan_execution env name (e_disk e) = Inr (flow, path, dag)" using Inr by (cases plan) auto
  have u: "untouched (e_store e) (e_store e) \<and> e_disk e = e_disk e" by (auto simp: untouched_def intro: exI [of _ "projects (e_store e)"])
  note o = CreateExecution_outcome [OF p assms(2)]
  show ?thesis
  proof (cases r)
    case (Inl err)
    with outcome_Inl [OF o u] assms(3) show ?thesis by (auto simp: untouched_def)
  next
    case (Inr i)
    with outcome_Inr [OF o u] assms(3) have c: "created (e_store e) env flow path dag i (e_store e')" by blast
    have "es_ExecutionID row \<noteq> i" if "(k, row) \<in> set (steps (e_store e))" for k row
    proof -
      have "map_of (steps (e_store e)) k = Some row" using assms(1) that by (simp add: store_ok_def steps_ok_def gomap_def)
      then have "has_key (es_ExecutionID row) (executions (e_store e))" using assms(1) by (auto simp: store_ok_def steps_ok_def dest: rowsD)
      then show ?thesis using c by (auto simp: created_def)
    qed
    then have none: "filter (\<lambda>row. es_ExecutionID row = i) (map snd (steps (e_store e))) = []" by (fastforce simp: filter_empty_conv)
    have "steps_of i (e_store e') = map (step_row flow i) (dag_Steps dag)"
      using c none by (simp add: created_def steps_of_def steps_List_def comp_def step_row_columns filter_map)
    moreover have "steps_of k (e_store e') = steps_of k (e_store e)" if "k \<noteq> i" for k
      using c that by (simp add: created_def steps_of_def steps_List_def comp_def step_row_columns filter_map)
    ultimately show ?thesis using c p Inr by (auto simp: created_def step_row_columns multiset.map_comp comp_def)
  qed
qed

theorem create_execution_exact_witness:
  "\<exists>i x. CreateExecution demo_env ''main'' demo_new = (Inr i, demo_created) \<and>
     map_of (executions (e_store demo_created)) i = Some x \<and> ex_Status x = ''running'' \<and>
     (\<forall>row \<in> set (steps_of i (e_store demo_created)). es_Status row = ''pending'')"
proof (cases "fst (CreateExecution demo_env ''main'' demo_new)")
  case (Inl err)
  then have "CreateExecution demo_env ''main'' demo_new = (Inl err, demo_created)" by (simp add: demo_created_def prod_eq_iff)
  from create_execution_exact [OF demo_new_ok _ this] show ?thesis
    using demo_created_execution(1) by (auto simp: demo_new_def NewEngine_def NewFakeStore_def)
next
  case (Inr i)
  then have c: "CreateExecution demo_env ''main'' demo_new = (Inr i, demo_created)" by (simp add: demo_created_def prod_eq_iff)
  from create_execution_exact [OF demo_new_ok _ this] show ?thesis
    using c by (auto simp: demo_new_def NewEngine_def NewFakeStore_def)
qed

end
