(* ===== verification/Engine_Reopen.thy ===== *)
theory Engine_Reopen
  imports Engine_Integrity
begin

text \<open>
  Reopening a step: the two closures of \<^verbatim>\<open>ReopenStep\<close> (\<^verbatim>\<open>state.go\<close>) are the reflexive transitive
  closure of the dependencies and the transitive feeders of the artifacts the step requires, and
  the operation resets exactly these steps. The status of an execution is characterised by the
  statuses of its steps.
\<close>

section \<open>Descendants\<close>






section \<open>Feeders\<close>









section \<open>The status of an execution\<close>

lemma resync_status_iff:
  "resync_status ss = ''completed'' \<longleftrightarrow> ss \<noteq> [] \<and> (\<forall>s \<in> set ss. es_Status s = ''completed'' \<or> es_Status s = ''skipped'')"
  "resync_status ss = ''failed'' \<longleftrightarrow>
     (\<exists>s \<in> set ss. es_Status s = ''failed'') \<and> (\<forall>s \<in> set ss. es_Status s \<noteq> ''pending'' \<and> es_Status s \<noteq> ''running'')"
  "resync_status ss \<in> {''completed'', ''failed'', ''running''}"
  by (auto simp: resync_status_def Let_def list_ex_iff list_all_iff)

lemma resync_status_valid: "isValidExecutionStatus (resync_status ss)"
  using resync_status_iff(3) [of ss] by (auto simp: isValidExecutionStatus_def)

lemma steps_List_apply: "steps_List i s = (Inr (steps_of i s), s)"
  by (simp add: steps_of_def steps_List_def)

text \<open>The effect of a resync on an execution that exists: its row gets the recomputed status, and the
  worktree goes when the status is final.\<close>

lemma resync_apply:
  assumes "map_of (executions (e_store e)) i = Some x"
  shows "resyncExecution env i e = (Inr (), e\<lparr>
      e_store := (e_store e)\<lparr>executions := adjust i
        (set_execution_status (time_Now env (e_ticks e)) (resync_status (steps_of i (e_store e)))) (executions (e_store e))\<rparr>,
      e_disk := (case worktreeMgr env of
          None \<Rightarrow> e_disk e
        | Some wt \<Rightarrow> if resync_status (steps_of i (e_store e)) \<in> {''completed'', ''failed''} \<and> removable env x
                     then wt_Remove wt (ex_WorkspaceRoot x) (e_disk e) else e_disk e),
      e_ticks := Suc (e_ticks e)\<rparr>)"
proof -
  have r: "removable env (set_execution_status now status x) = removable env x"
    "ex_WorkspaceRoot (set_execution_status now status x) = ex_WorkspaceRoot x" for now status
    by (simp_all add: removable_def set_execution_status_def Let_def)
  show ?thesis
    using assms resync_status_valid [of "steps_of i (e_store e)"] r
    by (cases e) (auto simp: resyncExecution_def resyncExecutionWithStore_def op_bind_def steps_List_apply st_def
        view_executions_UpdateStatus_def timed_apply executions_UpdateStatus_def has_key_def remove_worktree_def
        executions_Get_def lookup_row_def on_disk_def Let_def split: option.split)
qed

section \<open>Resetting steps\<close>











section \<open>Reopening\<close>







section \<open>Properties\<close>



text \<open>C8. The status of an execution after every operation that resynchronises it: completed exactly when
  it has steps and all are completed or skipped, failed exactly when some step failed and none is
  pending or running, running otherwise; the end time is set at the first final status and never
  changed; the worktree is removed exactly when the status is final and the execution runs in a
  worktree of its own. Nothing else changes.\<close>

theorem resync_exact:
  assumes "map_of (executions (e_store e)) i = Some x" "worktreeMgr env = Some wt"
  shows "\<exists>e' status now. resyncExecution env i e = (Inr (), e') \<and>
    (status = ''completed'' \<longleftrightarrow> steps_of i (e_store e) \<noteq> [] \<and>
       (\<forall>r \<in> set (steps_of i (e_store e)). es_Status r = ''completed'' \<or> es_Status r = ''skipped'')) \<and>
    (status = ''failed'' \<longleftrightarrow> (\<exists>r \<in> set (steps_of i (e_store e)). es_Status r = ''failed'') \<and>
       (\<forall>r \<in> set (steps_of i (e_store e)). es_Status r \<noteq> ''pending'' \<and> es_Status r \<noteq> ''running'')) \<and>
    (status = ''running'' \<longleftrightarrow> status \<noteq> ''completed'' \<and> status \<noteq> ''failed'') \<and>
    e_store e' = (e_store e)\<lparr>executions := executions (e_store e')\<rparr> \<and>
    map_of (executions (e_store e')) i = Some (x\<lparr>ex_Status := status,
      ex_EndedAt := (if status \<noteq> ''running'' \<and> ex_EndedAt x = None then Some (rfc3339 now) else ex_EndedAt x)\<rparr>) \<and>
    (\<forall>k. k \<noteq> i \<longrightarrow> map_of (executions (e_store e')) k = map_of (executions (e_store e)) k) \<and>
    e_disk e' = (if status \<noteq> ''running'' \<and> ex_WorkspaceMode x = ''isolated'' \<and> ex_WorkspaceRoot x \<noteq> '''' \<and> ex_WorkspaceRoot x \<noteq> root env
      then wt_Remove wt (ex_WorkspaceRoot x) (e_disk e) else e_disk e)"
proof -
  let ?status = "resync_status (steps_of i (e_store e))" and ?now = "time_Now env (e_ticks e)"
  have n: "?status \<noteq> ''running'' \<longleftrightarrow> ?status = ''completed'' \<or> ?status = ''failed''"
    using resync_status_iff(3) [of "steps_of i (e_store e)"] by auto
  have "set_execution_status now ?status x = x\<lparr>ex_Status := ?status,
      ex_EndedAt := (if ?status \<noteq> ''running'' \<and> ex_EndedAt x = None then Some (rfc3339 now) else ex_EndedAt x)\<rparr>" for now
    using n by (cases x) (auto simp: set_execution_status_def)
  moreover obtain e' where "resyncExecution env i e = (Inr (), e')"
    "e_store e' = (e_store e)\<lparr>executions := adjust i (set_execution_status ?now ?status) (executions (e_store e))\<rparr>"
    "e_disk e' = (if ?status \<noteq> ''running'' \<and> removable env x then wt_Remove wt (ex_WorkspaceRoot x) (e_disk e) else e_disk e)"
    using resync_apply [OF assms(1), of env] assms(2) n by simp
  ultimately show ?thesis
    using resync_status_iff(1,2) [of "steps_of i (e_store e)"] n assms(1)
    by (intro exI [of _ e'] exI [of _ ?status] exI [of _ ?now]) (simp add: removable_def, blast)
qed

theorem resync_exact_witness:
  "\<exists>e' x. resyncExecution (demo_env\<lparr>worktreeMgr := Some demo_worktree\<rparr>) ''u'' demo_skipped = (Inr (), e') \<and>
     map_of (executions (e_store e')) ''u'' = Some x \<and> e_store e' = (e_store demo_skipped)\<lparr>executions := executions (e_store e')\<rparr>"
proof -
  obtain x where x: "map_of (executions (e_store demo_skipped)) ''u'' = Some x" using demo_skipped_row(2) by auto
  have w: "worktreeMgr (demo_env\<lparr>worktreeMgr := Some demo_worktree\<rparr>) = Some demo_worktree" by simp
  show ?thesis using resync_exact [OF x w] by (elim exE conjE) (intro exI conjI; assumption)
qed

end
