(* ===== verification/Engine_Stale.thy ===== *)
theory Engine_Stale
  imports Engine_Claims Engine_Reopen Engine_Attempts
begin

text \<open>
  An attempt whose lease was taken over or has expired: every write of \<^verbatim>\<open>ExecuteAttempt\<close> goes through the fenced store
  of the attempt, so it ends with an error and leaves the store as it is, apart from the lease and the claims it
  gives back. The triples here have no normal outcome.
\<close>

section \<open>Operations that only fail\<close>

abbreviation only_fails :: "('s \<Rightarrow> bool) \<Rightarrow> ('s, 'a) op \<Rightarrow> bool" where
  "only_fails Q m \<equiv> outcome Q m (\<lambda>_ _. False) (\<lambda>_. Q)"

lemma only_fails_first: "only_fails Q m \<Longrightarrow> only_fails Q (op_bind m f)"
  by (rule outcome_bind) (auto simp: outcome_def)

lemma only_fails_then: "keeps Q m \<Longrightarrow> (\<And>a. only_fails Q (f a)) \<Longrightarrow> only_fails Q (op_bind m f)"
  by (rule outcome_bind [OF outcome_keeps])

lemma only_fails_fail: "only_fails Q (op_fail err)"
  by (rule outcome_fail)

lemma only_fails_keeps: "only_fails Q m \<Longrightarrow> keeps Q m"
  by (rule keeps_outcome) (auto elim: outcome_conseq)

lemma only_fails_wrap: "only_fails Q m \<Longrightarrow> only_fails Q (op_wrap w m)"
  unfolding outcome_def op_wrap_def by (auto split: sum.splits prod.splits) (metis prod.collapse)+

lemmas only_fails = only_fails_then only_fails_fail

section \<open>A stale attempt\<close>

definition unmoved :: "Engine \<Rightarrow> Engine \<Rightarrow> bool" where
  "unmoved e0 e \<longleftrightarrow> e_store e = e_store e0 \<and> activeLeases e = activeLeases e0 \<and> activeClaims e = activeClaims e0 \<and> e_ticks e0 \<le> e_ticks e"

text \<open>The lease is not in force at any reading of the clock from now on: it is held with another token, by
  another holder, by nobody, or it has expired.\<close>

definition stale :: "env \<Rightarrow> Engine \<Rightarrow> FencedStore \<Rightarrow> bool" where
  "stale env e0 f \<longleftrightarrow> (\<forall>k \<ge> e_ticks e0. \<not> in_force (time_Now env k) f (e_store e0))"

lemma stale_write:
  assumes "stale env e0 f"
  shows "only_fails (unmoved e0) (timed env (\<lambda>now. guard now f (m now)))"
proof -
  have "\<exists>err e'. timed env (\<lambda>now. guard now f (m now)) e = (Inl err, e') \<and> unmoved e0 e'" if "unmoved e0 e" for e
  proof -
    have "\<not> in_force (time_Now env (e_ticks e)) f (e_store e)" using assms that by (auto simp: unmoved_def stale_def)
    from guard_stale [OF this] obtain x where "guard (time_Now env (e_ticks e)) f (m (time_Now env (e_ticks e))) (e_store e) =
        (Inl (violation ErrStaleLease x), e_store e)" by blast
    then show ?thesis using that by (simp add: timed_apply st_def unmoved_def)
  qed
  then show ?thesis unfolding outcome_def by fastforce
qed

lemma unmoved_keeps [keeps]:
  "keeps (unmoved e0) (clock_now env)" "keeps (unmoved e0) (fresh env)"
  "keeps (unmoved e0) (on_disk g)" "keeps (unmoved e0) (run_process env cwd argv envMap)"
  by (auto simp: keeps_def unmoved_def clock_now_def fresh_def on_disk_def run_process_def split: prod.split)

lemma reads_attempt:
  "keeps Q (assertAttemptRunning ctx i)" "keeps Q (ctx_Err ctx)" "keeps Q (fencedStoreForAttempt env a)"
  "keeps Q (commandForStep env i t)" "keeps Q (effectiveWorktreeRoot env i)"
  unfolding assertAttemptRunning_def ctx_Err_def fencedStoreForAttempt_def commandForStep_def effectiveWorktreeRoot_def
  by (intro keeps reads_st)+

lemma fenced_event_stale: "stale env e0 f \<Longrightarrow> only_fails (unmoved e0) (fenced_event env f a typ payload)"
  unfolding fenced_event_def fencedEvents_NextAttemptCursor_def fencedEvents_CreateAttemptEvent_def op_void_def
  by (intro only_fails_then only_fails_first stale_write reads_st keeps)

text \<open>The fenced store an attempt works with.\<close>

definition attempt_store :: "env \<Rightarrow> attemptLease \<Rightarrow> FencedStore" where
  "attempt_store env l = NewFencedStore (al_executionID l) (al_stepID l) (leaseHolder env) (al_token l)"

lemma finishAttempt_stale:
  assumes "stale env e0 (attempt_store env l)" "map_of (activeLeases e0) (at_ID a) = Some l"
  shows "only_fails (unmoved e0) (finishAttempt env ctx a status reason digest)"
proof -
  have f: "outcome (unmoved e0) (fencedStoreForAttempt env a) (\<lambda>f e. unmoved e0 e \<and> f = attempt_store env l) (\<lambda>_. unmoved e0)"
    using assms(2) by (auto simp: outcome_def fencedStoreForAttempt_def unmoved_def attempt_store_def)
  show ?thesis
    unfolding finishAttempt_def fencedAttempts_UpdateStatus_def
    by (rule only_fails_then, rule reads_attempt, rule outcome_bind [OF f], rule outcome_fact)
      (simp only:, rule only_fails_first, rule stale_write, rule assms)
qed

lemma deliver_stale: "stale env e0 f \<Longrightarrow> keeps (unmoved e0) (deliver_feedback env f a row)"
  unfolding deliver_feedback_def fencedSteps_SetPendingFeedback_def
  by (intro keeps only_fails_keeps fenced_event_stale only_fails_wrap stale_write)

lemma conclude_stale:
  assumes "stale env e0 f" "f = attempt_store env l" "map_of (activeLeases e0) (at_ID a) = Some l"
  shows "only_fails (unmoved e0) (conclude_attempt env ctx f a argv r)"
proof (cases r)
  case (Inl err)
  have "keeps (unmoved e0) (op_ignore (finishAttempt env ctx a status reason digest))" for status reason digest
    using assms by (intro keeps only_fails_keeps finishAttempt_stale) auto
  then show ?thesis
    unfolding conclude_attempt_def Inl sum.case
    by - (rule only_fails_then, rule reads_attempt, auto split: option.split intro!: only_fails_fail only_fails_then)
next
  case (Inr out)
  obtain exitCode stdout stderr where "out = (exitCode, stdout, stderr)" by (cases out) auto
  then show ?thesis
    unfolding conclude_attempt_def Inr Let_def sum.case prod.case
    by - (simp only: prod.case, rule only_fails_then, rule reads_attempt, rule only_fails_first, rule fenced_event_stale, rule assms)
qed

lemma execute_body_stale:
  assumes "stale env e0 (attempt_store env l)" "map_of (activeLeases e0) (at_ID a) = Some l"
  shows "only_fails (unmoved e0) (execute_attempt_body env ctx a (attempt_store env l))"
proof -
  have fin: "only_fails (unmoved e0) (op_bind (op_ignore (finishAttempt env ctx a status reason digest)) (\<lambda>_. op_fail err))"
    for status reason digest err
    by (intro only_fails_then keeps only_fails_keeps finishAttempt_stale [OF assms] only_fails_fail)
  have run: "only_fails (unmoved e0) (op_bind (deliver_feedback env (attempt_store env l) a row) (\<lambda>_.
      op_bind (effectiveWorktreeRoot env i) (\<lambda>cwd. op_bind (run_process env cwd argv envMap) (\<lambda>r.
      conclude_attempt env ctx (attempt_store env l) a argv r))))" for row i argv envMap
    by (intro only_fails_then deliver_stale reads_attempt unmoved_keeps conclude_stale [OF assms(1) refl assms(2)] assms(1))
  show ?thesis
    unfolding execute_attempt_body_def Let_def
    by (rule only_fails_then, rule reads_checks, rule outcome_if, rule fin, rule only_fails_then, intro keeps reads_attempt)
      (auto split: sum.split prod.split intro: fin run)
qed

section \<open>Properties\<close>

text \<open>The leases after one was given back: only the expiry of this one changes, to a reading of the clock.\<close>

definition lease_returned :: "env \<Rightarrow> attemptLease \<Rightarrow> FakeStore \<Rightarrow> FakeStore \<Rightarrow> bool" where
  "lease_returned env l s s' \<longleftrightarrow>
     (if held_lease s (al_executionID l) (al_stepID l) (leaseHolder env) (al_token l)
      then \<exists>k. leases s' = adjust (stepKey (al_executionID l) (al_stepID l)) (\<lambda>r. r\<lparr>le_ExpiresAt := rfc3339 (time_Now env k)\<rparr>) (leases s)
      else leases s' = leases s)"

text \<open>The claims after an attempt gave back its own: the active claims of every other step are the same, and the
  step holds one claim less for each path of the attempt.\<close>

definition claims_returned :: "env \<Rightarrow> attemptClaims option \<Rightarrow> FakeStore \<Rightarrow> FakeStore \<Rightarrow> bool" where
  "claims_returned env co s s' \<longleftrightarrow>
     (case co of
        None \<Rightarrow> pathClaims s' = pathClaims s
      | Some c \<Rightarrow>
          (let p = (case map_of (executions s) (ac_executionID c) of None \<Rightarrow> root env | Some x \<Rightarrow> ex_ProjectID x);
               i = ac_executionID c; t = ac_stepID c in
           others p i t (pathClaims s') = others p i t (pathClaims s) \<and>
           held p i t (pathClaims s') = held p i t (pathClaims s) - mset (ac_paths c)))"

lemma releaseAttemptLease_stale:
  assumes "map_of (activeLeases e0) (at_ID a) = Some l" "unmoved e0 e"
  shows "let e' = snd (releaseAttemptLease env a e) in activeClaims e' = activeClaims e0 \<and>
    e_store e' = (e_store e0)\<lparr>leases := leases (e_store e')\<rparr> \<and> lease_returned env l (e_store e0) (e_store e')"
  using assms by (auto simp: releaseAttemptLease_def unmoved_def timed_apply leases_Release_def lease_returned_def Let_def)

lemma release_path_rows:
  assumes "gomap (pathClaims (e_store e))"
  shows "let e' = snd (release_path env p i t lp e) in e_store e' = (e_store e)\<lparr>pathClaims := pathClaims (e_store e')\<rparr> \<and>
    gomap (pathClaims (e_store e')) \<and> held p i t (pathClaims (e_store e')) = held p i t (pathClaims (e_store e)) - {#lp#} \<and>
    others p i t (pathClaims (e_store e')) = others p i t (pathClaims (e_store e))"
proof (cases "find (\<lambda>(k, c). held_by p lp i t c) (pathClaims (e_store e))")
  case None
  then have "lp \<notin># held p i t (pathClaims (e_store e))" by (force simp: find_None_iff held_def held_by_mine)
  then show ?thesis using assms None by (simp add: release_path_def timed_apply claims_Release_def diff_single_trivial)
next
  case (Some kc)
  obtain k c where kc: "kc = (k, c)" by fastforce
  from released_rows [OF assms Some [unfolded kc]] show ?thesis
    using assms Some kc by (simp add: release_path_def timed_apply claims_Release_def)
qed

lemma release_each_rows:
  assumes "gomap (pathClaims (e_store e))"
  shows "let e' = snd (op_each (release_path env p i t) lps e) in e_store e' = (e_store e)\<lparr>pathClaims := pathClaims (e_store e')\<rparr> \<and>
    held p i t (pathClaims (e_store e')) = held p i t (pathClaims (e_store e)) - mset lps \<and>
    others p i t (pathClaims (e_store e')) = others p i t (pathClaims (e_store e))"
  using assms
proof (induction lps arbitrary: e)
  case (Cons lp lps)
  define e1 where "e1 = snd (release_path env p i t lp e)"
  have r: "release_path env p i t lp e = (Inr (), e1)" by (simp add: e1_def release_path_def timed_apply)
  have 1: "e_store e1 = (e_store e)\<lparr>pathClaims := pathClaims (e_store e1)\<rparr>" "gomap (pathClaims (e_store e1))"
    "held p i t (pathClaims (e_store e1)) = held p i t (pathClaims (e_store e)) - {#lp#}"
    "others p i t (pathClaims (e_store e1)) = others p i t (pathClaims (e_store e))"
    using release_path_rows [OF Cons.prems, of env p i t lp] by (simp_all add: Let_def e1_def)
  have n: "op_each (release_path env p i t) (lp # lps) e = op_each (release_path env p i t) lps e1" using r by (simp add: op_bind_def)
  define s2 where "s2 = e_store (snd (op_each (release_path env p i t) lps e1))"
  have 2: "s2 = (e_store e1)\<lparr>pathClaims := pathClaims s2\<rparr>" "held p i t (pathClaims s2) = held p i t (pathClaims (e_store e1)) - mset lps"
    "others p i t (pathClaims s2) = others p i t (pathClaims (e_store e1))"
    using Cons.IH [OF 1(2)] by (simp_all add: Let_def s2_def)
  have "(e_store e1)\<lparr>pathClaims := pathClaims s2\<rparr> = (e_store e)\<lparr>pathClaims := pathClaims s2\<rparr>" by (subst 1(1)) simp
  then have "s2 = (e_store e)\<lparr>pathClaims := pathClaims s2\<rparr>" using 2(1) by (rule trans [rotated])
  moreover have "held p i t (pathClaims s2) = held p i t (pathClaims (e_store e)) - mset (lp # lps)" by (simp add: 2(2) 1(3))
  ultimately show ?case using 1(4) 2(3) unfolding n Let_def s2_def by simp
qed simp

lemma releaseAttemptClaims_rows:
  assumes "gomap (pathClaims (e_store e))"
  shows "let s' = e_store (snd (releaseAttemptClaims env a e)) in s' = (e_store e)\<lparr>pathClaims := pathClaims s'\<rparr> \<and>
    claims_returned env (map_of (activeClaims e) (at_ID a)) (e_store e) s'"
proof (cases "map_of (activeClaims e) (at_ID a)")
  case None
  then show ?thesis by (simp add: releaseAttemptClaims_def claims_returned_def)
next
  case (Some c)
  let ?p = "case map_of (executions (e_store e)) (ac_executionID c) of None \<Rightarrow> root env | Some x \<Rightarrow> ex_ProjectID x"
  let ?e = "e\<lparr>activeClaims := AList.delete (at_ID a) (activeClaims e)\<rparr>"
  have "snd (releaseAttemptClaims env a e) = snd (op_each (release_path env ?p (ac_executionID c) (ac_stepID c)) (ac_paths c) ?e)"
    using Some by (auto simp: releaseAttemptClaims_def releaseClaims_def op_bind_def op_try_def st_def executions_Get_def lookup_row_def
        Let_def split: option.splits)
  then show ?thesis
    using release_each_rows [of ?e env ?p "ac_executionID c" "ac_stepID c" "ac_paths c"] assms Some
    by (simp add: Let_def claims_returned_def)
qed

lemma cleanup_stale:
  assumes "gomap (pathClaims (e_store e0))" "map_of (activeLeases e0) (at_ID a) = Some l" "unmoved e0 e"
  shows "let s = e_store e0; s' = e_store (snd (releaseAttemptClaims env a (snd (releaseAttemptLease env a e)))) in
    s' = s\<lparr>leases := leases s', pathClaims := pathClaims s'\<rparr> \<and> lease_returned env l s s' \<and>
    claims_returned env (map_of (activeClaims e0) (at_ID a)) s s'"
proof -
  define e1 where "e1 = snd (releaseAttemptLease env a e)"
  define s' where "s' = e_store (snd (releaseAttemptClaims env a e1))"
  have 1: "activeClaims e1 = activeClaims e0" "e_store e1 = (e_store e0)\<lparr>leases := leases (e_store e1)\<rparr>"
    "lease_returned env l (e_store e0) (e_store e1)"
    using releaseAttemptLease_stale [OF assms(2,3), of env] by (simp_all add: Let_def e1_def)
  have p: "pathClaims (e_store e1) = pathClaims (e_store e0)" "executions (e_store e1) = executions (e_store e0)"
    by (subst 1(2), simp)+
  have 2: "s' = (e_store e1)\<lparr>pathClaims := pathClaims s'\<rparr>" "claims_returned env (map_of (activeClaims e1) (at_ID a)) (e_store e1) s'"
    using releaseAttemptClaims_rows [of e1 env a] assms(1) p by (simp_all add: Let_def s'_def)
  have l: "leases s' = leases (e_store e1)" by (subst 2(1)) simp
  have "s' = (e_store e0)\<lparr>leases := leases s', pathClaims := pathClaims s'\<rparr>" using 1(2) 2(1) l by metis
  moreover have "lease_returned env l (e_store e0) s'" using 1(3) l by (simp add: lease_returned_def)
  moreover have "claims_returned env (map_of (activeClaims e0) (at_ID a)) (e_store e0) s'"
    using 2(2) unfolding claims_returned_def p 1(1) .
  ultimately show ?thesis by (simp add: Let_def s'_def e1_def)
qed

text \<open>C2. An attempt that lost its lease is harmless: when the lease the engine remembers for a running attempt is
  in force at no reading of the clock from now on (it was taken over, or it expired), \<^verbatim>\<open>ExecuteAttempt\<close> ends with an error, whatever the
  command did, and the store is the one before except that the attempt gives back what it has: of the leases, only that of its
  step, and only when it still bears the attempt's token, gets a new expiry; of the claims, the step holds one less for
  each path the attempt had acquired, and the active claims of all others are the same. An attempt that is not
  running, or whose lease the engine does not remember, changes nothing at all.\<close>

theorem stale_attempt_harmless:
  assumes "store_ok (e_store e)"
    "\<forall>l. map_of (activeLeases e) a = Some l \<longrightarrow>
       (\<forall>k \<ge> e_ticks e. \<not> in_force (time_Now env k)
         (NewFencedStore (al_executionID l) (al_stepID l) (leaseHolder env) (al_token l)) (e_store e))"
  shows "\<exists>err e'. ExecuteAttempt env ctx a e = (Inl err, e') \<and>
    (case (map_of (attempts (e_store e)) a, map_of (activeLeases e) a) of
       (Some att, Some l) \<Rightarrow>
         if at_Status att = ''running'' then
           e_store e' = (e_store e)\<lparr>leases := leases (e_store e'), pathClaims := pathClaims (e_store e')\<rparr> \<and>
           lease_returned env l (e_store e) (e_store e') \<and>
           claims_returned env (map_of (activeClaims e) a) (e_store e) (e_store e')
         else e' = e
     | _ \<Rightarrow> e' = e)"
proof (cases "map_of (attempts (e_store e)) a")
  case None
  then show ?thesis by (auto simp: ExecuteAttempt_def op_bind_def op_wrap_def st_def attempts_Get_def lookup_row_def)
next
  case (Some att)
  then have id: "at_ID att = a" using assms(1) by (auto simp: store_ok_def attempts_ok_def dest: rowsD)
  have get: "op_wrap ''get attempt'' (st (attempts_Get a)) e = (Inr att, e)"
    using Some by (simp add: op_wrap_def st_def attempts_Get_def lookup_row_def)
  show ?thesis
  proof (cases "at_Status att = ''running'' \<and> map_of (activeLeases e) a \<noteq> None")
    case False
    then show ?thesis using get id Some
      by (auto simp: ExecuteAttempt_def op_bind_def fencedStoreForAttempt_def split: option.split)
  next
    case True
    then obtain l where l: "map_of (activeLeases e) (at_ID att) = Some l" using id by auto
    then have st: "stale env e (attempt_store env l)" using assms(2) id by (simp add: stale_def attempt_store_def)
    let ?b = "execute_attempt_body env ctx att (attempt_store env l)"
    have x: "ExecuteAttempt env ctx a e = op_finally (op_finally ?b (releaseAttemptLease env att)) (releaseAttemptClaims env att) e"
      using get True l by (simp add: ExecuteAttempt_def op_bind_def fencedStoreForAttempt_def attempt_store_def)
    have u: "unmoved e e" by (simp add: unmoved_def)
    from execute_body_stale [OF st l] u obtain err e1 where b: "?b e = (Inl err, e1)" "unmoved e e1"
      unfolding outcome_def by (metis prod.collapse sumE)
    have "gomap (pathClaims (e_store e))" using assms(1) by (simp add: store_ok_def claims_ok_def)
    from cleanup_stale [OF this l b(2), of env] show ?thesis
      using x b(1) True l id Some by (simp add: op_finally_def Let_def)
  qed
qed

theorem stale_attempt_harmless_witness:
  "\<exists>err e'. ExecuteAttempt demo_env (\<lambda>_. None) ''uuu'' demo_stolen = (Inl err, e') \<and> attempts (e_store e') = attempts (e_store demo_stolen)"
proof -
  obtain a where "fst (StartStep demo_env ''u'' ''prep'' '''' demo_created) = Inr a" and id: "at_ID a = ''uuu''"
    using map_sum_InrD [OF demo_started_attempt] by auto
  then have "StartStep demo_env ''u'' ''prep'' '''' demo_created = (Inr a, demo_started)" by (simp add: demo_started_def prod_eq_iff)
  from started_lease [OF this] id obtain n where n: "held_lease (e_store demo_started) ''u'' ''prep'' ''h'' n"
    "map_of (activeLeases demo_started) ''uuu'' = Some \<lparr>al_executionID = ''u'', al_stepID = ''prep'', al_token = n\<rparr>"
    by (auto simp: demo_env_def)
  have "leaseHolder demo_env = ''h''" by (simp add: demo_env_def)
  then have 2: "\<forall>l. map_of (activeLeases demo_stolen) ''uuu'' = Some l \<longrightarrow> (\<forall>k \<ge> e_ticks demo_stolen. \<not> in_force (time_Now demo_env k)
      (NewFencedStore (al_executionID l) (al_stepID l) (leaseHolder demo_env) (al_token l)) (e_store demo_stolen))"
    using n by (auto simp: demo_stolen_def held_lease_def in_force_def NewFencedStore_def leases_Acquire_def Let_def split: option.splits)
  have "engine_step demo_env demo_created demo_started" unfolding demo_started_def by (rule engine_step.start)
  then have "store_ok (e_store demo_started)" using integrity.engine_step demo_ok(1) by blast
  then have 1: "store_ok (e_store demo_stolen)" unfolding demo_stolen_def by (auto intro: keepsD keeps)
  have a: "attempts s' = attempts s" if "s' = s\<lparr>leases := l, pathClaims := c\<rparr>" for s s' :: FakeStore and l c using that by simp
  from stale_attempt_harmless [OF 1 2, of "\<lambda>_. None"] show ?thesis
    apply (elim exE conjE)
    subgoal for err e' by (intro exI [of _ err] exI [of _ e']) (auto split: option.splits if_splits dest: a)
    done
qed

end
