(* ===== verification/Json_Text.thy ===== *)
theory Json_Text
  imports Json
begin

text \<open>
  \<^verbatim>\<open>json.Marshal\<close> of a JSON value, and \<^verbatim>\<open>json.Decoder\<close> on its text. The
  general round trip: the decoder reads back every value that nests within its limit, with
  malformed bytes of strings replaced, and stops exactly where the text ends.
\<close>

section \<open>Marshal\<close>

fun json_text :: "json \<Rightarrow> string" where
  "json_text JNull = ''null''"
| "json_text (JBool b) = (if b then ''true'' else ''false'')"
| "json_text (JNum s) = s"
| "json_text (JStr s) = json_string s"
| "json_text (JArr vs) = CHR ''['' # join_with '','' (map json_text vs) @ '']''"
| "json_text (JObj kvs) = CHR ''{'' # join_with '','' (map (\<lambda>(k, v). json_string k @ CHR '':'' # json_text v) kvs) @ ''}''"

definition number_text :: "string \<Rightarrow> bool" where
  "number_text s \<longleftrightarrow> json_number s = Some (s, [])"

text \<open>Values whose numbers are numbers and that nest at most \<open>d\<close> deep.\<close>

fun json_fits :: "nat \<Rightarrow> json \<Rightarrow> bool" where
  "json_fits d (JNum s) = number_text s"
| "json_fits d (JArr vs) = (0 < d \<and> list_all (json_fits (d - 1)) vs)"
| "json_fits d (JObj kvs) = (0 < d \<and> list_all (\<lambda>(k, v). json_fits (d - 1) v) kvs)"
| "json_fits d _ = True"

lemma json_fits_mono: "json_fits d v \<Longrightarrow> d \<le> d' \<Longrightarrow> json_fits d' v"
proof (induction v arbitrary: d d')
  case (JArr vs)
  then show ?case by (auto simp: list_all_iff)
next
  case (JObj kvs)
  then show ?case by (fastforce simp: list_all_iff)
qed simp_all

text \<open>What the decoder makes of malformed UTF-8.\<close>

definition utf8 :: "string \<Rightarrow> string" where
  "utf8 s = concat (runes s)"

fun json_utf8 :: "json \<Rightarrow> json" where
  "json_utf8 (JStr s) = JStr (utf8 s)"
| "json_utf8 (JArr vs) = JArr (map json_utf8 vs)"
| "json_utf8 (JObj kvs) = JObj (map (\<lambda>(k, v). (utf8 k, json_utf8 v)) kvs)"
| "json_utf8 v = v"

section \<open>Numbers\<close>

text \<open>A text that does not continue a number.\<close>

definition number_ends :: "string \<Rightarrow> bool" where
  "number_ends t = (case t of [] \<Rightarrow> True | c # _ \<Rightarrow> \<not> json_digit c \<and> c \<noteq> CHR ''.'' \<and> c \<noteq> CHR ''e'' \<and> c \<noteq> CHR ''E'')"

lemma while_append:
  assumes "t = [] \<or> \<not> P (hd t)"
  shows "takeWhile P (s @ t) = takeWhile P s" "dropWhile P (s @ t) = dropWhile P s @ t"
  using assms by (induction s; cases t; simp)+

lemma digits1_append:
  assumes "digits1 s = Some (ds, r)" "number_ends t"
  shows "digits1 (s @ t) = Some (ds, r @ t)"
proof -
  have "t = [] \<or> \<not> json_digit (hd t)" using assms(2) by (auto simp: number_ends_def split: list.splits)
  with assms(1) show ?thesis by (auto simp: digits1_def while_append split: list.splits)
qed

lemma integer_part_append:
  "integer_part s = Some (i, r) \<Longrightarrow> number_ends t \<Longrightarrow> integer_part (s @ t) = Some (i, r @ t)"
  using digits1_append [of s i r t] by (auto simp: integer_part_def split: list.splits if_splits)

lemma optional_part_append:
  assumes "optional_part mark sign s = (f, r)" "number_ends t" "r = [] \<or> \<not> mark (hd r) \<or> f \<noteq> []"
    "\<And>c. mark c \<Longrightarrow> c \<in> {CHR ''.'', CHR ''e'', CHR ''E''}"
  shows "optional_part mark sign (s @ t) = (f, r @ t)"
proof (cases s)
  case Nil
  then show ?thesis using assms(1,2,4) by (auto simp: optional_part_def number_ends_def split: list.splits)
next
  case (Cons c q)
  show ?thesis
  proof (cases "mark c \<and> f \<noteq> []")
    case True
    let ?sg = "\<lambda>q. case q of d # _ \<Rightarrow> if sign d then [d] else [] | [] \<Rightarrow> []"
    obtain ds r' where d: "digits1 (drop (length (?sg q)) q) = Some (ds, r')" "f = c # ?sg q @ ds" "r = r'"
      using assms(1) True Cons by (auto simp: optional_part_def Let_def split: option.splits)
    moreover have q: "q \<noteq> []" using d(1) by (auto simp: digits1_def split: list.splits)
    then have "?sg (q @ t) = ?sg q" "drop (length (?sg q)) (q @ t) = drop (length (?sg q)) q @ t"
      by (auto split: list.splits)
    ultimately show ?thesis
      using True Cons digits1_append [OF d(1) assms(2)] by (simp add: optional_part_def Let_def)
  next
    case False
    then show ?thesis using assms(1,3) Cons by (auto simp: optional_part_def Let_def split: option.splits prod.splits if_splits)
  qed
qed

lemma optional_part_rest: "optional_part mark sign s = (f, r) \<Longrightarrow> f = [] \<Longrightarrow> r = s"
  by (auto simp: optional_part_def Let_def split: list.splits option.splits if_splits)

lemma json_number_append:
  assumes "number_text s" "number_ends t"
  shows "json_number (s @ t) = Some (s, t)"
proof -
  let ?m = "\<lambda>s. case s of c # _ \<Rightarrow> if c = CHR ''-'' then [c] else [] | [] \<Rightarrow> []"
  obtain i r1 where i: "integer_part (drop (length (?m s)) s) = Some (i, r1)"
    using assms(1) by (auto simp: number_text_def json_number_def Let_def split: option.splits)
  obtain f r2 where f: "optional_part (\<lambda>c. c = CHR ''.'') (\<lambda>_. False) r1 = (f, r2)" by fastforce
  let ?E = "optional_part (\<lambda>c. c = CHR ''e'' \<or> c = CHR ''E'') (\<lambda>c. c = CHR ''+'' \<or> c = CHR ''-'')"
  obtain e r3 where e: "?E r2 = (e, r3)" by fastforce
  have s: "s = ?m s @ i @ f @ e" "r3 = []"
    using assms(1) i f e by (auto simp: number_text_def json_number_def Let_def)
  have ne: "s \<noteq> []" using i by (auto simp: integer_part_def)
  have 1: "integer_part (drop (length (?m (s @ t))) (s @ t)) = Some (i, r1 @ t)" "?m (s @ t) = ?m s"
    using integer_part_append [OF i assms(2)] ne by (auto split: list.splits)
  have "r2 = [] \<or> hd r2 \<noteq> CHR ''.'' \<or> f \<noteq> []"
    using e s(2) by (auto simp: optional_part_def split: list.splits if_splits)
  then have 2: "optional_part (\<lambda>c. c = CHR ''.'') (\<lambda>_. False) (r1 @ t) = (f, r2 @ t)"
    using optional_part_append [OF f assms(2)] by auto
  have 3: "?E (r2 @ t) = (e, t)"
    using optional_part_append [OF e assms(2)] s(2) by auto
  show ?thesis using 1 2 3 s(1) by (simp add: json_number_def Let_def)
qed


section \<open>The round trip\<close>

lemma number_text_Cons:
  assumes "number_text s"
  obtains c r where "s = c # r" "c = CHR ''-'' \<or> json_digit c"
proof -
  have "json_number s \<noteq> None" using assms by (simp add: number_text_def)
  then obtain c r where s: "s = c # r" by (cases s) (auto simp: json_number_def integer_part_def)
  with assms have "c = CHR ''-'' \<or> json_digit c"
    by (auto simp: number_text_def json_number_def Let_def integer_part_def digits1_def json_digit_def in_range_def byte_def
      split: if_splits option.splits list.splits)
  with s that show ?thesis by blast
qed

lemma json_value_number:
  assumes "number_text s" "number_ends t"
  shows "json_value (Suc n) d (s @ t) = Some (JNum s, t)"
proof -
  obtain c r where s: "s = c # r" "c = CHR ''-'' \<or> json_digit c" using number_text_Cons [OF assms(1)] .
  then have "\<not> json_space c" "c \<notin> {CHR 0x22, CHR ''['', CHR ''{'', CHR ''t'', CHR ''f'', CHR ''n''}"
    by (auto simp: json_space_def json_digit_def in_range_def byte_def)
  then have "json_value (Suc n) d (s @ t) = map_option (apfst JNum) (json_number (s @ t))"
    by (auto simp: s(1) skip_space_def)
  then show ?thesis using json_number_append [OF assms] by simp
qed

lemma json_text_Cons: "json_fits d v \<Longrightarrow> \<exists>c r. json_text v = c # r \<and> \<not> json_space c \<and> c \<noteq> CHR '']'' \<and> c \<noteq> CHR ''}''"
proof (cases v)
  case (JNum s)
  assume "json_fits d v"
  then obtain c r where "s = c # r" "c = CHR ''-'' \<or> json_digit c" using JNum number_text_Cons [of s] by auto
  then show ?thesis using JNum by (auto simp: json_space_def json_digit_def in_range_def byte_def)
qed (auto simp: json_string_def json_space_def)

lemma skip_space_Cons: "\<not> json_space c \<Longrightarrow> skip_space (c # s) = c # s"
  by (simp add: skip_space_def)

lemma skip_space_json_text [simp]: "json_fits d v \<Longrightarrow> skip_space (json_text v @ t) = json_text v @ t"
  using json_text_Cons [of d v] by (auto simp: skip_space_def)

lemma skip_space_more [simp]:
  "skip_space (CHR ''{'' # s) = CHR ''{'' # s" "skip_space (CHR ''}'' # s) = CHR ''}'' # s" "skip_space (CHR '':'' # s) = CHR '':'' # s"
  by (simp_all add: skip_space_def json_space_def)

lemma number_ends_simps [simp]:
  "number_ends []" "number_ends (CHR '','' # t)" "number_ends (CHR '']'' # t)" "number_ends (CHR ''}'' # t)"
  by (simp_all add: number_ends_def json_digit_def in_range_def byte_def)

definition reads_back :: "json \<Rightarrow> bool" where
  "reads_back v \<longleftrightarrow> (\<forall>n d t. json_fits d v \<longrightarrow> length (json_text v) < n \<longrightarrow> number_ends t \<longrightarrow>
     json_value n d (json_text v @ t) = Some (json_utf8 v, t))"

abbreviation json_member :: "string \<times> json \<Rightarrow> string" where
  "json_member \<equiv> \<lambda>(k, v). json_string k @ CHR '':'' # json_text v"

lemma json_elems_text:
  assumes "vs \<noteq> []" "\<forall>v \<in> set vs. reads_back v \<and> json_fits d v" "length (join_with '','' (map json_text vs)) + 1 < n"
  shows "json_elems n d (join_with '','' (map json_text vs) @ CHR '']'' # t) = Some (map json_utf8 vs, t)"
  using assms
proof (induction vs arbitrary: n)
  case (Cons v vs)
  then obtain m where n: "n = Suc m" by (cases n) auto
  have v: "json_value m d (json_text v @ u) = Some (json_utf8 v, u)" if "number_ends u" for u
    using Cons.prems n that by (auto simp: reads_back_def join_with_Cons)
  show ?case
  proof (cases vs)
    case Nil
    then show ?thesis using n v [of "CHR '']'' # t"] by simp
  next
    case (Cons w ws)
    have "length (join_with '','' (map json_text vs)) + 1 < m" using Cons.prems(3) n Cons by (simp add: join_with_Cons)
    then show ?thesis using n v Cons.IH [of m] Cons.prems Cons by (simp add: join_with_Cons)
  qed
qed simp

lemma json_fields_text:
  assumes "kvs \<noteq> []" "\<forall>(k, v) \<in> set kvs. reads_back v \<and> json_fits d v" "length (join_with '','' (map json_member kvs)) + 1 < n"
  shows "json_fields n d (join_with '','' (map json_member kvs) @ CHR ''}'' # t) = Some (map (\<lambda>(k, v). (utf8 k, json_utf8 v)) kvs, t)"
  using assms
proof (induction kvs arbitrary: n)
  case (Cons kv kvs)
  obtain k v where kv: "kv = (k, v)" by fastforce
  obtain m where n: "n = Suc m" using Cons.prems by (cases n) auto
  have v: "json_value m d (json_text v @ u) = Some (json_utf8 v, u)" if "number_ends u" for u
    using Cons.prems n that kv by (auto simp: reads_back_def join_with_Cons)
  have k: "json_body (json_chars k @ CHR 0x22 # u) = Some (utf8 k, u)" for u by (simp add: json_body_chars utf8_def)
  show ?case
  proof (cases kvs)
    case Nil
    then show ?thesis using n v [of "CHR ''}'' # t"] k by (simp add: kv json_string_def)
  next
    case (Cons w ws)
    have "length (join_with '','' (map json_member kvs)) + 1 < m" using Cons.prems(3) n Cons kv by (simp add: join_with_Cons)
    then show ?thesis using n v k Cons.IH [of m] Cons.prems Cons by (simp add: join_with_Cons kv json_string_def)
  qed
qed simp

lemma json_value_text: "reads_back v"
proof (induction v)
  case (JArr vs)
  show ?case unfolding reads_back_def
  proof (intro allI impI)
    fix n d t
    assume a: "json_fits d (JArr vs)" "length (json_text (JArr vs)) < n" "number_ends t"
    then obtain m where n: "n = Suc m" by (cases n) auto
    show "json_value n d (json_text (JArr vs) @ t) = Some (json_utf8 (JArr vs), t)"
    proof (cases vs)
      case Nil
      then show ?thesis using n a by simp
    next
      case (Cons w ws)
      have f: "\<forall>v \<in> set vs. reads_back v \<and> json_fits (d - 1) v" "0 < d" using JArr a(1) by (auto simp: list_all_iff)
      have e: "json_elems m (d - 1) (join_with '','' (map json_text vs) @ CHR '']'' # t) = Some (map json_utf8 vs, t)"
        using f a(2) n Cons by (intro json_elems_text) auto
      obtain c r where "json_text w = c # r" "\<not> json_space c" "c \<noteq> CHR '']''"
        using f(1) Cons json_text_Cons [of "d - 1" w] by auto
      then show ?thesis using n f(2) e Cons by (simp add: join_with_Cons skip_space_Cons)
    qed
  qed
next
  case (JObj kvs)
  show ?case unfolding reads_back_def
  proof (intro allI impI)
    fix n d t
    assume a: "json_fits d (JObj kvs)" "length (json_text (JObj kvs)) < n" "number_ends t"
    then obtain m where n: "n = Suc m" by (cases n) auto
    show "json_value n d (json_text (JObj kvs) @ t) = Some (json_utf8 (JObj kvs), t)"
    proof (cases kvs)
      case Nil
      then show ?thesis using n a by simp
    next
      case (Cons w ws)
      have f: "\<forall>(k, v) \<in> set kvs. reads_back v \<and> json_fits (d - 1) v" "0 < d" using JObj a(1) by (fastforce simp: list_all_iff)+
      have e: "json_fields m (d - 1) (join_with '','' (map json_member kvs) @ CHR ''}'' # t) = Some (map (\<lambda>(k, v). (utf8 k, json_utf8 v)) kvs, t)"
        using f a(2) n Cons by (intro json_fields_text) auto
      then show ?thesis using n f(2) Cons by (auto simp: join_with_Cons json_string_def split: prod.splits)
    qed
  qed
next
  case (JNum s)
  show ?case unfolding reads_back_def
  proof (intro allI impI)
    fix n d t
    assume "json_fits d (JNum s)" "length (json_text (JNum s)) < n" "number_ends t"
    then show "json_value n d (json_text (JNum s) @ t) = Some (json_utf8 (JNum s), t)"
      using json_value_number [of s t "n - 1" d] by (cases n) auto
  qed
next
  case (JStr s)
  show ?case unfolding reads_back_def
  proof (intro allI impI)
    fix n d t
    assume "length (json_text (JStr s)) < n"
    then show "json_value n d (json_text (JStr s) @ t) = Some (json_utf8 (JStr s), t)"
      using json_value_string [of "n - 1" d s t] by (cases n) (auto simp: utf8_def)
  qed
next
  case JNull
  show ?case by (auto simp: reads_back_def gr0_conv_Suc literal_def dest!: less_imp_Suc_add)
next
  case (JBool b)
  show ?case by (auto simp: reads_back_def gr0_conv_Suc literal_def skip_space_def json_space_def dest!: less_imp_Suc_add)
qed

lemma json_parse_text:
  assumes "json_fits 10000 v"
  shows "json_parse (json_text v) = Some (json_utf8 v)"
proof -
  have "length (json_text v) < 2 * length (json_text v) + 2" by simp
  then have "json_value (2 * length (json_text v) + 2) 10000 (json_text v @ []) = Some (json_utf8 v, [])"
    using json_value_text [of v] assms number_ends_simps(1) unfolding reads_back_def by blast
  then show ?thesis by (simp only: json_parse_def append_Nil2) simp
qed

text \<open>Marshalled text has no control characters; so a newline can end it.\<close>

lemma wide_rune_bytes:
  assumes "n = rune_width (a # s)" "n \<noteq> 0" "n \<noteq> 1" "c \<in> set (take n (a # s))"
  shows "0x80 \<le> byte c"
proof -
  have a: "0x80 \<le> byte a" using assms(1,3) rune_width_ascii [of a s] by linarith
  obtain b s1 where s: "s = b # s1" using assms(1,2) a by (cases s) auto
  show ?thesis
  proof (cases "in_range 0xC2 0xDF a")
    case True
    then have "n = 2" "continuation b" using assms(1,2) a by (auto simp: s split: if_splits)
    then show ?thesis using assms(4) a by (auto simp: s continuation_def in_range_def)
  next
    case 1: False
    then obtain d s2 where s1: "s1 = d # s2" using assms(1,2) a s by (cases s1) auto
    show ?thesis
    proof (cases "in_range 0xE0 0xEF a")
      case True
      then have "n = 3" "continuation d" "0x80 \<le> byte b"
        using 1 assms(1,2) a by (auto simp: s s1 in_range_def split: if_splits)
      then show ?thesis using assms(4) a by (auto simp: s s1 continuation_def in_range_def)
    next
      case 2: False
      then obtain e s3 where s2: "s2 = e # s3" using 1 assms(1,2) a s s1 by (cases s2) auto
      then have "n = 4" "continuation d" "continuation e" "0x80 \<le> byte b"
        using 1 2 assms(1,2) a by (auto simp: s s1 in_range_def split: if_splits)
      then show ?thesis using assms(4) a by (auto simp: s s1 s2 continuation_def in_range_def)
    qed
  qed
qed

definition printed :: "string \<Rightarrow> bool" where
  "printed s \<longleftrightarrow> (\<forall>c \<in> set s. 32 \<le> byte c)"

lemma printed_simps [simp]:
  "printed []" "printed (c # s) \<longleftrightarrow> 32 \<le> byte c \<and> printed s" "printed (s @ t) \<longleftrightarrow> printed s \<and> printed t"
  by (auto simp: printed_def)

lemma byte_simps [simp]: "byte (CHR 0x0A) = 10" "byte (CHR 0x5C) = 92" "byte (CHR 0x22) = 34" "byte (CHR '','') = 44"
  "byte (CHR ''u'') = 117" "byte (CHR '':'') = 58"
  by (simp_all add: byte_def)

lemma printed_hex: "d < 16 \<Longrightarrow> 32 \<le> byte (hex_digit d)"
  by (simp add: byte_def hex_digit_def)

lemma printed_escape: "printed (escape_u n)"
  by (simp add: escape_u_def hex4_def printed_hex)

lemma printed_ascii: "printed (json_ascii c)"
proof (cases "byte c < 32")
  case False
  then show ?thesis by (simp add: json_ascii_def printed_escape) (simp add: byte_def)
qed (simp add: json_ascii_def printed_escape, simp add: byte_def)

lemma printed_chars: "printed (json_chars s)"
proof (induction s rule: json_chars.induct)
  case (2 a s)
  define n where "n = rune_width (a # s)"
  have "printed (take n (a # s))" if "n \<noteq> 0" "n \<noteq> 1"
    using wide_rune_bytes [OF n_def that] by (fastforce simp: printed_def)
  then show ?case using 2 printed_escape printed_ascii
    by (simp add: Let_def flip: n_def del: rune_width.simps)
qed simp

lemma printed_join: "(\<forall>w \<in> set ws. printed w) \<Longrightarrow> printed (join_with '','' ws)"
  by (induction "'',''" ws rule: join_with.induct) auto

lemma printed_while: "(\<And>c. P c \<Longrightarrow> 32 \<le> byte c) \<Longrightarrow> printed (takeWhile P s)"
  by (auto simp: printed_def dest: set_takeWhileD)

definition number_char :: "char \<Rightarrow> bool" where
  "number_char c \<longleftrightarrow> json_digit c \<or> c \<in> {CHR ''-'', CHR ''+'', CHR ''.'', CHR ''e'', CHR ''E''}"

lemma number_chars:
  assumes "number_text s"
  shows "list_all number_char s"
proof -
  have zero: "number_char (CHR ''0'')" by (simp add: number_char_def json_digit_def in_range_def byte_def)
  have d: "list_all number_char (takeWhile json_digit q)" for q
    by (auto simp: list_all_iff number_char_def dest: set_takeWhileD)
  have i: "list_all number_char i" if "integer_part q = Some (i, r)" for q i r
    using that d [of q] zero by (auto simp: integer_part_def digits1_def split: list.splits if_splits)
  have o: "list_all number_char f" if "optional_part mark sign q = (f, r)" "\<And>c. mark c \<or> sign c \<Longrightarrow> number_char c" for mark sign q f r
  proof (cases q)
    case (Cons c p)
    let ?sg = "case p of d # _ \<Rightarrow> if sign d then [d] else [] | [] \<Rightarrow> []"
    have "list_all number_char ?sg" using that(2) by (auto split: list.splits)
    moreover have "list_all number_char ds" if "digits1 (drop (length ?sg) p) = Some (ds, r')" for ds r'
      using that d [of "drop (length ?sg) p"] by (auto simp: digits1_def split: list.splits)
    ultimately show ?thesis
      using that Cons by (auto simp: optional_part_def Let_def split: if_splits option.splits)
  qed (use that in \<open>simp add: optional_part_def\<close>)
  let ?m = "case s of c # _ \<Rightarrow> if c = CHR ''-'' then [c] else [] | [] \<Rightarrow> []"
  let ?F = "optional_part (\<lambda>c. c = CHR ''.'') (\<lambda>_. False)"
  let ?E = "optional_part (\<lambda>c. c = CHR ''e'' \<or> c = CHR ''E'') (\<lambda>c. c = CHR ''+'' \<or> c = CHR ''-'')"
  obtain i r1 where 1: "integer_part (drop (length ?m) s) = Some (i, r1)"
    using assms by (auto simp: number_text_def json_number_def Let_def split: option.splits)
  obtain f r2 where 2: "?F r1 = (f, r2)" by fastforce
  obtain e r3 where 3: "?E r2 = (e, r3)" by fastforce
  define m where "m = ?m"
  have s: "s = m @ i @ f @ e"
    using assms 1 2 3 by (auto simp: number_text_def json_number_def Let_def m_def)
  have "list_all number_char m" by (auto simp: number_char_def m_def split: list.splits)
  moreover have "list_all number_char f" by (rule o [OF 2]) (auto simp: number_char_def)
  moreover have "list_all number_char e" by (rule o [OF 3]) (auto simp: number_char_def)
  ultimately show ?thesis unfolding s using i [OF 1] by simp
qed

lemma number_char_bytes: "number_char c \<Longrightarrow> 43 \<le> byte c \<and> byte c \<le> 101 \<and> \<not> is_space c \<and> c \<noteq> CHR 0x22"
  by (auto simp: number_char_def json_digit_def in_range_def byte_def is_space_def)

lemma printed_number: "number_text s \<Longrightarrow> printed s"
  using number_chars number_char_bytes by (fastforce simp: printed_def list_all_iff)

lemma printed_text: "json_fits d v \<Longrightarrow> printed (json_text v)"
proof (induction v arbitrary: d)
  case (JArr vs)
  then have "printed (join_with '','' (map json_text vs))" by (intro printed_join) (auto simp: list_all_iff)
  then show ?case by (simp add: byte_def)
next
  case (JObj kvs)
  then have "printed (join_with '','' (map json_member kvs))"
    by (intro printed_join) (fastforce simp: list_all_iff json_string_def printed_chars)
  then show ?case by (simp add: byte_def)
qed (simp_all add: printed_number json_string_def printed_chars, simp_all add: byte_def)

lemma no_newline: "printed s \<Longrightarrow> CHR 0x0A \<notin> set s"
  by (auto simp: printed_def)

section \<open>Objects\<close>

text \<open>The members of an object with the text of each value, a \<^verbatim>\<open>json.RawMessage\<close>.\<close>

definition json_span :: "string \<Rightarrow> string \<Rightarrow> string" where
  "json_span s r = take (length s - length r) s"

fun json_members :: "nat \<Rightarrow> nat \<Rightarrow> string \<Rightarrow> ((string \<times> string) list \<times> string) option" where
  "json_members 0 d s = None"
| "json_members (Suc n) d s =
     (case skip_space s of
        [] \<Rightarrow> None
      | q # r \<Rightarrow>
          if q \<noteq> CHR 0x22 then None
          else
            (case json_body r of
               None \<Rightarrow> None
             | Some (k, r) \<Rightarrow>
                 (case skip_space r of
                    [] \<Rightarrow> None
                  | c # r \<Rightarrow>
                      if c \<noteq> CHR '':'' then None
                      else
                        (case json_value n d r of
                           None \<Rightarrow> None
                         | Some (v, r') \<Rightarrow>
                             (case skip_space r' of
                                [] \<Rightarrow> None
                              | c # r'' \<Rightarrow>
                                  if c = CHR ''}'' then Some ([(k, json_span (skip_space r) r')], r'')
                                  else if c = CHR '',''
                                  then map_option (apfst ((#) (k, json_span (skip_space r) r'))) (json_members n d r'')
                                  else None)))))"

definition object_members :: "string \<Rightarrow> (string \<times> string) list option" where
  "object_members s =
     (case skip_space s of
        [] \<Rightarrow> None
      | c # r \<Rightarrow>
          if c \<noteq> CHR ''{'' then None
          else
            (case skip_space r of
               [] \<Rightarrow> None
             | c' # r' \<Rightarrow> if c' = CHR ''}'' then Some [] else map_option fst (json_members (2 * length s + 2) 9999 (c' # r'))))"

lemma json_span_append [simp]: "json_span (s @ t) t = s"
  by (simp add: json_span_def)

lemma json_members_text:
  assumes "kvs \<noteq> []" "\<forall>(k, v) \<in> set kvs. json_fits d v" "length (join_with '','' (map json_member kvs)) + 1 < n"
  shows "json_members n d (join_with '','' (map json_member kvs) @ CHR ''}'' # t) = Some (map (\<lambda>(k, v). (utf8 k, json_text v)) kvs, t)"
  using assms
proof (induction kvs arbitrary: n)
  case (Cons kv kvs)
  obtain k v where kv: "kv = (k, v)" by fastforce
  obtain m where n: "n = Suc m" using Cons.prems by (cases n) auto
  have f: "json_fits d v" using Cons.prems kv by simp
  have v: "json_value m d (json_text v @ u) = Some (json_utf8 v, u)" if "number_ends u" for u
    using Cons.prems n that kv json_value_text [of v] by (auto simp: reads_back_def join_with_Cons)
  have k: "json_body (json_chars k @ CHR 0x22 # u) = Some (utf8 k, u)" for u by (simp add: json_body_chars utf8_def)
  show ?case
  proof (cases kvs)
    case Nil
    then show ?thesis using n v [of "CHR ''}'' # t"] k f by (simp add: kv json_string_def)
  next
    case (Cons w ws)
    have "length (join_with '','' (map json_member kvs)) + 1 < m" using Cons.prems(3) n Cons kv by (simp add: join_with_Cons)
    then show ?thesis using n v k f Cons.IH [of m] Cons.prems Cons by (simp add: join_with_Cons kv json_string_def)
  qed
qed simp

lemma object_members_text:
  assumes "json_fits 10000 (JObj kvs)"
  shows "object_members (json_text (JObj kvs)) = Some (map (\<lambda>(k, v). (utf8 k, json_text v)) kvs)"
proof (cases kvs)
  case Nil
  then show ?thesis by (simp add: object_members_def)
next
  case (Cons kv ws)
  obtain k v where kv: "kv = (k, v)" by fastforce
  let ?b = "join_with '','' (map json_member kvs)"
  have "json_members (2 * length (json_text (JObj kvs)) + 2) 9999 (?b @ CHR ''}'' # []) = Some (map (\<lambda>(k, v). (utf8 k, json_text v)) kvs, [])"
    by (rule json_members_text) (use assms Cons in \<open>auto simp: list_all_iff\<close>)
  moreover obtain r where "?b = CHR 0x22 # r" using Cons kv by (simp add: join_with_Cons json_string_def)
  ultimately show ?thesis by (simp add: object_members_def)
qed

text \<open>The names of struct fields: an exact match, else the first field that is equal up to case. The
  long s and the Kelvin sign fold to ASCII letters.\<close>

definition fold_rune :: "string \<Rightarrow> string" where
  "fold_rune r =
     (case r of
        [c] \<Rightarrow> if in_range 97 122 c then [char_of (byte c - 32)] else [c]
      | _ \<Rightarrow> if map byte r = [0xC5, 0xBF] then ''S'' else if map byte r = [0xE2, 0x84, 0xAA] then ''K'' else r)"

definition fold_name :: "string \<Rightarrow> string" where
  "fold_name s = concat (map fold_rune (runes s))"

definition match_field :: "string list \<Rightarrow> string \<Rightarrow> string option" where
  "match_field names k = (if k \<in> set names then Some k else find (\<lambda>n. fold_name n = fold_name k) names)"

text \<open>Decoding the text of a value into a Go \<^verbatim>\<open>string\<close>, \<^verbatim>\<open>int\<close> or \<^verbatim>\<open>bool\<close>: a value of
  another type is an error, \<^verbatim>\<open>null\<close> is \<open>None\<close>.\<close>

definition decode_string :: "string \<Rightarrow> unit + string option" where
  "decode_string raw = (case json_parse raw of Some (JStr s) \<Rightarrow> Inr (Some s) | Some JNull \<Rightarrow> Inr None | _ \<Rightarrow> Inl ())"

definition decode_bool :: "string \<Rightarrow> unit + bool option" where
  "decode_bool raw = (case json_parse raw of Some (JBool b) \<Rightarrow> Inr (Some b) | Some JNull \<Rightarrow> Inr None | _ \<Rightarrow> Inl ())"

definition digits_value :: "string \<Rightarrow> int" where
  "digits_value ds = fold (\<lambda>c n. n * 10 + int (byte c - 48)) ds 0"

text \<open>\<^verbatim>\<open>strconv.ParseInt(s, 10, 64)\<close> on a JSON number.\<close>

definition parse_int64 :: "string \<Rightarrow> int option" where
  "parse_int64 s =
     (let (neg, ds) = (case s of c # r \<Rightarrow> if c = CHR ''-'' then (True, r) else (False, s) | [] \<Rightarrow> (False, []));
          n = (if neg then - digits_value ds else digits_value ds)
      in if ds \<noteq> [] \<and> list_all json_digit ds \<and> - (2 ^ 63) \<le> n \<and> n < 2 ^ 63 then Some n else None)"

definition decode_int :: "string \<Rightarrow> unit + int option" where
  "decode_int raw =
     (case json_parse raw of
        Some (JNum s) \<Rightarrow> (case parse_int64 s of Some n \<Rightarrow> Inr (Some n) | None \<Rightarrow> Inl ())
      | Some JNull \<Rightarrow> Inr None
      | _ \<Rightarrow> Inl ())"

section \<open>Trimming\<close>

lemma pieces_ascii: "byte a < 0x80 \<Longrightarrow> pieces (a # s) = [a] # pieces s"
  by simp

lemma last_piece: "s \<noteq> [] \<Longrightarrow> byte (last s) < 0x80 \<Longrightarrow> pieces s \<noteq> [] \<and> last (pieces s) = [last s]"
proof (induction s rule: pieces.induct)
  case (2 a s)
  define n where "n = max 1 (rune_width (a # s))"
  have p: "pieces (a # s) = take n (a # s) # pieces (drop n (a # s))" by (simp add: n_def Let_def)
  show ?case
  proof (cases "drop n (a # s) = []")
    case False
    then have "last (drop n (a # s)) = last (a # s)" by (intro last_drop) (simp add: not_le)
    then show ?thesis using "2.IH" [OF n_def False] "2.prems" p by simp
  next
    case True
    then have t: "take n (a # s) = a # s" by simp
    have "n = 1"
    proof (rule ccontr)
      assume "n \<noteq> 1"
      then have "n = rune_width (a # s)" "n \<noteq> 0" by (auto simp: n_def max_def split: if_splits)
      from wide_rune_bytes [OF this \<open>n \<noteq> 1\<close>, of "last (a # s)"] t show False using "2.prems"(2) by (metis last_in_set linorder_not_less list.distinct(1))
    qed
    then show ?thesis using True t p by simp
  qed
qed simp

lemma concat_pieces: "concat (pieces s) = s"
  by (induction s rule: pieces.induct) (simp_all add: Let_def del: rune_width.simps)

lemma TrimSpace_id:
  assumes "s \<noteq> []" "byte (hd s) < 0x80" "byte (last s) < 0x80" "\<not> is_space (hd s)" "\<not> is_space (last s)"
  shows "TrimSpace s = s"
proof -
  have "length x \<noteq> 1" if "x \<in> set wide_spaces" for x using that by (auto simp: wide_spaces_def)
  then have w: "\<not> space_rune [c]" if "\<not> is_space c" for c using that by (force simp: space_rune_def)
  obtain a r where s: "s = a # r" using assms(1) by (cases s) auto
  have "dropWhile space_rune (pieces s) = pieces s" using assms(2,4) w by (simp add: s)
  moreover have "dropWhile space_rune (rev (pieces s)) = rev (pieces s)"
    using last_piece [OF assms(1,3)] w [OF assms(5)] by (cases "pieces s" rule: rev_cases) auto
  ultimately show ?thesis by (simp add: TrimSpace_def concat_pieces)
qed

lemma TrimSpace_object: "TrimSpace (CHR ''{'' # s @ ''}'') = CHR ''{'' # s @ ''}''"
  by (rule TrimSpace_id) (simp_all add: is_space_def byte_def)

lemma TrimSpace_number: "number_text s \<Longrightarrow> TrimSpace s = s"
proof -
  assume n: "number_text s"
  then have "s \<noteq> []" by (auto simp: number_text_def json_number_def integer_part_def)
  then show ?thesis
    using number_chars [OF n] number_char_bytes [of "hd s"] number_char_bytes [of "last s"]
    by (intro TrimSpace_id) (auto simp: list_all_iff)
qed

lemma TrimSpace_string: "TrimSpace (json_string s) = json_string s"
  unfolding json_string_def by (rule TrimSpace_id) (simp_all add: is_space_def)

section \<open>Integers\<close>

lemma digits_value_snoc: "digits_value (ds @ [c]) = digits_value ds * 10 + int (byte c - 48)"
  by (simp add: digits_value_def)

lemma digit_char_byte: "d < 10 \<Longrightarrow> byte (digit_char d) = 48 + d"
  by (simp add: byte_def digit_char_def)

lemma digit_char_zero: "digit_char 0 = CHR ''0''"
proof -
  have "(of_char (CHR ''0'') :: nat) = 48" by simp
  then show ?thesis unfolding digit_char_def by (metis add.right_neutral char_of_char)
qed

lemma itoa_nat_digits:
  "list_all json_digit (itoa_nat n) \<and> digits_value (itoa_nat n) = int n \<and> itoa_nat n \<noteq> [] \<and>
   (hd (itoa_nat n) = CHR ''0'' \<longrightarrow> n = 0)"
proof (induction n rule: itoa_nat.induct)
  case (1 n)
  show ?case
  proof (cases "n < 10")
    case True
    have "n = 0" if "digit_char n = CHR ''0''"
      using that digit_char_byte [OF True] by (simp add: byte_def)
    then show ?thesis using True digit_char_byte [OF True]
      by (auto simp: itoa_nat.simps [of n] json_digit_def in_range_def digits_value_def)
  next
    case False
    have "n mod 10 < 10" by simp
    moreover have "int (n div 10) * 10 + int (n mod 10) = int n" by (metis div_mult_mod_eq of_nat_add of_nat_mult of_nat_numeral)
    moreover have "n div 10 \<noteq> 0" using False by auto
    ultimately show ?thesis using digit_char_byte [of "n mod 10"] 1 [OF False] False
      by (simp add: itoa_nat.simps [of n] json_digit_def in_range_def digits_value_snoc hd_append)
  qed
qed

lemma number_text_digits:
  assumes "list_all json_digit ds" "ds \<noteq> []" "hd ds = CHR ''0'' \<longrightarrow> ds = ''0''"
  shows "number_text ds" "number_text (CHR ''-'' # ds)" "hd ds \<noteq> CHR ''-''"
proof -
  have d: "digits1 ds = Some (ds, [])" using assms(1,2)
    by (cases ds) (simp_all add: digits1_def list_all_iff takeWhile_eq_all_conv [THEN iffD2] dropWhile_eq_Nil_conv [THEN iffD2])
  have i: "integer_part ds = Some (ds, [])" using assms(2,3) d by (cases ds) (auto simp: integer_part_def)
  show m: "hd ds \<noteq> CHR ''-''" using assms(1,2) by (cases ds) (auto simp: json_digit_def in_range_def byte_def)
  then have "(case ds of [] \<Rightarrow> [] | c # _ \<Rightarrow> if c = CHR ''-'' then [c] else []) = []" by (cases ds) auto
  then show "number_text ds" "number_text (CHR ''-'' # ds)"
    using i by (simp_all add: number_text_def json_number_def optional_part_def)
qed

lemma itoa_nat_number: "number_text (itoa_nat n)" "number_text (CHR ''-'' # itoa_nat n)" "hd (itoa_nat n) \<noteq> CHR ''-''"
proof -
  have "itoa_nat n = ''0''" if "hd (itoa_nat n) = CHR ''0''"
  proof -
    have "n = 0" using itoa_nat_digits [of n] that by blast
    then show ?thesis by (subst itoa_nat.simps) (simp add: digit_char_zero)
  qed
  with itoa_nat_digits [of n] number_text_digits [of "itoa_nat n"]
  show "number_text (itoa_nat n)" "number_text (CHR ''-'' # itoa_nat n)" "hd (itoa_nat n) \<noteq> CHR ''-''" by blast+
qed

lemma itoa_number [simp]: "number_text (itoa n)"
  by (simp add: itoa_def itoa_nat_number)

lemma parse_int64_itoa:
  assumes "- (2 ^ 63) \<le> n" "n < 2 ^ 63"
  shows "parse_int64 (itoa n) = Some n"
proof (cases "n < 0")
  case True
  then show ?thesis using assms itoa_nat_digits [of "nat (- n)"] by (simp add: parse_int64_def itoa_def)
next
  case False
  have "(case itoa_nat (nat n) of c # r \<Rightarrow> if c = CHR ''-'' then (True, r) else (False, itoa_nat (nat n)) | [] \<Rightarrow> (False, [])) =
      (False, itoa_nat (nat n))"
    using itoa_nat_number(3) [of "nat n"] itoa_nat_digits [of "nat n"] by (cases "itoa_nat (nat n)") auto
  then show ?thesis using False assms itoa_nat_digits [of "nat n"] by (simp add: parse_int64_def itoa_def)
qed

section \<open>Decoding marshalled values\<close>

lemma utf8_ascii: "list_all (\<lambda>c. byte c < 0x80) s \<Longrightarrow> utf8 s = s"
  by (induction s) (simp_all add: utf8_def)

lemma json_parse_atoms [simp]:
  "json_parse (json_string s) = Some (JStr (utf8 s))" "json_parse ''null'' = Some JNull"
  "json_parse ''true'' = Some (JBool True)" "json_parse ''false'' = Some (JBool False)"
  using json_parse_text [of "JStr s"] json_parse_text [of JNull] json_parse_text [of "JBool True"] json_parse_text [of "JBool False"]
  by simp_all

lemma json_parse_number [simp]: "number_text s \<Longrightarrow> json_parse s = Some (JNum s)"
  using json_parse_text [of "JNum s"] by simp

lemma decode_atoms [simp]:
  "decode_string (json_string s) = Inr (Some (utf8 s))" "decode_string ''null'' = Inr None"
  "decode_bool ''true'' = Inr (Some True)" "decode_bool ''false'' = Inr (Some False)"
  by (simp_all add: decode_string_def decode_bool_def)

lemma decode_int_itoa: "- (2 ^ 63) \<le> n \<Longrightarrow> n < 2 ^ 63 \<Longrightarrow> decode_int (itoa n) = Inr (Some n)"
  by (simp add: decode_int_def parse_int64_itoa)

section \<open>Well-formed strings\<close>

definition rune :: "string \<Rightarrow> bool" where
  "rune r \<longleftrightarrow> r \<noteq> [] \<and> rune_width r = length r"

lemma utf8_rune: "rune r \<Longrightarrow> utf8 (r @ t) = r @ utf8 t"
proof -
  assume r: "rune r"
  then obtain a s where c: "r = a # s" by (cases r) (auto simp: rune_def)
  have w: "rune_width (r @ t) = length r" using r rune_width_append [of r t] by (simp add: rune_def)
  then have "runes (r @ t) = r # runes t" using r by (simp add: c rune_def Let_def del: rune_width.simps)
  then show ?thesis by (simp add: utf8_def)
qed

lemma rune_ascii: "byte a < 0x80 \<Longrightarrow> rune [a]"
  by (simp add: rune_def)

lemma rune_take: "rune_width s \<noteq> 0 \<Longrightarrow> rune (take (rune_width s) s)"
  using rune_width_take [of s] rune_width_bound [of s] by (cases s) (auto simp: rune_def simp del: rune_width.simps)

lemma rune_replacement: "rune replacement"
  by (simp add: rune_def replacement_def byte_def in_range_def continuation_def)

lemma byte_char_of: "k < 256 \<Longrightarrow> byte (char_of k) = k"
  by (simp add: byte_def)

lemma rune_encode: "rune (encode_rune n)"
proof -
  consider (1) "n < 0x80" | (2) "0x80 \<le> n" "n < 0x800" | (bad) "0xD800 \<le> n \<and> n \<le> 0xDFFF \<or> 0x10FFFF < n"
    | (3) "0x800 \<le> n" "n < 0x10000" "\<not> (0xD800 \<le> n \<and> n \<le> 0xDFFF)" | (4) "0x10000 \<le> n" "n \<le> 0x10FFFF"
    by linarith
  then show ?thesis
  proof cases
    case 1
    then show ?thesis by (simp add: encode_rune_def rune_ascii byte_char_of)
  next
    case 2
    then have "n div 64 < 32" "2 \<le> n div 64" by auto
    then show ?thesis using 2 by (simp add: encode_rune_def rune_def byte_char_of in_range_def continuation_def)
  next
    case bad
    then have "encode_rune n = replacement" by (auto simp: encode_rune_def replacement_def)
    then show ?thesis using rune_replacement by simp
  next
    case 3
    have "n div 4096 < 16" using 3 by auto
    moreover have "32 \<le> n div 64 mod 64" if "n div 4096 = 0" using that 3 by (auto simp: div_mult2_eq [symmetric])
    moreover have "n div 64 mod 64 < 32" if "n div 4096 = 13"
    proof -
      have b: "832 \<le> n div 64" "n div 64 < 864" using that 3 by auto
      then have "n div 64 = (n div 64 - 832) + 64 * 13" by simp
      then have "n div 64 mod 64 = (n div 64 - 832) mod 64" by (metis mod_mult_self2)
      then show ?thesis using b by simp
    qed
    ultimately show ?thesis using 3
      by (auto simp: encode_rune_def rune_def byte_char_of in_range_def continuation_def)
  next
    case 4
    have "n div 262144 < 5" using 4 by auto
    moreover have "16 \<le> n div 4096 mod 64" if "n div 262144 = 0"
    proof -
      have "16 \<le> n div 4096" "n div 4096 < 64" using that 4 by auto
      then show ?thesis by simp
    qed
    moreover have "n div 4096 mod 64 < 16" if "n div 262144 = 4"
    proof -
      have b: "256 \<le> n div 4096" "n div 4096 < 272" using that 4 by auto
      then have "n div 4096 = (n div 4096 - 256) + 64 * 4" by simp
      then have "n div 4096 mod 64 = (n div 4096 - 256) mod 64" by (metis mod_mult_self2)
      then show ?thesis using b by simp
    qed
    ultimately show ?thesis using 4
      by (auto simp: encode_rune_def rune_def byte_char_of in_range_def continuation_def)
  qed
qed

lemma utf8_Nil [simp]: "utf8 [] = []"
  by (simp add: utf8_def)

lemma json_body_step:
  assumes "json_body (a # s) = Some (b, r)" "a \<noteq> CHR 0x22"
  shows "\<exists>p q b'. rune p \<and> b = p @ b' \<and> json_body q = Some (b', r) \<and> length q \<le> length s"
proof (cases "a = CHR 0x5C")
  case True
  then obtain c t where s: "s = c # t" using assms by (cases s) auto
  have lit: ?thesis if "json_body (a # s) = map_option (apfst ((@) p)) (json_body q)" "rune p" "length q \<le> length t" for p q
  proof -
    have "map_option (apfst ((@) p)) (json_body q) = Some (b, r)" using that(1) assms(1) by metis
    then obtain b' where "json_body q = Some (b', r)" "b = p @ b'" by (cases "json_body q") auto
    then show ?thesis using that(2,3) s by (intro exI [of _ p] exI [of _ q] exI [of _ b']) simp
  qed
  note body = True s json_body.simps(2) [of a s]
  consider "c = CHR 0x22" | "c = CHR 0x5C" | "c = CHR ''/''" | "c = CHR ''b''" | "c = CHR ''f''" | "c = CHR ''n''" | "c = CHR ''r''"
    | "c = CHR ''t''" | (u) "c = CHR ''u''" | (bad) "c \<notin> {CHR 0x22, CHR 0x5C, CHR ''/'', CHR ''b'', CHR ''f'', CHR ''n'', CHR ''r'', CHR ''t'', CHR ''u''}"
    by blast
  then show ?thesis
  proof cases
    case u
    then obtain n where n: "getu4 t = Some n" using assms(1) body by (cases "getu4 t") auto
    show ?thesis
    proof (cases "low_surrogate n (drop 4 t)")
      case None
      then show ?thesis using u n body by (intro lit [of "encode_rune n" "drop 4 t"]) (auto simp: rune_encode)
    next
      case (Some m)
      then show ?thesis using u n body by (intro lit [of "encode_rune m" "drop 10 t"]) (auto simp: rune_encode)
    qed
  next
    case bad
    then show ?thesis using assms(1) body by simp
  qed (rule lit [of "[c]" t] lit [of "[CHR 0x08]" t] lit [of "[CHR 0x0C]" t] lit [of "[CHR 0x0A]" t] lit [of "[CHR 0x0D]" t] lit [of "[CHR 0x09]" t];
       simp add: body rune_ascii byte_def; fail)+
next
  case False
  define n where "n = rune_width (a # s)"
  show ?thesis
  proof (cases "n = 0")
    case True
    then show ?thesis using assms False rune_replacement unfolding n_def
      by (auto simp del: rune_width.simps split: if_splits)
  next
    case w: False
    then have "rune (take n (a # s))" using rune_take [of "a # s"] by (simp add: n_def)
    moreover have "length (drop n (a # s)) \<le> length s" using w by simp
    moreover have "map_option (apfst ((@) (take n (a # s)))) (json_body (drop n (a # s))) = Some (b, r)"
      using assms False w by (simp add: Let_def flip: n_def del: rune_width.simps split: if_splits)
    moreover obtain b' where "json_body (drop n (a # s)) = Some (b', r)" "b = take n (a # s) @ b'"
      using calculation(3) by (cases "json_body (drop n (a # s))") auto
    ultimately show ?thesis by blast
  qed
qed

lemma json_body_utf8: "json_body s = Some (b, r) \<Longrightarrow> utf8 b = b"
proof (induction "length s" arbitrary: s b rule: less_induct)
  case less
  then obtain a q where s: "s = a # q" by (cases s) auto
  show ?case
  proof (cases "a = CHR 0x22")
    case True
    then show ?thesis using less.prems s by simp
  next
    case False
    then obtain p q' b' where "rune p" "b = p @ b'" "json_body q' = Some (b', r)" "length q' \<le> length q"
      using json_body_step less.prems s by metis
    then show ?thesis using less.hyps [of q' b'] s by (simp add: utf8_rune)
  qed
qed

lemma json_value_string_body:
  "json_value n d s = Some (JStr b, r) \<Longrightarrow> \<exists>q. json_body q = Some (b, r)"
  by (cases n) (auto simp: literal_def Let_def split: option.splits if_splits list.splits)

lemma json_parse_utf8:
  assumes "json_parse s = Some (JStr b)"
  shows "utf8 b = b"
proof -
  obtain r where "json_value (2 * length s + 2) 10000 s = Some (JStr b, r)"
    using assms unfolding json_parse_def by (auto simp del: json_value.simps split: option.splits if_splits)
  then show ?thesis using json_value_string_body json_body_utf8 by blast
qed

end
