(* ===== verification/Jsonrpc.thy ===== *)
theory Jsonrpc
  imports Json_Text
begin

text \<open>
  \<^verbatim>\<open>internal/ipc/jsonrpc/codec.go\<close>: JSON-RPC 2.0 messages, one per line. A reader is the
  sequence of bytes it will deliver before the end of the stream; an encoder returns the line it
  writes. A \<^verbatim>\<open>json.RawMessage\<close> is its text, \<^verbatim>\<open>nil\<close> the empty text. A value handed to an
  encoder is the JSON value it marshals to, \<^verbatim>\<open>nil\<close> is \<open>None\<close>.
\<close>

definition MaxMessageSize :: nat where
  "MaxMessageSize = 10 * 1024 * 1024"

definition ParseErrorCode :: int where "ParseErrorCode = - 32700"
definition InvalidRequestCode :: int where "InvalidRequestCode = - 32600"
definition MethodNotFoundCode :: int where "MethodNotFoundCode = - 32601"
definition InvalidParamsCode :: int where "InvalidParamsCode = - 32602"
definition InternalErrorCode :: int where "InternalErrorCode = - 32603"

record RPCError =
  rpc_Code :: int
  rpc_Message :: string
  rpc_Data :: "json option"

record ID =
  id_Str :: string
  id_Num :: string
  id_null :: bool

definition IsNull :: "ID option \<Rightarrow> bool" where
  "IsNull i = (case i of None \<Rightarrow> False | Some i \<Rightarrow> id_null i)"

definition IsString :: "ID option \<Rightarrow> bool" where
  "IsString i = (case i of None \<Rightarrow> False | Some i \<Rightarrow> \<not> id_null i \<and> id_Num i = '''')"

definition IsNumber :: "ID option \<Rightarrow> bool" where
  "IsNumber i = (case i of None \<Rightarrow> False | Some i \<Rightarrow> id_Num i \<noteq> '''')"

record Message =
  msg_JSONRPC :: string
  msg_ID :: "ID option"
  msg_Method :: string
  msg_Params :: string
  msg_Result :: string
  msg_Error :: "RPCError option"

record rawMessage =
  rm_JSONRPC :: string
  rm_ID :: string
  rm_Method :: string
  rm_Params :: string
  rm_Result :: string
  rm_Error :: string

section \<open>Encoding\<close>

datatype encode_error = TooLargeToSend nat | NotMarshallable

text \<open>The dynamic types of an identifier; any other type is given by what it marshals to.\<close>

datatype rpc_id = IdNil | IdString string | IdNumber string | IdInt int | IdOther "encode_error + json"

definition raw_json :: "string \<Rightarrow> encode_error + json" where
  "raw_json s = (case json_parse s of None \<Rightarrow> Inl NotMarshallable | Some v \<Rightarrow> Inr v)"

definition marshalID :: "rpc_id \<Rightarrow> encode_error + json" where
  "marshalID i =
     (case i of
        IdNil \<Rightarrow> Inr JNull
      | IdString s \<Rightarrow> Inr (JStr s)
      | IdNumber s \<Rightarrow> raw_json (if s = '''' then ''0'' else s)
      | IdInt n \<Rightarrow> Inr (JNum (itoa n))
      | IdOther r \<Rightarrow> r)"

definition encodeAndWrite :: "json \<Rightarrow> encode_error + string" where
  "encodeAndWrite v =
     (let data = json_text v in
      if length data > MaxMessageSize then Inl (TooLargeToSend (length data)) else Inr (data @ newline))"

text \<open>The member of a field with \<^verbatim>\<open>omitempty\<close>.\<close>

definition omitempty :: "string \<Rightarrow> json option \<Rightarrow> (string \<times> json) list" where
  "omitempty k v = (case v of None \<Rightarrow> [] | Some v \<Rightarrow> [(k, v)])"

definition EncodeRequest :: "rpc_id \<Rightarrow> string \<Rightarrow> json option \<Rightarrow> encode_error + string" where
  "EncodeRequest i mth params =
     (case marshalID i of
        Inl e \<Rightarrow> Inl e
      | Inr idRaw \<Rightarrow>
          encodeAndWrite (JObj ([(''jsonrpc'', JStr ''2.0''), (''id'', idRaw), (''method'', JStr mth)] @ omitempty ''params'' params)))"

definition EncodeResponse :: "rpc_id \<Rightarrow> json option \<Rightarrow> encode_error + string" where
  "EncodeResponse i result =
     (case marshalID i of
        Inl e \<Rightarrow> Inl e
      | Inr idRaw \<Rightarrow>
          encodeAndWrite (JObj [(''jsonrpc'', JStr ''2.0''), (''id'', idRaw),
            (''result'', case result of None \<Rightarrow> JNull | Some v \<Rightarrow> v)]))"

definition rpc_error_json :: "RPCError \<Rightarrow> json" where
  "rpc_error_json e =
     JObj ([(''code'', JNum (itoa (rpc_Code e))), (''message'', JStr (rpc_Message e))] @ omitempty ''data'' (rpc_Data e))"

definition EncodeError :: "rpc_id \<Rightarrow> RPCError \<Rightarrow> encode_error + string" where
  "EncodeError i rpcErr =
     (case marshalID i of
        Inl e \<Rightarrow> Inl e
      | Inr idRaw \<Rightarrow>
          encodeAndWrite (JObj [(''jsonrpc'', JStr ''2.0''), (''id'', idRaw), (''error'', rpc_error_json rpcErr)]))"

definition EncodeNotification :: "string \<Rightarrow> json option \<Rightarrow> encode_error + string" where
  "EncodeNotification mth params =
     encodeAndWrite (JObj ([(''jsonrpc'', JStr ''2.0''), (''method'', JStr mth)] @ omitempty ''params'' params))"

section \<open>Decoding\<close>

datatype decode_error = EOF | MessageTooLarge | EmptyMessage | BadJSON | TrailingJSON | BadIDString | InvalidID | BadErrorObject

text \<open>The bytes up to the newline, which is consumed. When a byte does not fit, the rest of the line
  is discarded.\<close>

fun read_line :: "nat \<Rightarrow> string \<Rightarrow> string \<Rightarrow> (decode_error + string) \<times> string" where
  "read_line lim acc [] = (Inr acc, [])"
| "read_line lim acc (b # s) =
     (if b = CHR 0x0A then (Inr acc, s)
      else if length acc \<ge> lim then (Inl MessageTooLarge, drop 1 (dropWhile (\<lambda>b. b \<noteq> CHR 0x0A) s))
      else read_line lim (acc @ [b]) s)"

definition raw_names :: "string list" where
  "raw_names = [''jsonrpc'', ''id'', ''method'', ''params'', ''result'', ''error'']"

text \<open>One member of the envelope; the flag records a value of the wrong type.\<close>

definition raw_field :: "string \<times> string \<Rightarrow> rawMessage \<times> bool \<Rightarrow> rawMessage \<times> bool" where
  "raw_field kv mb =
     (let (k, txt) = kv; (m, bad) = mb in
      case match_field raw_names k of
        None \<Rightarrow> (m, bad)
      | Some f \<Rightarrow>
          if f = ''jsonrpc'' then
            (case decode_string txt of Inl _ \<Rightarrow> (m, True) | Inr None \<Rightarrow> (m, bad) | Inr (Some s) \<Rightarrow> (m\<lparr>rm_JSONRPC := s\<rparr>, bad))
          else if f = ''method'' then
            (case decode_string txt of Inl _ \<Rightarrow> (m, True) | Inr None \<Rightarrow> (m, bad) | Inr (Some s) \<Rightarrow> (m\<lparr>rm_Method := s\<rparr>, bad))
          else if f = ''id'' then (m\<lparr>rm_ID := txt\<rparr>, bad)
          else if f = ''params'' then (m\<lparr>rm_Params := txt\<rparr>, bad)
          else if f = ''result'' then (m\<lparr>rm_Result := txt\<rparr>, bad)
          else (m\<lparr>rm_Error := txt\<rparr>, bad))"

definition no_rawMessage :: rawMessage where
  "no_rawMessage = \<lparr>rm_JSONRPC = '''', rm_ID = '''', rm_Method = '''', rm_Params = '''', rm_Result = '''', rm_Error = ''''\<rparr>"

text \<open>Both calls of \<^verbatim>\<open>dec.Decode\<close> on a line: the value, then nothing but space.\<close>

definition decode_raw :: "string \<Rightarrow> decode_error + rawMessage" where
  "decode_raw data =
     (case json_value (2 * length data + 2) 10000 data of
        None \<Rightarrow> Inl BadJSON
      | Some (v, rest) \<Rightarrow>
          (let r = (case v of
               JNull \<Rightarrow> (no_rawMessage, False)
             | JObj _ \<Rightarrow> (case object_members (json_span data rest) of
                 None \<Rightarrow> (no_rawMessage, True)
               | Some ms \<Rightarrow> fold raw_field ms (no_rawMessage, False))
             | _ \<Rightarrow> (no_rawMessage, True))
           in if snd r then Inl BadJSON
              else if skip_space rest \<noteq> [] then Inl TrailingJSON
              else Inr (fst r)))"

definition isJSONNumber :: "string \<Rightarrow> bool" where
  "isJSONNumber raw \<longleftrightarrow>
     raw \<noteq> [] \<and>
     list_all (\<lambda>b. json_digit b \<or> b \<in> {CHR ''-'', CHR ''+'', CHR ''.'', CHR ''e'', CHR ''E''}) raw \<and>
     (case json_parse raw of Some (JNum _) \<Rightarrow> True | _ \<Rightarrow> False)"

definition decode_id :: "string \<Rightarrow> decode_error + ID option" where
  "decode_id raw =
     (if raw = '''' then Inr None
      else
        (let trimmed = TrimSpace raw in
         if trimmed = ''null'' then Inr (Some \<lparr>id_Str = '''', id_Num = '''', id_null = True\<rparr>)
         else if prefix [CHR 0x22] trimmed then
           (case decode_string trimmed of
              Inr (Some s) \<Rightarrow> Inr (Some \<lparr>id_Str = s, id_Num = '''', id_null = False\<rparr>)
            | _ \<Rightarrow> Inl BadIDString)
         else if isJSONNumber trimmed then Inr (Some \<lparr>id_Str = '''', id_Num = trimmed, id_null = False\<rparr>)
         else Inl InvalidID))"

definition error_field :: "string \<times> string \<Rightarrow> RPCError \<times> bool \<Rightarrow> RPCError \<times> bool" where
  "error_field kv mb =
     (let (k, txt) = kv; (m, bad) = mb in
      case match_field [''code'', ''message'', ''data''] k of
        None \<Rightarrow> (m, bad)
      | Some f \<Rightarrow>
          if f = ''code'' then
            (case decode_int txt of Inl _ \<Rightarrow> (m, True) | Inr None \<Rightarrow> (m, bad) | Inr (Some n) \<Rightarrow> (m\<lparr>rpc_Code := n\<rparr>, bad))
          else if f = ''message'' then
            (case decode_string txt of Inl _ \<Rightarrow> (m, True) | Inr None \<Rightarrow> (m, bad) | Inr (Some s) \<Rightarrow> (m\<lparr>rpc_Message := s\<rparr>, bad))
          else
            (case json_parse txt of None \<Rightarrow> (m, True) | Some JNull \<Rightarrow> (m\<lparr>rpc_Data := None\<rparr>, bad) | Some v \<Rightarrow> (m\<lparr>rpc_Data := Some v\<rparr>, bad)))"

definition decode_rpc_error :: "string \<Rightarrow> decode_error + RPCError option" where
  "decode_rpc_error raw =
     (let zero = \<lparr>rpc_Code = 0, rpc_Message = '''', rpc_Data = None\<rparr> in
      if raw = '''' then Inr None
      else
        (case json_parse raw of
           Some JNull \<Rightarrow> Inr (Some zero)
         | Some (JObj _) \<Rightarrow>
             (case object_members raw of
                None \<Rightarrow> Inl BadErrorObject
              | Some ms \<Rightarrow>
                  (case fold error_field ms (zero, False) of (e, bad) \<Rightarrow> if bad then Inl BadErrorObject else Inr (Some e)))
         | _ \<Rightarrow> Inl BadErrorObject))"

definition decode_line :: "string \<Rightarrow> decode_error + Message" where
  "decode_line line =
     (let data = TrimSpace line in
      if data = [] then Inl EmptyMessage
      else
        (case decode_raw data of
           Inl e \<Rightarrow> Inl e
         | Inr raw \<Rightarrow>
             (case decode_id (rm_ID raw) of
                Inl e \<Rightarrow> Inl e
              | Inr i \<Rightarrow>
                  (case decode_rpc_error (rm_Error raw) of
                     Inl e \<Rightarrow> Inl e
                   | Inr err \<Rightarrow>
                       Inr \<lparr>msg_JSONRPC = rm_JSONRPC raw, msg_ID = i, msg_Method = rm_Method raw,
                         msg_Params = rm_Params raw, msg_Result = rm_Result raw, msg_Error = err\<rparr>))))"

text \<open>After a byte was read the branch for an empty message returns, so the second attempt of the code
  to read from an untouched reader is never reached; nor is a line longer than the limit.\<close>

definition DecodeMessage :: "string \<Rightarrow> (decode_error + Message) \<times> string" where
  "DecodeMessage s =
     (if s = [] then (Inl EOF, [])
      else
        (case read_line MaxMessageSize [] s of
           (Inl e, r) \<Rightarrow> (Inl e, r)
         | (Inr line, r) \<Rightarrow> (decode_line line, r)))"

section \<open>Framing\<close>

lemma read_line_newline:
  "CHR 0x0A \<notin> set l \<Longrightarrow> length acc + length l \<le> lim \<Longrightarrow> read_line lim acc (l @ CHR 0x0A # rest) = (Inr (acc @ l), rest)"
  by (induction l arbitrary: acc) auto

text \<open>Whatever a line holds, the decoder consumes exactly that line.\<close>

lemma read_line_consumes: "CHR 0x0A \<notin> set l \<Longrightarrow> snd (read_line lim acc (l @ CHR 0x0A # rest)) = rest"
proof (induction l arbitrary: acc)
  case (Cons b l)
  have "dropWhile (\<lambda>b. b \<noteq> CHR 0x0A) (l @ CHR 0x0A # rest) = CHR 0x0A # rest"
    using Cons.prems by (induction l) auto
  then show ?case using Cons by auto
qed simp

lemma read_line_independent: "CHR 0x0A \<notin> set l \<Longrightarrow> fst (read_line lim acc (l @ CHR 0x0A # rest)) = fst (read_line lim acc (l @ CHR 0x0A # rest'))"
  by (induction l arbitrary: acc) auto

lemma DecodeMessage_line:
  "CHR 0x0A \<notin> set l \<Longrightarrow> DecodeMessage (l @ CHR 0x0A # rest) = (fst (DecodeMessage (l @ newline)), rest)"
  using read_line_consumes [of l MaxMessageSize "[]" rest] read_line_independent [of l MaxMessageSize "[]" rest "[]"]
  by (auto simp: DecodeMessage_def newline_def split: prod.splits sum.splits)

lemma read_line_shorter: "length (snd (read_line lim acc s)) \<le> length s"
proof (induction lim acc s rule: read_line.induct)
  case (2 lim acc b s)
  then show ?case using length_dropWhile_le [of "\<lambda>b. b \<noteq> CHR 0x0A" s] by (auto simp: le_SucI le_diff_conv)
qed simp

lemma DecodeMessage_shorter: "s \<noteq> [] \<Longrightarrow> length (snd (DecodeMessage s)) < length s"
proof -
  assume "s \<noteq> []"
  then obtain b r where s: "s = b # r" by (cases s) auto
  have "length (dropWhile (\<lambda>b. b \<noteq> CHR 0x0A) r) \<le> length r" by (rule length_dropWhile_le)
  then have "length (snd (read_line MaxMessageSize [] s)) < length s"
    using read_line_shorter [of MaxMessageSize "[b]" r] by (auto simp: s intro: le_less_trans)
  then show ?thesis by (auto simp: DecodeMessage_def s split: prod.splits sum.splits)
qed

section \<open>The envelope\<close>

lemma decode_raw_object:
  assumes "json_fits 10000 (JObj kvs)"
  shows "decode_raw (json_text (JObj kvs)) =
    (let r = fold raw_field (map (\<lambda>(k, v). (utf8 k, json_text v)) kvs) (no_rawMessage, False)
     in if snd r then Inl BadJSON else Inr (fst r))"
proof -
  let ?s = "json_text (JObj kvs)"
  have "length ?s < 2 * length ?s + 2" by simp
  then have "json_value (2 * length ?s + 2) 10000 (?s @ []) = Some (json_utf8 (JObj kvs), [])"
    using json_value_text [of "JObj kvs"] assms number_ends_simps(1) unfolding reads_back_def by blast
  moreover have "json_span ?s [] = ?s" by (simp add: json_span_def)
  ultimately show ?thesis
    using object_members_text [OF assms] by (simp add: decode_raw_def Let_def del: json_text.simps)
qed

lemma decode_line_object:
  assumes "json_fits 10000 (JObj kvs)"
    "fold raw_field (map (\<lambda>(k, v). (utf8 k, json_text v)) kvs) (no_rawMessage, False) = (raw, False)"
    "decode_id (rm_ID raw) = Inr i" "decode_rpc_error (rm_Error raw) = Inr err"
  shows "decode_line (json_text (JObj kvs)) =
    Inr \<lparr>msg_JSONRPC = rm_JSONRPC raw, msg_ID = i, msg_Method = rm_Method raw,
         msg_Params = rm_Params raw, msg_Result = rm_Result raw, msg_Error = err\<rparr>"
proof -
  have "TrimSpace (json_text (JObj kvs)) = json_text (JObj kvs)" using TrimSpace_object by simp
  moreover have "json_text (JObj kvs) \<noteq> []" by simp
  ultimately show ?thesis using decode_raw_object [OF assms(1)] assms(2-4) unfolding decode_line_def by (simp del: json_text.simps)
qed

lemma DecodeMessage_encoded:
  assumes "encodeAndWrite (JObj kvs) = Inr line" "json_fits 10000 (JObj kvs)"
  shows "DecodeMessage (line @ rest) = (decode_line (json_text (JObj kvs)), rest)"
proof -
  have l: "line = json_text (JObj kvs) @ newline" "length (json_text (JObj kvs)) \<le> MaxMessageSize"
    using assms(1) by (auto simp: encodeAndWrite_def Let_def split: if_splits)
  have "CHR 0x0A \<notin> set (json_text (JObj kvs))" by (rule no_newline [OF printed_text [OF assms(2)]])
  from read_line_newline [OF this, of "[]" MaxMessageSize rest] l(2)
  show ?thesis unfolding l(1) DecodeMessage_def newline_def by (simp del: json_text.simps)
qed

text \<open>The identifier a peer reads.\<close>

definition wire_id :: "rpc_id \<Rightarrow> ID" where
  "wire_id i =
     (case i of
        IdString s \<Rightarrow> \<lparr>id_Str = utf8 s, id_Num = '''', id_null = False\<rparr>
      | IdNumber s \<Rightarrow> \<lparr>id_Str = '''', id_Num = (if s = '''' then ''0'' else s), id_null = False\<rparr>
      | IdInt n \<Rightarrow> \<lparr>id_Str = '''', id_Num = itoa n, id_null = False\<rparr>
      | _ \<Rightarrow> \<lparr>id_Str = '''', id_Num = '''', id_null = True\<rparr>)"

definition plain_id :: "rpc_id \<Rightarrow> bool" where
  "plain_id i = (case i of IdNumber s \<Rightarrow> s = '''' \<or> number_text s | IdOther _ \<Rightarrow> False | _ \<Rightarrow> True)"

lemma decode_id_number: "number_text s \<Longrightarrow> decode_id s = Inr (Some \<lparr>id_Str = '''', id_Num = s, id_null = False\<rparr>)"
proof -
  assume n: "number_text s"
  obtain c r where s: "s = c # r" "c = CHR ''-'' \<or> json_digit c" using number_text_Cons [OF n] .
  then have "c \<noteq> CHR 0x22" "c \<noteq> CHR ''n''" by (auto simp: json_digit_def in_range_def byte_def)
  moreover have "isJSONNumber s" using n number_chars [OF n] s(1) by (auto simp: isJSONNumber_def number_char_def list_all_iff)
  ultimately show ?thesis using TrimSpace_number [OF n] s(1) by (simp add: decode_id_def Let_def)
qed

lemma marshal_decode_id:
  assumes "marshalID i = Inr v" "plain_id i"
  shows "json_fits d v \<and> decode_id (json_text v) = Inr (Some (wire_id i))"
proof -
  have z: "number_text ''0''" using itoa_number [of 0] digit_char_zero by (simp add: itoa_def itoa_nat.simps)
  have q: "json_string s \<noteq> ''null''" "prefix [CHR 0x22] (json_string s)" "json_string s \<noteq> ''''" for s by (simp_all add: json_string_def)
  have n: "decode_id ''null'' = Inr (Some \<lparr>id_Str = '''', id_Num = '''', id_null = True\<rparr>)"
    using TrimSpace_id [of "''null''"] by (simp add: decode_id_def Let_def is_space_def byte_def)
  have t: "decode_id (json_string s) = Inr (Some \<lparr>id_Str = utf8 s, id_Num = '''', id_null = False\<rparr>)" for s
    using q [of s] by (simp add: decode_id_def Let_def TrimSpace_string)
  show ?thesis
  proof (cases i)
    case (IdNumber s)
    let ?s = "if s = '''' then ''0'' else s"
    have "number_text ?s" using assms(2) z by (auto simp: IdNumber plain_id_def)
    then show ?thesis using assms(1) decode_id_number [of ?s] by (auto simp: IdNumber marshalID_def wire_id_def raw_json_def)
  next
    case (IdString s)
    then show ?thesis using assms(1) t [of s] by (auto simp: marshalID_def wire_id_def)
  next
    case (IdInt m)
    then show ?thesis using assms(1) decode_id_number [of "itoa m"] by (auto simp: marshalID_def wire_id_def)
  next
    case IdNil
    then show ?thesis using assms(1) n by (auto simp: marshalID_def wire_id_def)
  qed (use assms in \<open>simp add: plain_id_def\<close>)
qed

lemma envelope_names [simp]:
  "utf8 ''jsonrpc'' = ''jsonrpc''" "utf8 ''id'' = ''id''" "utf8 ''method'' = ''method''" "utf8 ''params'' = ''params''"
  "utf8 ''result'' = ''result''" "utf8 ''error'' = ''error''" "utf8 ''code'' = ''code''" "utf8 ''message'' = ''message''"
  "utf8 ''data'' = ''data''" "utf8 ''2.0'' = ''2.0''"
  by (rule utf8_ascii; simp add: byte_def)+

lemma raw_field_simps [simp]:
  "raw_field (''jsonrpc'', json_string s) (m, b) = (m\<lparr>rm_JSONRPC := utf8 s\<rparr>, b)"
  "raw_field (''method'', json_string s) (m, b) = (m\<lparr>rm_Method := utf8 s\<rparr>, b)"
  "raw_field (''id'', x) (m, b) = (m\<lparr>rm_ID := x\<rparr>, b)" "raw_field (''params'', x) (m, b) = (m\<lparr>rm_Params := x\<rparr>, b)"
  "raw_field (''result'', x) (m, b) = (m\<lparr>rm_Result := x\<rparr>, b)" "raw_field (''error'', x) (m, b) = (m\<lparr>rm_Error := x\<rparr>, b)"
  by (simp_all add: raw_field_def match_field_def raw_names_def)

lemma error_field_simps [simp]:
  "- (2 ^ 63) \<le> n \<Longrightarrow> n < 2 ^ 63 \<Longrightarrow> error_field (''code'', itoa n) (m, b) = (m\<lparr>rpc_Code := n\<rparr>, b)"
  "error_field (''message'', json_string s) (m, b) = (m\<lparr>rpc_Message := utf8 s\<rparr>, b)"
  "json_fits 10000 v \<Longrightarrow> v \<noteq> JNull \<Longrightarrow> error_field (''data'', json_text v) (m, b) = (m\<lparr>rpc_Data := Some (json_utf8 v)\<rparr>, b)"
  by (simp_all add: error_field_def match_field_def decode_int_itoa json_parse_text split: json.splits)
    (cases v; simp)

lemma decode_rpc_error_json:
  assumes "json_fits 9999 (rpc_error_json e)" "- (2 ^ 63) \<le> rpc_Code e" "rpc_Code e < 2 ^ 63" "rpc_Data e \<noteq> Some JNull"
  shows "decode_rpc_error (json_text (rpc_error_json e)) =
    Inr (Some (e\<lparr>rpc_Message := utf8 (rpc_Message e), rpc_Data := map_option json_utf8 (rpc_Data e)\<rparr>))"
proof -
  let ?kvs = "[(''code'', JNum (itoa (rpc_Code e))), (''message'', JStr (rpc_Message e))] @ omitempty ''data'' (rpc_Data e)"
  have d: "json_fits 10000 v" if "rpc_Data e = Some v" for v
    using assms(1) that by (auto simp: rpc_error_json_def omitempty_def intro: json_fits_mono)
  have "json_fits 10000 (JObj ?kvs)" using json_fits_mono [OF assms(1), of 10000] unfolding rpc_error_json_def by simp
  note parsed = json_parse_text [OF this] object_members_text [OF this]
  have "fold error_field (map (\<lambda>(k, v). (utf8 k, json_text v)) ?kvs) (\<lparr>rpc_Code = 0, rpc_Message = '''', rpc_Data = None\<rparr>, False) =
      (e\<lparr>rpc_Message := utf8 (rpc_Message e), rpc_Data := map_option json_utf8 (rpc_Data e)\<rparr>, False)"
    using assms(2-4) d by (cases e; cases "rpc_Data e") (auto simp: omitempty_def)
  then show ?thesis
    using parsed unfolding decode_rpc_error_def rpc_error_json_def by (simp add: Let_def del: json_text.simps) simp
qed

text \<open>What a peer reads of an encoded message.\<close>

definition blank_message :: Message where
  "blank_message = \<lparr>msg_JSONRPC = ''2.0'', msg_ID = None, msg_Method = '''', msg_Params = '''', msg_Result = '''', msg_Error = None\<rparr>"

definition param_text :: "json option \<Rightarrow> string" where
  "param_text p = (case p of None \<Rightarrow> '''' | Some v \<Rightarrow> json_text v)"

definition result_json :: "json option \<Rightarrow> json" where
  "result_json r = (case r of None \<Rightarrow> JNull | Some v \<Rightarrow> v)"

definition param_fits :: "json option \<Rightarrow> bool" where
  "param_fits p = (case p of None \<Rightarrow> True | Some v \<Rightarrow> json_fits 9999 v)"

lemma decode_no_error [simp]: "decode_rpc_error '''' = Inr None" "decode_id '''' = Inr None"
  by (simp_all add: decode_rpc_error_def decode_id_def)

lemma EncodeRequest_decoded:
  assumes "EncodeRequest i mth params = Inr line" "plain_id i" "param_fits params"
  shows "DecodeMessage (line @ rest) =
    (Inr (blank_message\<lparr>msg_ID := Some (wire_id i), msg_Method := utf8 mth, msg_Params := param_text params\<rparr>), rest)"
proof -
  obtain v where v: "marshalID i = Inr v" using assms(1) by (auto simp: EncodeRequest_def split: sum.splits)
  let ?kvs = "[(''jsonrpc'', JStr ''2.0''), (''id'', v), (''method'', JStr mth)] @ omitempty ''params'' params"
  have e: "encodeAndWrite (JObj ?kvs) = Inr line" using assms(1) v by (simp add: EncodeRequest_def)
  note vi = marshal_decode_id [OF v assms(2)]
  have f: "json_fits 10000 (JObj ?kvs)" using vi assms(3) by (simp add: omitempty_def param_fits_def split: option.splits)
  have "fold raw_field (map (\<lambda>(k, v). (utf8 k, json_text v)) ?kvs) (no_rawMessage, False) =
      (no_rawMessage\<lparr>rm_JSONRPC := ''2.0'', rm_ID := json_text v, rm_Method := utf8 mth, rm_Params := param_text params\<rparr>, False)"
    by (cases params) (simp_all add: omitempty_def param_text_def no_rawMessage_def)
  from decode_line_object [OF f this] vi DecodeMessage_encoded [OF e f, of rest] show ?thesis
    by (simp add: blank_message_def no_rawMessage_def)
qed

lemma EncodeNotification_decoded:
  assumes "EncodeNotification mth params = Inr line" "param_fits params"
  shows "DecodeMessage (line @ rest) = (Inr (blank_message\<lparr>msg_Method := utf8 mth, msg_Params := param_text params\<rparr>), rest)"
proof -
  let ?kvs = "[(''jsonrpc'', JStr ''2.0''), (''method'', JStr mth)] @ omitempty ''params'' params"
  have e: "encodeAndWrite (JObj ?kvs) = Inr line" using assms(1) by (simp add: EncodeNotification_def)
  have f: "json_fits 10000 (JObj ?kvs)" using assms(2) by (simp add: omitempty_def param_fits_def split: option.splits)
  have "fold raw_field (map (\<lambda>(k, v). (utf8 k, json_text v)) ?kvs) (no_rawMessage, False) =
      (no_rawMessage\<lparr>rm_JSONRPC := ''2.0'', rm_Method := utf8 mth, rm_Params := param_text params\<rparr>, False)"
    by (cases params) (simp_all add: omitempty_def param_text_def no_rawMessage_def)
  from decode_line_object [OF f this] DecodeMessage_encoded [OF e f, of rest] show ?thesis
    by (simp add: blank_message_def no_rawMessage_def)
qed

lemma EncodeResponse_decoded:
  assumes "EncodeResponse i result = Inr line" "plain_id i" "param_fits result"
  shows "DecodeMessage (line @ rest) =
    (Inr (blank_message\<lparr>msg_ID := Some (wire_id i), msg_Result := json_text (result_json result)\<rparr>), rest)"
proof -
  obtain v where v: "marshalID i = Inr v" using assms(1) by (auto simp: EncodeResponse_def split: sum.splits)
  let ?kvs = "[(''jsonrpc'', JStr ''2.0''), (''id'', v), (''result'', result_json result)]"
  have e: "encodeAndWrite (JObj ?kvs) = Inr line" using assms(1) v by (simp add: EncodeResponse_def result_json_def)
  note vi = marshal_decode_id [OF v assms(2)]
  have f: "json_fits 10000 (JObj ?kvs)" using vi assms(3) by (simp add: param_fits_def result_json_def split: option.splits)
  have "fold raw_field (map (\<lambda>(k, v). (utf8 k, json_text v)) ?kvs) (no_rawMessage, False) =
      (no_rawMessage\<lparr>rm_JSONRPC := ''2.0'', rm_ID := json_text v, rm_Result := json_text (result_json result)\<rparr>, False)"
    by (simp add: no_rawMessage_def)
  from decode_line_object [OF f this] vi DecodeMessage_encoded [OF e f, of rest] show ?thesis
    by (simp add: blank_message_def no_rawMessage_def)
qed

definition error_fits :: "RPCError \<Rightarrow> bool" where
  "error_fits e \<longleftrightarrow> - (2 ^ 63) \<le> rpc_Code e \<and> rpc_Code e < 2 ^ 63 \<and> rpc_Data e \<noteq> Some JNull \<and>
     (case rpc_Data e of None \<Rightarrow> True | Some v \<Rightarrow> json_fits 9998 v)"

lemma EncodeError_decoded:
  assumes "EncodeError i err = Inr line" "plain_id i" "error_fits err"
  shows "DecodeMessage (line @ rest) =
    (Inr (blank_message\<lparr>msg_ID := Some (wire_id i),
       msg_Error := Some (err\<lparr>rpc_Message := utf8 (rpc_Message err), rpc_Data := map_option json_utf8 (rpc_Data err)\<rparr>)\<rparr>), rest)"
proof -
  obtain v where v: "marshalID i = Inr v" using assms(1) by (auto simp: EncodeError_def split: sum.splits)
  let ?kvs = "[(''jsonrpc'', JStr ''2.0''), (''id'', v), (''error'', rpc_error_json err)]"
  have e: "encodeAndWrite (JObj ?kvs) = Inr line" using assms(1) v by (simp add: EncodeError_def)
  note vi = marshal_decode_id [OF v assms(2)]
  have r: "json_fits 9999 (rpc_error_json err)"
    using assms(3) by (simp add: rpc_error_json_def error_fits_def omitempty_def split: option.splits)
  then have f: "json_fits 10000 (JObj ?kvs)" using vi by simp
  have "fold raw_field (map (\<lambda>(k, v). (utf8 k, json_text v)) ?kvs) (no_rawMessage, False) =
      (no_rawMessage\<lparr>rm_JSONRPC := ''2.0'', rm_ID := json_text v, rm_Error := json_text (rpc_error_json err)\<rparr>, False)"
    by (simp add: no_rawMessage_def)
  from decode_line_object [OF f this] vi DecodeMessage_encoded [OF e f, of rest] decode_rpc_error_json [OF r] assms(3)
  show ?thesis by (simp add: blank_message_def no_rawMessage_def error_fits_def)
qed

section \<open>Properties\<close>

text \<open>C16. Every message an encoder writes is one line that the decoder on the other side reads back as the
  message that was sent, leaving the reader at the start of the next line: requests and responses
  with their identifier, notifications without one, errors with code, text and data. Strings come
  back with malformed UTF-8 replaced. An encoder refuses exactly the messages above 10 MiB.\<close>

theorem codec_round_trip:
  assumes "plain_id i" "param_fits p" "error_fits err"
  shows "(\<forall>line. EncodeRequest i mth p = Inr line \<longrightarrow> DecodeMessage (line @ rest) =
      (Inr (blank_message\<lparr>msg_ID := Some (wire_id i), msg_Method := utf8 mth, msg_Params := param_text p\<rparr>), rest)) \<and>
    (\<forall>line. EncodeNotification mth p = Inr line \<longrightarrow> DecodeMessage (line @ rest) =
      (Inr (blank_message\<lparr>msg_Method := utf8 mth, msg_Params := param_text p\<rparr>), rest)) \<and>
    (\<forall>line. EncodeResponse i p = Inr line \<longrightarrow> DecodeMessage (line @ rest) =
      (Inr (blank_message\<lparr>msg_ID := Some (wire_id i), msg_Result := json_text (result_json p)\<rparr>), rest)) \<and>
    (\<forall>line. EncodeError i err = Inr line \<longrightarrow> DecodeMessage (line @ rest) =
      (Inr (blank_message\<lparr>msg_ID := Some (wire_id i),
         msg_Error := Some (err\<lparr>rpc_Message := utf8 (rpc_Message err), rpc_Data := map_option json_utf8 (rpc_Data err)\<rparr>)\<rparr>), rest)) \<and>
    (\<forall>v. (\<exists>line. encodeAndWrite v = Inr line) \<longleftrightarrow> length (json_text v) \<le> MaxMessageSize)"
  using EncodeRequest_decoded [OF _ assms(1,2)] EncodeNotification_decoded [OF _ assms(2)] EncodeResponse_decoded [OF _ assms(1,2)]
    EncodeError_decoded [OF _ assms(1,3)]
  by (auto simp: encodeAndWrite_def Let_def)

theorem codec_round_trip_witness:
  "\<exists>line. EncodeRequest (IdInt 7) ''health'' (Some (JArr [JNull])) = Inr line \<and>
     DecodeMessage (line @ ''x'') = (Inr (blank_message\<lparr>msg_ID := Some \<lparr>id_Str = '''', id_Num = itoa 7, id_null = False\<rparr>,
       msg_Method := utf8 ''health'', msg_Params := ''[null]''\<rparr>), ''x'')"
proof -
  let ?e = "\<lparr>rpc_Code = 0, rpc_Message = '''', rpc_Data = None\<rparr>"
  have h: "plain_id (IdInt 7)" "param_fits (Some (JArr [JNull]))" "error_fits ?e"
    by (simp_all add: plain_id_def param_fits_def error_fits_def)
  have "length (itoa 7) = 1" by (simp add: itoa_def itoa_nat.simps)
  then have "\<exists>line. EncodeRequest (IdInt 7) ''health'' (Some (JArr [JNull])) = Inr line"
    by (simp add: EncodeRequest_def marshalID_def encodeAndWrite_def Let_def omitempty_def json_string_def json_ascii_def MaxMessageSize_def byte_def)
  then show ?thesis using codec_round_trip [OF h, of "''health''" "''x''"] by (auto simp: wire_id_def param_text_def)
qed

end
