(* ===== verification/Broker_Params.thy ===== *)
theory Broker_Params
  imports Jsonrpc
begin

text \<open>
  \<^verbatim>\<open>internal/broker/validation.go\<close>: the boundary of the broker. \<^verbatim>\<open>DecodeParams\<close> decodes
  the text of the parameters strictly into a struct, given here by the names and types of its
  fields; \<^verbatim>\<open>validateResult\<close> checks the result of a method against its schema, on the value the
  marshalled result decodes to. The texts of the errors of \<^verbatim>\<open>encoding/json\<close> are a parameter.
\<close>

section \<open>Parameters\<close>

record ParamError =
  pe_Message :: string
  pe_Field :: string
  pe_Detail :: string

definition ParamError_Error :: "ParamError \<Rightarrow> string" where
  "ParamError_Error e = (if pe_Field e = '''' then pe_Message e else pe_Message e @ '' at '' @ pe_Field e)"

datatype field_kind = StringField | IntField | StringPtr | BoolPtr

datatype field_value = VString string | VInt int | VStringPtr "string option" | VBoolPtr "bool option"

type_synonym schema = "(string \<times> field_kind) list"

definition zero_value :: "field_kind \<Rightarrow> field_value" where
  "zero_value k = (case k of StringField \<Rightarrow> VString '''' | IntField \<Rightarrow> VInt 0 | StringPtr \<Rightarrow> VStringPtr None | BoolPtr \<Rightarrow> VBoolPtr None)"

text \<open>Assigning the text of a value to a field: \<open>Inl\<close> is a value of the wrong type, \<open>None\<close> keeps the field.\<close>

definition decode_field :: "field_kind \<Rightarrow> string \<Rightarrow> unit + field_value option" where
  "decode_field k txt =
     (case k of
        StringField \<Rightarrow> map_sum id (map_option VString) (decode_string txt)
      | IntField \<Rightarrow> map_sum id (map_option VInt) (decode_int txt)
      | StringPtr \<Rightarrow> map_sum id (\<lambda>v. Some (VStringPtr v)) (decode_string txt)
      | BoolPtr \<Rightarrow> map_sum id (\<lambda>v. Some (VBoolPtr v)) (decode_bool txt))"

definition IndexByte :: "string \<Rightarrow> char \<Rightarrow> nat option" where
  "IndexByte s c = (let n = length (takeWhile (\<lambda>b. b \<noteq> c) s) in if n < length s then Some n else None)"

definition quotedField :: "string \<Rightarrow> string" where
  "quotedField message =
     (case IndexByte message (CHR 0x22) of
        None \<Rightarrow> ''params''
      | Some start \<Rightarrow>
          (case IndexByte (drop (start + 1) message) (CHR 0x22) of
             None \<Rightarrow> ''params''
           | Some n \<Rightarrow> take n (drop (start + 1) message)))"

definition unknown_field_text :: "string \<Rightarrow> string" where
  "unknown_field_text k = ''json: unknown field '' @ quoted k"

text \<open>One member of the object. The decoder goes on after an error and reports the first one.\<close>

definition param_field :: "(string \<Rightarrow> string) \<Rightarrow> schema \<Rightarrow> string \<times> string \<Rightarrow>
    (string, field_value) gomap \<times> ParamError option \<Rightarrow> (string, field_value) gomap \<times> ParamError option" where
  "param_field jsonerr sch kv mb =
     (let (k, txt) = kv; (m, err) = mb; or_first = (\<lambda>e. case err of None \<Rightarrow> Some e | Some _ \<Rightarrow> err) in
      case match_field (map fst sch) k of
        None \<Rightarrow> (m, or_first \<lparr>pe_Message = ''unknown field'', pe_Field = quotedField (unknown_field_text k),
                   pe_Detail = unknown_field_text k\<rparr>)
      | Some f \<Rightarrow>
          (case map_of sch f of
             None \<Rightarrow> (m, err)
           | Some kind \<Rightarrow>
               (case decode_field kind txt of
                  Inl _ \<Rightarrow> (m, or_first \<lparr>pe_Message = ''invalid value'', pe_Field = f, pe_Detail = jsonerr txt\<rparr>)
                | Inr None \<Rightarrow> (m, err)
                | Inr (Some v) \<Rightarrow> (AList.update f v m, err))))"

definition required_error :: "(string \<times> string) list \<Rightarrow> string \<Rightarrow> ParamError option" where
  "required_error ms field =
     (case map_of (rev ms) field of
        None \<Rightarrow> Some \<lparr>pe_Message = ''missing field'', pe_Field = field, pe_Detail = ''''\<rparr>
      | Some value \<Rightarrow>
          if TrimSpace value = ''null'' then Some \<lparr>pe_Message = ''missing field'', pe_Field = field, pe_Detail = ''''\<rparr> else None)"

definition DecodeParams :: "(string \<Rightarrow> string) \<Rightarrow> schema \<Rightarrow> string list \<Rightarrow> string \<Rightarrow> ParamError + (string, field_value) gomap" where
  "DecodeParams jsonerr sch required raw0 =
     (let raw = (if TrimSpace raw0 = [] then ''{}'' else raw0);
          trimmed = TrimSpace raw in
      if \<not> prefix ''{'' trimmed then Inl \<lparr>pe_Message = ''params must be an object'', pe_Field = ''params'', pe_Detail = ''''\<rparr>
      else
        (case json_value (2 * length trimmed + 2) 10000 trimmed of
           None \<Rightarrow> Inl \<lparr>pe_Message = ''invalid params'', pe_Field = ''params'', pe_Detail = jsonerr trimmed\<rparr>
         | Some (v, rest) \<Rightarrow>
             if skip_space rest \<noteq> [] then
               (case json_value (2 * length rest + 2) 10000 rest of
                  Some _ \<Rightarrow> Inl \<lparr>pe_Message = ''trailing data'', pe_Field = ''params'', pe_Detail = ''''\<rparr>
                | None \<Rightarrow> Inl \<lparr>pe_Message = ''trailing data'', pe_Field = ''params'', pe_Detail = jsonerr rest\<rparr>)
             else
               (case object_members (json_span trimmed rest) of
                  None \<Rightarrow> Inl \<lparr>pe_Message = ''invalid params'', pe_Field = ''params'', pe_Detail = jsonerr trimmed\<rparr>
                | Some ms \<Rightarrow>
                    (case fold (param_field jsonerr sch) ms (map (\<lambda>(f, k). (f, zero_value k)) sch, None) of
                       (values, Some e) \<Rightarrow> Inl e
                     | (values, None) \<Rightarrow>
                         (case first_some (map (required_error ms) required) of
                            Some e \<Rightarrow> Inl e
                          | None \<Rightarrow> Inr values)))))"

definition ValidateEnum :: "string \<Rightarrow> string \<Rightarrow> string list \<Rightarrow> ParamError option" where
  "ValidateEnum value field allowed =
     (if value \<in> set allowed then None
      else Some \<lparr>pe_Message = ''invalid enum'', pe_Field = field, pe_Detail = value\<rparr>)"

text \<open>A Go \<^verbatim>\<open>map[string]string\<close> marshals with its keys in order: \<^verbatim>\<open>detail\<close> before \<^verbatim>\<open>field\<close>.\<close>

definition invalidParamsError :: "ParamError \<Rightarrow> RPCError" where
  "invalidParamsError ve = \<lparr>rpc_Code = InvalidParamsCode, rpc_Message = pe_Message ve,
     rpc_Data = Some (JObj ((if pe_Detail ve \<noteq> '''' then [(''detail'', JStr (pe_Detail ve))] else []) @
       (if pe_Field ve \<noteq> '''' then [(''field'', JStr (pe_Field ve))] else [])))\<rparr>"

section \<open>Results\<close>

definition invalidResultError :: "string \<Rightarrow> string \<Rightarrow> RPCError" where
  "invalidResultError message field =
     \<lparr>rpc_Code = InvalidParamsCode, rpc_Message = message, rpc_Data = Some (JObj [(''field'', JStr field)])\<rparr>"

text \<open>The members of an object as a map: the last of two equal keys.\<close>

definition field_at :: "(string \<times> json) list \<Rightarrow> string \<Rightarrow> json option" where
  "field_at kvs k = map_of (rev kvs) k"

definition resultObject :: "json \<Rightarrow> string \<Rightarrow> string list \<Rightarrow> string list \<Rightarrow> RPCError + (string \<times> json) list" where
  "resultObject raw path optional required =
     (case raw of
        JObj flds \<Rightarrow>
          (let unknown = filter (\<lambda>f. f \<notin> set optional \<and> f \<notin> set required) (map fst flds) in
           if unknown \<noteq> [] then Inl (invalidResultError ''unknown field'' (path @ ''.'' @ hd (sort unknown)))
           else
             (case find (\<lambda>f. field_at flds f = None \<or> field_at flds f = Some JNull) required of
                Some f \<Rightarrow> Inl (invalidResultError ''missing field'' (path @ ''.'' @ f))
              | None \<Rightarrow> Inr flds))
      | _ \<Rightarrow> Inl (invalidResultError ''invalid value'' path))"

definition resultStringValue :: "json option \<Rightarrow> string \<Rightarrow> bool \<Rightarrow> RPCError option" where
  "resultStringValue raw path nonEmpty =
     (case raw of
        Some (JStr value) \<Rightarrow> fail_if (nonEmpty \<and> value = '''') (invalidResultError ''invalid value'' path)
      | _ \<Rightarrow> Some (invalidResultError ''invalid value'' path))"

definition resultString :: "(string \<times> json) list \<Rightarrow> string \<Rightarrow> string \<Rightarrow> bool \<Rightarrow> RPCError option" where
  "resultString flds path field nonEmpty = resultStringValue (field_at flds field) path nonEmpty"

definition resultBool :: "(string \<times> json) list \<Rightarrow> string \<Rightarrow> string \<Rightarrow> RPCError option" where
  "resultBool flds path field =
     (case field_at flds field of
        Some (JBool _) \<Rightarrow> None | Some JNull \<Rightarrow> None | _ \<Rightarrow> Some (invalidResultError ''invalid value'' path))"

definition resultEnum :: "(string \<times> json) list \<Rightarrow> string \<Rightarrow> string \<Rightarrow> string list \<Rightarrow> RPCError option" where
  "resultEnum flds path field allowed =
     (case field_at flds field of
        Some (JStr value) \<Rightarrow> fail_if (value \<notin> set allowed) (invalidResultError ''invalid enum'' path)
      | Some JNull \<Rightarrow> fail_if ('''' \<notin> set allowed) (invalidResultError ''invalid enum'' path)
      | _ \<Rightarrow> Some (invalidResultError ''invalid value'' path))"

definition resultArray :: "(string \<times> json) list \<Rightarrow> string \<Rightarrow> string \<Rightarrow> RPCError + json list" where
  "resultArray flds path field =
     (case field_at flds field of Some (JArr values) \<Rightarrow> Inr values | _ \<Rightarrow> Inl (invalidResultError ''invalid value'' path))"

definition resultNonNegativeInt :: "(string \<times> json) list \<Rightarrow> string \<Rightarrow> string \<Rightarrow> RPCError option" where
  "resultNonNegativeInt flds path field =
     (case field_at flds field of
        Some (JNum s) \<Rightarrow>
          (case parse_int64 s of
             Some n \<Rightarrow> fail_if (n < 0) (invalidResultError ''invalid value'' path)
           | None \<Rightarrow> Some (invalidResultError ''invalid value'' path))
      | Some JNull \<Rightarrow> None
      | _ \<Rightarrow> Some (invalidResultError ''invalid value'' path))"

text \<open>\<^verbatim>\<open>flds, rpcErr := ...; if rpcErr != nil { return rpcErr }\<close>\<close>

definition checked :: "RPCError + 'a \<Rightarrow> ('a \<Rightarrow> RPCError option) \<Rightarrow> RPCError option" where
  "checked r f = (case r of Inl e \<Rightarrow> Some e | Inr a \<Rightarrow> f a)"

definition indexed :: "string \<Rightarrow> nat \<Rightarrow> string" where
  "indexed path i = path @ ''['' @ itoa (int i) @ '']''"

definition status_step_error :: "nat \<Rightarrow> json \<Rightarrow> RPCError option" where
  "status_step_error i raw =
     (let path = indexed ''result.steps'' i in
      checked (resultObject raw path [] [''id'', ''status'']) (\<lambda>step.
        first_some [resultString step (path @ ''.id'') ''id'' True,
          resultEnum step (path @ ''.status'') ''status'' [''pending'', ''running'', ''completed'', ''failed'', ''skipped'']]))"

definition event_payload_error :: "string \<Rightarrow> (string \<times> json) list \<Rightarrow> RPCError option" where
  "event_payload_error path event =
     (case (field_at event ''payload'', field_at event ''payload_ref'') of
        (Some _, Some _) \<Rightarrow> Some (invalidResultError ''invalid value'' (path @ ''.payload''))
      | (Some payload, None) \<Rightarrow>
          first_some [resultStringValue (Some payload) (path @ ''.payload'') False,
            (case payload of
               JStr value \<Rightarrow> fail_if (length value > 16 * 1024) (invalidResultError ''value exceeds limit'' (path @ ''.payload''))
             | _ \<Rightarrow> None)]
      | (None, Some ref) \<Rightarrow> resultStringValue (Some ref) (path @ ''.payload_ref'') True
      | (None, None) \<Rightarrow> None)"

definition event_error :: "nat \<Rightarrow> json \<Rightarrow> RPCError option" where
  "event_error i raw =
     (let path = indexed ''result.events'' i in
      checked (resultObject raw path [''payload'', ''payload_ref''] [''cursor'', ''event_type'']) (\<lambda>event.
        first_some [resultNonNegativeInt event (path @ ''.cursor'') ''cursor'',
          resultString event (path @ ''.event_type'') ''event_type'' True,
          event_payload_error path event]))"

definition validateResult :: "string \<Rightarrow> json option \<Rightarrow> RPCError option" where
  "validateResult mth result =
     (let raw = json_utf8 (result_json result) in
      if mth = ''health'' then
        checked (resultObject raw ''result'' [] [''ok'']) (\<lambda>flds. resultBool flds ''result.ok'' ''ok'')
      else if mth = ''execution.start'' then
        checked (resultObject raw ''result'' [] [''execution_id'']) (\<lambda>flds.
          resultString flds ''result.execution_id'' ''execution_id'' True)
      else if mth = ''execution.status'' then
        checked (resultObject raw ''result'' [] [''status'', ''steps'']) (\<lambda>flds.
          first_some [resultEnum flds ''result.status'' ''status'' [''pending'', ''running'', ''completed'', ''failed''],
            checked (resultArray flds ''result.steps'' ''steps'') (first_error 0 status_step_error)])
      else if mth = ''step.run'' then
        checked (resultObject raw ''result'' [] [''attempt_id'', ''next_cursor'']) (\<lambda>flds.
          first_some [resultString flds ''result.attempt_id'' ''attempt_id'' True,
            resultNonNegativeInt flds ''result.next_cursor'' ''next_cursor''])
      else if mth = ''step.events'' then
        checked (resultObject raw ''result'' [] [''events'', ''next_cursor'']) (\<lambda>flds.
          checked (resultArray flds ''result.events'' ''events'') (\<lambda>events.
            first_some [resultNonNegativeInt flds ''result.next_cursor'' ''next_cursor'', first_error 0 event_error events]))
      else if mth = ''step.approve'' then
        checked (resultObject raw ''result'' [] [''resolved'']) (\<lambda>flds. resultBool flds ''result.resolved'' ''resolved'')
      else if mth = ''step.cancel'' then
        checked (resultObject raw ''result'' [] []) (\<lambda>_. None)
      else if mth = ''step.reopen'' then
        checked (resultObject raw ''result'' [] [''invalidated'']) (\<lambda>flds.
          checked (resultArray flds ''result.invalidated'' ''invalidated'') (\<lambda>invalidated.
            first_error 0 (\<lambda>i value. resultStringValue (Some value) (indexed ''result.invalidated'' i) True) invalidated))
      else None)"

end
