(* ===== verification/Broker_Server.thy ===== *)
theory Broker_Server
  imports Broker_Params
begin

text \<open>
  \<^verbatim>\<open>internal/broker/handlers.go\<close> and \<^verbatim>\<open>server.go\<close>: the dispatcher and the loop that serves one
  connection. A handler maps the state behind it and the text of its parameters to a result or an
  error, or it panics. A connection delivers bytes until the end of the stream and accepts a
  number of writes before it fails. Notifications, which other goroutines write between two
  lines, are the subject of the theory of the event sink.
\<close>

section \<open>Dispatcher\<close>

datatype reply = Returned "json option" "RPCError option" | Panicked

type_synonym 's handler = "string \<Rightarrow> 's \<Rightarrow> reply \<times> 's"
type_synonym 's dispatcher = "(string, 's handler) gomap"

definition NewDispatcher :: "'s dispatcher" where
  "NewDispatcher = []"

definition Register :: "string \<Rightarrow> 's handler \<Rightarrow> 's dispatcher \<Rightarrow> 's dispatcher" where
  "Register mth handler d = (if mth = '''' then d else AList.update mth handler d)"

definition internal_error :: RPCError where
  "internal_error = \<lparr>rpc_Code = InternalErrorCode, rpc_Message = ''internal error'', rpc_Data = None\<rparr>"

definition method_not_found :: RPCError where
  "method_not_found = \<lparr>rpc_Code = MethodNotFoundCode, rpc_Message = ''method not found'', rpc_Data = None\<rparr>"

definition invokeHandler :: "'s handler \<Rightarrow> string \<Rightarrow> 's \<Rightarrow> (json option \<times> RPCError option) \<times> 's" where
  "invokeHandler handler params s =
     (case handler params s of
        (Panicked, s') \<Rightarrow> ((None, Some internal_error), s')
      | (Returned result rpcErr, s') \<Rightarrow> ((result, rpcErr), s'))"

definition Dispatch :: "'s dispatcher \<Rightarrow> string \<Rightarrow> string \<Rightarrow> 's \<Rightarrow> (json option \<times> RPCError option) \<times> 's" where
  "Dispatch d mth params s =
     (case map_of d mth of
        None \<Rightarrow> ((None, Some method_not_found), s)
      | Some handler \<Rightarrow>
          (let ((result, rpcErr), s') = invokeHandler handler params s in
           case rpcErr of
             Some e \<Rightarrow> ((result, Some e), s')
           | None \<Rightarrow>
               (case validateResult mth result of
                  Some e \<Rightarrow> ((None, Some e), s')
                | None \<Rightarrow> ((result, None), s'))))"

section \<open>Serving a connection\<close>

definition validateEnvelope :: "Message \<Rightarrow> RPCError option" where
  "validateEnvelope msg =
     fail_if (msg_JSONRPC msg \<noteq> ''2.0'' \<or> msg_Method msg = '''' \<or> msg_Result msg \<noteq> '''' \<or> msg_Error msg \<noteq> None)
       \<lparr>rpc_Code = InvalidRequestCode, rpc_Message = ''Invalid Request'', rpc_Data = None\<rparr>"

definition wireID :: "ID option \<Rightarrow> rpc_id" where
  "wireID i =
     (if i = None \<or> IsNull i then IdNil
      else if IsString i then IdString (id_Str (the i))
      else IdNumber (id_Num (the i)))"

definition parse_error :: RPCError where
  "parse_error = \<lparr>rpc_Code = ParseErrorCode, rpc_Message = ''Parse error'', rpc_Data = None\<rparr>"

text \<open>What the loop does with one decoded line: the line it writes, if any, \<open>Inl\<close> when encoding fails.\<close>

definition handle_message :: "'s dispatcher \<Rightarrow> decode_error + Message \<Rightarrow> 's \<Rightarrow> (encode_error + string) option \<times> 's" where
  "handle_message d r s =
     (case r of
        Inl _ \<Rightarrow> (Some (EncodeError IdNil parse_error), s)
      | Inr msg \<Rightarrow>
          (let i = wireID (msg_ID msg) in
           case validateEnvelope msg of
             Some e \<Rightarrow> (if msg_ID msg = None then None else Some (EncodeError i e), s)
           | None \<Rightarrow>
               (let ((result, rpcErr), s') = Dispatch d (msg_Method msg) (msg_Params msg) s in
                if msg_ID msg = None then (None, s')
                else
                  (case rpcErr of
                     Some e \<Rightarrow> (Some (EncodeError i e), s')
                   | None \<Rightarrow> (Some (EncodeResponse i result), s')))))"

text \<open>The loop of a connection, on what the peer sends until it closes, as long as the connection takes the answers. What the
  subscription of the connection writes, whole lines under the same lock, is \<^verbatim>\<open>send_notification\<close> of the theory on the events of the broker,
  and the theory on the client mixes both. A read that fails in another way than by the end of the stream is, to the
  loop, a line that is no message: it writes a parse error until the connection refuses it.\<close>

datatype serve_end = PeerClosed | EncodeFailed encode_error | WriteFailed

function ServeConn :: "'s dispatcher \<Rightarrow> nat \<Rightarrow> string \<Rightarrow> 's \<Rightarrow> string list \<times> serve_end \<times> 's" where
  "ServeConn d writes input s =
     (case DecodeMessage input of
        (Inl EOF, _) \<Rightarrow> ([], PeerClosed, s)
      | (r, rest) \<Rightarrow>
          (case handle_message d r s of
             (None, s') \<Rightarrow> ServeConn d writes rest s'
           | (Some (Inl e), s') \<Rightarrow> ([], EncodeFailed e, s')
           | (Some (Inr line), s') \<Rightarrow>
               if writes = 0 then ([], WriteFailed, s')
               else (case ServeConn d (writes - 1) rest s' of (out, x) \<Rightarrow> (line # out, x))))"
  by pat_completeness auto

lemma DecodeMessage_EOF: "DecodeMessage s = (r, rest) \<Longrightarrow> r \<noteq> Inl EOF \<Longrightarrow> length rest < length s"
  using DecodeMessage_shorter [of s] by (cases "s = []") (auto simp: DecodeMessage_def)

termination ServeConn
  by (relation "measure (\<lambda>(d, w, input, s). length input)") (auto dest!: sym [of _ "DecodeMessage _"] DecodeMessage_EOF)

declare ServeConn.simps [simp del]

section \<open>Identifiers\<close>

lemma json_number_split: "json_number s = Some (a, r) \<Longrightarrow> s = a @ r"
proof -
  assume n: "json_number s = Some (a, r)"
  have d: "q = ds @ t" if "digits1 q = Some (ds, t)" for q ds t
    using that takeWhile_dropWhile_id [of json_digit q] by (auto simp: digits1_def split: list.splits)
  have i: "q = ds @ t" if "integer_part q = Some (ds, t)" for q ds t
    using that d [of q ds t] by (auto simp: integer_part_def split: list.splits if_splits)
  have o: "q = f @ t" if "optional_part mark sign q = (f, t)" for mark sign q f t
    using that by (auto simp: optional_part_def Let_def split: list.splits if_splits option.splits dest: d)
  let ?m = "case s of c # _ \<Rightarrow> if c = CHR ''-'' then [c] else [] | [] \<Rightarrow> []"
  obtain x r1 where 1: "integer_part (drop (length ?m) s) = Some (x, r1)"
    using n by (auto simp: json_number_def Let_def split: option.splits)
  obtain f r2 where 2: "optional_part (\<lambda>c. c = CHR ''.'') (\<lambda>_. False) r1 = (f, r2)" by fastforce
  obtain e r3 where 3: "optional_part (\<lambda>c. c = CHR ''e'' \<or> c = CHR ''E'') (\<lambda>c. c = CHR ''+'' \<or> c = CHR ''-'') r2 = (e, r3)" by fastforce
  have ar: "a = ?m @ x @ f @ e" "r = r3" using n 1 2 3 by (auto simp: json_number_def Let_def)
  have "drop (length ?m) s = x @ f @ e @ r3" using i [OF 1] o [OF 2] o [OF 3] by simp
  moreover have "s = ?m @ drop (length ?m) s" by (auto split: list.splits)
  ultimately have "s = ?m @ x @ f @ e @ r3" by argo
  then show ?thesis by (simp only: ar append_assoc)
qed

lemma json_value_number_text: "json_value n d s = Some (JNum a, r) \<Longrightarrow> json_number (skip_space s) = Some (a, r)"
  by (cases n) (auto simp: literal_def Let_def split: option.splits if_splits list.splits)

lemma isJSONNumber_text: "isJSONNumber s \<Longrightarrow> number_text s"
proof -
  assume n: "isJSONNumber s"
  then have cs: "\<forall>c \<in> set s. number_char c" by (auto simp: isJSONNumber_def number_char_def list_all_iff)
  then have sp: "skip_space t = t" if "set t \<subseteq> set s" for t
    using that number_char_bytes by (cases t) (auto simp: skip_space_def json_space_def is_space_def)
  obtain a where "json_parse s = Some (JNum a)" using n by (auto simp: isJSONNumber_def split: option.splits json.splits)
  then obtain r where r: "json_number s = Some (a, r)" "skip_space r = []"
    using sp [of s] unfolding json_parse_def
    by (auto simp del: json_value.simps split: option.splits if_splits dest!: json_value_number_text)
  then have "r = []" using json_number_split [OF r(1)] sp [of r] by auto
  then show ?thesis using json_number_split [OF r(1)] r(1) by (simp add: number_text_def)
qed

text \<open>The identifiers the decoder produces; the answer to one carries the same identifier.\<close>

definition id_ok :: "ID \<Rightarrow> bool" where
  "id_ok i \<longleftrightarrow>
     id_null i \<and> id_Str i = '''' \<and> id_Num i = '''' \<or>
     \<not> id_null i \<and> id_Num i = '''' \<and> utf8 (id_Str i) = id_Str i \<or>
     \<not> id_null i \<and> id_Str i = '''' \<and> number_text (id_Num i)"

lemma decode_id_ok: "decode_id raw = Inr (Some i) \<Longrightarrow> id_ok i"
  using isJSONNumber_text json_parse_utf8
  by (auto simp: decode_id_def decode_string_def id_ok_def Let_def split: if_splits option.splits json.splits)

lemma decode_line_id_ok: "decode_line l = Inr msg \<Longrightarrow> msg_ID msg = Some i \<Longrightarrow> id_ok i"
  using decode_id_ok by (auto simp: decode_line_def Let_def split: if_splits sum.splits)

lemma wire_id_wireID:
  assumes "id_ok i"
  shows "wire_id (wireID (Some i)) = i \<and> plain_id (wireID (Some i))"
proof -
  have "\<not> number_text ''''" by (simp add: number_text_def json_number_def integer_part_def)
  with assms show ?thesis
    by (cases i) (auto simp: id_ok_def wireID_def wire_id_def plain_id_def IsNull_def IsString_def)
qed

lemma decode_line_not_EOF: "decode_line l \<noteq> Inl EOF"
proof -
  have r: "decode_raw s \<noteq> Inl EOF" for s
    unfolding decode_raw_def Let_def by (cases "json_value (2 * length s + 2) 10000 s") (simp_all split: prod.splits if_splits del: json_value.simps)
  have i: "decode_id s \<noteq> Inl EOF" for s
    unfolding decode_id_def Let_def by (auto split: sum.splits option.splits)
  have e: "decode_rpc_error s \<noteq> Inl EOF" for s
    unfolding decode_rpc_error_def Let_def by (auto split: option.splits json.splits prod.splits)
  show ?thesis unfolding decode_line_def Let_def using r i e by (simp split: sum.splits) metis
qed

lemma read_line_not_EOF: "fst (read_line lim acc s) \<noteq> Inl EOF"
  by (induction lim acc s rule: read_line.induct) auto

text \<open>The decoded form of one line.\<close>

definition line_message :: "string \<Rightarrow> decode_error + Message" where
  "line_message l = fst (DecodeMessage (l @ newline))"

lemma line_message_not_EOF: "line_message l \<noteq> Inl EOF"
  using decode_line_not_EOF read_line_not_EOF [of MaxMessageSize "[]" "l @ newline"]
  by (auto simp: line_message_def DecodeMessage_def newline_def split: prod.splits sum.splits)

lemma line_message_id_ok: "line_message l = Inr msg \<Longrightarrow> msg_ID msg = Some i \<Longrightarrow> id_ok i"
  using decode_line_id_ok by (auto simp: line_message_def DecodeMessage_def split: if_splits prod.splits sum.splits)

lemma ServeConn_line:
  assumes "CHR 0x0A \<notin> set l"
  shows "ServeConn d writes (l @ newline @ rest) s =
    (case handle_message d (line_message l) s of
       (None, s') \<Rightarrow> ServeConn d writes rest s'
     | (Some (Inl e), s') \<Rightarrow> ([], EncodeFailed e, s')
     | (Some (Inr line), s') \<Rightarrow>
         if writes = 0 then ([], WriteFailed, s')
         else (case ServeConn d (writes - 1) rest s' of (out, x) \<Rightarrow> (line # out, x)))"
proof -
  have "DecodeMessage (l @ newline @ rest) = (line_message l, rest)"
    using DecodeMessage_line [OF assms, of rest] by (simp add: line_message_def newline_def)
  then show ?thesis using line_message_not_EOF [of l]
    by (subst ServeConn.simps) (auto split: sum.splits decode_error.splits)
qed

lemma ServeConn_end: "ServeConn d writes [] s = ([], PeerClosed, s)"
  by (subst ServeConn.simps) (simp add: DecodeMessage_def)

section \<open>Errors of the boundary\<close>

definition only_invalid :: "RPCError option \<Rightarrow> bool" where
  "only_invalid r \<longleftrightarrow> (\<forall>e. r = Some e \<longrightarrow> (\<exists>m f. e = invalidResultError m f))"

named_theorems only_invalid \<open>checks of results fail with an invalid result error\<close>

lemma only_invalid_basic [only_invalid]:
  "only_invalid None" "only_invalid (Some (invalidResultError m f))" "only_invalid (fail_if b (invalidResultError m f))"
  by (auto simp: only_invalid_def)

lemma only_invalid_first_some [only_invalid]:
  "only_invalid (first_some [])" "only_invalid e \<Longrightarrow> only_invalid (first_some es) \<Longrightarrow> only_invalid (first_some (e # es))"
  by (auto simp: only_invalid_def first_some.simps(2) split: option.splits)

lemma only_invalid_first_error [only_invalid]: "(\<And>i x. only_invalid (f i x)) \<Longrightarrow> only_invalid (first_error n f xs)"
  unfolding only_invalid_def by (blast dest: first_error_SomeD)

lemma only_invalid_checked [only_invalid]:
  "(\<And>e. r = Inl e \<Longrightarrow> only_invalid (Some e)) \<Longrightarrow> (\<And>a. only_invalid (f a)) \<Longrightarrow> only_invalid (checked r f)"
  by (cases r) (simp_all add: checked_def)

lemma only_invalid_if [only_invalid]: "only_invalid x \<Longrightarrow> only_invalid y \<Longrightarrow> only_invalid (if b then x else y)"
  by simp

lemma resultObject_invalid [only_invalid]: "resultObject raw path opt req = Inl e \<Longrightarrow> only_invalid (Some e)"
  by (auto simp: resultObject_def Let_def only_invalid_def split: json.splits if_splits option.splits)

lemma resultArray_invalid [only_invalid]: "resultArray flds path field = Inl e \<Longrightarrow> only_invalid (Some e)"
  by (auto simp: resultArray_def only_invalid_def split: option.splits json.splits)

lemma result_fields_invalid [only_invalid]:
  "only_invalid (resultStringValue raw path b)" "only_invalid (resultString flds path field b)" "only_invalid (resultBool flds path field)"
  "only_invalid (resultEnum flds path field allowed)" "only_invalid (resultNonNegativeInt flds path field)"
  by (auto simp: resultStringValue_def resultString_def resultBool_def resultEnum_def resultNonNegativeInt_def only_invalid_def
    split: option.splits json.splits)

lemma event_invalid [only_invalid]:
  "only_invalid (event_payload_error path event)" "only_invalid (status_step_error i raw)"
  "only_invalid (event_error i raw)"
proof -
  show p: "only_invalid (event_payload_error path event)" for path event
    unfolding event_payload_error_def by (auto intro!: only_invalid split: option.splits json.splits)
  show "only_invalid (status_step_error i raw)" "only_invalid (event_error i raw)"
    unfolding status_step_error_def event_error_def Let_def by (intro only_invalid p; assumption?)+
qed

lemma validateResult_invalid: "only_invalid (validateResult mth result)"
  unfolding validateResult_def Let_def by (intro only_invalid; assumption?)

lemma error_fits_simps [simp]:
  "error_fits (invalidResultError m f)" "error_fits internal_error" "error_fits method_not_found" "error_fits parse_error"
  by (simp_all add: error_fits_def invalidResultError_def internal_error_def method_not_found_def parse_error_def
    InvalidParamsCode_def InternalErrorCode_def MethodNotFoundCode_def ParseErrorCode_def)

lemma validateResult_fits: "validateResult mth result = Some e \<Longrightarrow> error_fits e"
  using validateResult_invalid [of mth result] by (auto simp: only_invalid_def)

lemma validateEnvelope_fits: "validateEnvelope msg = Some e \<Longrightarrow> error_fits e"
  by (auto simp: validateEnvelope_def error_fits_def InvalidRequestCode_def)

text \<open>What a connection has to answer: a parse error with the null identifier for a line that is no
  message, nothing for a notification, the outcome of the call for a request.\<close>

definition null_id :: ID where
  "null_id = \<lparr>id_Str = '''', id_Num = '''', id_null = True\<rparr>"

definition answer_message :: "ID \<Rightarrow> json option \<times> RPCError option \<Rightarrow> Message" where
  "answer_message i r =
     (case snd r of
        Some e \<Rightarrow> blank_message\<lparr>msg_ID := Some i,
          msg_Error := Some (e\<lparr>rpc_Message := utf8 (rpc_Message e), rpc_Data := map_option json_utf8 (rpc_Data e)\<rparr>)\<rparr>
      | None \<Rightarrow> blank_message\<lparr>msg_ID := Some i, msg_Result := json_text (result_json (fst r))\<rparr>)"

definition call :: "'s dispatcher \<Rightarrow> Message \<Rightarrow> 's \<Rightarrow> (json option \<times> RPCError option) \<times> 's" where
  "call d msg s =
     (case validateEnvelope msg of
        Some e \<Rightarrow> ((None, Some e), s)
      | None \<Rightarrow> Dispatch d (msg_Method msg) (msg_Params msg) s)"

fun answers :: "'s dispatcher \<Rightarrow> (decode_error + Message) list \<Rightarrow> 's \<Rightarrow> Message list \<times> 's" where
  "answers d [] s = ([], s)"
| "answers d (Inl e # ms) s = apfst ((#) (answer_message null_id (None, Some parse_error))) (answers d ms s)"
| "answers d (Inr msg # ms) s =
     (let (r, s') = call d msg s in
      apfst ((@) (case msg_ID msg of None \<Rightarrow> [] | Some i \<Rightarrow> [answer_message i r])) (answers d ms s'))"

definition replies_fit :: "'s dispatcher \<Rightarrow> bool" where
  "replies_fit d \<longleftrightarrow> (\<forall>mth h params s r e s'. map_of d mth = Some h \<longrightarrow> h params s = (Returned r e, s') \<longrightarrow>
     param_fits r \<and> (\<forall>x. e = Some x \<longrightarrow> error_fits x))"

lemma param_fits_None [simp]: "param_fits None"
  by (simp add: param_fits_def)

lemma call_fits:
  assumes "replies_fit d" "call d msg s = ((r, e), s')"
  shows "param_fits r \<and> (\<forall>x. e = Some x \<longrightarrow> error_fits x)"
proof (cases "validateEnvelope msg")
  case (Some x)
  then show ?thesis using assms(2) validateEnvelope_fits [OF Some] by (auto simp: call_def)
next
  case None
  have f: "param_fits r' \<and> (\<forall>x. e' = Some x \<longrightarrow> error_fits x)"
    if "map_of d mth = Some h" "h params s = (Returned r' e', s'')" for mth h params s r' e' s''
    using assms(1) that unfolding replies_fit_def by blast
  show ?thesis using assms(2) None
    by (auto simp: call_def Dispatch_def invokeHandler_def Let_def split: option.splits prod.splits reply.splits
      dest: f validateResult_fits)
qed

lemma handle_message_line:
  "handle_message d (Inr msg) s =
     (case call d msg s of ((r, e), s') \<Rightarrow>
        (case msg_ID msg of
           None \<Rightarrow> None
         | Some i \<Rightarrow> Some (case e of Some e \<Rightarrow> EncodeError (wireID (Some i)) e | None \<Rightarrow> EncodeResponse (wireID (Some i)) r), s'))"
  by (auto simp: handle_message_def call_def Let_def split: option.splits prod.splits)

lemma encoded_answer:
  assumes "id_ok i" "param_fits r" "\<forall>x. e = Some x \<longrightarrow> error_fits x"
    "(case e of Some e \<Rightarrow> EncodeError (wireID (Some i)) e | None \<Rightarrow> EncodeResponse (wireID (Some i)) r) = Inr line"
  shows "fst (DecodeMessage line) = Inr (answer_message i (r, e))"
proof (cases e)
  case None
  then show ?thesis using EncodeResponse_decoded [of "wireID (Some i)" r line "[]"] wire_id_wireID [OF assms(1)] assms(2,4)
    by (simp add: answer_message_def)
next
  case (Some x)
  then show ?thesis using EncodeError_decoded [of "wireID (Some i)" x line "[]"] wire_id_wireID [OF assms(1)] assms(3,4)
    by (simp add: answer_message_def)
qed

lemma encoded_parse_error: "EncodeError IdNil parse_error = Inr line \<Longrightarrow>
  fst (DecodeMessage line) = Inr (answer_message null_id (None, Some parse_error))"
  using EncodeError_decoded [of IdNil parse_error line "[]"]
  by (simp add: answer_message_def plain_id_def wire_id_def null_id_def)

lemma serve_answers:
  assumes "replies_fit d" "\<forall>l \<in> set ls. CHR 0x0A \<notin> set l"
    "ServeConn d writes (concat (map (\<lambda>l. l @ newline) ls)) s = (out, PeerClosed, s')"
  shows "(map (\<lambda>l. fst (DecodeMessage l)) out, s') = apfst (map Inr) (answers d (map line_message ls) s)"
  using assms(2,3)
proof (induction ls arbitrary: writes s out)
  case Nil
  then show ?case by (simp add: ServeConn_end)
next
  case (Cons l ls)
  let ?rest = "concat (map (\<lambda>l. l @ newline) ls)"
  note line = ServeConn_line [of l d writes ?rest s]
  have IH: "(map (\<lambda>l. fst (DecodeMessage l)) out', s') = apfst (map Inr) (answers d (map line_message ls) s1)"
    if "ServeConn d w' ?rest s1 = (out', PeerClosed, s')" for w' s1 out'
    using Cons.IH [OF _ that] Cons.prems(1) by simp
  show ?case
  proof (cases "line_message l")
    case (Inl x)
    then have h: "handle_message d (line_message l) s = (Some (EncodeError IdNil parse_error), s)" by (simp add: handle_message_def)
    obtain ln out' where "EncodeError IdNil parse_error = Inr ln" "out = ln # out'" "ServeConn d (writes - 1) ?rest s = (out', PeerClosed, s')"
      using Cons.prems line h by (auto split: sum.splits if_splits prod.splits)
    then show ?thesis using IH [of "writes - 1" s out'] encoded_parse_error Inl by (auto simp: apfst_def map_prod_def split: prod.splits)
  next
    case (Inr msg)
    obtain r e s1 where c: "call d msg s = ((r, e), s1)" by (metis prod.exhaust)
    note f = call_fits [OF assms(1) c]
    show ?thesis
    proof (cases "msg_ID msg")
      case None
      then have "ServeConn d writes ?rest s1 = (out, PeerClosed, s')"
        using Cons.prems line c by (simp add: Inr handle_message_line)
      then show ?thesis using IH [of writes s1 out] c None Inr by (auto simp: apfst_def map_prod_def split: prod.splits)
    next
      case (Some i)
      have ok: "id_ok i" using line_message_id_ok Inr Some by blast
      obtain ln out' where "(case e of Some e \<Rightarrow> EncodeError (wireID (Some i)) e | None \<Rightarrow> EncodeResponse (wireID (Some i)) r) = Inr ln"
        "out = ln # out'" "ServeConn d (writes - 1) ?rest s1 = (out', PeerClosed, s')"
        using Cons.prems line c Some by (auto simp: Inr handle_message_line split: sum.splits if_splits prod.splits)
      then show ?thesis using IH [of "writes - 1" s1 out'] encoded_answer [OF ok] f c Some Inr
        by (auto simp: apfst_def map_prod_def split: prod.splits)
    qed
  qed
qed

lemma encode_fails:
  "encodeAndWrite v = Inl e \<Longrightarrow> \<exists>n > MaxMessageSize. e = TooLargeToSend n"
  by (auto simp: encodeAndWrite_def Let_def split: if_splits)

lemma marshal_plain: "plain_id i \<Longrightarrow> \<exists>v. marshalID i = Inr v"
proof (cases i)
  case (IdNumber s)
  assume "plain_id i"
  moreover have "number_text ''0''" using itoa_number [of 0] digit_char_zero by (simp add: itoa_def itoa_nat.simps)
  ultimately show ?thesis using IdNumber by (auto simp: plain_id_def marshalID_def raw_json_def)
qed (auto simp: plain_id_def marshalID_def)

lemma answer_fails:
  "plain_id i \<Longrightarrow> EncodeError i e = Inl x \<Longrightarrow> \<exists>n > MaxMessageSize. x = TooLargeToSend n"
  "plain_id i \<Longrightarrow> EncodeResponse i r = Inl x \<Longrightarrow> \<exists>n > MaxMessageSize. x = TooLargeToSend n"
  using marshal_plain [of i] encode_fails by (fastforce simp: EncodeError_def EncodeResponse_def)+

lemma serve_end:
  assumes "\<forall>l \<in> set ls. CHR 0x0A \<notin> set l" "length ls \<le> writes"
    "ServeConn d writes (concat (map (\<lambda>l. l @ newline) ls)) s = (out, fin, s')"
  shows "fin = PeerClosed \<or> (\<exists>n > MaxMessageSize. fin = EncodeFailed (TooLargeToSend n))"
  using assms
proof (induction ls arbitrary: writes s out)
  case Nil
  then show ?case by (simp add: ServeConn_end)
next
  case (Cons l ls)
  let ?rest = "concat (map (\<lambda>l. l @ newline) ls)" and ?ok = "fin = PeerClosed \<or> (\<exists>n > MaxMessageSize. fin = EncodeFailed (TooLargeToSend n))"
  note line = ServeConn_line [of l d writes ?rest s]
  have IH: ?ok if "ServeConn d w' ?rest s1 = (out', fin, s')" "length ls \<le> w'" for w' s1 out'
    using Cons.IH [OF _ that(2) that(1)] Cons.prems(1) by simp
  have reply: ?ok if "handle_message d (line_message l) s = (Some x, s1)"
    "\<And>e. x = Inl e \<Longrightarrow> \<exists>n > MaxMessageSize. e = TooLargeToSend n" for x s1
    using that Cons.prems line IH [of "writes - 1" s1] by (auto split: sum.splits if_splits prod.splits)
  show ?case
  proof (cases "line_message l")
    case (Inl x)
    then show ?thesis using reply [of "EncodeError IdNil parse_error" s] answer_fails(1) [of IdNil]
      by (simp add: handle_message_def plain_id_def)
  next
    case (Inr msg)
    obtain r e s1 where c: "call d msg s = ((r, e), s1)" by (metis prod.exhaust)
    show ?thesis
    proof (cases "msg_ID msg")
      case None
      then show ?thesis using Cons.prems line c IH [of writes s1 out] by (simp add: Inr handle_message_line)
    next
      case (Some i)
      have "plain_id (wireID (Some i))" using line_message_id_ok Inr Some wire_id_wireID by blast
      with answer_fails [OF this] show ?thesis using Inr c Some
        by (intro reply) (auto simp: handle_message_line split: option.splits)
    qed
  qed
qed

definition expected_ids :: "(decode_error + Message) list \<Rightarrow> ID list" where
  "expected_ids rs = concat (map (\<lambda>r. case r of Inl _ \<Rightarrow> [null_id] | Inr m \<Rightarrow> (case msg_ID m of None \<Rightarrow> [] | Some i \<Rightarrow> [i])) rs)"

lemma answers_shape:
  assumes "replies_fit d" "answers d rs s = (ms, s')"
  shows "map msg_ID ms = map Some (expected_ids rs) \<and> (\<forall>m \<in> set ms. (msg_Result m = '''') \<noteq> (msg_Error m = None))"
  using assms(2)
proof (induction rs arbitrary: s ms)
  case (Cons x rs)
  have shape: "msg_ID (answer_message i (r, e)) = Some i \<and>
      (msg_Result (answer_message i (r, e)) = '''') \<noteq> (msg_Error (answer_message i (r, e)) = None)" if "param_fits r" for i r e
  proof -
    have "json_fits 9999 (result_json r)" using that by (simp add: param_fits_def result_json_def split: option.splits)
    from json_text_Cons [OF this] show ?thesis by (auto simp: answer_message_def blank_message_def split: option.splits)
  qed
  show ?case
  proof (cases x)
    case (Inl y)
    then show ?thesis using Cons shape [of None null_id "Some parse_error"]
      by (cases "answers d rs s") (auto simp: expected_ids_def)
  next
    case (Inr msg)
    obtain r e s1 where c: "call d msg s = ((r, e), s1)" by (metis prod.exhaust)
    show ?thesis using Cons Inr c call_fits [OF assms(1) c] shape [of r _ e]
      by (cases "answers d rs s1"; cases "msg_ID msg") (fastforce simp: expected_ids_def)+
  qed
qed (simp add: expected_ids_def)

section \<open>Serving every line\<close>

lemma server_answers:
  assumes "replies_fit d" "\<forall>l \<in> set ls. CHR 0x0A \<notin> set l"
    "ServeConn d writes (concat (map (\<lambda>l. l @ newline) ls)) s = (out, fin, s')"
  shows "(length ls \<le> writes \<longrightarrow> fin = PeerClosed \<or> (\<exists>n > MaxMessageSize. fin = EncodeFailed (TooLargeToSend n))) \<and>
    (fin = PeerClosed \<longrightarrow>
      (\<exists>ms. map (\<lambda>l. fst (DecodeMessage l)) out = map Inr ms \<and> answers d (map line_message ls) s = (ms, s') \<and>
        map msg_ID ms = map Some (expected_ids (map line_message ls)) \<and>
        (\<forall>m \<in> set ms. (msg_Result m = '''') \<noteq> (msg_Error m = None))))"
proof -
  obtain ms s1 where a: "answers d (map line_message ls) s = (ms, s1)" by fastforce
  then show ?thesis
    using serve_end [OF assms(2) _ assms(3)] serve_answers [OF assms(1,2), of writes s out s'] assms(3) answers_shape [OF assms(1) a]
    by auto
qed

lemma parse_error_sent: "\<exists>line. EncodeError IdNil parse_error = Inr line"
proof -
  have "length (itoa ParseErrorCode) \<le> 10" by (simp add: itoa_def itoa_nat.simps ParseErrorCode_def)
  then show ?thesis
    by (simp add: EncodeError_def marshalID_def encodeAndWrite_def Let_def omitempty_def rpc_error_json_def parse_error_def
      json_string_def json_ascii_def MaxMessageSize_def byte_def)
qed

text \<open>A line that is no message, answered.\<close>

lemma garbage_line: "line_message ''x'' = Inl BadJSON"
proof -
  have x: "TrimSpace ''x'' = ''x''" by (rule TrimSpace_id) (simp_all add: is_space_def byte_def)
  have "json_value (Suc n) k ''x'' = None" for n k
    by (simp add: skip_space_def json_space_def json_number_def integer_part_def digits1_def json_digit_def in_range_def byte_def)
  moreover have "2 * length ''x'' + 2 = Suc 3" by simp
  ultimately have "decode_raw ''x'' = Inl BadJSON" by (simp only: decode_raw_def option.case)
  then have "decode_line ''x'' = Inl BadJSON" by (simp add: decode_line_def x)
  moreover have "read_line MaxMessageSize [] (''x'' @ newline) = (Inr ''x'', [])"
    using read_line_newline [of "''x''" "[]" MaxMessageSize "[]"] by (simp add: newline_def MaxMessageSize_def)
  ultimately show ?thesis by (simp add: line_message_def DecodeMessage_def)
qed

lemma serve_garbage: "\<exists>line. ServeConn d 1 (''x'' @ newline) s = ([line], PeerClosed, s)"
proof -
  obtain line where "EncodeError IdNil parse_error = Inr line" using parse_error_sent ..
  then have "ServeConn d 1 (''x'' @ newline @ []) s = ([line], PeerClosed, s)"
    by (subst ServeConn_line) (simp_all add: handle_message_def ServeConn_end garbage_line)
  then show ?thesis by simp
qed

end
