(* ===== verification/Broker_Events.thy ===== *)
theory Broker_Events
  imports Broker_Server Engine_Types "HOL-Library.Word"
begin

text \<open>
  \<^verbatim>\<open>internal/broker/notify.go\<close>, \<^verbatim>\<open>event_sink.go\<close> and \<^verbatim>\<open>runtime.go\<close>: the hub that fans
  notifications out to the connections, the sink that publishes a notification after the
  transaction that caused it, the registry of running attempts and waiting permission requests.
  A subscriber is the connection whose writer it was given; a connection that is closed refuses
  writes. A channel is the list of the values sent and not yet received.
\<close>

section \<open>Hub\<close>

record Conn =
  c_open :: bool
  c_lines :: "string list"

record Hub =
  nextID :: "64 word"
  subscribers :: "(64 word, nat) gomap"

record Bus =
  bus_hub :: Hub
  bus_conns :: "(nat, Conn) gomap"

definition NewHub :: Hub where
  "NewHub = \<lparr>nextID = 0, subscribers = []\<rparr>"

definition Subscribe :: "nat \<Rightarrow> Hub \<Rightarrow> 64 word \<times> Hub" where
  "Subscribe conn h =
     (let i = nextID h + 1 in (i, h\<lparr>nextID := i, subscribers := AList.update i conn (subscribers h)\<rparr>))"

definition unsubscribe :: "64 word \<Rightarrow> Hub \<Rightarrow> Hub" where
  "unsubscribe i h = h\<lparr>subscribers := AList.delete i (subscribers h)\<rparr>"

text \<open>The writer a served connection subscribes with: whether it fails, and the connections after it.\<close>

definition send_notification :: "nat \<Rightarrow> string \<Rightarrow> json option \<Rightarrow> (nat, Conn) gomap \<Rightarrow> bool \<times> (nat, Conn) gomap" where
  "send_notification conn mth params conns =
     (case EncodeNotification mth params of
        Inl _ \<Rightarrow> (True, conns)
      | Inr line \<Rightarrow>
          (case map_of conns conn of
             None \<Rightarrow> (True, conns)
           | Some c \<Rightarrow> if c_open c then (False, adjust conn (\<lambda>c. c\<lparr>c_lines := c_lines c @ [line]\<rparr>) conns) else (True, conns)))"

fun broadcast_loop :: "(64 word \<times> nat) list \<Rightarrow> string \<Rightarrow> json option \<Rightarrow> Bus \<Rightarrow> Bus" where
  "broadcast_loop [] mth params b = b"
| "broadcast_loop ((i, conn) # snapshot) mth params b =
     (let (failed, conns) = send_notification conn mth params (bus_conns b);
          b = b\<lparr>bus_conns := conns\<rparr>;
          b = (if failed then b\<lparr>bus_hub := unsubscribe i (bus_hub b)\<rparr> else b)
      in broadcast_loop snapshot mth params b)"

definition Broadcast :: "string \<Rightarrow> json option \<Rightarrow> Bus \<Rightarrow> Bus" where
  "Broadcast mth params b = (if mth = '''' then b else broadcast_loop (subscribers (bus_hub b)) mth params b)"

section \<open>Event sink\<close>

record EventNotification =
  en_Method :: string
  en_Params :: "json option"

text \<open>The failpoints are functions of a test; set, they return an error or not.\<close>

record EventSink =
  sk_store :: "FencedStore option"
  sk_hub :: bool
  sk_BeforeCommit :: "goerr option option"
  sk_AfterCommit :: "goerr option option"

type_synonym EventMutation = "FencedStore option \<Rightarrow> (FakeStore, EventNotification) op"

definition NewEventSink :: "FencedStore option \<Rightarrow> bool \<Rightarrow> EventSink" where
  "NewEventSink s hub = \<lparr>sk_store = s, sk_hub = hub, sk_BeforeCommit = None, sk_AfterCommit = None\<rparr>"

definition SetHub :: "bool \<Rightarrow> EventSink \<Rightarrow> EventSink" where
  "SetHub hub s = s\<lparr>sk_hub := hub\<rparr>"

definition SetFailpoints :: "goerr option option \<Rightarrow> goerr option option \<Rightarrow> EventSink \<Rightarrow> EventSink" where
  "SetFailpoints before after s = s\<lparr>sk_BeforeCommit := before, sk_AfterCommit := after\<rparr>"

definition view_WithTx :: "clock \<Rightarrow> FencedStore option \<Rightarrow> (FencedStore option \<Rightarrow> (FakeStore, 'a) op) \<Rightarrow> (FakeStore, 'a) op" where
  "view_WithTx now fo fn = (case fo of None \<Rightarrow> WithTx (fn None) | Some f \<Rightarrow> fenced_WithTx now f (\<lambda>tx. fn (Some tx)))"

definition commit_body :: "EventSink \<Rightarrow> EventMutation \<Rightarrow> EventMutation" where
  "commit_body k mutate tx =
     op_bind (mutate tx) (\<lambda>n.
     case sk_BeforeCommit k of None \<Rightarrow> op_return n | Some r \<Rightarrow> op_bind (op_check r) (\<lambda>_. op_return n))"

definition sink_Commit :: "clock \<Rightarrow> EventSink \<Rightarrow> EventMutation \<Rightarrow> FakeStore \<times> Bus \<Rightarrow> goerr option \<times> FakeStore \<times> Bus" where
  "sink_Commit now k mutate sb =
     (let (s, b) = sb in
      case view_WithTx now (sk_store k) (commit_body k mutate) s of
        (Inl e, s') \<Rightarrow> (Some e, s', b)
      | (Inr n, s') \<Rightarrow>
          (case sk_AfterCommit k of
             Some (Some e) \<Rightarrow> (Some e, s', b)
           | _ \<Rightarrow>
               if en_Method n \<noteq> '''' \<and> sk_hub k then (None, s', Broadcast (en_Method n) (en_Params n) b)
               else (None, s', b)))"

definition EventSinkForAttempt :: "EventSink \<Rightarrow> string \<Rightarrow> string \<Rightarrow> string \<Rightarrow> int \<Rightarrow> EventSink" where
  "EventSinkForAttempt k execID stepID holder fencingToken =
     NewEventSink (Some (NewFencedStore execID stepID holder fencingToken)) (sk_hub k)"

section \<open>Session registry\<close>

text \<open>A cancellation function marks the attempt; an adapter session is what its \<^verbatim>\<open>Cancel\<close> returns.\<close>

record attemptSession =
  as_cancel :: bool
  as_session :: "goerr option option"

record interactionResult =
  ir_decision :: string
  ir_err :: "goerr option"

record interactionWaiter =
  iw_attemptID :: string
  iw_result :: nat

record SessionRegistry =
  sr_attempts :: "(string, attemptSession) gomap"
  sr_interactions :: "(string, interactionWaiter) gomap"
  sr_channels :: "interactionResult list list"
  sr_cancelled :: "string list"

definition NewSessionRegistry :: SessionRegistry where
  "NewSessionRegistry = \<lparr>sr_attempts = [], sr_interactions = [], sr_channels = [], sr_cancelled = []\<rparr>"

definition registry_Register :: "string \<Rightarrow> goerr option \<Rightarrow> SessionRegistry \<Rightarrow> SessionRegistry" where
  "registry_Register attemptID session r =
     (if attemptID = '''' then r
      else r\<lparr>sr_attempts := AList.update attemptID \<lparr>as_cancel = False, as_session = Some session\<rparr> (sr_attempts r)\<rparr>)"

definition RegisterContext :: "string \<Rightarrow> SessionRegistry \<Rightarrow> SessionRegistry" where
  "RegisterContext attemptID r =
     (if attemptID = '''' then r
      else r\<lparr>sr_attempts := AList.update attemptID \<lparr>as_cancel = True, as_session = None\<rparr> (sr_attempts r)\<rparr>)"

definition registry_Remove :: "string \<Rightarrow> SessionRegistry \<Rightarrow> SessionRegistry" where
  "registry_Remove attemptID r = r\<lparr>sr_attempts := AList.delete attemptID (sr_attempts r)\<rparr>"

definition call_cancel :: "string \<Rightarrow> SessionRegistry \<Rightarrow> SessionRegistry" where
  "call_cancel attemptID r = r\<lparr>sr_cancelled := List.insert attemptID (sr_cancelled r)\<rparr>"

definition registry_Cancel :: "string \<Rightarrow> SessionRegistry \<Rightarrow> goerr option \<times> SessionRegistry" where
  "registry_Cancel attemptID r =
     (case map_of (sr_attempts r) attemptID of
        None \<Rightarrow> (None, r)
      | Some control \<Rightarrow>
          (let r = (if as_cancel control then call_cancel attemptID r else r) in
           case as_session control of None \<Rightarrow> (None, r) | Some e \<Rightarrow> (e, r)))"

definition CancelAll :: "SessionRegistry \<Rightarrow> SessionRegistry" where
  "CancelAll r = fold (\<lambda>attemptID r. snd (registry_Cancel attemptID r)) (map fst (sr_attempts r)) r"

definition BeginInteraction :: "string \<Rightarrow> string \<Rightarrow> SessionRegistry \<Rightarrow> nat \<times> SessionRegistry" where
  "BeginInteraction interactionID attemptID r =
     (let ch = length (sr_channels r) in
      (ch, r\<lparr>sr_channels := sr_channels r @ [[]],
             sr_interactions := AList.update interactionID \<lparr>iw_attemptID = attemptID, iw_result = ch\<rparr> (sr_interactions r)\<rparr>))"

text \<open>The \<^verbatim>\<open>select\<close> of a waiter: \<open>None\<close> while neither case is ready; when both are, either may be taken.\<close>

definition WaitInteraction :: "bool \<Rightarrow> goerr option \<Rightarrow> nat \<Rightarrow> SessionRegistry \<Rightarrow> ((goerr + string) option) \<times> SessionRegistry" where
  "WaitInteraction prefer_result ctxErr ch r =
     (case (sr_channels r ! ch, ctxErr) of
        ([], None) \<Rightarrow> (None, r)
      | ([], Some e) \<Rightarrow> (Some (Inl e), r)
      | (x # xs, e) \<Rightarrow>
          if e = None \<or> prefer_result then
            (Some (case ir_err x of None \<Rightarrow> Inr (ir_decision x) | Some e \<Rightarrow> Inl e), r\<lparr>sr_channels := (sr_channels r)[ch := xs]\<rparr>)
          else (Some (Inl (the e)), r))"

definition ResolveInteraction :: "string \<Rightarrow> string \<Rightarrow> SessionRegistry \<Rightarrow> SessionRegistry" where
  "ResolveInteraction interactionID decision r =
     (case map_of (sr_interactions r) interactionID of
        None \<Rightarrow> r
      | Some waiter \<Rightarrow>
          r\<lparr>sr_interactions := AList.delete interactionID (sr_interactions r),
            sr_channels := (sr_channels r)[iw_result waiter :=
              sr_channels r ! iw_result waiter @ [\<lparr>ir_decision = decision, ir_err = None\<rparr>]]\<rparr>)"

definition ForgetInteraction :: "string \<Rightarrow> nat \<Rightarrow> SessionRegistry \<Rightarrow> SessionRegistry" where
  "ForgetInteraction interactionID ch r =
     (case map_of (sr_interactions r) interactionID of
        None \<Rightarrow> r
      | Some waiter \<Rightarrow> if iw_result waiter = ch then r\<lparr>sr_interactions := AList.delete interactionID (sr_interactions r)\<rparr> else r)"

section \<open>Permission requests\<close>

record interactionRequiredPayload =
  irp_InteractionID :: string
  irp_Kind :: string
  irp_Description :: string
  irp_Options :: "string list"
  irp_AvailableDecisions :: "string list"

definition payload_text :: "interactionRequiredPayload \<Rightarrow> string" where
  "payload_text p = json_text (JObj [(''interaction_id'', JStr (irp_InteractionID p)), (''kind'', JStr (irp_Kind p)),
     (''description'', JStr (irp_Description p)), (''options'', JArr (map JStr (irp_Options p))),
     (''available_decisions'', JArr (map JStr (irp_AvailableDecisions p)))])"

datatype payload_result = Payload string | PayloadTooLarge | SlicePanic

text \<open>The binary search. \<^verbatim>\<open>encode\<close> stores the shortened description, which the next round slices:
  a longer slice is out of range.\<close>

function payload_search :: "interactionRequiredPayload \<Rightarrow> int \<Rightarrow> int \<Rightarrow> string \<Rightarrow> payload_result" where
  "payload_search p low high best =
     (if low \<le> high then
        (let mid = low + (high - low) div 2 in
         if mid < 0 \<or> mid > int (length (irp_Description p)) then SlicePanic
         else
           (let p = p\<lparr>irp_Description := take (nat mid) (irp_Description p)\<rparr>; encoded = payload_text p in
            if length encoded \<le> VisibleLimit then payload_search p (mid + 1) high encoded
            else payload_search p low (mid - 1) best))
      else if best \<noteq> '''' then Payload best else PayloadTooLarge)"
  by pat_completeness auto

termination payload_search
  by (relation "measure (\<lambda>(p, low, high, best). nat (high - low + 1))") (auto simp: Let_def)

declare payload_search.simps [simp del]

definition redact_payload :: "interactionRequiredPayload \<Rightarrow> interactionRequiredPayload" where
  "redact_payload p = p\<lparr>irp_Description := Redact (irp_Description p), irp_Options := map Redact (irp_Options p),
     irp_AvailableDecisions := map Redact (irp_Options p) @ drop (length (irp_Options p)) (irp_AvailableDecisions p)\<rparr>"

definition boundedInteractionPayload :: "interactionRequiredPayload \<Rightarrow> payload_result" where
  "boundedInteractionPayload payload =
     (let p = redact_payload payload; encoded = payload_text p in
      if length encoded \<le> VisibleLimit then Payload encoded
      else payload_search p 0 (int (length (irp_Description p))) '''')"

text \<open>A description that is too long as a whole but short enough at half its length makes the second
  round slice beyond the shortened description.\<close>

lemma irp_simps: "irp_Description (p\<lparr>irp_Description := s\<rparr>) = s"
  by simp

lemma payload_slice_panics:
  fixes payload :: interactionRequiredPayload
  defines "p \<equiv> redact_payload payload"
  assumes "VisibleLimit < length (payload_text p)" "irp_Description p \<noteq> ''''"
    "length (payload_text (p\<lparr>irp_Description := take (length (irp_Description p) div 2) (irp_Description p)\<rparr>)) \<le> VisibleLimit"
  shows "boundedInteractionPayload payload = SlicePanic"
proof -
  let ?n = "length (irp_Description p)"
  have half: "nat (int ?n div 2) = ?n div 2" "\<not> int ?n < int ?n div 2" by linarith+
  have "payload_search p 0 (int ?n) '''' = payload_search (p\<lparr>irp_Description := take (?n div 2) (irp_Description p)\<rparr>) (int ?n div 2 + 1) (int ?n)
      (payload_text (p\<lparr>irp_Description := take (?n div 2) (irp_Description p)\<rparr>))"
    using assms(4) by (subst payload_search.simps) (simp add: Let_def half)
  also have "\<dots> = SlicePanic"
  proof -
    have n: "0 < ?n" "length (take (?n div 2) (irp_Description p)) = ?n div 2" using assms(3) by simp_all
    have a: "int m div 2 + 1 \<le> int m" if "0 < m" for m :: nat using that by linarith
    have "int (m div 2) < int m div 2 + 1 + (int m - (int m div 2 + 1)) div 2" if "0 < m" for m :: nat
    proof -
      have "0 \<le> (int m - (int m div 2 + 1)) div 2" using a [OF that] by simp
      then show ?thesis using zdiv_int [of m 2] by simp
    qed
    with n a have "int ?n div 2 + 1 \<le> int ?n" "int ?n div 2 + 1 + (int ?n - (int ?n div 2 + 1)) div 2 > int (length (take (?n div 2) (irp_Description p)))"
      by metis+
    then show ?thesis by (subst payload_search.simps) (simp only: Let_def simp_thms if_True irp_simps)
  qed
  finally show ?thesis using assms(2) by (simp add: boundedInteractionPayload_def Let_def p_def [symmetric])
qed

end
