(* ===== verification/Broker.thy ===== *)
theory Broker
  imports Broker_Events Engine_Async
begin

text \<open>
  The broker's methods: \<^verbatim>\<open>internal/broker/steps.go\<close>, \<^verbatim>\<open>exec.go\<close>, the permission host of
  \<^verbatim>\<open>runtime.go\<close> and the lifecycle of \<^verbatim>\<open>daemon.go\<close>. A handler runs to its end; the goroutine that
  executes an attempt is a separate step of the daemon, with the context it runs under. Handlers
  are registered after the store was opened, so the engine, the hub and the sink are always
  there; the store is gone once the daemon stopped.
\<close>

section \<open>State\<close>

record Daemon =
  d_state :: string
  d_st :: bool
  d_engine :: Engine
  d_sessions :: SessionRegistry
  d_bus :: Bus
  d_workers :: "(string \<times> string \<times> string) list"

definition d_store :: "Daemon \<Rightarrow> FakeStore" where
  "d_store d = e_store (d_engine d)"

text \<open>An operation of the engine, and a reading of the store.\<close>

definition eng :: "(Engine, 'a) op \<Rightarrow> Daemon \<Rightarrow> (goerr + 'a) \<times> Daemon" where
  "eng m d = (fst (m (d_engine d)), d\<lparr>d_engine := snd (m (d_engine d))\<rparr>)"

definition readst :: "(FakeStore, 'a) op \<Rightarrow> Daemon \<Rightarrow> goerr + 'a" where
  "readst m d = fst (m (d_store d))"

definition rpc_err :: "int \<Rightarrow> string \<Rightarrow> json option \<Rightarrow> RPCError" where
  "rpc_err code msg data = \<lparr>rpc_Code = code, rpc_Message = msg, rpc_Data = data\<rparr>"

definition detail_error :: "string \<Rightarrow> RPCError" where
  "detail_error msg = rpc_err InternalErrorCode ''internal error'' (Some (JObj [(''detail'', JStr msg)]))"

definition fails :: "RPCError \<Rightarrow> Daemon \<Rightarrow> reply \<times> Daemon" where
  "fails e d = (Returned None (Some e), d)"

definition answers_with :: "json \<Rightarrow> Daemon \<Rightarrow> reply \<times> Daemon" where
  "answers_with v d = (Returned (Some v) None, d)"

definition json_int :: "int \<Rightarrow> json" where
  "json_int n = JNum (itoa n)"

section \<open>Errors\<close>

definition workflowNotFoundError :: RPCError where
  "workflowNotFoundError = rpc_err InvalidParamsCode ''workflow_not_found'' (Some (JObj [(''field'', JStr ''params.workflow_path'')]))"

definition workflowRPCError :: "goerr \<Rightarrow> RPCError" where
  "workflowRPCError err =
     (case err_kind err of
        Validation v \<Rightarrow> rpc_err InvalidParamsCode (ve_Code v)
          (Some (JObj (if ve_Field v \<noteq> '''' then [(''field'', JStr (ve_Field v))] else [])))
      | _ \<Rightarrow> detail_error (err_msg err))"

definition referenceRPCError :: "goerr \<Rightarrow> string \<Rightarrow> RPCError" where
  "referenceRPCError err field =
     (if errors_Is err ErrNotFound then rpc_err InvalidParamsCode ''not_found'' (Some (JObj [(''field'', JStr field)]))
      else detail_error (err_msg err))"

definition interactionConflictError :: RPCError where
  "interactionConflictError = rpc_err (- 32002) ''interaction conflict'' None"

definition draining_error :: RPCError where
  "draining_error = rpc_err (- 32001) ''broker is draining; reopen and rerun'' None"

definition rejectDraining :: "Daemon \<Rightarrow> RPCError option" where
  "rejectDraining d = fail_if (d_state d = ''draining'' \<or> d_state d = ''stopped'') draining_error"

definition stepRPCError :: "goerr \<Rightarrow> RPCError" where
  "stepRPCError err =
     (let msg = err_msg err in
      if sublist ''mode not supported'' msg then rpc_err (- 32003) msg None
      else if errors_Is err ErrNotFound then rpc_err InvalidParamsCode ''not_found'' None
      else if sublist ''not pending'' msg \<or> sublist ''dependency'' msg \<or> sublist ''requires'' msg
      then rpc_err InvalidParamsCode msg None
      else if sublist ''stale'' msg \<or> sublist ''cancelled'' msg
      then rpc_err (- 32001) ''stale attempt; reopen and rerun'' None
      else detail_error msg)"

section \<open>Parameters of the methods\<close>

definition decode_params :: "env \<Rightarrow> schema \<Rightarrow> string list \<Rightarrow> string \<Rightarrow> ParamError + (string, field_value) gomap" where
  "decode_params env sch required raw = DecodeParams (\<lambda>t. err_msg (json_error env t)) sch required raw"

definition str_at :: "(string, field_value) gomap \<Rightarrow> string \<Rightarrow> string" where
  "str_at m k = (case map_of m k of Some (VString s) \<Rightarrow> s | _ \<Rightarrow> '''')"

definition int_at :: "(string, field_value) gomap \<Rightarrow> string \<Rightarrow> int" where
  "int_at m k = (case map_of m k of Some (VInt n) \<Rightarrow> n | _ \<Rightarrow> 0)"

definition str_ptr_at :: "(string, field_value) gomap \<Rightarrow> string \<Rightarrow> string option" where
  "str_ptr_at m k = (case map_of m k of Some (VStringPtr s) \<Rightarrow> s | _ \<Rightarrow> None)"

definition bool_ptr_at :: "(string, field_value) gomap \<Rightarrow> string \<Rightarrow> bool option" where
  "bool_ptr_at m k = (case map_of m k of Some (VBoolPtr b) \<Rightarrow> b | _ \<Rightarrow> None)"

definition executionStartParams :: schema where
  "executionStartParams = [(''workflow_path'', StringField), (''workspace_override'', StringPtr)]"

definition executionStatusParams :: schema where
  "executionStatusParams = [(''execution_id'', StringField)]"

definition stepRunParams :: schema where
  "stepRunParams = [(''execution_id'', StringField), (''step_id'', StringField), (''mode'', StringField)]"

definition stepEventsParams :: schema where
  "stepEventsParams = [(''execution_id'', StringField), (''step_id'', StringField), (''since_cursor'', IntField)]"

definition stepApproveParams :: schema where
  "stepApproveParams = [(''execution_id'', StringField), (''step_id'', StringField), (''interaction_id'', StringField),
     (''decision'', StringField), (''idempotency_key'', StringField)]"

definition stepCancelParams :: schema where
  "stepCancelParams = [(''execution_id'', StringField), (''step_id'', StringField)]"

definition stepReopenParams :: schema where
  "stepReopenParams = [(''execution_id'', StringField), (''step_id'', StringField), (''cascade'', BoolPtr), (''feedback'', StringField)]"

section \<open>Status notifications\<close>

definition status_notification :: "string \<Rightarrow> string \<Rightarrow> string \<Rightarrow> string \<Rightarrow> int \<Rightarrow> EventNotification" where
  "status_notification executionID stepID from to cursor =
     \<lparr>en_Method = ''step.status_changed'', en_Params = Some (JObj [(''cursor'', json_int cursor),
        (''execution_id'', JStr executionID), (''from'', JStr from), (''step_id'', JStr stepID), (''to'', JStr to)])\<rparr>"

definition publish :: "env \<Rightarrow> EventSink \<Rightarrow> EventMutation \<Rightarrow> Daemon \<Rightarrow> goerr option \<times> Daemon" where
  "publish env k mutate d =
     (let e = d_engine d;
          (r, s, b) = sink_Commit (time_Now env (e_ticks e)) k mutate (e_store e, d_bus d)
      in (r, d\<lparr>d_engine := e\<lparr>e_store := s, e_ticks := Suc (e_ticks e)\<rparr>, d_bus := b\<rparr>))"

definition broadcastStepStatus :: "env \<Rightarrow> string \<Rightarrow> string \<Rightarrow> string \<Rightarrow> string \<Rightarrow> Daemon \<Rightarrow> Daemon" where
  "broadcastStepStatus env executionID stepID from to d =
     (if \<not> d_st d then d
      else
        (case readst (events_ListTransitions executionID stepID) d of
           Inl _ \<Rightarrow> d
         | Inr transitions \<Rightarrow>
             if transitions = [] \<or> te_ToStatus (last transitions) \<noteq> to then d
             else snd (publish env (NewEventSink None True)
               (\<lambda>_. op_return (status_notification executionID stepID from to (te_Cursor (last transitions)))) d)))"

section \<open>Methods on executions\<close>

definition canonicalWorkflowPath :: "filesys \<Rightarrow> string \<Rightarrow> string \<Rightarrow> goerr + string" where
  "canonicalWorkflowPath fs rt path =
     (if path = '''' then Inl (errorf ''empty workflow path'')
      else map_sum id Clean (EvalSymlinks fs (Clean (if \<not> IsAbs path then Join [rt, path] else path))))"

definition workflow_name_at :: "filesys \<Rightarrow> string \<Rightarrow> string \<Rightarrow> Discovered list \<Rightarrow> string" where
  "workflow_name_at fs rt canonical ds =
     (case find (\<lambda>x. canonicalWorkflowPath fs rt (d_Path x) = Inr canonical) ds of
        None \<Rightarrow> '''' | Some x \<Rightarrow> wf_Name (d_Workflow x))"

definition handleExecutionStart :: "env \<Rightarrow> string \<Rightarrow> Daemon \<Rightarrow> reply \<times> Daemon" where
  "handleExecutionStart env raw d =
     (case decode_params env executionStartParams [''workflow_path''] raw of
        Inl e \<Rightarrow> fails (invalidParamsError e) d
      | Inr p \<Rightarrow>
          (case (case str_ptr_at p ''workspace_override'' of None \<Rightarrow> None
                 | Some w \<Rightarrow> ValidateEnum w ''workspace_override'' [''isolated'', ''shared'']) of
             Some e \<Rightarrow> fails (invalidParamsError e) d
           | None \<Rightarrow>
               (let disk = e_disk (d_engine d) in
                case canonicalWorkflowPath (dk_fs disk) (root env) (str_at p ''workflow_path'') of
                  Inl _ \<Rightarrow> fails workflowNotFoundError d
                | Inr canonical \<Rightarrow>
                    (case Discover (dk_wf disk) (yaml_workflow env) (root env) of
                       Inl err \<Rightarrow> fails (workflowRPCError err) d
                     | Inr discovered \<Rightarrow>
                         (let name = workflow_name_at (dk_fs disk) (root env) canonical discovered in
                          if name = '''' then fails workflowNotFoundError d
                          else
                            (case eng (CreateExecution env name) d of
                               (Inl err, d') \<Rightarrow> fails (workflowRPCError err) d'
                             | (Inr i, d') \<Rightarrow> answers_with (JObj [(''execution_id'', JStr i)]) d'))))))"

definition handleExecutionStatus :: "env \<Rightarrow> string \<Rightarrow> Daemon \<Rightarrow> reply \<times> Daemon" where
  "handleExecutionStatus env raw d =
     (case decode_params env executionStatusParams [''execution_id''] raw of
        Inl e \<Rightarrow> fails (invalidParamsError e) d
      | Inr p \<Rightarrow>
          (let i = str_at p ''execution_id'' in
           if \<not> d_st d then fails internal_error d
           else
             (case readst (executions_Get i) d of
                Inl err \<Rightarrow> fails (referenceRPCError err ''execution_id'') d
              | Inr ex \<Rightarrow>
                  (case readst (steps_List i) d of
                     Inl err \<Rightarrow> fails (referenceRPCError err ''execution_id'') d
                   | Inr ss \<Rightarrow>
                       answers_with (JObj [(''status'', JStr (ex_Status ex)),
                         (''steps'', JArr (map (\<lambda>s. JObj [(''id'', JStr (es_StepID s)), (''status'', JStr (es_Status s))]) ss))]) d))))"

section \<open>Running a step\<close>

text \<open>What \<^verbatim>\<open>addWorker\<close> does once it holds the mutex, for the worker of an attempt.\<close>

definition addWorker :: "string \<times> string \<times> string \<Rightarrow> Daemon \<Rightarrow> bool \<times> Daemon" where
  "addWorker w d = (if d_state d \<noteq> ''running'' then (False, d) else (True, d\<lparr>d_workers := d_workers d @ [w]\<rparr>))"

definition on_sessions :: "(SessionRegistry \<Rightarrow> SessionRegistry) \<Rightarrow> Daemon \<Rightarrow> Daemon" where
  "on_sessions f d = d\<lparr>d_sessions := f (d_sessions d)\<rparr>"

text \<open>What follows a successful start.\<close>

definition run_started :: "env \<Rightarrow> string \<Rightarrow> string \<Rightarrow> Attempt \<Rightarrow> Daemon \<Rightarrow> reply \<times> Daemon" where
  "run_started env i t attempt d =
     (let d = broadcastStepStatus env i t ''pending'' ''running'' d;
          d = on_sessions (RegisterContext (at_ID attempt)) d
      in case addWorker (at_ID attempt, at_ExecutionID attempt, at_StepID attempt) d of
        (False, d) \<Rightarrow>
          (let d = on_sessions (registry_Remove (at_ID attempt) \<circ> call_cancel (at_ID attempt)) d;
               d = snd (eng (CancelAttempt env (at_ID attempt)) d)
           in fails draining_error d)
      | (True, d) \<Rightarrow>
          answers_with (JObj [(''attempt_id'', JStr (at_ID attempt)), (''next_cursor'', json_int 0)]) d)"

definition handleStepRun :: "env \<Rightarrow> string \<Rightarrow> Daemon \<Rightarrow> reply \<times> Daemon" where
  "handleStepRun env raw d =
     (case decode_params env stepRunParams [''execution_id'', ''step_id''] raw of
        Inl e \<Rightarrow> fails (invalidParamsError e) d
      | Inr p \<Rightarrow>
          (case rejectDraining d of
             Some e \<Rightarrow> fails e d
           | None \<Rightarrow>
               (let i = str_at p ''execution_id''; t = str_at p ''step_id'' in
                case eng (StartStep env i t (str_at p ''mode'')) d of
                  (Inl err, d) \<Rightarrow> fails (stepRPCError err) d
                | (Inr attempt, d) \<Rightarrow> run_started env i t attempt d)))"

text \<open>The goroutine of an attempt, under the context it was started with.\<close>

definition run_worker :: "env \<Rightarrow> ctx \<Rightarrow> string \<times> string \<times> string \<Rightarrow> Daemon \<Rightarrow> Daemon" where
  "run_worker env ctx w d =
     (let (a, i, t) = w;
          d = snd (eng (ExecuteAttempt env ctx a) d);
          d = (if \<not> d_st d then d
               else (case readst (steps_Get i t) d of
                       Inl _ \<Rightarrow> d
                     | Inr step \<Rightarrow> if es_Status step \<noteq> ''running'' then broadcastStepStatus env i t ''running'' (es_Status step) d else d));
          d = on_sessions (registry_Remove a \<circ> call_cancel a) d
      in d\<lparr>d_workers := remove1 w (d_workers d)\<rparr>)"

section \<open>Approving\<close>

definition decision_elem :: "json \<Rightarrow> unit + string" where
  "decision_elem v = (case v of JStr s \<Rightarrow> Inr s | JNull \<Rightarrow> Inr '''' | _ \<Rightarrow> Inl ())"

fun decision_elems :: "json list \<Rightarrow> unit + string list" where
  "decision_elems [] = Inr []"
| "decision_elems (v # vs) =
     (case (decision_elem v, decision_elems vs) of (Inr s, Inr ss) \<Rightarrow> Inr (s # ss) | _ \<Rightarrow> Inl ())"

text \<open>\<^verbatim>\<open>json.Unmarshal\<close> of an event payload into the two fields that matter; \<open>None\<close> is an error.\<close>

definition decision_field :: "string \<times> json \<Rightarrow> (string \<times> string list) option \<Rightarrow> (string \<times> string list) option" where
  "decision_field kv acc =
     (case acc of
        None \<Rightarrow> None
      | Some (i, ds) \<Rightarrow>
          (case match_field [''interaction_id'', ''available_decisions''] (fst kv) of
             None \<Rightarrow> acc
           | Some f \<Rightarrow>
               if f = ''interaction_id'' then
                 (case snd kv of JStr s \<Rightarrow> Some (s, ds) | JNull \<Rightarrow> acc | _ \<Rightarrow> None)
               else
                 (case snd kv of
                    JArr vs \<Rightarrow> (case decision_elems vs of Inl _ \<Rightarrow> None | Inr ss \<Rightarrow> Some (i, ss))
                  | JNull \<Rightarrow> Some (i, [])
                  | _ \<Rightarrow> None)))"

definition unmarshal_decisions :: "string \<Rightarrow> (string \<times> string list) option" where
  "unmarshal_decisions payload =
     (case json_parse payload of
        Some (JObj kvs) \<Rightarrow> fold decision_field kvs (Some ('''', []))
      | Some JNull \<Rightarrow> Some ('''', [])
      | _ \<Rightarrow> None)"

definition event_decisions :: "string \<Rightarrow> AttemptEvent \<Rightarrow> string list option" where
  "event_decisions interactionID ev =
     (if ae_EventType ev \<noteq> ''interaction_required'' then None
      else
        (case ae_Payload ev of
           None \<Rightarrow> None
         | Some payload \<Rightarrow>
             (case unmarshal_decisions payload of
                Some (i, ds) \<Rightarrow> if i = interactionID then Some ds else None
              | None \<Rightarrow> None)))"

text \<open>The largest cursor of an attempt, which bounds the loop.\<close>

definition last_cursor :: "FakeStore \<Rightarrow> string \<Rightarrow> int" where
  "last_cursor s attemptID = fold max (map (ae_Cursor \<circ> snd) (inner (attemptEvents s) attemptID)) 0"

lemma fold_max_ge: "x \<in> set xs \<or> x = m \<Longrightarrow> x \<le> fold max xs (m::int)"
proof (induction xs arbitrary: m x)
  case (Cons y xs)
  have "max y m \<le> fold max xs (max y m)" using Cons.IH [of "max y m" "max y m"] by simp
  then show ?case using Cons.IH [of x "max y m"] Cons.prems by auto
qed simp

lemma listed_cursor:
  assumes "fst (events_ListAttemptEvents attemptID since n s) = Inr evs" "ev \<in> set evs"
  shows "ae_Cursor ev \<le> last_cursor s attemptID"
proof -
  obtain k where "map_of (inner (attemptEvents s) attemptID) k = Some ev"
    using assms by (auto simp: events_ListAttemptEvents_def Let_def List.map_filter_def split: if_splits)
  then have "ae_Cursor ev \<in> set (map (ae_Cursor \<circ> snd) (inner (attemptEvents s) attemptID))"
    by (force dest: map_of_SomeD)
  then show ?thesis unfolding last_cursor_def by (intro fold_max_ge) blast
qed

function decisions_from :: "FakeStore \<Rightarrow> string \<Rightarrow> string \<Rightarrow> int \<Rightarrow> goerr + string list" where
  "decisions_from s attemptID interactionID since =
     (case fst (events_ListAttemptEvents attemptID since 128 s) of
        Inl err \<Rightarrow> Inl err
      | Inr events \<Rightarrow>
          (case find (\<lambda>x. x \<noteq> None) (map (event_decisions interactionID) events) of
             Some (Some ds) \<Rightarrow> Inr ds
           | _ \<Rightarrow>
               if events = [] then Inl (sentinel_err ErrNotFound)
               else
                 (let nxt = ae_Cursor (last events) + 1 in
                  if nxt \<le> since then Inl (sentinel_err ErrNotFound)
                  else decisions_from s attemptID interactionID nxt)))"
  by pat_completeness auto

termination decisions_from
proof (relation "measure (\<lambda>(s, a, i, since). nat (last_cursor s a + 1 - since))", goal_cases)
  case 1
  show ?case by simp
next
  case (2 s a i since evs nxt)
  have "ae_Cursor (last evs) \<le> last_cursor s a" using 2 listed_cursor [of a since 128 s evs "last evs"] by simp
  then show ?case using 2 by simp
next
  case (3 s a i since evs x nxt)
  have "ae_Cursor (last evs) \<le> last_cursor s a" using 3 listed_cursor [of a since 128 s evs "last evs"] by simp
  then show ?case using 3 by simp
qed

declare decisions_from.simps [simp del]

definition availableDecisions :: "FakeStore \<Rightarrow> string \<Rightarrow> string \<Rightarrow> goerr + string list" where
  "availableDecisions s attemptID interactionID = decisions_from s attemptID interactionID 0"

text \<open>The guards of \<^verbatim>\<open>step.approve\<close>: the interaction, when nothing stands against the decision.\<close>

definition approvable :: "string \<Rightarrow> string \<Rightarrow> string \<Rightarrow> string \<Rightarrow> string \<Rightarrow> FakeStore \<Rightarrow> Interaction option" where
  "approvable i t interactionID decision key s =
     (case fst (interactions_Get interactionID s) of
        Inl _ \<Rightarrow> None
      | Inr interaction \<Rightarrow>
          (case fst (attempts_CurrentByStep i t s) of
             Inl _ \<Rightarrow> None
           | Inr current \<Rightarrow>
               if at_ID current \<noteq> ia_AttemptID interaction \<or> at_Status current \<noteq> ''running'' then None
               else if key \<noteq> ia_ID interaction \<or> key \<noteq> ia_IdempotencyKey interaction then None
               else
                 (case availableDecisions s (ia_AttemptID interaction) (ia_ID interaction) of
                    Inl _ \<Rightarrow> None
                  | Inr available \<Rightarrow>
                      if decision \<notin> set available then None
                      else if ia_Status interaction = ''resolved'' \<and> (ia_Decision interaction = None \<or> ia_Decision interaction \<noteq> Some decision)
                      then None
                      else Some interaction)))"

definition handleStepApprove :: "env \<Rightarrow> string \<Rightarrow> Daemon \<Rightarrow> reply \<times> Daemon" where
  "handleStepApprove env raw d =
     (case decode_params env stepApproveParams [''execution_id'', ''step_id'', ''interaction_id'', ''decision'', ''idempotency_key''] raw of
        Inl e \<Rightarrow> fails (invalidParamsError e) d
      | Inr p \<Rightarrow>
          (case rejectDraining d of
             Some e \<Rightarrow> fails e d
           | None \<Rightarrow>
               if \<not> d_st d then fails internal_error d
               else
                 (let key = str_at p ''idempotency_key''; decision = str_at p ''decision'' in
                  case approvable (str_at p ''execution_id'') (str_at p ''step_id'') (str_at p ''interaction_id'') decision key (d_store d) of
                    None \<Rightarrow> fails interactionConflictError d
                  | Some interaction \<Rightarrow>
                      (case eng (timed env (\<lambda>now. interactions_Resolve now (ia_ID interaction) key decision)) d of
                         (Inl _, d) \<Rightarrow> fails interactionConflictError d
                       | (Inr resolved, d) \<Rightarrow>
                           answers_with (JObj [(''resolved'', JBool (ia_Status resolved = ''resolved''))])
                             (on_sessions (ResolveInteraction (ia_ID interaction) decision) d)))))"

section \<open>Cancelling and reopening\<close>

definition handleStepCancel :: "env \<Rightarrow> string \<Rightarrow> Daemon \<Rightarrow> reply \<times> Daemon" where
  "handleStepCancel env raw d =
     (case decode_params env stepCancelParams [''execution_id'', ''step_id''] raw of
        Inl e \<Rightarrow> fails (invalidParamsError e) d
      | Inr p \<Rightarrow>
          (case rejectDraining d of
             Some e \<Rightarrow> fails e d
           | None \<Rightarrow>
               (let i = str_at p ''execution_id''; t = str_at p ''step_id'' in
                if \<not> d_st d then fails internal_error d
                else
                  (case readst (attempts_CurrentByStep i t) d of
                     Inl err \<Rightarrow> if errors_Is err ErrNotFound then answers_with (JObj []) d else fails (referenceRPCError err ''step_id'') d
                   | Inr attempt \<Rightarrow>
                       if at_Status attempt \<noteq> ''running'' then answers_with (JObj []) d
                       else
                         (case registry_Cancel (at_ID attempt) (d_sessions d) of
                            (Some err, r) \<Rightarrow> fails (detail_error (err_msg err)) (d\<lparr>d_sessions := r\<rparr>)
                          | (None, r) \<Rightarrow>
                              (case eng (CancelAttempt env (at_ID attempt)) (d\<lparr>d_sessions := r\<rparr>) of
                                 (Inl err, d) \<Rightarrow> fails (stepRPCError err) d
                               | (Inr _, d) \<Rightarrow> answers_with (JObj []) (broadcastStepStatus env i t ''running'' ''failed'' d)))))))"

definition generations_of :: "string \<Rightarrow> string \<Rightarrow> FakeStore \<Rightarrow> Generation list" where
  "generations_of i t s = (case fst (generations_ListByStep i t s) of Inl _ \<Rightarrow> [] | Inr gs \<Rightarrow> gs)"

definition feedback_too_long :: RPCError where
  "feedback_too_long = invalidParamsError \<lparr>pe_Message = ''value exceeds limit'', pe_Field = ''feedback'', pe_Detail = ''''\<rparr>"

text \<open>Whether the step or one of its generations was invalidated by the call, comparing the store
  before and after it.\<close>

definition newly_invalidated :: "string \<Rightarrow> string \<Rightarrow> FakeStore \<Rightarrow> FakeStore \<Rightarrow> ExecutionStep \<Rightarrow> bool" where
  "newly_invalidated i t before after step \<longleftrightarrow>
     (let sid = es_StepID step;
          beforeStatus = (\<lambda>sid. case find (\<lambda>s. es_StepID s = sid) (rev (filter (\<lambda>st. es_ExecutionID st = i) (map snd (steps before)))) of
             None \<Rightarrow> '''' | Some s \<Rightarrow> es_Status s);
          beforeInvalidated = (\<lambda>sid g. list_ex (\<lambda>s. es_StepID s = sid) (filter (\<lambda>st. es_ExecutionID st = i) (map snd (steps before))) \<and>
             list_ex (\<lambda>h. ge_ID h = g \<and> ge_InvalidatedAt h \<noteq> None) (generations_of i sid before))
      in sid = t \<and> beforeStatus sid \<noteq> ''pending'' \<and> es_Status step = ''pending'' \<or>
         list_ex (\<lambda>g. ge_InvalidatedAt g \<noteq> None \<and> \<not> beforeInvalidated sid (ge_ID g) \<and> ge_InvalidatedByStep g = Some t)
           (generations_of i sid after))"

definition handleStepReopen :: "env \<Rightarrow> string \<Rightarrow> Daemon \<Rightarrow> reply \<times> Daemon" where
  "handleStepReopen env raw d =
     (case decode_params env stepReopenParams [''execution_id'', ''step_id''] raw of
        Inl e \<Rightarrow> fails (invalidParamsError e) d
      | Inr p \<Rightarrow>
          (case rejectDraining d of
             Some e \<Rightarrow> fails e d
           | None \<Rightarrow>
               (let i = str_at p ''execution_id''; t = str_at p ''step_id''; feedback = str_at p ''feedback'' in
                if length feedback > FallbackLimit then fails feedback_too_long d
                else if \<not> d_st d then fails internal_error d
                else
                  (case readst (steps_List i) d of
                     Inl err \<Rightarrow> fails (referenceRPCError err ''execution_id'') d
                   | Inr _ \<Rightarrow>
                       (let cascade = (case bool_ptr_at p ''cascade'' of None \<Rightarrow> True | Some b \<Rightarrow> b) in
                        case eng (ReopenStep env i t cascade feedback) d of
                          (Inl err, d') \<Rightarrow>
                            (if errors_Is err ErrNotFound then fails (referenceRPCError err ''step_id'') d'
                             else if sublist ''feedback exceeds'' (err_msg err) then fails feedback_too_long d'
                             else fails (detail_error (err_msg err)) d')
                        | (Inr _, d') \<Rightarrow>
                            (case readst (steps_List i) d' of
                               Inl _ \<Rightarrow> fails internal_error d'
                             | Inr after \<Rightarrow>
                                 (let invalidated = sort (remdups (map es_StepID (filter (newly_invalidated i t (d_store d) (d_store d')) after)))
                                  in answers_with (JObj [(''invalidated'', JArr (map JStr invalidated))])
                                       (fold (\<lambda>sid d. broadcastStepStatus env i sid ''completed'' ''pending'' d) invalidated d'))))))))"

section \<open>Reading events\<close>

definition omit_string :: "string \<Rightarrow> string \<Rightarrow> (string \<times> json) list" where
  "omit_string k s = (if s = '''' then [] else [(k, JStr s)])"

definition stepEventResult :: "AttemptEvent \<Rightarrow> json" where
  "stepEventResult ev = JObj ([(''cursor'', json_int (ae_Cursor ev)), (''event_type'', JStr (ae_EventType ev))] @
     (case ae_Payload ev of
        Some p \<Rightarrow> omit_string ''payload'' (VisibleEvidence p)
      | None \<Rightarrow> (case ae_PayloadRef ev of Some r \<Rightarrow> omit_string ''payload_ref'' r | None \<Rightarrow> [])))"

definition cursor_after :: "AttemptEvent list \<Rightarrow> int \<Rightarrow> int" where
  "cursor_after evs since = fold (\<lambda>ev n. if ae_Cursor ev \<ge> n then ae_Cursor ev + 1 else n) evs since"

definition handleStepEvents :: "env \<Rightarrow> string \<Rightarrow> Daemon \<Rightarrow> reply \<times> Daemon" where
  "handleStepEvents env raw d =
     (case decode_params env stepEventsParams [''execution_id'', ''step_id'', ''since_cursor''] raw of
        Inl e \<Rightarrow> fails (invalidParamsError e) d
      | Inr p \<Rightarrow>
          (let since = int_at p ''since_cursor'' in
           if since < 0 then fails (invalidParamsError \<lparr>pe_Message = ''invalid value'', pe_Field = ''since_cursor'', pe_Detail = ''''\<rparr>) d
           else if \<not> d_st d then fails internal_error d
           else
             (case readst (attempts_CurrentByStep (str_at p ''execution_id'') (str_at p ''step_id'')) d of
                Inl err \<Rightarrow> fails (referenceRPCError err ''step_id'') d
              | Inr attempt \<Rightarrow>
                  (case readst (events_ListAttemptEvents (at_ID attempt) since 128) d of
                     Inl _ \<Rightarrow> fails internal_error d
                   | Inr events \<Rightarrow>
                       answers_with (JObj [(''events'', JArr (map stepEventResult events)),
                         (''next_cursor'', json_int (cursor_after events since))]) d))))"

section \<open>Permission requests\<close>

text \<open>\<^verbatim>\<open>RequestPermission\<close> up to the point where it waits: the identifier and the channel of the
  interaction. The host's sink is the store itself or the store of an attempt.\<close>

definition interaction_rows :: "clock \<Rightarrow> string \<Rightarrow> Attempt \<Rightarrow> PermissionRequest \<Rightarrow> string \<Rightarrow> EventMutation" where
  "interaction_rows now interactionID attempt req payload tx =
     (let row = \<lparr>ia_ID = interactionID, ia_AttemptID = at_ID attempt, ia_Type = ''permission'', ia_Status = ''pending'',
            ia_Decision = None, ia_IdempotencyKey = interactionID, ia_ResolvedAt = None\<rparr> in
      op_bind (case tx of None \<Rightarrow> interactions_Create row | Some f \<Rightarrow> fencedInteractions_Create now f row) (\<lambda>_.
      op_bind (events_NextAttemptCursor (at_ID attempt)) (\<lambda>cursor.
      let ev = \<lparr>ae_ID = 0, ae_AttemptID = at_ID attempt, ae_Cursor = cursor, ae_EventType = ''interaction_required'',
            ae_PayloadRef = None, ae_Payload = Some payload, ae_OccurredAt = None\<rparr> in
      op_bind (case tx of None \<Rightarrow> events_CreateAttemptEvent now ev | Some f \<Rightarrow> fencedEvents_CreateAttemptEvent now f ev) (\<lambda>_.
      op_return \<lparr>en_Method = ''step.interaction_required'', en_Params = Some (JObj
        [(''attempt_id'', JStr (at_ID attempt)), (''cursor'', json_int cursor), (''description'', JStr (Redact (pq_Description req))),
         (''execution_id'', JStr (at_ExecutionID attempt)), (''interaction_id'', JStr interactionID), (''kind'', JStr (pq_Kind req)),
         (''options'', JArr (map JStr (pq_Options req))), (''step_id'', JStr (at_StepID attempt))])\<rparr>))))"

datatype permission_start = Refused goerr | Crashed | Waiting string nat

definition host_payload :: "string \<Rightarrow> PermissionRequest \<Rightarrow> payload_result" where
  "host_payload interactionID req = boundedInteractionPayload
     \<lparr>irp_InteractionID = interactionID, irp_Kind = pq_Kind req, irp_Description = pq_Description req,
      irp_Options = pq_Options req, irp_AvailableDecisions = pq_Options req\<rparr>"

definition RequestPermission_start :: "env \<Rightarrow> EventSink \<Rightarrow> string \<Rightarrow> PermissionRequest \<Rightarrow> Daemon \<Rightarrow> permission_start \<times> Daemon" where
  "RequestPermission_start env sink attemptID req d =
     (if attemptID = '''' then (Refused (errorf ''permission host is not bound to an attempt''), d)
      else
        (case readst (attempts_Get attemptID) d of
           Inl err \<Rightarrow> (Refused err, d)
         | Inr attempt \<Rightarrow>
             if at_Status attempt \<noteq> ''running'' then (Refused (errorf (''attempt '' @ quoted attemptID @ '' is not running'')), d)
             else if pq_Options req = [] then (Refused (errorf ''permission request has no decisions''), d)
             else
               (case eng (fresh env) d of
                  (Inl err, d) \<Rightarrow> (Refused err, d)
                | (Inr interactionID, d) \<Rightarrow>
                    (case host_payload interactionID req of
                       SlicePanic \<Rightarrow> (Crashed, d)
                     | PayloadTooLarge \<Rightarrow> (Refused (errorf (''permission request exceeds '' @ itoa (int VisibleLimit) @ '' byte payload limit'')), d)
                     | Payload payload \<Rightarrow>
                         (let (ch, r) = BeginInteraction interactionID attemptID (d_sessions d);
                              d = d\<lparr>d_sessions := r\<rparr>;
                              now = time_Now env (e_ticks (d_engine d)) in
                          case publish env sink (interaction_rows now interactionID attempt req payload) d of
                            (Some err, d) \<Rightarrow> (Refused err, d)
                          | (None, d) \<Rightarrow> (Waiting interactionID ch, d))))))"

text \<open>The rest of it, once the wait ends: \<open>None\<close> while it goes on.\<close>

definition RequestPermission_wait :: "bool \<Rightarrow> goerr option \<Rightarrow> string \<Rightarrow> nat \<Rightarrow> Daemon \<Rightarrow> (goerr + string) option \<times> Daemon" where
  "RequestPermission_wait prefer_result ctxErr interactionID ch d =
     (case WaitInteraction prefer_result ctxErr ch (d_sessions d) of
        (None, r) \<Rightarrow> (None, d)
      | (Some (Inr decision), r) \<Rightarrow> (Some (Inr decision), d\<lparr>d_sessions := r\<rparr>)
      | (Some (Inl err), r) \<Rightarrow> (Some (Inl err), d\<lparr>d_sessions := ForgetInteraction interactionID ch r\<rparr>))"

section \<open>Lifecycle\<close>

definition registerExecutionHandlers :: "env \<Rightarrow> Daemon dispatcher \<Rightarrow> Daemon dispatcher" where
  "registerExecutionHandlers env rpc =
     Register ''execution.status'' (handleExecutionStatus env) (Register ''execution.start'' (handleExecutionStart env) rpc)"

definition registerStepHandlers :: "env \<Rightarrow> Daemon dispatcher \<Rightarrow> Daemon dispatcher" where
  "registerStepHandlers env rpc =
     Register ''step.reopen'' (handleStepReopen env) (Register ''step.cancel'' (handleStepCancel env)
       (Register ''step.approve'' (handleStepApprove env) (Register ''step.events'' (handleStepEvents env)
         (Register ''step.run'' (handleStepRun env) rpc))))"

definition health_handler :: "string \<Rightarrow> Daemon \<Rightarrow> reply \<times> Daemon" where
  "health_handler raw d = answers_with (JObj [(''ok'', JBool True)]) d"

definition daemon_rpc :: "env \<Rightarrow> Daemon dispatcher" where
  "daemon_rpc env = registerStepHandlers env (registerExecutionHandlers env (Register ''health'' health_handler NewDispatcher))"

text \<open>A daemon that opened its store; the two changes of state of the shutdown, before and after it waits for the workers. The
  wait itself, its mutex and the connections it waits for are in the theory on the shutdown.\<close>

definition daemon_running :: "Engine \<Rightarrow> Daemon" where
  "daemon_running e = \<lparr>d_state = ''running'', d_st = True, d_engine = e, d_sessions = NewSessionRegistry,
     d_bus = \<lparr>bus_hub = NewHub, bus_conns = []\<rparr>, d_workers = []\<rparr>"

definition shutdown_drain :: "Daemon \<Rightarrow> Daemon" where
  "shutdown_drain d = on_sessions CancelAll (d\<lparr>d_state := ''draining''\<rparr>)"

definition shutdown_stop :: "Daemon \<Rightarrow> Daemon" where
  "shutdown_stop d = d\<lparr>d_state := ''stopped'', d_st := False\<rparr>"

end
