(* ===== verification/Broker_Integrity.thy ===== *)
theory Broker_Integrity
  imports Broker Engine_Integrity
begin

text \<open>
  What every step of the broker keeps. A property of the store that the repository operations keep
  is kept by every method of the broker, every worker and every permission request; the registry
  of waiting requests never holds a full channel, so that resolving an interaction never blocks.
\<close>

section \<open>The store\<close>

definition dkept :: "(FakeStore \<Rightarrow> bool) \<Rightarrow> (Daemon \<Rightarrow> 'a \<times> Daemon) \<Rightarrow> bool" where
  "dkept P h \<longleftrightarrow> (\<forall>d. P (d_store d) \<longrightarrow> P (d_store (snd (h d))))"

named_theorems dkept \<open>preservation of a property of the store by steps of the broker\<close>

lemma dkeptI: "(\<And>d. P (d_store d) \<Longrightarrow> P (d_store (snd (h d)))) \<Longrightarrow> dkept P h"
  by (simp add: dkept_def)

lemma dkeptD: "dkept P h \<Longrightarrow> P (d_store d) \<Longrightarrow> P (d_store (snd (h d)))"
  by (simp add: dkept_def)

lemma d_store_simps [simp]:
  "d_store (d\<lparr>d_sessions := r\<rparr>) = d_store d" "d_store (d\<lparr>d_bus := b\<rparr>) = d_store d" "d_store (d\<lparr>d_workers := w\<rparr>) = d_store d"
  "d_store (d\<lparr>d_state := x\<rparr>) = d_store d" "d_store (d\<lparr>d_st := y\<rparr>) = d_store d" "d_store (on_sessions f d) = d_store d"
  "d_store (d\<lparr>d_engine := e\<rparr>) = e_store e" "d_store (daemon_running e) = e_store e"
  by (simp_all add: d_store_def on_sessions_def daemon_running_def)

lemma fails_simps [simp]: "snd (fails e d) = d" "snd (answers_with v d) = d"
  by (simp_all add: fails_def answers_with_def)

lemma eng_store: "kept P m \<Longrightarrow> P (d_store d) \<Longrightarrow> eng m d = (r, d') \<Longrightarrow> P (d_store d')"
  by (auto simp: eng_def d_store_def dest: keptD)

lemma eng_store_snd: "kept P m \<Longrightarrow> P (d_store d) \<Longrightarrow> P (d_store (snd (eng m d)))"
  by (auto simp: eng_def d_store_def dest: keptD)

lemma sink_Commit_store: "fst (snd (sink_Commit now k mutate (s, b))) = snd (view_WithTx now (sk_store k) (commit_body k mutate) s)"
  by (auto simp: sink_Commit_def split: prod.splits sum.splits option.splits)

lemma publish_store:
  "d_store (snd (publish env k mutate d)) =
     snd (view_WithTx (time_Now env (e_ticks (d_engine d))) (sk_store k) (commit_body k mutate) (d_store d))"
  by (simp add: publish_def d_store_def Let_def split_def sink_Commit_store)

locale broker_property = store_property P for P +
  assumes interaction [keeps]: "keeps P (interactions_Create i)"
    and interaction_resolve [keeps]: "keeps P (interactions_Resolve now j key decision)"
begin

lemma publishing:
  assumes "\<And>tx. keeps P (mutate tx)" "P (d_store d)"
  shows "P (d_store (snd (publish env k mutate d)))"
proof -
  have body: "keeps P (commit_body k mutate tx)" for tx unfolding commit_body_def by (intro keeps assms)
  have "keeps P (view_WithTx now fo (commit_body k mutate))" for now fo
    unfolding view_WithTx_def by (cases fo) (auto intro!: keeps body)
  then show ?thesis using assms(2) by (simp add: publish_store keepsD)
qed

lemma status_broadcast: "P (d_store d) \<Longrightarrow> P (d_store (broadcastStepStatus env i t a b d))"
  unfolding broadcastStepStatus_def by (auto split: sum.splits intro!: publishing keeps)

lemma status_broadcasts: "P (d_store d) \<Longrightarrow> P (d_store (fold (\<lambda>sid. broadcastStepStatus env i sid a b) sids d))"
  by (induction sids arbitrary: d) (auto intro: status_broadcast)

lemma start_handler [dkept]: "dkept P (handleExecutionStart env raw)"
  by (rule dkeptI) (auto simp: handleExecutionStart_def Let_def split: sum.splits option.splits prod.splits dest: eng_store [OF creating])

lemma status_handler [dkept]: "dkept P (handleExecutionStatus env raw)"
  by (rule dkeptI) (auto simp: handleExecutionStatus_def Let_def split: sum.splits)

lemma run_started:
  assumes "P (d_store d)"
  shows "P (d_store (snd (run_started env i t attempt d)))"
proof -
  let ?d = "on_sessions (RegisterContext (at_ID attempt)) (broadcastStepStatus env i t ''pending'' ''running'' d)"
  have "P (d_store ?d)" using status_broadcast [OF assms] by simp
  moreover have "P (d_store (snd (eng (CancelAttempt env a) d)))" if "P (d_store d)" for a d
    by (rule eng_store_snd [OF cancelling that])
  ultimately show ?thesis by (simp add: run_started_def Let_def addWorker_def)
qed

lemma run_handler [dkept]: "dkept P (handleStepRun env raw)"
proof (rule dkeptI)
  fix d assume p: "P (d_store d)"
  show "P (d_store (snd (handleStepRun env raw d)))"
    using p by (auto simp: handleStepRun_def Let_def split: sum.splits option.splits prod.splits
      dest: eng_store [OF starting] intro!: run_started)
qed

lemma events_handler [dkept]: "dkept P (handleStepEvents env raw)"
  by (rule dkeptI) (auto simp: handleStepEvents_def Let_def split: sum.splits)

lemma approve_handler [dkept]: "dkept P (handleStepApprove env raw)"
proof (rule dkeptI)
  fix d assume p: "P (d_store d)"
  have k: "kept P (timed env (\<lambda>now. interactions_Resolve now j key decision))" for j key decision by (intro kept keeps)
  show "P (d_store (snd (handleStepApprove env raw d)))"
    using p by (auto simp: handleStepApprove_def Let_def split: sum.splits option.splits prod.splits dest: eng_store [OF k])
qed

lemma cancel_handler [dkept]: "dkept P (handleStepCancel env raw)"
proof (rule dkeptI)
  fix d assume p: "P (d_store d)"
  have c: "P (d_store d')" if "eng (CancelAttempt env a) (d\<lparr>d_sessions := r\<rparr>) = (x, d')" for a r x d'
    using eng_store [OF cancelling _ that] p by simp
  show "P (d_store (snd (handleStepCancel env raw d)))"
    using p by (auto simp: handleStepCancel_def Let_def split: sum.splits option.splits prod.splits dest!: c intro!: status_broadcast)
qed

lemma reopen_handler [dkept]: "dkept P (handleStepReopen env raw)"
  by (rule dkeptI) (auto simp: handleStepReopen_def Let_def split: sum.splits option.splits prod.splits
    intro!: status_broadcasts dest: eng_store [OF state_machine(1)])

lemma dispatch [dkept]: "dkept P (Dispatch (daemon_rpc env) mth raw)"
proof (rule dkeptI)
  fix d assume p: "P (d_store d)"
  have h: "dkept P (handler raw)" if "map_of (daemon_rpc env) mth = Some handler" for handler
    using that by (auto simp: daemon_rpc_def registerStepHandlers_def registerExecutionHandlers_def Register_def NewDispatcher_def
      health_handler_def dkept_def [of P "health_handler raw"] split: if_splits intro!: dkept)
  show "P (d_store (snd (Dispatch (daemon_rpc env) mth raw d)))"
    using p by (auto simp: Dispatch_def invokeHandler_def Let_def split: option.splits prod.splits reply.splits
      dest!: h dkeptD [where d = d])
qed

lemma worker: "P (d_store d) \<Longrightarrow> P (d_store (run_worker env ctx w d))"
proof -
  assume p: "P (d_store d)"
  obtain a i t where w: "w = (a, i, t)" by (metis prod.exhaust)
  let ?d = "snd (eng (ExecuteAttempt env ctx a) d)"
  have e: "P (d_store ?d)" by (rule eng_store_snd [OF executing p])
  then show ?thesis unfolding run_worker_def w Let_def
    by (auto split: sum.split intro: status_broadcast)
qed

lemma interaction_commit: "keeps P (interaction_rows now j attempt req payload tx)"
  unfolding interaction_rows_def fencedInteractions_Create_def fencedEvents_CreateAttemptEvent_def events_NextAttemptCursor_def Let_def
  by (cases tx) (auto intro!: keeps)

lemma ask [dkept]: "dkept P (RequestPermission_start env sink a req)"
proof (rule dkeptI)
  fix d assume p: "P (d_store d)"
  have f: "P (d_store d')" if "eng (fresh env) d = (r, d')" for r d'
    using that p by (auto simp: eng_def fresh_def d_store_def)
  have c: "P (d_store d'')" if "publish env sink (interaction_rows now j attempt req payload) (d'\<lparr>d_sessions := r\<rparr>) = (x, d'')" "P (d_store d')"
    for now j attempt payload d' r x d''
    using publishing [where mutate = "interaction_rows now j attempt req payload" and d = "d'\<lparr>d_sessions := r\<rparr>"] interaction_commit that
    by (metis d_store_simps(1) snd_conv)
  show "P (d_store (snd (RequestPermission_start env sink a req d)))"
    using p by (auto simp: RequestPermission_start_def Let_def split: sum.split prod.split payload_result.split option.split
      dest: f c)
qed

lemma await [dkept]: "dkept P (RequestPermission_wait b err j ch)"
  by (rule dkeptI) (auto simp: RequestPermission_wait_def split: prod.split option.split sum.split)

end

section \<open>The registry\<close>

text \<open>Every waiter has a channel of its own that is still empty, and no channel holds more than one value.\<close>

definition registry_ok :: "SessionRegistry \<Rightarrow> bool" where
  "registry_ok r \<longleftrightarrow>
     (\<forall>c \<in> set (sr_channels r). length c \<le> 1) \<and>
     (\<forall>j w. map_of (sr_interactions r) j = Some w \<longrightarrow> iw_result w < length (sr_channels r) \<and> sr_channels r ! iw_result w = []) \<and>
     (\<forall>j k w v. map_of (sr_interactions r) j = Some w \<longrightarrow> map_of (sr_interactions r) k = Some v \<longrightarrow>
        iw_result w = iw_result v \<longrightarrow> j = k)"

lemma registry_ok_attempts:
  "registry_ok (RegisterContext a r) = registry_ok r" "registry_ok (registry_Remove a r) = registry_ok r"
  "registry_ok (call_cancel a r) = registry_ok r" "registry_ok (snd (registry_Cancel a r)) = registry_ok r"
  "registry_ok (registry_Register a x r) = registry_ok r"
  by (auto simp: registry_ok_def RegisterContext_def registry_Remove_def call_cancel_def registry_Cancel_def registry_Register_def
    Let_def split: option.splits)

lemma registry_ok_all: "registry_ok r \<Longrightarrow> registry_ok (fold (\<lambda>a r. snd (registry_Cancel a r)) as r)"
  by (induction as arbitrary: r) (simp_all add: registry_ok_attempts)

lemma registry_ok_CancelAll: "registry_ok r \<Longrightarrow> registry_ok (CancelAll r)"
  unfolding CancelAll_def by (rule registry_ok_all)

lemma registry_ok_Begin: "registry_ok r \<Longrightarrow> registry_ok (snd (BeginInteraction j a r))"
  by (fastforce simp: registry_ok_def BeginInteraction_def Let_def nth_append split: if_splits)

lemma map_of_delete: "map_of (AList.delete k m) j = (if j = k then None else map_of m j)"
  by (simp add: delete_conv')

lemma registry_ok_Resolve:
  assumes "registry_ok r"
  shows "registry_ok (ResolveInteraction j decision r)"
proof (cases "map_of (sr_interactions r) j")
  case (Some w)
  have w: "iw_result w < length (sr_channels r)" "sr_channels r ! iw_result w = []" using assms Some by (auto simp: registry_ok_def)
  have o: "iw_result w \<noteq> iw_result v" if "map_of (sr_interactions r) k = Some v" "k \<noteq> j" for k v
    using assms Some that by (metis registry_ok_def)
  show ?thesis using assms Some w o
    by (auto simp: registry_ok_def ResolveInteraction_def map_of_delete split: if_splits dest!: set_update_subset_insert [THEN subsetD])
qed (use assms in \<open>simp add: ResolveInteraction_def\<close>)

lemma registry_ok_Wait:
  assumes "registry_ok r" "WaitInteraction b err ch r = (x, r')"
  shows "registry_ok r'"
proof -
  consider "r' = r" | y ys where "sr_channels r ! ch = y # ys" "r' = r\<lparr>sr_channels := (sr_channels r)[ch := ys]\<rparr>"
    using assms(2) by (auto simp: WaitInteraction_def split: list.splits option.splits if_splits)
  then show ?thesis
  proof cases
    case 2
    have l: "length ys \<le> 1" if "ch < length (sr_channels r)"
      using assms(1) that 2(1) nth_mem [OF that] by (auto simp: registry_ok_def)
    have n: "ch \<noteq> iw_result w" if "map_of (sr_interactions r) j = Some w" for j w
      using assms(1) that 2(1) by (auto simp: registry_ok_def)
    show ?thesis
    proof (cases "ch < length (sr_channels r)")
      case True
      then show ?thesis using assms(1) l n by (auto simp: registry_ok_def 2(2) dest!: set_update_subset_insert [THEN subsetD])
    qed (use assms(1) 2(2) in \<open>simp add: list_update_beyond\<close>)
  qed (use assms in simp)
qed

lemma registry_ok_Forget: "registry_ok r \<Longrightarrow> registry_ok (ForgetInteraction j ch r)"
  by (auto simp: registry_ok_def ForgetInteraction_def map_of_delete split: option.splits if_splits)

section \<open>Histories with interactions\<close>

text \<open>An interaction keeps its attempt and its key, and once resolved it never changes.\<close>

definition decided :: "Interaction \<Rightarrow> Interaction \<Rightarrow> bool" where
  "decided x y \<longleftrightarrow> y = x\<lparr>ia_Status := ia_Status y, ia_Decision := ia_Decision y, ia_ResolvedAt := ia_ResolvedAt y\<rparr> \<and>
     (ia_Status x = ''resolved'' \<longrightarrow> y = x)"

definition broker_continues :: "FakeStore \<Rightarrow> FakeStore \<Rightarrow> bool" where
  "broker_continues s s' \<longleftrightarrow> continues (s\<lparr>interactions := []\<rparr>) s' \<and> extends decided (interactions s) (interactions s')"

lemma broker_continues_refl: "broker_continues s s"
  using continues_refl [of s] by (auto simp: broker_continues_def continues_def extends_def decided_def)

lemma keeps_interactions:
  assumes "\<And>s. interactions (snd (m s)) = interactions s"
  shows "keeps (\<lambda>s. extends decided old (interactions s)) m"
  using assms by (simp add: keeps_def)

lemma keeps_decided:
  "keeps (\<lambda>s. extends decided old (interactions s)) (interactions_Create i)"
  "keeps (\<lambda>s. extends decided old (interactions s)) (interactions_Resolve now j key decision)"
proof -
  show "keeps (\<lambda>s. extends decided old (interactions s)) (interactions_Create i)"
    by (auto simp: keeps_def interactions_Create_def Let_def intro: extends_update)
  show "keeps (\<lambda>s. extends decided old (interactions s)) (interactions_Resolve now j key decision)"
  proof (rule keepsI)
    fix s :: FakeStore assume e: "extends decided old (interactions s)"
    have "decided x (it\<lparr>ia_Status := ''resolved'', ia_Decision := Some decision, ia_ResolvedAt := Some (rfc3339 now)\<rparr>)"
      if "decided x it" "ia_Status it \<noteq> ''resolved''" for x it
      using that by (cases x; cases it) (auto simp: decided_def)
    with e show "extends decided old (interactions (snd (interactions_Resolve now j key decision s)))"
      by (auto simp: interactions_Resolve_def Let_def intro!: extends_adjust split: option.splits)
  qed
qed

lemma keeps_continues_interaction:
  "keeps (continues (old\<lparr>interactions := []\<rparr>)) (interactions_Create i)"
  "keeps (continues (old\<lparr>interactions := []\<rparr>)) (interactions_Resolve now j key decision)"
  by (auto simp: keeps_def continues_def interactions_Create_def interactions_Resolve_def extends_def Let_def split: option.splits)

lemma untouched_interactions:
  "interactions (snd (projects_Create now i r s)) = interactions s" "interactions (snd (executions_Create now x s)) = interactions s"
  "interactions (snd (executions_UpdateStatus now i status s)) = interactions s" "interactions (snd (steps_Create row s)) = interactions s"
  "interactions (snd (steps_UpdateStatus i t status s)) = interactions s" "interactions (snd (steps_UpdateGeneration i t n s)) = interactions s"
  "interactions (snd (steps_SetPendingFeedback i t fb s)) = interactions s" "interactions (snd (attempts_Create now a s)) = interactions s"
  "interactions (snd (attempts_UpdateStatus now i status en trm dg s)) = interactions s"
  "interactions (snd (generations_Create now g s)) = interactions s" "interactions (snd (generations_InvalidateByStep now i t origin s)) = interactions s"
  "interactions (snd (events_CreateAttemptEvent now ev s)) = interactions s" "interactions (snd (events_CreateTransition now tev s)) = interactions s"
  "interactions (snd (transport_Put tp s)) = interactions s" "interactions (snd (leases_Acquire now i t h s)) = interactions s"
  "interactions (snd (leases_Release now i t h m s)) = interactions s"
  "interactions (snd (claims_Acquire now c s)) = interactions s" "interactions (snd (claims_Release now p l i t s)) = interactions s"
  by (auto simp: projects_Create_def executions_Create_def executions_UpdateStatus_def steps_Create_def steps_UpdateStatus_def
    steps_UpdateGeneration_def steps_SetPendingFeedback_def attempts_Create_def attempts_UpdateStatus_def generations_Create_def
    generations_InvalidateByStep_def events_CreateAttemptEvent_def events_CreateTransition_def transport_Put_def leases_Acquire_def
    leases_Release_def claims_Acquire_def claims_Release_def Let_def split: option.splits)

definition broker_history :: "FakeStore \<Rightarrow> FakeStore \<Rightarrow> bool" where
  "broker_history old s \<longleftrightarrow> (store_ok s \<and> continues (old\<lparr>interactions := []\<rparr>) s) \<and> extends decided (interactions old) (interactions s)"

lemma keeps_broker_history:
  "keeps (\<lambda>s. store_ok s \<and> continues (old\<lparr>interactions := []\<rparr>) s) m \<Longrightarrow> keeps (\<lambda>s. extends decided (interactions old) (interactions s)) m \<Longrightarrow>
   keeps (broker_history old) m"
  unfolding broker_history_def by (rule keeps_both)

interpretation broker: broker_property "broker_history old" for old
proof (unfold_locales, goal_cases)
  case (17 s b)
  show ?case by (simp add: broker_history_def continues_def)
next
  case (20 i)
  show ?case by (intro keeps_broker_history keeps_both keeps_decided keeps_continues_interaction keeps)
next
  case (21 now j key decision)
  show ?case by (intro keeps_broker_history keeps_both keeps_decided keeps_continues_interaction keeps)
qed (rule keeps_broker_history, rule history.project history.execution history.execution_status history.step history.step_status
  history.step_generation history.step_feedback history.attempt history.attempt_status history.generation history.generation_invalid
  history.attempt_event history.transition history.transport history.lease history.lease_release history.claim history.claim_release,
  rule keeps_interactions, rule untouched_interactions)+

section \<open>Runs of the broker\<close>

text \<open>A step of the broker: a call of a method, the goroutine of an attempt under any context, the two
  halves of a permission request, the stages of the shutdown, and changes of the disk and of the
  connections by others. A call of \<^verbatim>\<open>step.run\<close> also comes in two parts, the start of the step and the registration
  of its worker, at any moment each, so that a shutdown may begin between them: then
  \<^verbatim>\<open>addWorker\<close> refuses and the attempt is cancelled. Stopping waits here for the workers of the attempts only and is possible more
  often than in the code, which also waits for the connections; the mutex and the wait group are the subject of
  the theory on the shutdown.\<close>

inductive daemon_step :: "env \<Rightarrow> Daemon \<Rightarrow> Daemon \<Rightarrow> bool" for env where
  rpc: "daemon_step env d (snd (Dispatch (daemon_rpc env) mth raw d))"
| launch: "daemon_step env d (snd (eng (StartStep env i t mode) d))"
| register: "daemon_step env d (snd (run_started env i t attempt d))"
| work: "w \<in> set (d_workers d) \<Longrightarrow> daemon_step env d (run_worker env ctx w d)"
| ask: "daemon_step env d (snd (RequestPermission_start env sink a req d))"
| await: "daemon_step env d (snd (RequestPermission_wait b err j ch d))"
| drain: "daemon_step env d (shutdown_drain d)"
| stop: "d_workers d = [] \<Longrightarrow> daemon_step env d (shutdown_stop d)"
| disk: "daemon_step env d (d\<lparr>d_engine := (d_engine d)\<lparr>e_disk := x\<rparr>\<rparr>)"
| conns: "daemon_step env d (d\<lparr>d_bus := y\<rparr>)"

context broker_property
begin

lemma daemon_step: "daemon_step env d d' \<Longrightarrow> P (d_store d) \<Longrightarrow> P (d_store d')"
proof (induction rule: daemon_step.induct)
  case (rpc d mth raw)
  then show ?case by (rule dkeptD [OF dispatch])
next
  case (launch d i t mode)
  then show ?case by (rule eng_store_snd [OF starting])
next
  case (register d i t attempt)
  then show ?case by (rule run_started)
next
  case (work w d ctx)
  then show ?case by (intro worker)
next
  case (ask d sink a req)
  then show ?case by (rule dkeptD [OF broker_property.ask [OF broker_property_axioms]])
next
  case (await d b err j ch)
  then show ?case by (rule dkeptD [OF broker_property.await [OF broker_property_axioms]])
next
  case (disk d x)
  then show ?case by (simp add: d_store_def)
qed (simp_all add: shutdown_drain_def shutdown_stop_def)

lemma daemon_run: "(daemon_step env)\<^sup>*\<^sup>* d d' \<Longrightarrow> P (d_store d) \<Longrightarrow> P (d_store d')"
  by (induction rule: rtranclp_induct) (auto dest: daemon_step)

end

text \<open>The registry along a run. The parts of a method that do not resolve an interaction only touch the
  attempts of the registry.\<close>

definition rkept :: "(Daemon \<Rightarrow> 'a \<times> Daemon) \<Rightarrow> bool" where
  "rkept h \<longleftrightarrow> (\<forall>d. registry_ok (d_sessions d) \<longrightarrow> registry_ok (d_sessions (snd (h d))))"

lemma d_sessions_simps [simp]:
  "d_sessions (snd (eng m d)) = d_sessions d" "d_sessions (snd (publish env k mutate d)) = d_sessions d"
  "d_sessions (broadcastStepStatus env i t a b d) = d_sessions d" "d_sessions (on_sessions f d) = f (d_sessions d)"
  by (simp_all add: eng_def publish_def broadcastStepStatus_def on_sessions_def Let_def split: prod.splits sum.splits)

lemma eng_sessions: "eng m d = (r, d') \<Longrightarrow> d_sessions d' = d_sessions d"
  by (auto simp: eng_def)

lemma publish_sessions: "publish env k mutate d = (r, d') \<Longrightarrow> d_sessions d' = d_sessions d"
  by (metis d_sessions_simps(2) snd_conv)

lemma fold_broadcast_sessions [simp]:
  "d_sessions (fold (\<lambda>sid. broadcastStepStatus env i sid a b) sids d) = d_sessions d"
  by (induction sids arbitrary: d) simp_all

lemma rkept_handlers:
  "rkept (handleExecutionStart env raw)" "rkept (handleExecutionStatus env raw)" "rkept (handleStepEvents env raw)"
  "rkept (handleStepReopen env raw)" "rkept (health_handler raw)"
  by (auto simp: rkept_def handleExecutionStart_def handleExecutionStatus_def handleStepEvents_def handleStepReopen_def
    health_handler_def Let_def split: sum.splits option.splits prod.splits dest!: eng_sessions)

lemma rkept_started: "rkept (run_started env i t a)"
  by (simp add: rkept_def run_started_def addWorker_def Let_def registry_ok_attempts)

lemma rkept_run: "rkept (handleStepRun env raw)"
proof -
  have "registry_ok (d_sessions (snd (run_started env i t a d)))" if "registry_ok (d_sessions d)" for i t a d
    using rkept_started that by (simp add: rkept_def)
  then show ?thesis
    by (auto simp: rkept_def handleStepRun_def Let_def split: sum.splits option.splits prod.splits dest!: eng_sessions)
qed

lemma rkept_cancel: "rkept (handleStepCancel env raw)"
proof -
  have "registry_ok r" if "registry_Cancel a q = (x, r)" "registry_ok q" for a q x r
    using that registry_ok_attempts(4) [of a q] by simp
  then show ?thesis
    by (auto simp: rkept_def handleStepCancel_def Let_def split: sum.splits option.splits prod.splits dest!: eng_sessions)
qed

lemma rkept_approve: "rkept (handleStepApprove env raw)"
  by (auto simp: rkept_def handleStepApprove_def Let_def registry_ok_Resolve split: sum.splits option.splits prod.splits dest!: eng_sessions)

lemma rkept_dispatch: "rkept (Dispatch (daemon_rpc env) mth raw)"
proof -
  have h: "rkept (handler raw)" if "map_of (daemon_rpc env) mth = Some handler" for handler
    using that rkept_handlers rkept_run rkept_cancel rkept_approve
    by (auto simp: daemon_rpc_def registerStepHandlers_def registerExecutionHandlers_def Register_def NewDispatcher_def split: if_splits)
  show ?thesis unfolding rkept_def
  proof (intro allI impI)
    fix d :: Daemon assume r: "registry_ok (d_sessions d)"
    show "registry_ok (d_sessions (snd (Dispatch (daemon_rpc env) mth raw d)))"
    proof (cases "map_of (daemon_rpc env) mth")
      case (Some handler)
      have "registry_ok (d_sessions (snd (handler raw d)))" using h [OF Some] r by (simp add: rkept_def)
      then show ?thesis using Some by (auto simp: Dispatch_def invokeHandler_def Let_def split: option.splits prod.splits reply.splits)
    qed (use r in \<open>simp add: Dispatch_def\<close>)
  qed
qed

lemma rkept_permission:
  "rkept (RequestPermission_start env sink a req)" "rkept (RequestPermission_wait b err j ch)"
proof -
  have "registry_ok r" if "BeginInteraction j a q = (x, r)" "registry_ok q" for j a q x r
    using that registry_ok_Begin [of q j a] by simp
  then show "rkept (RequestPermission_start env sink a req)"
    by (auto simp: rkept_def RequestPermission_start_def Let_def split: sum.splits option.splits prod.splits payload_result.splits
      dest!: eng_sessions publish_sessions)
  show "rkept (RequestPermission_wait b err j ch)"
    by (auto simp: rkept_def RequestPermission_wait_def split: sum.splits option.splits prod.splits
      dest: registry_ok_Wait intro!: registry_ok_Forget)
qed

lemma registry_step: "daemon_step env d d' \<Longrightarrow> registry_ok (d_sessions d) \<Longrightarrow> registry_ok (d_sessions d')"
proof (induction rule: daemon_step.induct)
  case (work w d ctx)
  obtain a i t where w: "w = (a, i, t)" by (metis prod.exhaust)
  show ?case using work by (auto simp: run_worker_def w Let_def registry_ok_attempts split: sum.splits)
qed (use rkept_dispatch rkept_permission rkept_started in \<open>auto simp: rkept_def shutdown_drain_def shutdown_stop_def registry_ok_CancelAll\<close>)

lemma registry_run: "(daemon_step env)\<^sup>*\<^sup>* d d' \<Longrightarrow> registry_ok (d_sessions d) \<Longrightarrow> registry_ok (d_sessions d')"
  by (induction rule: rtranclp_induct) (auto dest: registry_step)

lemma broker_run:
  assumes "(daemon_step env)\<^sup>*\<^sup>* d d'" "store_ok (d_store d)" "registry_ok (d_sessions d)"
  shows "store_ok (d_store d') \<and> broker_continues (d_store d) (d_store d') \<and> registry_ok (d_sessions d')"
proof -
  have "broker_history (d_store d) (d_store d)"
    using assms(2) broker_continues_refl by (simp add: broker_history_def broker_continues_def)
  from broker.daemon_run [OF assms(1) this] registry_run [OF assms(1,3)] show ?thesis
    by (simp add: broker_history_def broker_continues_def)
qed

section \<open>Properties\<close>

text \<open>C10. Whatever clients call, in whatever order the calls, the workers, the permission requests and the
  shutdown interleave: the store keeps its integrity, no row is deleted, declarations, generations
  of attempts, invalidations and releases are final as under the engine, and a resolved
  interaction keeps its decision for good. In the registry every waiting permission request has an
  empty channel of its own and no channel ever holds two decisions, so that delivering a decision
  never blocks.\<close>

theorem broker_integrity:
  assumes "(daemon_step env)\<^sup>*\<^sup>* d d'" "store_ok (d_store d)" "registry_ok (d_sessions d)"
  shows "store_ok (d_store d') \<and> broker_continues (d_store d) (d_store d') \<and> registry_ok (d_sessions d')"
  by (rule broker_run [OF assms])

theorem broker_integrity_witness:
  "store_ok (d_store (shutdown_drain (snd (Dispatch (daemon_rpc demo_env) ''step.run'' ''{}'' (daemon_running demo_created))))) \<and>
   broker_continues (e_store demo_created)
     (d_store (shutdown_drain (snd (Dispatch (daemon_rpc demo_env) ''step.run'' ''{}'' (daemon_running demo_created)))))"
proof -
  let ?d = "daemon_running demo_created"
  have "(daemon_step demo_env)\<^sup>*\<^sup>* ?d (shutdown_drain (snd (Dispatch (daemon_rpc demo_env) ''step.run'' ''{}'' ?d)))"
    by (blast intro: daemon_step.rpc daemon_step.drain r_into_rtranclp rtranclp.rtrancl_into_rtrancl)
  moreover have "registry_ok (d_sessions ?d)" by (simp add: daemon_running_def NewSessionRegistry_def registry_ok_def)
  ultimately show ?thesis using broker_integrity [of demo_env ?d] demo_ok(1) by simp
qed

end
