(* ===== verification/Broker_Protocol.thy ===== *)
theory Broker_Protocol
  imports Broker_Integrity
begin

text \<open>
  What a client of the broker sees: every answer of a method can be marshalled, so the protocol of
  the server holds for the daemon; a daemon that shuts down takes on no worker and refuses the calls that would need one.
\<close>

section \<open>Answers\<close>

definition reply_fits :: "reply \<Rightarrow> bool" where
  "reply_fits x = (case x of Returned r e \<Rightarrow> param_fits r \<and> (\<forall>y. e = Some y \<longrightarrow> error_fits y) | Panicked \<Rightarrow> True)"

named_theorems fits \<open>answers that can be marshalled\<close>

lemma reply_fits_fails [fits]: "error_fits e \<Longrightarrow> reply_fits (fst (fails e d))"
  by (simp add: reply_fits_def fails_def)

lemma reply_fits_answers [fits]: "json_fits 9999 v \<Longrightarrow> reply_fits (fst (answers_with v d))"
  by (simp add: reply_fits_def answers_with_def param_fits_def)

lemma error_fits_data [fits]:
  "- (2 ^ 31) \<le> c \<Longrightarrow> c < 2 ^ 31 \<Longrightarrow> error_fits (rpc_err c m None)"
  "- (2 ^ 31) \<le> c \<Longrightarrow> c < 2 ^ 31 \<Longrightarrow> error_fits (rpc_err c m (Some (JObj kvs))) \<longleftrightarrow> json_fits 9998 (JObj kvs)"
  by (simp_all add: error_fits_def rpc_err_def)

lemma boundary_errors [fits]:
  "error_fits (detail_error m)" "error_fits workflowNotFoundError" "error_fits (workflowRPCError err)"
  "error_fits (referenceRPCError err f)" "error_fits interactionConflictError" "error_fits draining_error"
  "error_fits (stepRPCError err)" "error_fits (invalidParamsError pe)" "error_fits feedback_too_long"
  by (simp_all add: detail_error_def workflowNotFoundError_def workflowRPCError_def referenceRPCError_def interactionConflictError_def
    draining_error_def stepRPCError_def invalidParamsError_def feedback_too_long_def error_fits_def rpc_err_def Let_def
    InvalidParamsCode_def InternalErrorCode_def split: err_kind.splits)

declare error_fits_simps(2) [fits]

lemma json_fits_list [fits]: "0 < d \<Longrightarrow> (\<And>x. x \<in> set xs \<Longrightarrow> json_fits (d - 1) (f x)) \<Longrightarrow> json_fits d (JArr (map f xs))"
  by (auto simp: list_all_iff)

lemma fits_cases [fits]:
  "(\<And>a. x = Inl a \<Longrightarrow> reply_fits (fst (f a))) \<Longrightarrow> (\<And>b. x = Inr b \<Longrightarrow> reply_fits (fst (g b))) \<Longrightarrow>
   reply_fits (fst (case x of Inl a \<Rightarrow> f a | Inr b \<Rightarrow> g b))"
  "(y = None \<Longrightarrow> reply_fits (fst m)) \<Longrightarrow> (\<And>b. y = Some b \<Longrightarrow> reply_fits (fst (h b))) \<Longrightarrow>
   reply_fits (fst (case y of None \<Rightarrow> m | Some b \<Rightarrow> h b))"
  "(\<And>a b. z = (a, b) \<Longrightarrow> reply_fits (fst (k a b))) \<Longrightarrow> reply_fits (fst (case z of (a, b) \<Rightarrow> k a b))"
  "(c \<Longrightarrow> reply_fits (fst m)) \<Longrightarrow> (\<not> c \<Longrightarrow> reply_fits (fst n)) \<Longrightarrow> reply_fits (fst (if c then m else n))"
  "(w = True \<Longrightarrow> reply_fits (fst m)) \<Longrightarrow> (w = False \<Longrightarrow> reply_fits (fst n)) \<Longrightarrow> reply_fits (fst (case w of True \<Rightarrow> m | False \<Rightarrow> n))"
  by (simp_all split: sum.split option.split prod.split bool.split)

lemma draining_fits [fits]: "rejectDraining d = Some e \<Longrightarrow> error_fits e"
  using boundary_errors(6) by (simp add: rejectDraining_def)

lemma started_fits [fits]: "reply_fits (fst (run_started env i t a d))"
  unfolding run_started_def Let_def by (intro fits) (simp_all add: json_int_def)

lemma executionstart_fits [fits]: "reply_fits (fst (handleExecutionStart env raw d))"
  unfolding handleExecutionStart_def Let_def by (intro fits; (assumption | simp add: json_int_def list_all_iff)?)

lemma executionstatus_fits [fits]: "reply_fits (fst (handleExecutionStatus env raw d))"
  unfolding handleExecutionStatus_def Let_def by (intro fits; (assumption | simp add: json_int_def list_all_iff)?)

lemma steprun_fits [fits]: "reply_fits (fst (handleStepRun env raw d))"
  unfolding handleStepRun_def Let_def by (intro fits; (assumption | simp add: json_int_def list_all_iff)?)

lemma stepapprove_fits [fits]: "reply_fits (fst (handleStepApprove env raw d))"
  unfolding handleStepApprove_def Let_def by (intro fits; (assumption | simp add: json_int_def list_all_iff)?)

lemma stepcancel_fits [fits]: "reply_fits (fst (handleStepCancel env raw d))"
  unfolding handleStepCancel_def Let_def by (intro fits; (assumption | simp add: json_int_def list_all_iff)?)

lemma stepreopen_fits [fits]: "reply_fits (fst (handleStepReopen env raw d))"
  unfolding handleStepReopen_def Let_def by (intro fits; (assumption | simp add: json_int_def list_all_iff)?)

lemma health_fits [fits]: "reply_fits (fst (health_handler raw d))"
  unfolding health_handler_def by (intro fits) simp

lemma stepevents_fits [fits]: "reply_fits (fst (handleStepEvents env raw d))"
proof -
  have "json_fits 9997 (stepEventResult ev)" for ev
    by (simp add: stepEventResult_def omit_string_def json_int_def split: option.splits)
  then show ?thesis
    unfolding handleStepEvents_def Let_def by (intro fits; (simp add: json_int_def list_all_iff)?)
qed

lemma daemon_handlers:
  assumes "map_of (daemon_rpc env) mth = Some h"
    and "Q (handleStepReopen env)" "Q (handleStepCancel env)" "Q (handleStepApprove env)" "Q (handleStepEvents env)"
    "Q (handleStepRun env)" "Q (handleExecutionStatus env)" "Q (handleExecutionStart env)" "Q health_handler"
  shows "Q h"
  using assms
  by (auto simp: daemon_rpc_def registerStepHandlers_def registerExecutionHandlers_def Register_def NewDispatcher_def split: if_splits)

lemma reply_fitsD: "reply_fits x \<Longrightarrow> x = Returned r e \<Longrightarrow> param_fits r \<and> (\<forall>y. e = Some y \<longrightarrow> error_fits y)"
  by (simp add: reply_fits_def)

lemma daemon_reply_fits: "map_of (daemon_rpc env) mth = Some h \<Longrightarrow> reply_fits (fst (h raw d))"
  by (erule daemon_handlers [where Q = "\<lambda>h. reply_fits (fst (h raw d))"];
    rule stepreopen_fits stepcancel_fits stepapprove_fits stepevents_fits steprun_fits executionstatus_fits executionstart_fits health_fits)

lemma daemon_replies_fit: "replies_fit (daemon_rpc env)"
  unfolding replies_fit_def
proof (intro allI impI)
  fix mth h params s r e s'
  assume "map_of (daemon_rpc env) mth = Some h" "h params s = (Returned r e, s')"
  then show "param_fits r \<and> (\<forall>x. e = Some x \<longrightarrow> error_fits x)"
    using reply_fitsD [OF daemon_reply_fits, of env mth h params s r e] by simp
qed

section \<open>Shutdown\<close>

definition shutting_down :: "Daemon \<Rightarrow> bool" where
  "shutting_down d \<longleftrightarrow> d_state d = ''draining'' \<or> d_state d = ''stopped''"

lemma map_of_daemon_rpc:
  "map_of (daemon_rpc env) ''step.run'' = Some (handleStepRun env)" "map_of (daemon_rpc env) ''step.approve'' = Some (handleStepApprove env)"
  "map_of (daemon_rpc env) ''step.cancel'' = Some (handleStepCancel env)" "map_of (daemon_rpc env) ''step.reopen'' = Some (handleStepReopen env)"
  by (simp_all add: daemon_rpc_def registerStepHandlers_def registerExecutionHandlers_def Register_def NewDispatcher_def)

lemma draining_handlers:
  assumes "shutting_down d" "h \<in> {handleStepRun env, handleStepApprove env, handleStepCancel env, handleStepReopen env}"
  shows "\<exists>e. h raw d = fails e d \<and> (e = draining_error \<or> (\<exists>pe. e = invalidParamsError pe))"
proof -
  have "rejectDraining d = Some draining_error" using assms(1) by (auto simp: rejectDraining_def shutting_down_def)
  with assms(2) show ?thesis
    by (auto simp: handleStepRun_def handleStepApprove_def handleStepCancel_def handleStepReopen_def fails_def split: sum.splits)
qed

lemma draining_rejects:
  assumes "shutting_down d" "mth \<in> {''step.run'', ''step.approve'', ''step.cancel'', ''step.reopen''}"
  shows "\<exists>e. Dispatch (daemon_rpc env) mth raw d = ((None, Some e), d) \<and> (e = draining_error \<or> (\<exists>pe. e = invalidParamsError pe))"
proof -
  obtain h where "map_of (daemon_rpc env) mth = Some h" "h \<in> {handleStepRun env, handleStepApprove env, handleStepCancel env, handleStepReopen env}"
    using assms(2) map_of_daemon_rpc by fastforce
  with draining_handlers [OF assms(1) this(2), of raw] show ?thesis
    by (auto simp: Dispatch_def invokeHandler_def fails_def)
qed

lemma d_parts [simp]:
  "d_state (snd (eng m d)) = d_state d" "d_state (snd (publish env k mutate d)) = d_state d"
  "d_state (broadcastStepStatus env i t a b d) = d_state d" "d_state (on_sessions f d) = d_state d"
  "d_workers (snd (eng m d)) = d_workers d" "d_workers (snd (publish env k mutate d)) = d_workers d"
  "d_workers (broadcastStepStatus env i t a b d) = d_workers d" "d_workers (on_sessions f d) = d_workers d"
  by (simp_all add: eng_def publish_def broadcastStepStatus_def on_sessions_def Let_def split: prod.splits sum.splits)

lemma eng_parts: "eng m d = (r, d') \<Longrightarrow> d_state d' = d_state d \<and> d_workers d' = d_workers d"
  by (auto simp: eng_def)

lemma publish_parts: "publish env k mutate d = (r, d') \<Longrightarrow> d_state d' = d_state d \<and> d_workers d' = d_workers d"
  by (metis d_parts(2,6) snd_conv)

lemma fold_broadcast_parts [simp]:
  "d_state (fold (\<lambda>sid. broadcastStepStatus env i sid a b) sids d) = d_state d"
  "d_workers (fold (\<lambda>sid. broadcastStepStatus env i sid a b) sids d) = d_workers d"
  by (induction sids arbitrary: d) simp_all

lemma other_handlers:
  "h \<in> {handleExecutionStart env, handleExecutionStatus env, handleStepEvents env, health_handler} \<Longrightarrow>
   d_state (snd (h raw d)) = d_state d \<and> d_workers (snd (h raw d)) = d_workers d"
  by (auto simp: handleExecutionStart_def handleExecutionStatus_def handleStepEvents_def 
    health_handler_def Let_def split: sum.splits option.splits prod.splits dest!: eng_parts)

lemma Dispatch_snd:
  "snd (Dispatch rpc mth raw d) = (case map_of rpc mth of None \<Rightarrow> d | Some h \<Rightarrow> snd (h raw d))"
  by (auto simp: Dispatch_def invokeHandler_def Let_def split: option.splits prod.splits reply.splits)

lemma permission_parts:
  "d_state (snd (RequestPermission_start env sink a req d)) = d_state d \<and> d_workers (snd (RequestPermission_start env sink a req d)) = d_workers d"
  "d_state (snd (RequestPermission_wait b err j ch d)) = d_state d \<and> d_workers (snd (RequestPermission_wait b err j ch d)) = d_workers d"
  by (auto simp: RequestPermission_start_def RequestPermission_wait_def Let_def
    split: sum.split prod.split payload_result.split option.split dest!: eng_parts publish_parts)

lemma run_worker_parts:
  "d_state (run_worker env ctx w d) = d_state d" "d_workers (run_worker env ctx w d) = remove1 w (d_workers d)"
  by (auto simp: run_worker_def Let_def split: prod.split sum.split)

lemma run_started_shutting_down:
  "shutting_down d \<Longrightarrow> d_state (snd (run_started env i t attempt d)) = d_state d \<and> d_workers (snd (run_started env i t attempt d)) = d_workers d"
  by (auto simp: run_started_def addWorker_def shutting_down_def Let_def)

lemma Dispatch_shutting_down:
  assumes "shutting_down d"
  shows "d_state (snd (Dispatch (daemon_rpc env) mth raw d)) = d_state d \<and> d_workers (snd (Dispatch (daemon_rpc env) mth raw d)) = d_workers d"
proof (cases "map_of (daemon_rpc env) mth")
  case (Some h)
  have r: "d_state (snd (h raw d)) = d_state d \<and> d_workers (snd (h raw d)) = d_workers d"
    if "h \<in> {handleStepRun env, handleStepApprove env, handleStepCancel env, handleStepReopen env}" for h
    using draining_handlers [OF assms that, of raw] by auto
  have "d_state (snd (h raw d)) = d_state d \<and> d_workers (snd (h raw d)) = d_workers d"
    by (rule daemon_handlers [OF Some, where Q = "\<lambda>h. d_state (snd (h raw d)) = d_state d \<and> d_workers (snd (h raw d)) = d_workers d"])
      (rule r other_handlers [where env = env]; simp)+
  with Some show ?thesis by (simp add: Dispatch_snd)
qed (simp add: Dispatch_snd)

lemma shutting_down_step:
  "daemon_step env d d' \<Longrightarrow> shutting_down d \<Longrightarrow> shutting_down d' \<and> mset (d_workers d') \<subseteq># mset (d_workers d)"
proof (induction rule: daemon_step.induct)
  case (rpc d mth raw)
  then show ?case using Dispatch_shutting_down [OF rpc] by (simp add: shutting_down_def)
next
  case (register d i t attempt)
  then show ?case using run_started_shutting_down [OF register] by (simp add: shutting_down_def)
next
  case (ask d sink a req)
  then show ?case using permission_parts(1) by (simp add: shutting_down_def)
next
  case (await d b err j ch)
  then show ?case using permission_parts(2) by (simp add: shutting_down_def)
qed (simp_all add: shutting_down_def run_worker_parts shutdown_drain_def shutdown_stop_def diff_subset_eq_self)

lemma shutting_down_run:
  "(daemon_step env)\<^sup>*\<^sup>* d d' \<Longrightarrow> shutting_down d \<Longrightarrow> shutting_down d' \<and> mset (d_workers d') \<subseteq># mset (d_workers d)"
  by (induction rule: rtranclp_induct) (auto dest: shutting_down_step intro: subset_mset.trans)

section \<open>Properties\<close>

text \<open>C9. The broker answers every line of a connection on its own: a line that is no JSON-RPC message gets
  one parse error with the null identifier, a notification gets nothing, and every request gets
  exactly one answer, with its own identifier and either a result or an error, in the order of the
  requests; malformed lines do not disturb their neighbours, and the daemon is the one after the
  calls in that order. As long as the peer takes the answers the loop ends only when the peer
  closes, or with an answer above 10 MiB.\<close>

theorem broker_protocol:
  assumes "\<forall>l \<in> set ls. CHR 0x0A \<notin> set l"
    "ServeConn (daemon_rpc env) writes (concat (map (\<lambda>l. l @ newline) ls)) d = (out, fin, d')"
  shows "(length ls \<le> writes \<longrightarrow> fin = PeerClosed \<or> (\<exists>n > MaxMessageSize. fin = EncodeFailed (TooLargeToSend n))) \<and>
    (fin = PeerClosed \<longrightarrow>
      (\<exists>ms. map (\<lambda>l. fst (DecodeMessage l)) out = map Inr ms \<and> answers (daemon_rpc env) (map line_message ls) d = (ms, d') \<and>
        map msg_ID ms = map Some (expected_ids (map line_message ls)) \<and>
        (\<forall>m \<in> set ms. (msg_Result m = '''') \<noteq> (msg_Error m = None))))"
  by (rule server_answers [OF daemon_replies_fit assms])

theorem broker_protocol_witness:
  "\<exists>line m. ServeConn (daemon_rpc demo_env) 1 (''x'' @ newline) (daemon_running demo_created) = ([line], PeerClosed, daemon_running demo_created) \<and>
     fst (DecodeMessage line) = Inr m \<and> msg_ID m = Some null_id"
proof -
  let ?d = "daemon_running demo_created"
  obtain line where s: "ServeConn (daemon_rpc demo_env) 1 (''x'' @ newline) ?d = ([line], PeerClosed, ?d)"
    using serve_garbage [of "daemon_rpc demo_env" ?d] ..
  then have "ServeConn (daemon_rpc demo_env) 1 (concat (map (\<lambda>l. l @ newline) [''x''])) ?d = ([line], PeerClosed, ?d)" by simp
  moreover have "\<forall>l \<in> set [''x'']. CHR 0x0A \<notin> set l" by simp
  ultimately obtain ms
    where "map (\<lambda>l. fst (DecodeMessage l)) [line] = map Inr ms" "map msg_ID ms = map Some (expected_ids (map line_message [''x'']))"
    using broker_protocol by blast
  then obtain m where "fst (DecodeMessage line) = Inr m" "msg_ID m = Some null_id"
    by (cases ms) (simp_all add: garbage_line expected_ids_def)
  with s show ?thesis by blast
qed

text \<open>C14. Once the shutdown began, whatever happens next, the daemon never runs again, no worker
  is taken on, not even for a call of \<^verbatim>\<open>step.run\<close> that had passed its check before, and every call that would run, approve, cancel or reopen a step is refused with the
  draining error, or with the error of its parameters, and changes nothing.\<close>

theorem shutdown_refuses:
  assumes "(daemon_step env)\<^sup>*\<^sup>* (shutdown_drain d) d'" "mth \<in> {''step.run'', ''step.approve'', ''step.cancel'', ''step.reopen''}"
  shows "d_state d' \<in> {''draining'', ''stopped''} \<and> mset (d_workers d') \<subseteq># mset (d_workers d) \<and>
    (\<exists>e. Dispatch (daemon_rpc env) mth raw d' = ((None, Some e), d') \<and> (rpc_Code e = - 32001 \<or> rpc_Code e = InvalidParamsCode))"
proof -
  have s: "shutting_down (shutdown_drain d)" "d_workers (shutdown_drain d) = d_workers d" by (simp_all add: shutting_down_def shutdown_drain_def)
  note r = shutting_down_run [OF assms(1) s(1)]
  then show ?thesis using draining_rejects [OF _ assms(2), of d' env raw] s(2)
    by (auto simp: shutting_down_def draining_error_def rpc_err_def invalidParamsError_def)
qed

theorem shutdown_refuses_witness:
  "\<exists>e. Dispatch (daemon_rpc demo_env) ''step.run'' ''{}'' (shutdown_drain (daemon_running demo_created)) =
     ((None, Some e), shutdown_drain (daemon_running demo_created))"
  using shutdown_refuses [OF rtranclp.rtrancl_refl, where mth = "''step.run''" and env = demo_env and
    d = "daemon_running demo_created" and raw = "''{}''"] by blast

end
