(* ===== verification/Broker_Approve.thy ===== *)
theory Broker_Approve
  imports Broker_Protocol
begin

text \<open>
  \<^verbatim>\<open>step.approve\<close>: a decision reaches an interaction only when the interaction belongs to the running
  current attempt of the step, the key is its own and the decision was offered; the decision is
  then stored, handed to the waiting request, and final.
\<close>

definition approve_fields :: "string list" where
  "approve_fields = [''execution_id'', ''step_id'', ''interaction_id'', ''decision'', ''idempotency_key'']"

text \<open>What stands between a decision and its interaction, on the rows of the store.\<close>

definition may_decide :: "FakeStore \<Rightarrow> string \<Rightarrow> string \<Rightarrow> string \<Rightarrow> string \<Rightarrow> Interaction \<Rightarrow> bool" where
  "may_decide s i t key decision it \<longleftrightarrow>
     (\<exists>cur ds. fst (attempts_CurrentByStep i t s) = Inr cur \<and> at_ID cur = ia_AttemptID it \<and> at_Status cur = ''running'' \<and>
        key = ia_ID it \<and> key = ia_IdempotencyKey it \<and>
        availableDecisions s (ia_AttemptID it) (ia_ID it) = Inr ds \<and> decision \<in> set ds \<and>
        (ia_Status it = ''resolved'' \<longrightarrow> ia_Decision it = Some decision))"

lemma approvable_iff:
  "approvable i t j decision key s = Some it \<longleftrightarrow> map_of (interactions s) j = Some it \<and> may_decide s i t key decision it"
proof (cases "map_of (interactions s) j")
  case (Some it')
  then have g: "fst (interactions_Get j s) = Inr it'" by (simp add: interactions_Get_def op_read_def lookup_row_def)
  show ?thesis
  proof (cases "fst (attempts_CurrentByStep i t s)")
    case (Inr cur)
    show ?thesis
    proof (cases "availableDecisions s (ia_AttemptID it') (ia_ID it')")
      case (Inl e)
      then have "approvable i t j decision key s = None" "\<not> may_decide s i t key decision it'"
        by (auto simp: approvable_def g Inr may_decide_def)
      then show ?thesis using Some by auto
    next
      case ds: (Inr ds)
      have "may_decide s i t key decision it' \<longleftrightarrow> at_ID cur = ia_AttemptID it' \<and> at_Status cur = ''running'' \<and> key = ia_ID it' \<and>
          key = ia_IdempotencyKey it' \<and> decision \<in> set ds \<and> (ia_Status it' = ''resolved'' \<longrightarrow> ia_Decision it' = Some decision)"
        by (simp add: may_decide_def Inr ds)
      moreover have "approvable i t j decision key s = Some it \<longleftrightarrow> it = it' \<and> at_ID cur = ia_AttemptID it' \<and> at_Status cur = ''running'' \<and> key = ia_ID it' \<and>
          key = ia_IdempotencyKey it' \<and> decision \<in> set ds \<and> (ia_Status it' = ''resolved'' \<longrightarrow> ia_Decision it' = Some decision)"
        by (simp only: approvable_def g Inr ds sum.case) auto
      ultimately show ?thesis unfolding Some by (metis option.inject)
    qed
  qed (auto simp: approvable_def may_decide_def g Some)
qed (simp add: approvable_def interactions_Get_def op_read_def lookup_row_def)

lemma store_interaction:
  assumes "store_ok s" "map_of (interactions s) j = Some it"
  shows "ia_ID it = j"
  using assms by (auto simp: store_ok_def interactions_ok_def rows_def)

lemma resolved_waiter:
  assumes "registry_ok r" "map_of (sr_interactions r) j = Some w"
  shows "fst (WaitInteraction b None (iw_result w) (ResolveInteraction j decision r)) = Some (Inr decision)"
  using assms by (auto simp: registry_ok_def ResolveInteraction_def WaitInteraction_def)

lemma wait_answer: "fst (RequestPermission_wait b err j ch d) = fst (WaitInteraction b err ch (d_sessions d))"
  by (auto simp: RequestPermission_wait_def split: prod.splits option.splits sum.splits)

lemma approve_cases:
  assumes "store_ok (d_store d)" "registry_ok (d_sessions d)" "d_state d = ''running''" "d_st d"
    and p: "decode_params env stepApproveParams approve_fields raw = Inr p"
    and v: "i = str_at p ''execution_id''" "t = str_at p ''step_id''" "j = str_at p ''interaction_id''"
      "decision = str_at p ''decision''" "key = str_at p ''idempotency_key''"
    and h: "handleStepApprove env raw d = (r, d')"
  shows "case map_of (interactions (d_store d)) j of
      Some it \<Rightarrow>
        if may_decide (d_store d) i t key decision it then
          r = Returned (Some (JObj [(''resolved'', JBool True)])) None \<and>
          d_store d' = (if ia_Status it = ''resolved'' then d_store d
            else (d_store d)\<lparr>interactions := adjust j (\<lambda>_. it\<lparr>ia_Status := ''resolved'', ia_Decision := Some decision,
              ia_ResolvedAt := Some (rfc3339 (time_Now env (e_ticks (d_engine d))))\<rparr>) (interactions (d_store d))\<rparr>) \<and>
          (\<forall>w b. map_of (sr_interactions (d_sessions d)) j = Some w \<longrightarrow>
            fst (RequestPermission_wait b None j (iw_result w) d') = Some (Inr decision))
        else r = Returned None (Some interactionConflictError) \<and> d' = d
    | None \<Rightarrow> r = Returned None (Some interactionConflictError) \<and> d' = d"
proof -
  have run: "rejectDraining d = None" using assms(3) by (simp add: rejectDraining_def)
  have h': "handleStepApprove env raw d =
    (case approvable i t j decision key (d_store d) of
       None \<Rightarrow> fails interactionConflictError d
     | Some interaction \<Rightarrow>
         (case eng (timed env (\<lambda>now. interactions_Resolve now (ia_ID interaction) key decision)) d of
            (Inl _, d) \<Rightarrow> fails interactionConflictError d
          | (Inr resolved, d) \<Rightarrow>
              answers_with (JObj [(''resolved'', JBool (ia_Status resolved = ''resolved''))])
                (on_sessions (ResolveInteraction (ia_ID interaction) decision) d)))"
    unfolding v using p assms(4) run by (simp add: handleStepApprove_def approve_fields_def Let_def)
  show ?thesis
  proof (cases "approvable i t j decision key (d_store d)")
    case None
    then have "r = Returned None (Some interactionConflictError) \<and> d' = d" using h h' by (simp add: fails_def)
    moreover have "\<not> may_decide (d_store d) i t key decision it" if "map_of (interactions (d_store d)) j = Some it" for it
      using None that approvable_iff [of i t j decision key "d_store d" it] by simp
    ultimately show ?thesis by (auto split: option.splits)
  next
    case (Some it)
    then have m: "map_of (interactions (d_store d)) j = Some it" "may_decide (d_store d) i t key decision it" by (simp_all add: approvable_iff)
    have k: "ia_ID it = j" "ia_IdempotencyKey it = key" using store_interaction [OF assms(1) m(1)] m(2) by (auto simp: may_decide_def)
    have w: "fst (WaitInteraction b None (iw_result w) (ResolveInteraction j decision (d_sessions d))) = Some (Inr decision)"
      if "map_of (sr_interactions (d_sessions d)) j = Some w" for w b
      by (rule resolved_waiter [OF assms(2) that])
    let ?it = "it\<lparr>ia_Status := ''resolved'', ia_Decision := Some decision, ia_ResolvedAt := Some (rfc3339 (time_Now env (e_ticks (d_engine d))))\<rparr>"
    let ?s = "if ia_Status it = ''resolved'' then d_store d else (d_store d)\<lparr>interactions := adjust j (\<lambda>_. ?it) (interactions (d_store d))\<rparr>"
    have "interactions_Resolve (time_Now env (e_ticks (d_engine d))) j key decision (d_store d) =
        (Inr (if ia_Status it = ''resolved'' then it else ?it), ?s)"
      using m(1) k by (simp add: interactions_Resolve_def Let_def)
    then have "eng (timed env (\<lambda>now. interactions_Resolve now j key decision)) d =
        (Inr (if ia_Status it = ''resolved'' then it else ?it), d\<lparr>d_engine := (d_engine d)\<lparr>e_ticks := Suc (e_ticks (d_engine d)), e_store := ?s\<rparr>\<rparr>)"
      by (simp add: eng_def timed_def clock_now_def st_def op_bind_def d_store_def)
    then have "(r, d') = answers_with (JObj [(''resolved'', JBool True)])
        (on_sessions (ResolveInteraction j decision) (d\<lparr>d_engine := (d_engine d)\<lparr>e_ticks := Suc (e_ticks (d_engine d)), e_store := ?s\<rparr>\<rparr>))"
      using h h' Some k by (simp split: if_splits)
    then have "r = Returned (Some (JObj [(''resolved'', JBool True)])) None" "d_store d' = ?s"
      "d_sessions d' = ResolveInteraction j decision (d_sessions d)"
      by (simp_all add: answers_with_def)
    then show ?thesis using m w by (simp add: wait_answer)
  qed
qed


section \<open>A concrete daemon\<close>

text \<open>A running attempt that asks for a permission with the decisions \<open>yes\<close> and \<open>no\<close>.\<close>

definition demo_question :: Interaction where
  "demo_question = \<lparr>ia_ID = ''q'', ia_AttemptID = ''uuu'', ia_Type = ''permission'', ia_Status = ''pending'', ia_Decision = None,
     ia_IdempotencyKey = ''q'', ia_ResolvedAt = None\<rparr>"

definition demo_payload :: string where
  "demo_payload = json_text (JObj [(''interaction_id'', JStr ''q''), (''available_decisions'', JArr [JStr ''yes'', JStr ''no''])])"

definition demo_asking :: FakeStore where
  "demo_asking = snd (events_CreateAttemptEvent 0 \<lparr>ae_ID = 0, ae_AttemptID = ''uuu'', ae_Cursor = 0, ae_EventType = ''interaction_required'',
     ae_PayloadRef = None, ae_Payload = Some demo_payload, ae_OccurredAt = None\<rparr> (snd (interactions_Create demo_question (e_store demo_started))))"

definition demo_daemon :: Daemon where
  "demo_daemon = on_sessions (snd \<circ> BeginInteraction ''q'' ''uuu'') (daemon_running (demo_started\<lparr>e_store := demo_asking\<rparr>))"

definition demo_approve :: "string \<Rightarrow> string" where
  "demo_approve decision = json_text (JObj [(''execution_id'', JStr ''u''), (''step_id'', JStr ''prep''), (''interaction_id'', JStr ''q''),
     (''decision'', JStr decision), (''idempotency_key'', JStr ''q'')])"

lemma demo_asking_facts:
  "(let s = demo_asking in
     (map_of (interactions s) ''q'', map_sum err_msg (\<lambda>c. (at_ID c, at_Status c)) (fst (attempts_CurrentByStep ''u'' ''prep'' s)),
      map_sum err_msg id (availableDecisions s ''uuu'' ''q''))) = (Some demo_question, Inr (''uuu'', ''running''), Inr [''yes'', ''no''])"
  by code_simp

lemma demo_store: "map_of (interactions demo_asking) ''q'' = Some demo_question"
  "map_sum err_msg (\<lambda>c. (at_ID c, at_Status c)) (fst (attempts_CurrentByStep ''u'' ''prep'' demo_asking)) = Inr (''uuu'', ''running'')"
  "map_sum err_msg id (availableDecisions demo_asking ''uuu'' ''q'') = Inr [''yes'', ''no'']"
  using demo_asking_facts unfolding Let_def prod.inject by blast+

definition demo_values :: "string \<Rightarrow> (string, field_value) gomap" where
  "demo_values decision = [(''execution_id'', VString ''u''), (''step_id'', VString ''prep''), (''interaction_id'', VString ''q''),
     (''decision'', VString decision), (''idempotency_key'', VString ''q'')]"

text \<open>A marshalled object is decoded member by member.\<close>

lemma DecodeParams_text:
  assumes "json_fits 10000 (JObj kvs)"
  shows "DecodeParams je sch required (json_text (JObj kvs)) =
    (let ms = map (\<lambda>(k, v). (utf8 k, json_text v)) kvs in
     case fold (param_field je sch) ms (map (\<lambda>(f, k). (f, zero_value k)) sch, None) of
       (values, Some e) \<Rightarrow> Inl e
     | (values, None) \<Rightarrow> (case first_some (map (required_error ms) required) of Some e \<Rightarrow> Inl e | None \<Rightarrow> Inr values))"
proof -
  let ?s = "json_text (JObj kvs)"
  have t: "TrimSpace ?s = ?s" "prefix ''{'' ?s" "?s \<noteq> []" using TrimSpace_object by simp_all
  have v: "json_value (2 * length ?s + 2) 10000 ?s = Some (json_utf8 (JObj kvs), [])"
    using json_value_text [of "JObj kvs", unfolded reads_back_def, rule_format, of 10000 "2 * length ?s + 2" "[]"] assms by simp
  have sp: "json_span ?s [] = ?s" "skip_space [] = []" by (simp_all add: json_span_def skip_space_def)
  show ?thesis using t v sp object_members_text [OF assms]
    by (simp add: DecodeParams_def Let_def del: json_text.simps json_value.simps)
qed

lemma demo_decoded:
  "map_sum pe_Message id (decode_params demo_env stepApproveParams approve_fields (demo_approve ''yes'')) = Inr (demo_values ''yes'')"
  "map_sum pe_Message id (decode_params demo_env stepApproveParams approve_fields (demo_approve ''no'')) = Inr (demo_values ''no'')"
proof -
  have f: "json_fits 10000 (JObj [(''execution_id'', JStr ''u''), (''step_id'', JStr ''prep''), (''interaction_id'', JStr ''q''),
     (''decision'', JStr x), (''idempotency_key'', JStr ''q'')])" for x by simp
  show "map_sum pe_Message id (decode_params demo_env stepApproveParams approve_fields (demo_approve ''yes'')) = Inr (demo_values ''yes'')"
    "map_sum pe_Message id (decode_params demo_env stepApproveParams approve_fields (demo_approve ''no'')) = Inr (demo_values ''no'')"
    unfolding decode_params_def demo_approve_def DecodeParams_text [OF f] by (code_simp, code_simp)
qed

lemma map_sum_Inr: "map_sum f g x = Inr y \<longleftrightarrow> (\<exists>z. x = Inr z \<and> y = g z)"
  by (cases x) auto

lemma demo_params:
  "decode_params demo_env stepApproveParams approve_fields (demo_approve ''yes'') = Inr (demo_values ''yes'')"
  "decode_params demo_env stepApproveParams approve_fields (demo_approve ''no'') = Inr (demo_values ''no'')"
  using demo_decoded by (simp_all add: map_sum_Inr)

lemma demo_may_decide: "may_decide demo_asking ''u'' ''prep'' ''q'' ''yes'' demo_question"
  using demo_store(2,3) by (auto simp: may_decide_def map_sum_Inr demo_question_def)

lemma registry_ok_new: "registry_ok NewSessionRegistry"
  by (simp add: registry_ok_def NewSessionRegistry_def)

lemma demo_daemon_ok: "store_ok (d_store demo_daemon)" "registry_ok (d_sessions demo_daemon)" "d_state demo_daemon = ''running''" "d_st demo_daemon"
proof -
  have "store_ok (e_store demo_started)" unfolding demo_started_def by (rule keptD [OF integrity.starting demo_ok(1)])
  then have "store_ok demo_asking" unfolding demo_asking_def by (intro keepsD [OF keeps_events_CreateAttemptEvent] keepsD [OF keeps_interactions_Create])
  then show "store_ok (d_store demo_daemon)" by (simp add: demo_daemon_def)
  show "registry_ok (d_sessions demo_daemon)"
    by (simp add: demo_daemon_def daemon_running_def registry_ok_Begin registry_ok_new)
  show "d_state demo_daemon = ''running''" "d_st demo_daemon" by (simp_all add: demo_daemon_def daemon_running_def on_sessions_def)
qed

lemma demo_values_at:
  "str_at (demo_values x) ''execution_id'' = ''u''" "str_at (demo_values x) ''step_id'' = ''prep''" "str_at (demo_values x) ''interaction_id'' = ''q''"
  "str_at (demo_values x) ''decision'' = x" "str_at (demo_values x) ''idempotency_key'' = ''q''"
  by (simp_all add: demo_values_def str_at_def)

lemma demo_rows: "map_of (interactions (d_store demo_daemon)) ''q'' = Some demo_question" "d_store demo_daemon = demo_asking"
  "map_of (sr_interactions (d_sessions demo_daemon)) ''q'' = Some \<lparr>iw_attemptID = ''uuu'', iw_result = 0\<rparr>"
  using demo_store(1) by (simp_all add: demo_daemon_def daemon_running_def NewSessionRegistry_def BeginInteraction_def d_store_def on_sessions_def)

lemma demo_approved:
  "\<exists>d1. handleStepApprove demo_env (demo_approve ''yes'') demo_daemon = (Returned (Some (JObj [(''resolved'', JBool True)])) None, d1) \<and>
     d_state d1 = ''running'' \<and> d_st d1"
proof -
  obtain r d' where h: "handleStepApprove demo_env (demo_approve ''yes'') demo_daemon = (r, d')" by fastforce
  have "r = Returned (Some (JObj [(''resolved'', JBool True)])) None"
    using approve_cases [OF demo_daemon_ok demo_params(1) refl refl refl refl refl h]
    by (simp only: demo_values_at demo_rows demo_store(1) option.case demo_may_decide if_True)
  moreover have "d_state d' = d_state demo_daemon \<and> d_st d' = d_st demo_daemon"
    using h by (auto simp: handleStepApprove_def Let_def fails_def answers_with_def eng_def on_sessions_def
      split: sum.splits option.splits prod.splits if_splits)
  ultimately show ?thesis using h demo_daemon_ok by simp
qed

section \<open>Properties\<close>

text \<open>C11. A call of \<^verbatim>\<open>step.approve\<close> on a running daemon either is an interaction conflict that changes
  nothing, or the interaction belongs to the running current attempt of the step, the key is its
  own, the decision was offered and does not contradict an earlier one: then the answer is
  \<^verbatim>\<open>resolved\<close>, the row of the interaction holds the decision, nothing else in the store changed (nothing
  at all when it was decided before), and the request that waits for the interaction receives
  exactly this decision.\<close>

theorem approve_exact:
  assumes "store_ok (d_store d)" "registry_ok (d_sessions d)" "d_state d = ''running''" "d_st d"
    and p: "decode_params env stepApproveParams approve_fields raw = Inr p"
    and v: "i = str_at p ''execution_id''" "t = str_at p ''step_id''" "j = str_at p ''interaction_id''"
      "decision = str_at p ''decision''" "key = str_at p ''idempotency_key''"
    and h: "handleStepApprove env raw d = (r, d')"
  shows "case map_of (interactions (d_store d)) j of
      Some it \<Rightarrow>
        if may_decide (d_store d) i t key decision it then
          r = Returned (Some (JObj [(''resolved'', JBool True)])) None \<and>
          d_store d' = (if ia_Status it = ''resolved'' then d_store d
            else (d_store d)\<lparr>interactions := adjust j (\<lambda>_. it\<lparr>ia_Status := ''resolved'', ia_Decision := Some decision,
              ia_ResolvedAt := Some (rfc3339 (time_Now env (e_ticks (d_engine d))))\<rparr>) (interactions (d_store d))\<rparr>) \<and>
          (\<forall>w b. map_of (sr_interactions (d_sessions d)) j = Some w \<longrightarrow>
            fst (RequestPermission_wait b None j (iw_result w) d') = Some (Inr decision))
        else r = Returned None (Some interactionConflictError) \<and> d' = d
    | None \<Rightarrow> r = Returned None (Some interactionConflictError) \<and> d' = d"
  by (rule approve_cases [OF assms])

theorem approve_exact_witness:
  "\<exists>r d'. handleStepApprove demo_env (demo_approve ''yes'') demo_daemon = (r, d') \<and>
     r = Returned (Some (JObj [(''resolved'', JBool True)])) None \<and>
     fst (RequestPermission_wait True None ''q'' 0 d') = Some (Inr ''yes'')"
proof -
  obtain r d' where h: "handleStepApprove demo_env (demo_approve ''yes'') demo_daemon = (r, d')" by fastforce
  note a = approve_exact [OF demo_daemon_ok demo_params(1) refl refl refl refl refl h]
  from a have "r = Returned (Some (JObj [(''resolved'', JBool True)])) None"
    by (simp only: demo_values_at demo_rows demo_store(1) option.case demo_may_decide if_True)
  moreover from a have "fst (RequestPermission_wait True None ''q'' 0 d') = Some (Inr ''yes'')"
    by (simp only: demo_values_at demo_rows demo_store(1) option.case demo_may_decide if_True) simp
  ultimately show ?thesis using h by blast
qed

text \<open>C12. An interaction is decided once: after an accepted decision, whatever calls, workers and requests
  come between, every later decision that differs is a conflict and changes nothing.\<close>

theorem decided_once:
  assumes "store_ok (d_store d)" "registry_ok (d_sessions d)" "d_state d = ''running''" "d_st d"
    "decode_params env stepApproveParams approve_fields raw = Inr p" "handleStepApprove env raw d = (Returned (Some x) None, d1)"
    "(daemon_step env)\<^sup>*\<^sup>* d1 d2" "d_state d2 = ''running''" "d_st d2"
    "decode_params env stepApproveParams approve_fields raw' = Inr p'"
    "str_at p' ''interaction_id'' = str_at p ''interaction_id''" "str_at p' ''decision'' \<noteq> str_at p ''decision''"
  shows "handleStepApprove env raw' d2 = (Returned None (Some interactionConflictError), d2)"
proof -
  let ?j = "str_at p ''interaction_id''"
  obtain r d' where h: "handleStepApprove env raw' d2 = (r, d')" by fastforce
  obtain it where it: "map_of (interactions (d_store d)) ?j = Some it"
    "may_decide (d_store d) (str_at p ''execution_id'') (str_at p ''step_id'') (str_at p ''idempotency_key'') (str_at p ''decision'') it"
    using approve_cases [OF assms(1-5) refl refl refl refl refl assms(6)] by (auto split: option.splits if_splits)
  obtain it1 where 1: "map_of (interactions (d_store d1)) ?j = Some it1" "ia_Status it1 = ''resolved''" "ia_Decision it1 = Some (str_at p ''decision'')"
    using approve_cases [OF assms(1-5) refl refl refl refl refl assms(6)] it by (auto simp: may_decide_def split: if_splits)
  have s1: "store_ok (d_store d1)" "registry_ok (d_sessions d1)" 
    using broker_run [of env d d1, OF r_into_rtranclp] daemon_step.rpc [of env d "''step.approve''" raw] assms(1,2,6)
    by (simp_all add: Dispatch_snd map_of_daemon_rpc)
  have 2: "store_ok (d_store d2) \<and> broker_continues (d_store d1) (d_store d2) \<and> registry_ok (d_sessions d2)"
    by (rule broker_run [OF assms(7) s1])
  then have "map_of (interactions (d_store d2)) ?j = Some it1"
    using 1 by (force simp: broker_continues_def extends_def decided_def)
  then show ?thesis
    using approve_cases [OF _ _ assms(8,9,10) refl refl refl refl refl h] 1 2 assms(11,12) h by (auto simp: may_decide_def)
qed

theorem decided_once_witness:
  "\<exists>d1. handleStepApprove demo_env (demo_approve ''yes'') demo_daemon = (Returned (Some (JObj [(''resolved'', JBool True)])) None, d1) \<and>
     handleStepApprove demo_env (demo_approve ''no'') d1 = (Returned None (Some interactionConflictError), d1)"
proof -
  obtain d1 where d1: "handleStepApprove demo_env (demo_approve ''yes'') demo_daemon = (Returned (Some (JObj [(''resolved'', JBool True)])) None, d1)"
    "d_state d1 = ''running''" "d_st d1" using demo_approved by blast
  have "handleStepApprove demo_env (demo_approve ''no'') d1 = (Returned None (Some interactionConflictError), d1)"
    by (rule decided_once [OF demo_daemon_ok demo_params(1) d1(1) rtranclp.rtrancl_refl d1(2,3) demo_params(2)]) (simp_all add: demo_values_at)
  with d1(1) show ?thesis by blast
qed

end
