(* ===== verification/Broker_Notify.thy ===== *)
theory Broker_Notify
  imports Broker_Events
begin

text \<open>
  What subscribers see of the event sink: a notification is written only after its transaction was
  committed, to every open connection and in the order of the commits; a failed commit leaves no
  trace. The abstract side is the list of the committed notifications, computed on the store alone.
\<close>

section \<open>Broadcast\<close>

lemma send_notification_open:
  assumes "EncodeNotification mth params = Inr line" "map_of conns conn = Some c" "c_open c"
  shows "send_notification conn mth params conns = (False, adjust conn (\<lambda>c. c\<lparr>c_lines := c_lines c @ [line]\<rparr>) conns)"
  using assms by (simp add: send_notification_def)

lemma send_notification_other:
  "send_notification conn mth params conns = (b, conns') \<Longrightarrow> conn \<noteq> k \<Longrightarrow> map_of conns' k = map_of conns k"
  by (auto simp: send_notification_def split: sum.splits option.splits if_splits)

text \<open>One subscriber of a broadcast.\<close>

definition notify_one :: "string \<Rightarrow> json option \<Rightarrow> 64 word \<times> nat \<Rightarrow> Bus \<Rightarrow> Bus" where
  "notify_one mth params x b =
     (case send_notification (snd x) mth params (bus_conns b) of (failed, conns) \<Rightarrow>
        b\<lparr>bus_conns := conns, bus_hub := if failed then unsubscribe (fst x) (bus_hub b) else bus_hub b\<rparr>)"

lemma broadcast_loop_fold: "broadcast_loop subs mth params b = fold (notify_one mth params) subs b"
  by (induction subs mth params b rule: broadcast_loop.induct) (auto simp: notify_one_def Let_def split: prod.splits)

lemma notify_one_conn:
  assumes "EncodeNotification mth params = Inr line" "map_of (bus_conns b) conn = Some c" "c_open c"
  shows "map_of (bus_conns (notify_one mth params x b)) conn = Some (if snd x = conn then c\<lparr>c_lines := c_lines c @ [line]\<rparr> else c)"
  using assms send_notification_open [OF assms] send_notification_other [of "snd x" mth params "bus_conns b" _ _ conn]
  by (auto simp: notify_one_def split: prod.splits)

lemma notify_all_conn:
  assumes "EncodeNotification mth params = Inr line" "distinct (map snd subs)" "map_of (bus_conns b) conn = Some c" "c_open c"
  shows "map_of (bus_conns (fold (notify_one mth params) subs b)) conn =
    Some (if conn \<in> snd ` set subs then c\<lparr>c_lines := c_lines c @ [line]\<rparr> else c)"
  using assms(2-)
proof (induction subs arbitrary: b c)
  case (Cons x subs)
  note n = notify_one_conn [OF assms(1) Cons.prems(2,3), of x]
  have "map_of (bus_conns (fold (notify_one mth params) subs (notify_one mth params x b))) conn =
      Some (if conn \<in> snd ` set subs then (if snd x = conn then c\<lparr>c_lines := c_lines c @ [line]\<rparr> else c)\<lparr>c_lines :=
        c_lines (if snd x = conn then c\<lparr>c_lines := c_lines c @ [line]\<rparr> else c) @ [line]\<rparr>
        else (if snd x = conn then c\<lparr>c_lines := c_lines c @ [line]\<rparr> else c))"
    using Cons.prems by (intro Cons.IH n) auto
  then show ?case using Cons.prems(1) by auto
qed simp

text \<open>An open connection that is subscribed, alone under its identifier.\<close>

definition subscribed :: "64 word \<Rightarrow> nat \<Rightarrow> Hub \<Rightarrow> bool" where
  "subscribed i conn h \<longleftrightarrow> gomap (subscribers h) \<and> distinct (map snd (subscribers h)) \<and> map_of (subscribers h) i = Some conn"

definition listening :: "nat \<Rightarrow> Bus \<Rightarrow> bool" where
  "listening conn b \<longleftrightarrow> (\<exists>i. subscribed i conn (bus_hub b)) \<and> (\<exists>c. map_of (bus_conns b) conn = Some c \<and> c_open c)"

lemma map_snd_delete: "distinct (map snd m) \<Longrightarrow> distinct (map snd (AList.delete k m))"
  by (auto simp: AList.delete_eq distinct_map inj_on_def)

lemma subscribed_unsubscribe: "subscribed i conn h \<Longrightarrow> j \<noteq> i \<Longrightarrow> subscribed i conn (unsubscribe j h)"
  by (simp add: subscribed_def unsubscribe_def map_snd_delete gomap_delete delete_conv')

lemma notify_one_subscribed:
  assumes "EncodeNotification mth params = Inr line" "fst x = i \<Longrightarrow> snd x = conn"
    "map_of (bus_conns b) conn = Some c" "c_open c" "subscribed i conn (bus_hub b)"
  shows "subscribed i conn (bus_hub (notify_one mth params x b))"
  using assms send_notification_open [OF assms(1,3,4)] subscribed_unsubscribe [OF assms(5), of "fst x"]
  by (cases "fst x = i") (auto simp: notify_one_def split: prod.splits)

lemma notify_all_subscribed:
  assumes "EncodeNotification mth params = Inr line" "\<forall>x \<in> set subs. fst x = i \<longrightarrow> snd x = conn"
    "map_of (bus_conns b) conn = Some c" "c_open c" "subscribed i conn (bus_hub b)"
  shows "subscribed i conn (bus_hub (fold (notify_one mth params) subs b))"
  using assms(2-)
proof (induction subs arbitrary: b c)
  case (Cons x subs)
  from notify_one_conn [OF assms(1) Cons.prems(2,3), of x]
  show ?case using Cons.IH [of "notify_one mth params x b"] notify_one_subscribed [OF assms(1) _ Cons.prems(2-4), of x] Cons.prems
    by (cases "snd x = conn") simp_all
qed simp

lemma Broadcast_listening:
  assumes "EncodeNotification mth params = Inr line" "listening conn b" "mth \<noteq> ''''" "map_of (bus_conns b) conn = Some c"
  shows "listening conn (Broadcast mth params b) \<and>
    map_of (bus_conns (Broadcast mth params b)) conn = Some (c\<lparr>c_lines := c_lines c @ [line]\<rparr>)"
proof -
  obtain i where i: "subscribed i conn (bus_hub b)" and o: "c_open c" using assms(2,4) by (auto simp: listening_def)
  let ?subs = "subscribers (bus_hub b)"
  have m: "map_of ?subs i = Some conn" "gomap ?subs" "distinct (map snd ?subs)" using i by (simp_all add: subscribed_def)
  have u: "\<forall>x \<in> set ?subs. fst x = i \<longrightarrow> snd x = conn" using m(1,2) unfolding gomap_def by (metis map_of_is_SomeI option.inject prod.collapse)
  have "conn \<in> snd ` set ?subs" using map_of_SomeD [OF m(1)] by force
  then show ?thesis
    using notify_all_conn [OF assms(1) m(3) assms(4) o] notify_all_subscribed [OF assms(1) u assms(4) o i] assms(3) o
    by (auto simp: Broadcast_def broadcast_loop_fold listening_def)
qed

section \<open>Commits\<close>

lemma view_WithTx_error:
  assumes "\<not> inTx s" "view_WithTx now fo fn s = (Inl e, s')"
  shows "s' = s"
proof -
  have w: "s2 = s1" if "WithTx m s1 = (Inl e, s2)" "\<not> inTx s1" for m :: "(FakeStore, 'a) op" and s1 s2
    using that by (auto simp: WithTx_def split: prod.splits sum.splits)
  show ?thesis
  proof (cases fo)
    case (Some f)
    then show ?thesis using assms validate_cases [of now f s] by (auto simp: view_WithTx_def fenced_WithTx_def dest: w)
  qed (use assms w in \<open>auto simp: view_WithTx_def\<close>)
qed

text \<open>The commits of a sink on the store alone: the notifications of those that succeed.\<close>

fun committed :: "EventSink \<Rightarrow> (clock \<times> EventMutation) list \<Rightarrow> FakeStore \<Rightarrow> EventNotification list \<times> FakeStore" where
  "committed k [] s = ([], s)"
| "committed k ((now, m) # ms) s =
     (case view_WithTx now (sk_store k) (commit_body k m) s of
        (Inl e, s') \<Rightarrow> committed k ms s'
      | (Inr n, s') \<Rightarrow> apfst ((#) n) (committed k ms s'))"

definition run_commits :: "EventSink \<Rightarrow> (clock \<times> EventMutation) list \<Rightarrow> FakeStore \<times> Bus \<Rightarrow> FakeStore \<times> Bus" where
  "run_commits k ms sb = fold (\<lambda>(now, m) sb. snd (sink_Commit now k m sb)) ms sb"

definition sent_lines :: "EventNotification list \<Rightarrow> string list" where
  "sent_lines ns = map (\<lambda>n. case EncodeNotification (en_Method n) (en_Params n) of Inr line \<Rightarrow> line | Inl _ \<Rightarrow> [])
     (filter (\<lambda>n. en_Method n \<noteq> '''') ns)"

definition sendable :: "EventNotification \<Rightarrow> bool" where
  "sendable n \<longleftrightarrow> en_Method n = '''' \<or> (\<exists>line. EncodeNotification (en_Method n) (en_Params n) = Inr line)"

lemma commits_refine:
  assumes "sk_hub k" "sk_AfterCommit k = None" "list_all sendable (fst (committed k ms s))" "listening conn b" "map_of (bus_conns b) conn = Some c"
  shows "fst (run_commits k ms (s, b)) = snd (committed k ms s) \<and>
    map_of (bus_conns (snd (run_commits k ms (s, b)))) conn = Some (c\<lparr>c_lines := c_lines c @ sent_lines (fst (committed k ms s))\<rparr>)"
  using assms(3-)
proof (induction ms arbitrary: s b c)
  case (Cons x ms)
  obtain now m where x: "x = (now, m)" by fastforce
  obtain r s1 where t: "view_WithTx now (sk_store k) (commit_body k m) s = (r, s1)" by fastforce
  show ?case
  proof (cases r)
    case (Inl e)
    then have "snd (sink_Commit now k m (s, b)) = (s1, b)" using t by (simp add: sink_Commit_def)
    then show ?thesis using Cons Inl t by (simp add: run_commits_def x)
  next
    case (Inr n)
    let ?b = "if en_Method n = '''' then b else Broadcast (en_Method n) (en_Params n) b"
    have c: "snd (sink_Commit now k m (s, b)) = (s1, ?b)" using t Inr assms(1,2) by (simp add: sink_Commit_def)
    have s: "sendable n" "list_all sendable (fst (committed k ms s1))" using Cons.prems(1) Inr t by (simp_all add: x)
    show ?thesis
    proof (cases "en_Method n = ''''")
      case True
      then show ?thesis using Cons.IH [OF s(2) Cons.prems(2,3)] c Inr t by (simp add: run_commits_def x sent_lines_def)
    next
      case False
      then obtain line where l: "EncodeNotification (en_Method n) (en_Params n) = Inr line" using s(1) by (auto simp: sendable_def)
      note B = Broadcast_listening [OF l Cons.prems(2) False Cons.prems(3)]
      show ?thesis using Cons.IH [OF s(2) B [THEN conjunct1] B [THEN conjunct2]] c Inr t False l
        by (simp add: run_commits_def x sent_lines_def)
    qed
  qed
qed (simp add: run_commits_def sent_lines_def)

section \<open>Properties\<close>

text \<open>C13. Notifications follow their transactions. A commit that fails before it is visible leaves the
  store as it was and sends nothing; over any sequence of commits the store is the one the
  transactions produce, and a connection that stays open and subscribed receives exactly one line
  for every committed notification, in the order of the commits, each of which decodes to its
  method and parameters.\<close>

theorem notifications_follow_commits:
  assumes "sk_hub k" "sk_AfterCommit k = None" "listening conn b" "map_of (bus_conns b) conn = Some c" "\<not> inTx s"
    "committed k ms s = (ns, s')"
    "\<forall>n \<in> set ns. en_Method n \<noteq> '''' \<and> param_fits (en_Params n) \<and> (\<exists>line. EncodeNotification (en_Method n) (en_Params n) = Inr line)"
  shows "(\<forall>now m e s1 b1. sink_Commit now k m (s, b) = (Some e, s1, b1) \<longrightarrow> s1 = s \<and> b1 = b) \<and>
    fst (run_commits k ms (s, b)) = s' \<and>
    (\<exists>lines. map_of (bus_conns (snd (run_commits k ms (s, b)))) conn = Some (c\<lparr>c_lines := c_lines c @ lines\<rparr>) \<and>
       map (\<lambda>l. fst (DecodeMessage l)) lines =
         map (\<lambda>n. Inr (blank_message\<lparr>msg_Method := utf8 (en_Method n), msg_Params := param_text (en_Params n)\<rparr>)) ns)"
proof -
  have "list_all sendable (fst (committed k ms s))" using assms(6,7) by (auto simp: list_all_iff sendable_def)
  note r = commits_refine [OF assms(1,2) this assms(3,4)]
  have e: "s1 = s \<and> b1 = b" if "sink_Commit now k m (s, b) = (Some e, s1, b1)" for now m e s1 b1
    using that view_WithTx_error [OF assms(5)] assms(2)
    by (auto simp: sink_Commit_def split: prod.splits sum.splits if_splits)
  have "filter (\<lambda>n. en_Method n \<noteq> '''') ns = ns" using assms(7) by (simp add: filter_id_conv)
  then have "map (\<lambda>l. fst (DecodeMessage l)) (sent_lines ns) =
      map (\<lambda>n. Inr (blank_message\<lparr>msg_Method := utf8 (en_Method n), msg_Params := param_text (en_Params n)\<rparr>)) ns"
    using assms(7) EncodeNotification_decoded [where rest = "[]"] by (force simp: sent_lines_def)
  with r e assms(6) show ?thesis by auto
qed

definition demo_bus :: Bus where
  "demo_bus = \<lparr>bus_hub = snd (Subscribe 0 NewHub), bus_conns = [(0, \<lparr>c_open = True, c_lines = []\<rparr>)]\<rparr>"

definition demo_commit :: EventMutation where
  "demo_commit tx = op_bind (projects_Create 0 ''p'' ''/r'') (\<lambda>_. op_return \<lparr>en_Method = ''m'', en_Params = None\<rparr>)"

theorem notifications_follow_commits_witness:
  "\<exists>lines. map_of (bus_conns (snd (run_commits (NewEventSink None True) [(0, demo_commit), (1, demo_commit)] (NewFakeStore, demo_bus)))) 0 =
     Some \<lparr>c_open = True, c_lines = lines\<rparr> \<and>
     map (\<lambda>l. fst (DecodeMessage l)) lines = [Inr (blank_message\<lparr>msg_Method := utf8 ''m'', msg_Params := param_text None\<rparr>)]"
proof -
  let ?k = "NewEventSink None True" and ?ms = "[(0, demo_commit), (1, demo_commit)]" and ?n = "\<lparr>en_Method = ''m'', en_Params = None\<rparr>"
  have "fst (committed ?k ?ms NewFakeStore) = [?n]" by code_simp
  then obtain s' where c: "committed ?k ?ms NewFakeStore = ([?n], s')" by (metis prod.collapse)
  have l: "\<exists>line. EncodeNotification ''m'' None = Inr line"
    by (simp add: EncodeNotification_def encodeAndWrite_def omitempty_def json_string_def json_ascii_def MaxMessageSize_def byte_def)
  have b: "listening 0 demo_bus" "map_of (bus_conns demo_bus) 0 = Some \<lparr>c_open = True, c_lines = []\<rparr>"
    by (auto simp: listening_def subscribed_def demo_bus_def Subscribe_def NewHub_def gomap_def Let_def)
  have k: "sk_hub ?k" "sk_AfterCommit ?k = None" "\<not> inTx NewFakeStore" by (simp_all add: NewEventSink_def NewFakeStore_def)
  have n: "\<forall>n \<in> set [?n]. en_Method n \<noteq> '''' \<and> param_fits (en_Params n) \<and> (\<exists>line. EncodeNotification (en_Method n) (en_Params n) = Inr line)"
    using l by (simp add: param_fits_def)
  from notifications_follow_commits [OF k(1,2) b k(3) c n] show ?thesis by simp
qed

end
