(* ===== verification/Capture.thy ===== *)
theory Capture
  imports Prelude
begin

text \<open>
  \<^verbatim>\<open>internal/limits/capture.go\<close>: the writers that keep at most 2 MiB of the output of a command.
  The two writers of a command share one budget; a writer and its budget are passed explicitly.
\<close>

definition CommandOutputTotalCaptureLimit :: int where
  "CommandOutputTotalCaptureLimit = 2 * 1024 * 1024"

definition AdapterEventRetentionLimit :: int where
  "AdapterEventRetentionLimit = 12 * 1024 * 1024"

definition outputTruncationNotice :: string where
  "outputTruncationNotice = newline @ ''[output truncated: capture limit exceeded]''"

record captureBudget =
  remaining :: int

record CaptureWriter =
  buf :: string
  truncated :: bool

definition reserve :: "captureBudget \<Rightarrow> int \<Rightarrow> int \<times> captureBudget" where
  "reserve b sz =
     (if remaining b \<le> 0 then (0, b)
      else
        (let sz = (if sz > remaining b then remaining b else sz)
         in (sz, b\<lparr>remaining := remaining b - sz\<rparr>)))"

definition newCaptureWriter :: CaptureWriter where
  "newCaptureWriter = \<lparr>buf = [], truncated = False\<rparr>"

definition NewCaptureWriter :: "CaptureWriter \<times> captureBudget" where
  "NewCaptureWriter = (newCaptureWriter, \<lparr>remaining = CommandOutputTotalCaptureLimit\<rparr>)"

definition NewCaptureWriters :: "(CaptureWriter \<times> CaptureWriter) \<times> captureBudget" where
  "NewCaptureWriters = ((newCaptureWriter, newCaptureWriter), \<lparr>remaining = CommandOutputTotalCaptureLimit\<rparr>)"

definition capture_Write :: "captureBudget \<Rightarrow> CaptureWriter \<Rightarrow> string \<Rightarrow> int \<times> CaptureWriter \<times> captureBudget" where
  "capture_Write b w p =
     (if length p = 0 then (0, w, b)
      else
        (let (n, b) = reserve b (int (length p));
             w = (if n > 0 then w\<lparr>buf := buf w @ take (nat n) p\<rparr> else w);
             w = (if n \<noteq> int (length p) then w\<lparr>truncated := True\<rparr> else w)
         in (int (length p), w, b)))"

definition capture_String :: "CaptureWriter \<Rightarrow> string" where
  "capture_String w =
     (let value = buf w in
      if \<not> truncated w then value
      else if length value = 0 then ''''
      else if length value \<ge> length outputTruncationNotice
      then take (length value - length outputTruncationNotice) value @ outputTruncationNotice
      else take (length value) outputTruncationNotice)"

definition capture_Len :: "CaptureWriter \<Rightarrow> int" where
  "capture_Len w = int (length (buf w))"

section \<open>A command that writes to both streams\<close>

datatype stream = Stdout | Stderr

type_synonym capture = "(CaptureWriter \<times> CaptureWriter) \<times> captureBudget"

definition writer :: "stream \<Rightarrow> capture \<Rightarrow> CaptureWriter" where
  "writer x c = (case x of Stdout \<Rightarrow> fst (fst c) | Stderr \<Rightarrow> snd (fst c))"

fun capture_step :: "stream \<times> string \<Rightarrow> capture \<Rightarrow> capture" where
  "capture_step (Stdout, p) ((o1, e1), b) = (case capture_Write b o1 p of (n, w, b') \<Rightarrow> ((w, e1), b'))"
| "capture_step (Stderr, p) ((o1, e1), b) = (case capture_Write b e1 p of (n, w, b') \<Rightarrow> ((o1, w), b'))"

definition capture_run :: "(stream \<times> string) list \<Rightarrow> capture" where
  "capture_run ws = fold capture_step ws NewCaptureWriters"

text \<open>What a command wrote to a stream.\<close>

definition written :: "stream \<Rightarrow> (stream \<times> string) list \<Rightarrow> string" where
  "written x ws = concat (map snd (filter (\<lambda>(y, p). y = x) ws))"

text \<open>The budget is what the buffers leave of the limit; a stream that is not truncated was kept
  whole, and one that is truncated left nothing in the budget.\<close>

definition captures :: "(stream \<times> string) list \<Rightarrow> capture \<Rightarrow> bool" where
  "captures ws c \<longleftrightarrow>
     0 \<le> remaining (snd c) \<and>
     remaining (snd c) + capture_Len (writer Stdout c) + capture_Len (writer Stderr c) = CommandOutputTotalCaptureLimit \<and>
     (\<forall>x. prefix (buf (writer x c)) (written x ws)) \<and>
     (\<forall>x. if truncated (writer x c) then remaining (snd c) = 0 \<and> buf (writer x c) \<noteq> written x ws
          else buf (writer x c) = written x ws)"

lemma capture_Write_eq:
  assumes "0 \<le> remaining b"
  shows "capture_Write b w p =
    (let k = min (length p) (nat (remaining b)) in
     (int (length p), w\<lparr>buf := buf w @ take k p, truncated := truncated w \<or> k \<noteq> length p\<rparr>,
      b\<lparr>remaining := remaining b - int k\<rparr>))"
proof (cases "p = []")
  case False
  then show ?thesis using assms
    by (cases w; cases b; cases "remaining b = 0"; cases "int (length p) \<le> remaining b")
      (auto simp: capture_Write_def reserve_def min_def Let_def)
qed (simp add: capture_Write_def Let_def)

lemma written_simps [simp]:
  "written x [] = []" "written x (ws @ [(y, p)]) = written x ws @ (if y = x then p else [])"
  by (simp_all add: written_def)

lemma writer_simps [simp]:
  "writer Stdout ((a, d), b) = a" "writer Stderr ((a, d), b) = d"
  by (simp_all add: writer_def)

lemma all_streams: "(\<forall>x. P x) \<longleftrightarrow> P Stdout \<and> P Stderr"
  by (metis stream.exhaust)

lemma captures_step: "captures ws c \<Longrightarrow> captures (ws @ [(x, p)]) (capture_step (x, p) c)"
proof -
  assume c: "captures ws c"
  obtain a d b where e: "c = ((a, d), b)" by (metis prod.exhaust)
  have r: "0 \<le> remaining b" using c by (simp add: captures_def e)
  have strict: "prefix u v \<Longrightarrow> u \<noteq> v \<Longrightarrow> u \<noteq> v @ p" for u v :: string by (auto simp: prefix_def)
  show ?thesis
  proof (cases "int (length p) \<le> remaining b")
    case True
    then have k: "min (length p) (nat (remaining b)) = length p" by simp
    have "p = []" if "remaining b = 0" using that True by simp
    then show ?thesis using c r True
      by (cases x) (auto simp: captures_def e capture_Write_eq Let_def k all_streams capture_Len_def split: if_splits)
  next
    case False
    then have k: "min (length p) (nat (remaining b)) = nat (remaining b)" "nat (remaining b) < length p" using r by auto
    moreover have "p \<noteq> []" "take (nat (remaining b)) p \<noteq> p" using k(2) by (auto dest: arg_cong [of _ _ length])
    ultimately show ?thesis using c r
      by (cases x) (auto simp: captures_def e capture_Write_eq Let_def all_streams capture_Len_def take_is_prefix
        split: if_splits dest: strict intro: prefix_prefix)
  qed
qed

lemma captures_run: "captures ws (capture_run ws)"
proof (induction ws rule: rev_induct)
  case Nil
  show ?case by (simp add: capture_run_def NewCaptureWriters_def captures_def all_streams newCaptureWriter_def capture_Len_def
        CommandOutputTotalCaptureLimit_def)
next
  case (snoc w ws)
  then show ?case using captures_step by (cases w) (simp add: capture_run_def)
qed

lemma length_capture_String: "length (capture_String w) = length (buf w)"
  by (simp add: capture_String_def Let_def)

text \<open>C17. However a command interleaves its output on the two streams: every write is reported as fully
  consumed; what the two writers return together never exceeds 2 MiB; as long as the whole output
  fits, both streams are returned unchanged; a stream that lost output was kept up to a prefix of
  what was written, and its text ends with the truncation notice when the notice fits.\<close>

theorem capture_bounded:
  "let c = capture_run ws; text_of = (\<lambda>x. capture_String (writer x c)) in
   (\<forall>b w p. fst (capture_Write b w p) = int (length p)) \<and>
   int (length (text_of Stdout)) + int (length (text_of Stderr)) \<le> CommandOutputTotalCaptureLimit \<and>
   (\<forall>x. prefix (buf (writer x c)) (written x ws)) \<and>
   (int (length (written Stdout ws)) + int (length (written Stderr ws)) \<le> CommandOutputTotalCaptureLimit \<longrightarrow>
      (\<forall>x. text_of x = written x ws)) \<and>
   (\<forall>x. text_of x \<noteq> written x ws \<longrightarrow> length outputTruncationNotice \<le> length (buf (writer x c)) \<longrightarrow>
      suffix outputTruncationNotice (text_of x))"
proof -
  let ?c = "capture_run ws"
  note inv = captures_run [of ws, unfolded captures_def]
  let ?o = "writer Stdout ?c" and ?e = "writer Stderr ?c"
  have bound: "int (length (buf ?o)) + int (length (buf ?e)) + remaining (snd ?c) = CommandOutputTotalCaptureLimit"
    "0 \<le> remaining (snd ?c)" and pre: "prefix (buf (writer x ?c)) (written x ws)" for x
    using inv by (simp_all add: capture_Len_def)
  have same: "capture_String (writer x ?c) = written x ws" if "\<not> truncated (writer x ?c)" for x
    using inv that by (auto simp: capture_String_def)
  have over: "CommandOutputTotalCaptureLimit < int (length (written Stdout ws)) + int (length (written Stderr ws))"
    if t: "truncated (writer x ?c)" for x
  proof -
    have z: "remaining (snd ?c) = 0" "buf (writer x ?c) \<noteq> written x ws" using inv t by auto
    then have "length (buf (writer x ?c)) < length (written x ws)"
      using pre [of x] by (metis not_equal_is_parallel nless_le parallel_def prefix_length_le)
    moreover have "length (buf ?o) \<le> length (written Stdout ws)" "length (buf ?e) \<le> length (written Stderr ws)"
      using pre prefix_length_le by blast+
    ultimately show ?thesis using bound z by (cases x) auto
  qed
  have "suffix outputTruncationNotice (capture_String (writer x ?c))"
    if "capture_String (writer x ?c) \<noteq> written x ws" "length outputTruncationNotice \<le> length (buf (writer x ?c))" for x
  proof -
    have "truncated (writer x ?c)" "buf (writer x ?c) \<noteq> []"
      using that same [of x] by (auto simp: outputTruncationNotice_def newline_def)
    then show ?thesis using that(2) by (simp add: capture_String_def Let_def suffix_def)
  qed
  moreover have "fst (capture_Write b w p) = int (length p)" for b w p
    by (simp add: capture_Write_def split_def Let_def)
  ultimately show ?thesis
    using bound pre same over by (auto simp: Let_def length_capture_String) (meson linorder_not_less)
qed

theorem capture_bounded_witness:
  "capture_String (writer Stderr (capture_run [(Stdout, ''ok''), (Stderr, ''no'')])) = ''no''"
  using capture_bounded [of "[(Stdout, ''ok''), (Stderr, ''no'')]"]
  by (simp add: Let_def written_def CommandOutputTotalCaptureLimit_def)

end
