(* ===== verification/Harness.thy ===== *)
theory Harness
  imports Jsonrpc Adapter Capture
begin

text \<open>
  What the two harness adapters of \<^verbatim>\<open>internal/adapter/claude\<close> and \<^verbatim>\<open>internal/adapter/opencode\<close>
  share: \<^verbatim>\<open>encoding/json\<close> decoding into structs, the loop over a stream of JSON lines with
  its limits, the emission of session events, and the launch of a harness process. The process
  itself, its environment and the file system are a parameter.
\<close>

section \<open>Decoding into structs\<close>

text \<open>A decoder assigns a value onto the old content of a field; \<open>None\<close> is a value of the wrong
  type. \<^verbatim>\<open>null\<close> leaves strings, booleans and structs alone and clears pointers and slices.\<close>

type_synonym 'a decoder = "json \<Rightarrow> 'a \<Rightarrow> 'a option"

definition into_string :: "string decoder" where
  "into_string v old = (case v of JStr s \<Rightarrow> Some s | JNull \<Rightarrow> Some old | _ \<Rightarrow> None)"

definition into_bool :: "bool decoder" where
  "into_bool v old = (case v of JBool b \<Rightarrow> Some b | JNull \<Rightarrow> Some old | _ \<Rightarrow> None)"

definition into_int :: "int decoder" where
  "into_int v old = (case v of JNum s \<Rightarrow> parse_int64 s | JNull \<Rightarrow> Some old | _ \<Rightarrow> None)"

definition into_raw :: "json option decoder" where
  "into_raw v old = Some (Some v)"

definition into_ptr :: "'a \<Rightarrow> 'a decoder \<Rightarrow> 'a option decoder" where
  "into_ptr zero dec v old =
     (case v of JNull \<Rightarrow> Some None | _ \<Rightarrow> map_option Some (dec v (case old of None \<Rightarrow> zero | Some x \<Rightarrow> x)))"

definition into_struct :: "(string \<times> 'r decoder) list \<Rightarrow> 'r decoder" where
  "into_struct flds v old =
     (case v of
        JObj kvs \<Rightarrow>
          fold (\<lambda>(k, v) acc.
            case acc of None \<Rightarrow> None
            | Some r \<Rightarrow> (case match_field (map fst flds) k of
                None \<Rightarrow> Some r
              | Some f \<Rightarrow> (case map_of flds f of None \<Rightarrow> Some r | Some dec \<Rightarrow> dec v r))) kvs (Some old)
      | JNull \<Rightarrow> Some old
      | _ \<Rightarrow> None)"

text \<open>A field of a struct, given by its selector and its update.\<close>

definition at_field :: "('r \<Rightarrow> 'a) \<Rightarrow> (('a \<Rightarrow> 'a) \<Rightarrow> 'r \<Rightarrow> 'r) \<Rightarrow> 'a decoder \<Rightarrow> 'r decoder" where
  "at_field get upd dec v r = map_option (\<lambda>x. upd (\<lambda>_. x) r) (dec v (get r))"

text \<open>A slice: the array behind it, and how much of it is in use. The elements of a new array are
  decoded onto those that are there; an empty array starts afresh.\<close>

record 'a slice =
  sl_array :: "'a list"
  sl_len :: nat

definition sl_elems :: "'a slice \<Rightarrow> 'a list" where
  "sl_elems s = take (sl_len s) (sl_array s)"

definition no_slice :: "'a slice" where
  "no_slice = \<lparr>sl_array = [], sl_len = 0\<rparr>"

fun into_elems :: "'a \<Rightarrow> 'a decoder \<Rightarrow> json list \<Rightarrow> 'a list \<Rightarrow> 'a list option" where
  "into_elems zero dec [] olds = Some olds"
| "into_elems zero dec (v # vs) olds =
     (case (dec v (case olds of [] \<Rightarrow> zero | x # _ \<Rightarrow> x), into_elems zero dec vs (drop 1 olds)) of
        (Some y, Some ys) \<Rightarrow> Some (y # ys)
      | _ \<Rightarrow> None)"

definition into_slice :: "'a \<Rightarrow> 'a decoder \<Rightarrow> 'a slice decoder" where
  "into_slice zero dec v old =
     (case v of
        JArr [] \<Rightarrow> Some no_slice
      | JArr vs \<Rightarrow> map_option (\<lambda>xs. \<lparr>sl_array = xs, sl_len = length vs\<rparr>) (into_elems zero dec vs (sl_array old))
      | JNull \<Rightarrow> Some no_slice
      | _ \<Rightarrow> None)"

text \<open>\<^verbatim>\<open>json.Decoder.Decode\<close> of the first value of a line; what follows it is not read.\<close>

definition decode_frame :: "'r decoder \<Rightarrow> 'r \<Rightarrow> string \<Rightarrow> 'r option" where
  "decode_frame dec zero line =
     (case json_value (2 * length line + 2) 10000 line of None \<Rightarrow> None | Some (v, _) \<Rightarrow> dec v zero)"

section \<open>Streams of frames\<close>

text \<open>\<^verbatim>\<open>bufio.Scanner\<close> over lines with a buffer of one byte more than the limit: a line above the limit does
  not fit. The stream delivers bytes and then ends, or fails with a read error.\<close>

definition too_long_line :: goerr where
  "too_long_line = errorf (''message too large: line exceeds '' @ itoa (int MaxMessageSize) @ '' bytes'')"

definition too_large_frame :: "nat \<Rightarrow> goerr" where
  "too_large_frame n = errorf (''message too large: '' @ itoa (int n) @ '' > '' @ itoa (int MaxMessageSize))"

definition retention_exceeded :: "int \<Rightarrow> goerr" where
  "retention_exceeded n = errorf (''event retention limit exceeded: '' @ itoa n @ '' > '' @ itoa AdapterEventRetentionLimit)"

definition first_line :: "string \<Rightarrow> string" where
  "first_line s = takeWhile (\<lambda>b. b \<noteq> CHR 0x0A) s"

definition after_line :: "string \<Rightarrow> string" where
  "after_line s = drop (Suc (length (first_line s))) s"

function parse_stream :: "(string \<Rightarrow> goerr + 'e) \<Rightarrow> goerr option \<Rightarrow> string \<Rightarrow> int \<Rightarrow> 'e list \<times> goerr option" where
  "parse_stream dec rerr s retained =
     (if s = [] then ([], map_option (wrap_err ''read'') rerr)
      else if length (first_line s) > MaxMessageSize then ([], Some too_long_line)
      else
        (let trimmed = TrimSpace (first_line s); n = retained + int (length trimmed) in
         if trimmed = [] then parse_stream dec rerr (after_line s) retained
         else if length trimmed > MaxMessageSize then ([], Some (too_large_frame (length trimmed)))
         else if n > AdapterEventRetentionLimit then ([], Some (retention_exceeded n))
         else
           (case dec trimmed of
              Inl e \<Rightarrow> ([], Some e)
            | Inr ev \<Rightarrow> (case parse_stream dec rerr (after_line s) n of (evs, err) \<Rightarrow> (ev # evs, err)))))"
  by pat_completeness auto

lemma after_line_shorter: "s \<noteq> [] \<Longrightarrow> length (after_line s) < length s"
  by (cases s) (auto simp: after_line_def)

termination parse_stream
  by (relation "measure (\<lambda>(dec, rerr, s, n). length s)") (auto simp: after_line_shorter)

declare parse_stream.simps [simp del]

text \<open>The frames of a stream: its lines without surrounding space, empty ones left out.\<close>

definition frames :: "string \<Rightarrow> string list" where
  "frames s = filter (\<lambda>l. l \<noteq> []) (map TrimSpace (split_on (CHR 0x0A) s))"

lemma split_on_first: "split_on c s = takeWhile (\<lambda>b. b \<noteq> c) s #
    (if c \<in> set s then split_on c (drop (Suc (length (takeWhile (\<lambda>b. b \<noteq> c) s))) s) else [])"
  by (induction s) auto

lemma frames_Nil: "frames [] = []"
  by (simp add: frames_def TrimSpace_def)

lemma last_line: "CHR 0x0A \<notin> set s \<Longrightarrow> after_line s = []"
proof -
  assume "CHR 0x0A \<notin> set s"
  then have "first_line s = s" unfolding first_line_def by (subst takeWhile_eq_all_conv) metis
  then show ?thesis by (simp add: after_line_def)
qed

lemma frames_step: "frames s = (if TrimSpace (first_line s) = [] then [] else [TrimSpace (first_line s)]) @ frames (after_line s)"
proof (cases "CHR 0x0A \<in> set s")
  case True
  then have "split_on (CHR 0x0A) s = first_line s # split_on (CHR 0x0A) (after_line s)"
    by (subst split_on_first) (simp only: first_line_def after_line_def if_True)
  then show ?thesis by (simp only: frames_def list.map filter.simps) simp
next
  case False
  then have "split_on (CHR 0x0A) s = [first_line s]" by (subst split_on_first) (simp only: first_line_def if_False)
  then show ?thesis unfolding last_line [OF False] frames_Nil by (simp only: frames_def list.map filter.simps) simp
qed

lemma lines_short:
  assumes "\<not> length (first_line s) > MaxMessageSize" "\<forall>l \<in> set (split_on (CHR 0x0A) (after_line s)). length l \<le> MaxMessageSize"
  shows "\<forall>l \<in> set (split_on (CHR 0x0A) s). length l \<le> MaxMessageSize"
  using assms split_on_first [of "CHR 0x0A" s] by (auto simp: first_line_def after_line_def split: if_splits)

lemma parse_stream_sound:
  assumes "parse_stream dec rerr s retained = (evs, err)" "retained \<le> AdapterEventRetentionLimit"
  shows "\<exists>fs. prefix fs (frames s) \<and> map dec fs = map Inr evs \<and> (\<forall>f \<in> set fs. f \<noteq> [] \<and> length f \<le> MaxMessageSize) \<and>
    retained + sum_list (map (\<lambda>f. int (length f)) fs) \<le> AdapterEventRetentionLimit \<and> 
    (err = None \<longrightarrow> fs = frames s \<and> rerr = None \<and> (\<forall>l \<in> set (split_on (CHR 0x0A) s). length l \<le> MaxMessageSize))"
  using assms
proof (induction dec rerr s retained arbitrary: evs err rule: parse_stream.induct)
  case (1 dec rerr s retained)
  let ?t = "TrimSpace (first_line s)" and ?n = "retained + int (length (TrimSpace (first_line s)))"
  note eq = parse_stream.simps [of dec rerr s retained]
  show ?case
  proof (cases "s = []")
    case True
    then show ?thesis using 1(3,4) parse_stream.simps [of dec rerr "[]" retained] by (auto simp: frames_Nil)
  next
    case ne: False
    note step = frames_step [of s]
    show ?thesis
    proof (cases "length (first_line s) > MaxMessageSize")
      case True
      then show ?thesis using 1(3) ne 1(4) by (auto simp: eq)
    next
      case short: False
      show ?thesis
      proof (cases "?t = []")
        case True
        then have "parse_stream dec rerr (after_line s) retained = (evs, err)" using 1(3) ne short by (simp add: eq Let_def)
        from 1(1) [OF ne short refl refl True this 1(4)] show ?thesis using step True lines_short [OF short] by fastforce
      next
        case t: False
        show ?thesis
        proof (cases "length ?t > MaxMessageSize \<or> ?n > AdapterEventRetentionLimit \<or> (\<exists>e. dec ?t = Inl e)")
          case True
          then show ?thesis using 1(3,4) ne short t by (auto simp: eq Let_def split: if_splits)
        next
          case ok: False
          then obtain ev where ev: "dec ?t = Inr ev" by (cases "dec ?t") auto
          obtain evs' err' where r: "parse_stream dec rerr (after_line s) ?n = (evs', err')" by fastforce
          have res: "evs = ev # evs'" "err = err'" using 1(3) ne short t ok ev r by (auto simp: eq Let_def)
          have le: "\<not> length ?t > MaxMessageSize" "\<not> ?n > AdapterEventRetentionLimit" using ok by auto
          obtain fs where fs: "prefix fs (frames (after_line s))" "map dec fs = map Inr evs'" "\<forall>f \<in> set fs. f \<noteq> [] \<and> length f \<le> MaxMessageSize"
            "?n + sum_list (map (\<lambda>f. int (length f)) fs) \<le> AdapterEventRetentionLimit" 
            "err' = None \<longrightarrow> fs = frames (after_line s) \<and> rerr = None \<and> (\<forall>l \<in> set (split_on (CHR 0x0A) (after_line s)). length l \<le> MaxMessageSize)"
            using 1(2) [OF ne short refl refl t le(1) le(2) ev r] le(2) by auto
          show ?thesis using fs ev t le res by (intro exI [of _ "?t # fs"]) (auto simp: step dest: lines_short [OF short])
        qed
      qed
    qed
  qed
qed

lemma parse_stream_complete:
  assumes "\<forall>l \<in> set (split_on (CHR 0x0A) s). length l \<le> MaxMessageSize" "list_all2 (\<lambda>f ev. dec f = Inr ev) (frames s) evs"
    "\<forall>f \<in> set (frames s). length f \<le> MaxMessageSize"
    "retained + sum_list (map (\<lambda>f. int (length f)) (frames s)) \<le> AdapterEventRetentionLimit"
  shows "parse_stream dec rerr s retained = (evs, map_option (wrap_err ''read'') rerr)"
  using assms
proof (induction dec rerr s retained arbitrary: evs rule: parse_stream.induct)
  case (1 dec rerr s retained)
  let ?t = "TrimSpace (first_line s)" and ?n = "retained + int (length (TrimSpace (first_line s)))"
  note eq = parse_stream.simps [of dec rerr s retained]
  show ?case
  proof (cases "s = []")
    case True
    then show ?thesis using 1(4) parse_stream.simps [of dec rerr "[]" retained] by (simp add: frames_Nil)
  next
    case ne: False
    note step = frames_step [of s]
    have short: "\<not> length (first_line s) > MaxMessageSize"
      using 1(3) split_on_first [of "CHR 0x0A" s] by (auto simp: first_line_def)
    have lines: "\<forall>l \<in> set (split_on (CHR 0x0A) (after_line s)). length l \<le> MaxMessageSize"
      using 1(3) split_on_first [of "CHR 0x0A" s] last_line [of s]
      by (cases "CHR 0x0A \<in> set s") (auto simp: first_line_def after_line_def)
    show ?thesis
    proof (cases "?t = []")
      case True
      have "parse_stream dec rerr (after_line s) retained = (evs, map_option (wrap_err ''read'') rerr)"
        using 1(4-6) step True by (intro 1(1) [OF ne short refl refl True lines]) simp_all
      then show ?thesis using ne short True by (simp add: eq Let_def)
    next
      case t: False
      then have fr: "frames s = ?t # frames (after_line s)" using step by simp
      have nonneg: "0 \<le> sum_list (map (\<lambda>f. int (length f)) (frames (after_line s)))" by (intro sum_list_nonneg) auto
      obtain ev evs' where ev: "evs = ev # evs'" "dec ?t = Inr ev" "list_all2 (\<lambda>f ev. dec f = Inr ev) (frames (after_line s)) evs'"
        using 1(4) by (auto simp: fr list_all2_Cons1)
      have ok: "\<not> length ?t > MaxMessageSize" "\<not> ?n > AdapterEventRetentionLimit" using 1(5,6) nonneg by (simp_all add: fr)
      have "parse_stream dec rerr (after_line s) ?n = (evs', map_option (wrap_err ''read'') rerr)"
        using 1(5,6) ev(3) by (intro 1(2) [OF ne short refl refl t ok ev(2) lines]) (simp_all add: fr)
      then show ?thesis using ne short t ok ev by (simp add: eq Let_def)
    qed
  qed
qed

section \<open>Session events\<close>

text \<open>The local variables of \<^verbatim>\<open>consume\<close>: the cursor, the events sent so far, whether text was seen and the
  failure the harness declared.\<close>

record emission =
  em_cursor :: int
  em_events :: "SessionEvent list"
  em_sawText :: bool
  em_failMsg :: string

definition no_emission :: emission where
  "no_emission = \<lparr>em_cursor = 0, em_events = [], em_sawText = False, em_failMsg = ''''\<rparr>"

definition emit :: "string \<Rightarrow> string \<Rightarrow> emission \<Rightarrow> emission" where
  "emit evType payload em =
     (let c = em_cursor em + 1 in
      em\<lparr>em_cursor := c, em_events := em_events em @ [\<lparr>sv_Cursor = c, sv_Type = evType, sv_Payload = payload\<rparr>]\<rparr>)"

definition emit_text :: "string \<Rightarrow> emission \<Rightarrow> emission" where
  "emit_text t em = emit ''output_delta'' t (em\<lparr>em_sawText := True\<rparr>)"

definition declare_failure :: "string \<Rightarrow> emission \<Rightarrow> emission" where
  "declare_failure msg em = (if em_failMsg em = '''' then em\<lparr>em_failMsg := msg\<rparr> else em)"

text \<open>\<^verbatim>\<open>time.Duration.String\<close> of a duration that is not negative.\<close>

definition zero_pad :: "nat \<Rightarrow> nat \<Rightarrow> string" where
  "zero_pad w n = replicate (w - length (itoa_nat n)) (CHR ''0'') @ itoa_nat n"

definition frac_text :: "nat \<Rightarrow> nat \<Rightarrow> string" where
  "frac_text w n =
     (let ds = rev (dropWhile (\<lambda>c. c = CHR ''0'') (rev (zero_pad w n))) in if n = 0 then '''' else CHR ''.'' # ds)"

definition Duration_String :: "int \<Rightarrow> string" where
  "Duration_String d =
     (let u = nat d in
      if u = 0 then ''0s''
      else if u < 1000 then itoa_nat u @ ''ns''
      else if u < 1000000 then itoa_nat (u div 1000) @ frac_text 3 (u mod 1000) @ [CHR 0xC2, CHR 0xB5, CHR ''s'']
      else if u < 1000000000 then itoa_nat (u div 1000000) @ frac_text 6 (u mod 1000000) @ ''ms''
      else
        (let secs = u div 1000000000; mins = secs div 60; hours = mins div 60;
             tail = itoa_nat (secs mod 60) @ frac_text 9 (u mod 1000000000) @ ''s'' in
         if mins = 0 then tail
         else if hours = 0 then itoa_nat mins @ ''m'' @ tail
         else itoa_nat hours @ ''h'' @ itoa_nat (mins mod 60) @ ''m'' @ tail))"

text \<open>What a started process leaves: its output and how reading it ended, its exit, whether the deadline of the
  session had passed, and the writes to its error stream.\<close>

record run_output =
  ro_stdout :: string
  ro_readErr :: "goerr option"
  ro_waitErr :: "goerr option"
  ro_timedOut :: bool
  ro_stderr :: "string list"

definition captured :: "string list \<Rightarrow> CaptureWriter" where
  "captured chunks = fst (fold (\<lambda>p (w, b). snd (capture_Write b w p)) chunks NewCaptureWriter)"

text \<open>The \<^verbatim>\<open>switch\<close> at the end of \<^verbatim>\<open>consume\<close>, the same in both adapters.\<close>

definition conclude_session :: "int \<Rightarrow> goerr option \<Rightarrow> run_output \<Rightarrow> emission \<Rightarrow> emission" where
  "conclude_session timeout perr out em =
     (case perr of
        Some e \<Rightarrow> emit ''failed'' (''protocol error: '' @ err_msg e) em
      | None \<Rightarrow>
          if ro_timedOut out then emit ''failed'' (''timeout: session exceeded '' @ Duration_String timeout) em
          else if em_failMsg em \<noteq> '''' then emit ''failed'' (em_failMsg em) em
          else if ro_waitErr out \<noteq> None \<and> \<not> em_sawText em then
            (let msg = err_msg (the (ro_waitErr out)); w = captured (ro_stderr out) in
             emit ''failed'' (if capture_Len w > 0 then msg @ '': '' @ capture_String w else msg) em)
          else if \<not> em_sawText em then emit ''failed'' ''no output: session ended without text events'' em
          else emit ''completed'' '''' em)"

section \<open>Sessions\<close>

text \<open>The operating system as an adapter sees it. \<open>os_mode\<close> is a file's kind and permission bits, \<open>os_head\<close> its
  first four bytes; a run gets its argument vector, directory, environment (\<open>None\<close> is inherited),
  standard input and timeout.\<close>

datatype run_result = NoStdin goerr | NoStdout goerr | NotStarted goerr | PromptNotWritten goerr | PromptNotClosed goerr | Ran run_output

record 'w harness_os =
  os_getenv :: "string \<Rightarrow> string"
  os_Environ :: "string list"
  os_LookPath :: "string \<Rightarrow> 'w \<Rightarrow> string option"
  os_mode :: "string \<Rightarrow> 'w \<Rightarrow> (bool \<times> nat) option"
  os_head :: "string \<Rightarrow> 'w \<Rightarrow> string option"
  os_exists :: "string \<Rightarrow> 'w \<Rightarrow> goerr option"
  os_run :: "string list \<Rightarrow> string \<Rightarrow> (string, string) gomap option \<Rightarrow> string \<Rightarrow> int \<Rightarrow> 'w \<Rightarrow> run_result \<times> 'w"
  os_jsonerr :: "string \<Rightarrow> goerr"

definition ELF_magic :: string where
  "ELF_magic = [CHR 0x7F, CHR ''E'', CHR ''L'', CHR ''F'']"

text \<open>\<^verbatim>\<open>Perm() & 0o111\<close>\<close>

definition executable_bits :: "nat \<Rightarrow> bool" where
  "executable_bits m \<longleftrightarrow> odd m \<or> odd (m div 8) \<or> odd (m div 64)"

definition isExecutableProgram :: "'w harness_os \<Rightarrow> string \<Rightarrow> 'w \<Rightarrow> bool" where
  "isExecutableProgram os path w =
     (case os_mode os path w of
        None \<Rightarrow> False
      | Some (regular, perm) \<Rightarrow>
          if \<not> regular \<or> \<not> executable_bits perm then False
          else (case os_head os path w of
                  None \<Rightarrow> False
                | Some h \<Rightarrow> if prefix ELF_magic h then True else prefix ''#!'' h))"

record harness_Adapter =
  ha_binary :: string
  ha_env :: "(string, string) gomap"
  ha_timeout :: int
  ha_neg :: Capabilities
  ha_initd :: bool

definition DefaultTimeout :: int where
  "DefaultTimeout = 300 * second"

definition harness_NewAdapter :: "string \<Rightarrow> (string, string) gomap \<Rightarrow> int \<Rightarrow> harness_Adapter" where
  "harness_NewAdapter binary env timeout =
     \<lparr>ha_binary = binary, ha_env = env, ha_timeout = (if timeout \<le> 0 then DefaultTimeout else timeout),
      ha_neg = zero_Capabilities, ha_initd = False\<rparr>"

definition harness_Initialize :: "Capabilities \<Rightarrow> Capabilities \<Rightarrow> harness_Adapter \<Rightarrow> (goerr + Capabilities) \<times> harness_Adapter" where
  "harness_Initialize offered core a =
     (case Negotiate core offered of
        Inl e \<Rightarrow> (Inl e, a)
      | Inr neg \<Rightarrow> (Inr neg, a\<lparr>ha_neg := neg, ha_initd := True\<rparr>))"

text \<open>The environment of a run: the inherited one with the overlay of the configuration on top.\<close>

definition split_env :: "string \<Rightarrow> (string \<times> string) option" where
  "split_env kv =
     (let k = takeWhile (\<lambda>c. c \<noteq> CHR ''='') kv in if length k < length kv then Some (k, drop (Suc (length k)) kv) else None)"

definition overlay_env :: "string list \<Rightarrow> (string, string) gomap \<Rightarrow> (string, string) gomap option" where
  "overlay_env environ env =
     (if env = [] then None
      else Some (put_all env (fold (\<lambda>kv m. case split_env kv of None \<Rightarrow> m | Some (k, v) \<Rightarrow> AList.update k v m) environ [])))"

text \<open>A session: whether its process started, whether its completion signal is closed, whether it was
  cancelled, how often the process was killed, and the identity the harness reported.\<close>

record session =
  ss_proc :: bool
  ss_done :: bool
  ss_cancelled :: bool
  ss_kills :: nat
  ss_nativeID :: string

definition new_harness_session :: session where
  "new_harness_session = \<lparr>ss_proc = False, ss_done = False, ss_cancelled = False, ss_kills = 0, ss_nativeID = ''''\<rparr>"

definition settleDone :: "session \<Rightarrow> session" where
  "settleDone s = s\<lparr>ss_done := True\<rparr>"

text \<open>\<^verbatim>\<open>Prompt\<close> up to the start of the goroutine that consumes the output.\<close>

definition prompt_launch :: "string \<Rightarrow> run_result \<Rightarrow> session \<Rightarrow> (goerr + run_output) \<times> session" where
  "prompt_launch binary r s =
     (case r of
        NoStdin e \<Rightarrow> (Inl (wrap_err ''stdin pipe'' e), settleDone s)
      | NoStdout e \<Rightarrow> (Inl (wrap_err ''stdout pipe'' e), settleDone s)
      | NotStarted e \<Rightarrow> (Inl (wrap_err (''launch '' @ binary) e), settleDone s)
      | PromptNotWritten e \<Rightarrow> (Inl (wrap_err ''write prompt'' e), settleDone (s\<lparr>ss_proc := True\<rparr>))
      | PromptNotClosed e \<Rightarrow> (Inl (wrap_err ''close prompt'' e), settleDone (s\<lparr>ss_proc := True\<rparr>))
      | Ran out \<Rightarrow> (Inr out, s\<lparr>ss_proc := True\<rparr>))"

definition capture_native :: "string \<Rightarrow> session \<Rightarrow> session" where
  "capture_native native s = (if native \<noteq> '''' \<and> ss_nativeID s = '''' then s\<lparr>ss_nativeID := native\<rparr> else s)"

text \<open>\<^verbatim>\<open>Cancel\<close>: the process is killed the first time; then the call waits for the completion signal or its own
  context. The result is \<open>None\<close> while it waits.\<close>

definition cancel_kill :: "session \<Rightarrow> session" where
  "cancel_kill s = (if ss_cancelled s then s else s\<lparr>ss_cancelled := True, ss_kills := ss_kills s + (if ss_proc s then 1 else 0)\<rparr>)"

definition session_Cancel :: "bool \<Rightarrow> goerr option \<Rightarrow> session \<Rightarrow> goerr option option \<times> session" where
  "session_Cancel prefer_done ctxErr s =
     (let s = cancel_kill s in
      (case (ss_done s, ctxErr) of
         (False, None) \<Rightarrow> None
       | (False, Some e) \<Rightarrow> Some (Some e)
       | (True, None) \<Rightarrow> Some None
       | (True, Some e) \<Rightarrow> Some (if prefer_done then None else Some e), s))"

definition SessionTransport_of :: "string \<Rightarrow> harness_Adapter \<Rightarrow> session \<Rightarrow> SessionTransport option" where
  "SessionTransport_of extra a s =
     (if ss_nativeID s = '''' then None
      else Some \<lparr>sx_NativeSessionID = ss_nativeID s, sx_ProtocolVersion = ca_ProtocolVersion (ha_neg a), sx_Extra = Some extra\<rparr>)"

section \<open>The shape of a session\<close>

text \<open>Some deltas with text, then one final event; the cursors count from one.\<close>

definition session_shape :: "SessionEvent list \<Rightarrow> bool" where
  "session_shape evs \<longleftrightarrow> evs \<noteq> [] \<and> map sv_Cursor evs = map int [1..<Suc (length evs)] \<and>
     (\<forall>ev \<in> set (butlast evs). sv_Type ev = ''output_delta'' \<and> sv_Payload ev \<noteq> '''') \<and>
     sv_Type (last evs) \<in> {''completed'', ''failed''}"

definition emission_ok :: "emission \<Rightarrow> bool" where
  "emission_ok em \<longleftrightarrow> em_cursor em = int (length (em_events em)) \<and> map sv_Cursor (em_events em) = map int [1..<Suc (length (em_events em))] \<and>
     (\<forall>ev \<in> set (em_events em). sv_Type ev = ''output_delta'' \<and> sv_Payload ev \<noteq> '''') \<and> (em_sawText em \<longleftrightarrow> em_events em \<noteq> [])"

lemma emission_ok_basic [simp]: "emission_ok no_emission" "emission_ok (declare_failure msg em) = emission_ok em"
  by (simp_all add: emission_ok_def no_emission_def declare_failure_def)

lemma emission_ok_text: "emission_ok em \<Longrightarrow> t \<noteq> '''' \<Longrightarrow> emission_ok (emit_text t em)"
  by (auto simp: emission_ok_def emit_text_def emit_def Let_def)

lemma emission_ok_texts: "emission_ok em \<Longrightarrow> \<forall>t \<in> set ts. t \<noteq> '''' \<Longrightarrow> emission_ok (fold emit_text ts em)"
  by (induction ts arbitrary: em) (auto intro: emission_ok_text)

definition final_type :: "goerr option \<Rightarrow> run_output \<Rightarrow> emission \<Rightarrow> string" where
  "final_type perr out em =
     (if perr = None \<and> \<not> ro_timedOut out \<and> em_failMsg em = '''' \<and> em_sawText em then ''completed'' else ''failed'')"

lemma conclude_final:
  "\<exists>payload. conclude_session timeout perr out em = emit (final_type perr out em) payload em"
  unfolding conclude_session_def final_type_def Let_def by (cases perr) auto

lemma conclude_shape:
  assumes "emission_ok em"
  shows "session_shape (em_events (conclude_session timeout perr out em)) \<and>
    butlast (em_events (conclude_session timeout perr out em)) = em_events em \<and>
    sv_Type (last (em_events (conclude_session timeout perr out em))) = final_type perr out em"
proof -
  obtain payload where "conclude_session timeout perr out em = emit (final_type perr out em) payload em" using conclude_final by blast
  moreover have "final_type perr out em \<in> {''completed'', ''failed''}" by (simp add: final_type_def)
  ultimately show ?thesis using assms by (simp add: session_shape_def emission_ok_def emit_def Let_def)
qed

end
