(* ===== verification/Claude.thy ===== *)
theory Claude
  imports Harness
begin

text \<open>
  \<^verbatim>\<open>internal/adapter/claude\<close>: the frames of Claude Code's stream-json output, their parser and the adapter
  that runs the harness in print mode and translates the frames into session events.
\<close>

section \<open>Frames\<close>

record claude_Content =
  cc_Type :: string
  cc_Text :: string

record claude_Message =
  cm_Content :: "claude_Content slice"

record claude_Delta =
  cd_Type :: string
  cd_Text :: string

record claude_StreamEvent =
  cs_Type :: string
  cs_Delta :: claude_Delta

record claude_Event =
  ce_Type :: string
  ce_Subtype :: string
  ce_SessionID :: string
  ce_Message :: "claude_Message option"
  ce_Stream :: "claude_StreamEvent option"
  ce_Result :: string
  ce_IsError :: bool
  ce_Error :: string
  ce_Raw :: string

definition zero_Content :: claude_Content where
  "zero_Content = \<lparr>cc_Type = '''', cc_Text = ''''\<rparr>"

definition zero_Message :: claude_Message where
  "zero_Message = \<lparr>cm_Content = no_slice\<rparr>"

definition zero_StreamEvent :: claude_StreamEvent where
  "zero_StreamEvent = \<lparr>cs_Type = '''', cs_Delta = \<lparr>cd_Type = '''', cd_Text = ''''\<rparr>\<rparr>"

definition zero_claude_Event :: claude_Event where
  "zero_claude_Event = \<lparr>ce_Type = '''', ce_Subtype = '''', ce_SessionID = '''', ce_Message = None, ce_Stream = None,
     ce_Result = '''', ce_IsError = False, ce_Error = '''', ce_Raw = ''''\<rparr>"

definition into_Content :: "claude_Content decoder" where
  "into_Content = into_struct [(''type'', at_field cc_Type cc_Type_update into_string), (''text'', at_field cc_Text cc_Text_update into_string)]"

definition into_Message :: "claude_Message decoder" where
  "into_Message = into_struct [(''content'', at_field cm_Content cm_Content_update (into_slice zero_Content into_Content))]"

definition into_Delta :: "claude_Delta decoder" where
  "into_Delta = into_struct [(''type'', at_field cd_Type cd_Type_update into_string), (''text'', at_field cd_Text cd_Text_update into_string)]"

definition into_StreamEvent :: "claude_StreamEvent decoder" where
  "into_StreamEvent = into_struct [(''type'', at_field cs_Type cs_Type_update into_string), (''delta'', at_field cs_Delta cs_Delta_update into_Delta)]"

definition into_claude_Event :: "claude_Event decoder" where
  "into_claude_Event = into_struct
     [(''type'', at_field ce_Type ce_Type_update into_string), (''subtype'', at_field ce_Subtype ce_Subtype_update into_string),
      (''session_id'', at_field ce_SessionID ce_SessionID_update into_string),
      (''message'', at_field ce_Message ce_Message_update (into_ptr zero_Message into_Message)),
      (''event'', at_field ce_Stream ce_Stream_update (into_ptr zero_StreamEvent into_StreamEvent)),
      (''result'', at_field ce_Result ce_Result_update into_string), (''is_error'', at_field ce_IsError ce_IsError_update into_bool),
      (''error'', at_field ce_Error ce_Error_update into_string)]"

definition Texts :: "claude_Event \<Rightarrow> string list" where
  "Texts e =
     (case ce_Message e of
        None \<Rightarrow> []
      | Some m \<Rightarrow> map cc_Text (filter (\<lambda>c. cc_Type c = ''text'' \<and> cc_Text c \<noteq> '''') (sl_elems (cm_Content m))))"

definition DeltaText :: "claude_Event \<Rightarrow> string" where
  "DeltaText e =
     (case ce_Stream e of None \<Rightarrow> '''' | Some x \<Rightarrow> if cd_Type (cs_Delta x) \<noteq> ''text_delta'' then '''' else cd_Text (cs_Delta x))"

definition FirstSessionID :: "claude_Event list \<Rightarrow> string" where
  "FirstSessionID events = (case find (\<lambda>ev. ce_SessionID ev \<noteq> '''') events of None \<Rightarrow> '''' | Some ev \<Rightarrow> ce_SessionID ev)"

definition decode_claude :: "(string \<Rightarrow> goerr) \<Rightarrow> string \<Rightarrow> goerr + claude_Event" where
  "decode_claude jsonerr line =
     (case decode_frame into_claude_Event zero_claude_Event line of
        None \<Rightarrow> Inl (wrap_err ''decode stream-json frame'' (jsonerr line))
      | Some ev \<Rightarrow> Inr (ev\<lparr>ce_Raw := line\<rparr>))"

definition ParseStreamJSON :: "(string \<Rightarrow> goerr) \<Rightarrow> goerr option \<Rightarrow> string \<Rightarrow> claude_Event list \<times> goerr option" where
  "ParseStreamJSON jsonerr rerr s = parse_stream (decode_claude jsonerr) rerr s 0"

section \<open>Adapter\<close>

definition TestBinaryEnv :: string where
  "TestBinaryEnv = ''HARO_TEST_CLAUDE_BINARY''"

definition resolveBinary :: "'w harness_os \<Rightarrow> harness_Adapter \<Rightarrow> string" where
  "resolveBinary os a =
     (if os_getenv os TestBinaryEnv \<noteq> '''' then os_getenv os TestBinaryEnv
      else if ha_binary a \<noteq> '''' then ha_binary a
      else ''claude'')"

definition claude_caps :: Capabilities where
  "claude_caps = \<lparr>ca_ProtocolVersion = 1, ca_Permission = True, ca_Terminal = False, ca_LoadSession = False, ca_Extra = []\<rparr>"

definition claude_Probe :: "'w harness_os \<Rightarrow> harness_Adapter \<Rightarrow> 'w \<Rightarrow> ProbeResult" where
  "claude_Probe os a w =
     (let binary = resolveBinary os a;
          binary = (if CHR ''/'' \<notin> set binary then (case os_LookPath os binary w of Some p \<Rightarrow> p | None \<Rightarrow> binary) else binary) in
      if \<not> isExecutableProgram os binary w then \<lparr>po_Available = False, po_Version = '''', po_Capabilities = zero_Capabilities\<rparr>
      else \<lparr>po_Available = True, po_Version = ''claude'', po_Capabilities = claude_caps\<rparr>)"

definition claude_Initialize :: "Capabilities \<Rightarrow> harness_Adapter \<Rightarrow> (goerr + Capabilities) \<times> harness_Adapter" where
  "claude_Initialize = harness_Initialize claude_caps"

definition claude_NewSession :: "'w harness_os \<Rightarrow> harness_Adapter \<Rightarrow> goerr + session" where
  "claude_NewSession os a =
     (if \<not> ha_initd a then Inl (sentinel_err ErrNotInitialized)
      else if resolveBinary os a = '''' then Inl (errorf ''binary not set'')
      else Inr new_harness_session)"

definition env_at :: "(string, string) gomap \<Rightarrow> string \<Rightarrow> string" where
  "env_at env k = (case map_of env k of None \<Rightarrow> '''' | Some v \<Rightarrow> v)"

definition promptArgv :: "'w harness_os \<Rightarrow> harness_Adapter \<Rightarrow> string list" where
  "promptArgv os a =
     (let model = env_at (ha_env a) ''CLAUDE_MODEL''; fallback = env_at (ha_env a) ''CLAUDE_FALLBACK_MODEL'' in
      [resolveBinary os a, ''-p'', ''--output-format'', ''stream-json'', ''--include-partial-messages'', ''--permission-mode'', ''dontAsk''] @
      (if model \<noteq> '''' then [''--model'', model] else []) @ (if fallback \<noteq> '''' then [''--fallback-model'', fallback] else []))"

definition claude_frame :: "claude_Event \<Rightarrow> emission \<Rightarrow> emission" where
  "claude_frame ev em =
     (if ce_Error ev \<noteq> '''' then declare_failure (ce_Error ev) em
      else if ce_IsError ev then
        declare_failure (if ce_Result ev \<noteq> '''' then ce_Result ev else ''harness reported an error result'') em
      else
        (let em = (if ce_Type ev = ''result'' \<and> \<not> ce_IsError ev \<and> \<not> em_sawText em \<and> ce_Result ev \<noteq> '''' then emit_text (ce_Result ev) em else em);
             em = fold emit_text (Texts ev) em
         in if DeltaText ev \<noteq> '''' then emit_text (DeltaText ev) em else em))"

definition claude_consume :: "(string \<Rightarrow> goerr) \<Rightarrow> int \<Rightarrow> run_output \<Rightarrow> session \<Rightarrow> SessionEvent list \<times> session" where
  "claude_consume jsonerr timeout out s =
     (let (events, perr) = ParseStreamJSON jsonerr (ro_readErr out) (ro_stdout out);
          s = capture_native (FirstSessionID events) s;
          em = fold claude_frame events no_emission
      in (em_events (conclude_session timeout perr out em), s))"

definition claude_Prompt :: "'w harness_os \<Rightarrow> harness_Adapter \<Rightarrow> SessionBundle \<Rightarrow> string \<Rightarrow> session \<Rightarrow> 'w \<Rightarrow>
    (goerr + SessionEvent list) \<times> session \<times> 'w" where
  "claude_Prompt os a bundle input s w =
     (let (r, w) = os_run os (promptArgv os a) (sb_WorkspaceRoot bundle) (overlay_env (os_Environ os) (ha_env a)) input (ha_timeout a) w in
      case prompt_launch (resolveBinary os a) r s of
        (Inl e, s) \<Rightarrow> (Inl e, s, w)
      | (Inr out, s) \<Rightarrow>
          (let (evs, s) = claude_consume (os_jsonerr os) (ha_timeout a) out s in (Inr evs, settleDone s, w)))"

definition claude_LoadPrevious :: goerr where
  "claude_LoadPrevious = sentinel_err ErrUnsupportedCapability"

definition claude_Terminal :: goerr where
  "claude_Terminal = sentinel_err ErrUnsupportedCapability"

definition claude_SessionTransport :: "harness_Adapter \<Rightarrow> session \<Rightarrow> SessionTransport option" where
  "claude_SessionTransport = SessionTransport_of (json_text (JObj [(''transport'', JStr ''stream-json'')]))"

section \<open>Lemmas\<close>

lemma Texts_nonempty: "t \<in> set (Texts e) \<Longrightarrow> t \<noteq> ''''"
  by (auto simp: Texts_def split: option.splits)

lemma claude_frame_ok: "emission_ok em \<Longrightarrow> emission_ok (claude_frame ev em)"
  unfolding claude_frame_def Let_def by (auto intro!: emission_ok_text emission_ok_texts dest: Texts_nonempty)

lemma claude_frames_ok: "emission_ok em \<Longrightarrow> emission_ok (fold claude_frame evs em)"
  by (induction evs arbitrary: em) (auto intro: claude_frame_ok)

text \<open>What a list of frames says: the failures they declare and the texts they carry.\<close>

definition claude_failure :: "claude_Event \<Rightarrow> string" where
  "claude_failure ev =
     (if ce_Error ev \<noteq> '''' then ce_Error ev
      else if ce_IsError ev then (if ce_Result ev \<noteq> '''' then ce_Result ev else ''harness reported an error result'') else '''')"

definition claude_carries :: "claude_Event \<Rightarrow> bool" where
  "claude_carries ev \<longleftrightarrow> claude_failure ev = '''' \<and> (ce_Type ev = ''result'' \<and> ce_Result ev \<noteq> '''' \<or> Texts ev \<noteq> [] \<or> DeltaText ev \<noteq> '''')"

lemma emit_text_simps [simp]: "em_failMsg (emit_text t em) = em_failMsg em" "em_sawText (emit_text t em)"
  "em_failMsg (fold emit_text ts em) = em_failMsg em" "em_sawText (fold emit_text ts em) \<longleftrightarrow> ts \<noteq> [] \<or> em_sawText em"
proof -
  show a: "em_failMsg (emit_text t em) = em_failMsg em" "em_sawText (emit_text t em)" for t em
    by (simp_all add: emit_text_def emit_def Let_def)
  show "em_failMsg (fold emit_text ts em) = em_failMsg em" "em_sawText (fold emit_text ts em) \<longleftrightarrow> ts \<noteq> [] \<or> em_sawText em"
    by (induction ts arbitrary: em) (simp_all add: a)
qed

lemma declare_failure_simps [simp]: "em_sawText (declare_failure m em) = em_sawText em"
  "em_failMsg (declare_failure m em) = (if em_failMsg em = '''' then m else em_failMsg em)"
  by (simp_all add: declare_failure_def)

lemma claude_frame_says:
  "em_sawText (claude_frame ev em) \<longleftrightarrow> em_sawText em \<or> claude_carries ev"
  "em_failMsg (claude_frame ev em) = (if em_failMsg em = '''' then claude_failure ev else em_failMsg em)"
  by (auto simp: claude_frame_def claude_carries_def claude_failure_def Let_def)

lemma claude_frames_say:
  "em_sawText (fold claude_frame evs em) \<longleftrightarrow> em_sawText em \<or> (\<exists>ev \<in> set evs. claude_carries ev)"
  "em_failMsg (fold claude_frame evs em) = '''' \<longleftrightarrow> em_failMsg em = '''' \<and> (\<forall>ev \<in> set evs. claude_failure ev = '''')"
  by (induction evs arbitrary: em) (auto simp: claude_frame_says)

end
