(* ===== verification/Opencode.thy ===== *)
theory Opencode
  imports Harness
begin

text \<open>
  \<^verbatim>\<open>internal/adapter/opencode\<close>: the frames of OpenCode's JSON lines, their parser and the adapter that runs the
  harness and translates the frames into session events.
\<close>

section \<open>Frames\<close>

record opencode_Part =
  op_Type :: string
  op_Text :: string

record opencode_Event =
  oe_Cursor :: int
  oe_Delta :: "json option"
  oe_Payload :: "json option"
  oe_Type :: string
  oe_SessionID :: string
  oe_Part :: "opencode_Part option"
  oe_Error :: string
  oe_Raw :: string

definition zero_Part :: opencode_Part where
  "zero_Part = \<lparr>op_Type = '''', op_Text = ''''\<rparr>"

definition zero_opencode_Event :: opencode_Event where
  "zero_opencode_Event = \<lparr>oe_Cursor = 0, oe_Delta = None, oe_Payload = None, oe_Type = '''', oe_SessionID = '''', oe_Part = None,
     oe_Error = '''', oe_Raw = ''''\<rparr>"

definition into_Part :: "opencode_Part decoder" where
  "into_Part = into_struct [(''type'', at_field op_Type op_Type_update into_string), (''text'', at_field op_Text op_Text_update into_string)]"

text \<open>The field \<^verbatim>\<open>Raw\<close> has no tag, so that a member of that name is decoded too; the line replaces it afterwards.\<close>

definition into_opencode_Event :: "opencode_Event decoder" where
  "into_opencode_Event = into_struct
     [(''cursor'', at_field oe_Cursor oe_Cursor_update into_int), (''delta'', at_field oe_Delta oe_Delta_update into_raw),
      (''payload'', at_field oe_Payload oe_Payload_update into_raw), (''type'', at_field oe_Type oe_Type_update into_string),
      (''sessionID'', at_field oe_SessionID oe_SessionID_update into_string),
      (''part'', at_field oe_Part oe_Part_update (into_ptr zero_Part into_Part)),
      (''error'', at_field oe_Error oe_Error_update into_string), (''Raw'', \<lambda>v r. Some r)]"

definition Text :: "opencode_Event \<Rightarrow> string" where
  "Text e = (case oe_Part e of None \<Rightarrow> '''' | Some p \<Rightarrow> op_Text p)"

definition decode_opencode :: "(string \<Rightarrow> goerr) \<Rightarrow> string \<Rightarrow> goerr + opencode_Event" where
  "decode_opencode jsonerr line =
     (case decode_frame into_opencode_Event zero_opencode_Event line of
        None \<Rightarrow> Inl (wrap_err ''decode jsonl'' (jsonerr line))
      | Some ev \<Rightarrow> Inr (ev\<lparr>oe_Raw := line\<rparr>))"

definition ParseJSONL :: "(string \<Rightarrow> goerr) \<Rightarrow> goerr option \<Rightarrow> string \<Rightarrow> opencode_Event list \<times> goerr option" where
  "ParseJSONL jsonerr rerr s = parse_stream (decode_opencode jsonerr) rerr s 0"

section \<open>Adapter\<close>

definition opencode_caps :: Capabilities where
  "opencode_caps = \<lparr>ca_ProtocolVersion = 1, ca_Permission = False, ca_Terminal = False, ca_LoadSession = False, ca_Extra = []\<rparr>"

definition opencode_Probe :: "'w harness_os \<Rightarrow> harness_Adapter \<Rightarrow> 'w \<Rightarrow> ProbeResult" where
  "opencode_Probe os a w =
     (if \<not> isExecutableProgram os (ha_binary a) w then \<lparr>po_Available = False, po_Version = '''', po_Capabilities = zero_Capabilities\<rparr>
      else \<lparr>po_Available = True, po_Version = ''opencode'', po_Capabilities = opencode_caps\<rparr>)"

definition opencode_Initialize :: "Capabilities \<Rightarrow> harness_Adapter \<Rightarrow> (goerr + Capabilities) \<times> harness_Adapter" where
  "opencode_Initialize = harness_Initialize opencode_caps"

text \<open>One requirement: its absolute path.\<close>

definition resolve_require :: "'w harness_os \<Rightarrow> 'w \<Rightarrow> string \<Rightarrow> string \<times> string \<Rightarrow> goerr + string" where
  "resolve_require os w artifacts nr =
     (let (name, rel) = nr; fault = (\<lambda>m. Inl (errorf (''requirement '' @ quoted name @ '': '' @ m))); c = Clean rel in
      if TrimSpace rel = [] then fault ''empty path''
      else if IsAbs rel then fault ''absolute path''
      else if c = ''..'' \<or> prefix ''../'' c then fault ''escapes artifacts root''
      else
        (let p = Join [artifacts, c] in
         case os_exists os p w of
           Some e \<Rightarrow> Inl (wrap_err (''requirement '' @ quoted name) e)
         | None \<Rightarrow> Inr p))"

fun resolve_each :: "'w harness_os \<Rightarrow> 'w \<Rightarrow> string \<Rightarrow> (string, string) gomap \<Rightarrow> goerr + (string, string) gomap" where
  "resolve_each os w artifacts [] = Inr []"
| "resolve_each os w artifacts (nr # nrs) =
     (case resolve_require os w artifacts nr of
        Inl e \<Rightarrow> Inl e
      | Inr p \<Rightarrow> map_sum id ((#) (fst nr, p)) (resolve_each os w artifacts nrs))"

definition resolveRequires :: "'w harness_os \<Rightarrow> 'w \<Rightarrow> string \<Rightarrow> (string, string) gomap \<Rightarrow> goerr + (string, string) gomap" where
  "resolveRequires os w workspaceRoot requires =
     (if requires = [] then Inr [] else resolve_each os w (Join [workspaceRoot, ''.haro'', ''artifacts'']) requires)"

definition opencode_NewSession :: "'w harness_os \<Rightarrow> harness_Adapter \<Rightarrow> SessionBundle \<Rightarrow> 'w \<Rightarrow> goerr + SessionBundle \<times> session" where
  "opencode_NewSession os a bundle w =
     (if \<not> ha_initd a then Inl (sentinel_err ErrNotInitialized)
      else if ha_binary a = '''' then Inl (errorf ''binary not set'')
      else
        (case resolveRequires os w (sb_WorkspaceRoot bundle) (sb_Requires bundle) of
           Inl e \<Rightarrow> Inl (wrap_err ''contract'' e)
         | Inr requires \<Rightarrow> Inr (bundle\<lparr>sb_Requires := requires\<rparr>, new_harness_session)))"

definition opencode_argv :: "harness_Adapter \<Rightarrow> string list" where
  "opencode_argv a = [ha_binary a, ''run'', ''--format'', ''json'']"

definition opencode_frame :: "opencode_Event \<Rightarrow> session \<times> emission \<Rightarrow> session \<times> emission" where
  "opencode_frame ev se =
     (let (s, em) = se; s = capture_native (oe_SessionID ev) s in
      if oe_Error ev \<noteq> '''' \<or> oe_Type ev = ''error'' then (s, declare_failure (oe_Error ev) em)
      else if Text ev \<noteq> '''' then (s, emit_text (Text ev) em)
      else (s, em))"

definition opencode_consume :: "(string \<Rightarrow> goerr) \<Rightarrow> int \<Rightarrow> run_output \<Rightarrow> session \<Rightarrow> SessionEvent list \<times> session" where
  "opencode_consume jsonerr timeout out s =
     (let (events, perr) = ParseJSONL jsonerr (ro_readErr out) (ro_stdout out);
          (s, em) = fold opencode_frame events (s, no_emission)
      in (em_events (conclude_session timeout perr out em), s))"

definition opencode_Prompt :: "'w harness_os \<Rightarrow> harness_Adapter \<Rightarrow> SessionBundle \<Rightarrow> string \<Rightarrow> session \<Rightarrow> 'w \<Rightarrow>
    (goerr + SessionEvent list) \<times> session \<times> 'w" where
  "opencode_Prompt os a bundle input s w =
     (let (r, w) = os_run os (opencode_argv a) (sb_WorkspaceRoot bundle) (overlay_env (os_Environ os) (ha_env a)) input (ha_timeout a) w in
      case prompt_launch (ha_binary a) r s of
        (Inl e, s) \<Rightarrow> (Inl e, s, w)
      | (Inr out, s) \<Rightarrow>
          (let (evs, s) = opencode_consume (os_jsonerr os) (ha_timeout a) out s in (Inr evs, settleDone s, w)))"

definition opencode_LoadPrevious :: goerr where
  "opencode_LoadPrevious = sentinel_err ErrUnsupportedCapability"

definition opencode_Terminal :: goerr where
  "opencode_Terminal = sentinel_err ErrUnsupportedCapability"

definition opencode_SessionTransport :: "harness_Adapter \<Rightarrow> session \<Rightarrow> SessionTransport option" where
  "opencode_SessionTransport = SessionTransport_of (json_text (JObj [(''transport'', JStr ''jsonl'')]))"

section \<open>Lemmas\<close>

definition opencode_error :: "opencode_Event \<Rightarrow> bool" where
  "opencode_error ev \<longleftrightarrow> oe_Error ev \<noteq> '''' \<or> oe_Type ev = ''error''"

definition opencode_carries :: "opencode_Event \<Rightarrow> bool" where
  "opencode_carries ev \<longleftrightarrow> \<not> opencode_error ev \<and> Text ev \<noteq> ''''"

lemma opencode_frame_ok: "emission_ok (snd se) \<Longrightarrow> emission_ok (snd (opencode_frame ev se))"
  by (auto simp: opencode_frame_def Let_def split: prod.splits intro: emission_ok_text)

lemma opencode_frames_ok: "emission_ok (snd se) \<Longrightarrow> emission_ok (snd (fold opencode_frame evs se))"
proof (induction evs arbitrary: se)
  case (Cons ev evs)
  then show ?case using Cons.IH [OF opencode_frame_ok [OF Cons.prems]] by simp
qed simp

lemma opencode_frame_says:
  "em_sawText (snd (opencode_frame ev se)) \<longleftrightarrow> em_sawText (snd se) \<or> opencode_carries ev"
  "em_failMsg (snd (opencode_frame ev se)) = (if em_failMsg (snd se) = '''' then oe_Error ev else em_failMsg (snd se))"
  by (auto simp: opencode_frame_def opencode_carries_def opencode_error_def declare_failure_def emit_text_def emit_def Let_def
    split: prod.splits)

lemma opencode_frames_say:
  "em_sawText (snd (fold opencode_frame evs se)) \<longleftrightarrow> em_sawText (snd se) \<or> (\<exists>ev \<in> set evs. opencode_carries ev)"
  "em_failMsg (snd (fold opencode_frame evs se)) = '''' \<longleftrightarrow> em_failMsg (snd se) = '''' \<and> (\<forall>ev \<in> set evs. oe_Error ev = '''')"
proof -
  show "em_sawText (snd (fold opencode_frame evs se)) \<longleftrightarrow> em_sawText (snd se) \<or> (\<exists>ev \<in> set evs. opencode_carries ev)"
  proof (induction evs arbitrary: se)
    case (Cons ev evs)
    then show ?case using Cons.IH [of "opencode_frame ev se"] opencode_frame_says(1) [of ev se] by auto
  qed simp
  show "em_failMsg (snd (fold opencode_frame evs se)) = '''' \<longleftrightarrow> em_failMsg (snd se) = '''' \<and> (\<forall>ev \<in> set evs. oe_Error ev = '''')"
  proof (induction evs arbitrary: se)
    case (Cons ev evs)
    then show ?case using Cons.IH [of "opencode_frame ev se"] opencode_frame_says(2) [of ev se] by auto
  qed simp
qed

end
