(* ===== verification/Harness_Sessions.thy ===== *)
theory Harness_Sessions
  imports Claude Opencode Engine_Agent
begin

text \<open>
  What the engine can rely on when it runs a harness: the parsers keep exactly the frames of the stream
  up to the first fault and within the limits, a session ends with exactly one final event, the
  engine sees success exactly when the harness delivered text and nothing went wrong, and a
  session that was prompted can always be cancelled.
\<close>

section \<open>Collecting the events\<close>

lemma collect_deltas:
  assumes "\<forall>ev \<in> set evs. sv_Type ev = ''output_delta''"
  shows "collect_events h (evs @ rest) got = collect_events h rest (fold (\<lambda>ev g. appendFallbackEvidence g (sv_Payload ev)) evs got)"
  using assms by (induction evs arbitrary: got) auto

lemma collect_session:
  assumes "session_shape evs"
  shows "snd (collect_events h evs got) = None \<longleftrightarrow> sv_Type (last evs) = ''completed''"
proof -
  have e: "evs = butlast evs @ [last evs]" using assms by (simp add: session_shape_def)
  have "collect_events h evs got = collect_events h [last evs] (fold (\<lambda>ev g. appendFallbackEvidence g (sv_Payload ev)) (butlast evs) got)"
    by (subst e, rule collect_deltas) (use assms in \<open>simp add: session_shape_def\<close>)
  then show ?thesis using assms by (auto simp: session_shape_def)
qed

section \<open>Prompting and cancelling\<close>

text \<open>A session is prompted once; it can be cancelled at any time.\<close>

inductive session_step :: "session \<Rightarrow> session \<Rightarrow> bool" where
  launch: "session_step s (snd (prompt_launch binary r s))"
| finish: "ss_proc s \<Longrightarrow> session_step s (settleDone (capture_native native s))"
| cancel: "session_step s (snd (session_Cancel b err s))"

inductive_cases session_stepE: "session_step s s'"

definition session_inv :: "session \<Rightarrow> bool" where
  "session_inv s \<longleftrightarrow> ss_kills s \<le> 1 \<and> (\<not> ss_cancelled s \<longrightarrow> ss_kills s = 0)"

lemma session_step_inv: "session_step s s' \<Longrightarrow> session_inv s \<Longrightarrow>
  session_inv s' \<and> (ss_done s \<longrightarrow> ss_done s') \<and> (ss_nativeID s \<noteq> '''' \<longrightarrow> ss_nativeID s' = ss_nativeID s)"
  by (erule session_stepE) (auto simp: session_inv_def prompt_launch_def settleDone_def capture_native_def session_Cancel_def cancel_kill_def
    Let_def split: run_result.splits)

lemma session_run_inv: "session_step\<^sup>*\<^sup>* s s' \<Longrightarrow> session_inv s \<Longrightarrow>
  session_inv s' \<and> (ss_done s \<longrightarrow> ss_done s') \<and> (ss_nativeID s \<noteq> '''' \<longrightarrow> ss_nativeID s' = ss_nativeID s)"
  by (induction rule: rtranclp_induct) (use session_step_inv in fastforce)+

lemma prompted_done:
  "ss_done (fst (snd (claude_Prompt os a bundle input s w)))"
  "ss_done (fst (snd (opencode_Prompt os a bundle input s w)))"
  by (auto simp: claude_Prompt_def opencode_Prompt_def prompt_launch_def settleDone_def Let_def split: prod.splits run_result.splits)

lemma prompted_inv:
  assumes "session_inv s"
  shows "session_inv (fst (snd (claude_Prompt os a bundle input s w)))" "session_inv (fst (snd (opencode_Prompt os a bundle input s w)))"
proof -
  have n: "session_inv (capture_native x t) = session_inv t" "session_inv (settleDone t) = session_inv t" for x t
    by (auto simp: session_inv_def capture_native_def settleDone_def)
  have l: "session_inv (snd (prompt_launch binary r s))" for binary r
    using assms by (auto simp: prompt_launch_def session_inv_def settleDone_def split: run_result.splits)
  have f: "session_inv (fst (fold opencode_frame evs se)) = session_inv (fst se)" for evs se
  proof (induction evs arbitrary: se)
    case (Cons ev evs)
    have "session_inv (fst (opencode_frame ev se)) = session_inv (fst se)" by (simp add: opencode_frame_def Let_def n split: prod.splits)
    then show ?case using Cons.IH [of "opencode_frame ev se"] by simp
  qed simp
  show "session_inv (fst (snd (claude_Prompt os a bundle input s w)))"
    using l by (auto simp: claude_Prompt_def claude_consume_def Let_def n split: prod.splits sum.splits) (metis snd_conv)+
  have "session_inv (snd (opencode_consume je t out s1)) = session_inv s1" for je t out s1
    using f by (simp add: opencode_consume_def split: prod.splits) (metis fst_conv)
  then show "session_inv (fst (snd (opencode_Prompt os a bundle input s w)))"
    using l by (auto simp: opencode_Prompt_def Let_def n split: prod.splits sum.splits) (metis snd_conv)+
qed

lemma done_cancel: "ss_done s \<Longrightarrow> fst (session_Cancel b None s) = Some None"
  by (simp add: session_Cancel_def cancel_kill_def Let_def)

lemma claude_events:
  assumes "ParseStreamJSON je (ro_readErr out) (ro_stdout out) = (frs, perr)" "claude_consume je timeout out s = (evs, s')"
  shows "session_shape evs \<and>
    (sv_Type (last evs) = ''completed'' \<longleftrightarrow>
       perr = None \<and> \<not> ro_timedOut out \<and> (\<forall>f \<in> set frs. claude_failure f = '''') \<and> (\<exists>f \<in> set frs. claude_carries f))"
proof -
  let ?em = "fold claude_frame frs no_emission"
  have e: "evs = em_events (conclude_session timeout perr out ?em)" using assms by (simp add: claude_consume_def)
  have "emission_ok ?em" by (rule claude_frames_ok) simp
  from conclude_shape [OF this, of timeout perr out] show ?thesis
    using claude_frames_say [of frs no_emission] unfolding e final_type_def by (auto simp: no_emission_def split: if_splits)
qed

lemma opencode_events:
  assumes "ParseJSONL je (ro_readErr out) (ro_stdout out) = (frs, perr)" "opencode_consume je timeout out s = (evs, s')"
  shows "session_shape evs \<and>
    (sv_Type (last evs) = ''completed'' \<longleftrightarrow>
       perr = None \<and> \<not> ro_timedOut out \<and> (\<forall>f \<in> set frs. oe_Error f = '''') \<and> (\<exists>f \<in> set frs. opencode_carries f))"
proof -
  let ?em = "snd (fold opencode_frame frs (s, no_emission))"
  have e: "evs = em_events (conclude_session timeout perr out ?em)" using assms by (simp add: opencode_consume_def split: prod.splits)
  have "emission_ok ?em" by (rule opencode_frames_ok) simp
  from conclude_shape [OF this, of timeout perr out] show ?thesis
    using opencode_frames_say [of frs "(s, no_emission)"] unfolding e final_type_def by (auto simp: no_emission_def split: if_splits)
qed

text \<open>A parser keeps the frames up to the first fault.\<close>

definition keeps_frames :: "(string \<Rightarrow> goerr + 'e) \<Rightarrow> goerr option \<Rightarrow> string \<Rightarrow> 'e list \<Rightarrow> goerr option \<Rightarrow> bool" where
  "keeps_frames dec rerr s evs err \<longleftrightarrow>
     (\<exists>fs. prefix fs (frames s) \<and> map dec fs = map Inr evs \<and> (\<forall>f \<in> set fs. length f \<le> MaxMessageSize) \<and>
        sum_list (map (\<lambda>f. int (length f)) fs) \<le> AdapterEventRetentionLimit \<and>
        (err = None \<longrightarrow> fs = frames s)) \<and>
     (err = None \<longleftrightarrow> rerr = None \<and> (\<forall>l \<in> set (split_on (CHR 0x0A) s). length l \<le> MaxMessageSize) \<and>
        (\<forall>f \<in> set (frames s). length f \<le> MaxMessageSize \<and> (\<exists>ev. dec f = Inr ev)) \<and>
        sum_list (map (\<lambda>f. int (length f)) (frames s)) \<le> AdapterEventRetentionLimit)"

lemma decoded_all: "\<forall>f \<in> set fs. \<exists>ev. dec f = Inr ev \<Longrightarrow> \<exists>evs. list_all2 (\<lambda>f ev. dec f = Inr ev) fs evs"
proof (induction fs)
  case (Cons f fs)
  then obtain ev evs where "dec f = Inr ev" "list_all2 (\<lambda>f ev. dec f = Inr ev) fs evs" by auto
  then have "list_all2 (\<lambda>f ev. dec f = Inr ev) (f # fs) (ev # evs)" by simp
  then show ?case by blast
qed auto

lemma parse_stream_keeps:
  assumes "parse_stream dec rerr s 0 = (evs, err)"
  shows "keeps_frames dec rerr s evs err"
proof -
  have "(0::int) \<le> AdapterEventRetentionLimit" by (simp add: AdapterEventRetentionLimit_def)
  from parse_stream_sound [OF assms this] obtain fs where fs: "prefix fs (frames s)" "map dec fs = map Inr evs"
    "\<forall>f \<in> set fs. f \<noteq> [] \<and> length f \<le> MaxMessageSize" "sum_list (map (\<lambda>f. int (length f)) fs) \<le> AdapterEventRetentionLimit"
    "err = None \<longrightarrow> fs = frames s \<and> rerr = None \<and> (\<forall>l \<in> set (split_on (CHR 0x0A) s). length l \<le> MaxMessageSize)" by auto
  have d: "\<exists>ev. dec f = Inr ev" if "f \<in> set fs" for f
    using fs(2) that by (metis (no_types, lifting) image_iff list.set_map)
  have "err = None" if h: "rerr = None" "\<forall>l \<in> set (split_on (CHR 0x0A) s). length l \<le> MaxMessageSize"
    "\<forall>f \<in> set (frames s). length f \<le> MaxMessageSize \<and> (\<exists>ev. dec f = Inr ev)"
    "sum_list (map (\<lambda>f. int (length f)) (frames s)) \<le> AdapterEventRetentionLimit"
  proof -
    obtain evs' where e: "list_all2 (\<lambda>f ev. dec f = Inr ev) (frames s) evs'" using h(3) decoded_all by metis
    have "parse_stream dec rerr s 0 = (evs', map_option (wrap_err ''read'') rerr)"
      by (rule parse_stream_complete [OF h(2) e]) (use h(3,4) in simp_all)
    then show ?thesis using assms h(1) by simp
  qed
  then show ?thesis unfolding keeps_frames_def using fs d by blast
qed

lemma harness_stream_texts: "decode_claude je f = Inr ev \<Longrightarrow> ce_Raw ev = f" "decode_opencode je f = Inr oev \<Longrightarrow> oe_Raw oev = f"
  by (auto simp: decode_claude_def decode_opencode_def split: option.splits)

section \<open>Properties\<close>

text \<open>C18. The parsers of both harness streams return exactly the decoded frames of the stream (its lines without
  surrounding space, empty ones left out) up to the first fault, each frame at most 10 MiB and all
  of them together at most 12 MiB; they report no error exactly when every line fits, every frame
  decodes, the retention limit holds and the stream ended without a read error.\<close>

theorem harness_stream_exact:
  "(ParseStreamJSON je rerr s = (evs, err) \<longrightarrow> keeps_frames (decode_claude je) rerr s evs err) \<and>
   (ParseJSONL je rerr s = (oevs, err) \<longrightarrow> keeps_frames (decode_opencode je) rerr s oevs err)"
  by (simp add: ParseStreamJSON_def ParseJSONL_def parse_stream_keeps)

definition demo_frame :: string where
  "demo_frame = json_text (JObj [(''type'', JStr ''result''), (''result'', JStr ''hi'')])"

lemma demo_frame_lines: "frames demo_frame = [demo_frame]" "split_on (CHR 0x0A) demo_frame = [demo_frame]" "length demo_frame = 31"
  by code_simp+

lemma demo_frame_decoded:
  "map_sum err_msg (\<lambda>ev. (claude_failure ev, claude_carries ev)) (decode_claude errorf demo_frame) = Inr ('''', True)"
  "map_sum err_msg opencode_carries (decode_opencode errorf demo_frame) = Inr False"
  by (code_simp, code_simp)

lemma demo_parsed:
  "\<exists>ev. ParseStreamJSON errorf None demo_frame = ([ev], None) \<and> claude_failure ev = '''' \<and> claude_carries ev"
  "\<exists>ev. ParseJSONL errorf None demo_frame = ([ev], None)"
proof -
  obtain ev where ev: "decode_claude errorf demo_frame = Inr ev" "claude_failure ev = ''''" "claude_carries ev"
    using demo_frame_decoded(1) by (cases "decode_claude errorf demo_frame") auto
  have "parse_stream (decode_claude errorf) None demo_frame 0 = ([ev], map_option (wrap_err ''read'') None)"
    by (rule parse_stream_complete) (simp_all add: demo_frame_lines ev MaxMessageSize_def AdapterEventRetentionLimit_def)
  then show "\<exists>ev. ParseStreamJSON errorf None demo_frame = ([ev], None) \<and> claude_failure ev = '''' \<and> claude_carries ev"
    using ev by (simp add: ParseStreamJSON_def)
  obtain oev where oev: "decode_opencode errorf demo_frame = Inr oev"
    using demo_frame_decoded(2) by (cases "decode_opencode errorf demo_frame") auto
  have "parse_stream (decode_opencode errorf) None demo_frame 0 = ([oev], map_option (wrap_err ''read'') None)"
    by (rule parse_stream_complete) (simp_all add: demo_frame_lines oev MaxMessageSize_def AdapterEventRetentionLimit_def)
  then show "\<exists>ev. ParseJSONL errorf None demo_frame = ([ev], None)" by (simp add: ParseJSONL_def)
qed

theorem harness_stream_exact_witness:
  "\<exists>ev. ParseStreamJSON errorf None demo_frame = ([ev], None) \<and> keeps_frames (decode_claude errorf) None demo_frame [ev] None"
  using demo_parsed(1) harness_stream_exact by blast

text \<open>C19. A harness session that was launched sends some text deltas with consecutive cursors and then exactly one final
  event. The engine that collects them sees success exactly when the stream was well formed, the
  session did not time out, no frame declared a failure and some frame carried text; an OpenCode
  frame declares a failure by its error text.\<close>

theorem harness_outcome:
  "(ParseStreamJSON je (ro_readErr out) (ro_stdout out) = (frs, perr) \<longrightarrow> claude_consume je timeout out s = (evs, s') \<longrightarrow>
      session_shape evs \<and>
      (snd (collect_events h evs got) = None \<longleftrightarrow>
         perr = None \<and> \<not> ro_timedOut out \<and> (\<forall>f \<in> set frs. claude_failure f = '''') \<and> (\<exists>f \<in> set frs. claude_carries f))) \<and>
   (ParseJSONL je (ro_readErr out) (ro_stdout out) = (ofrs, perr) \<longrightarrow> opencode_consume je timeout out s = (oevs, s') \<longrightarrow>
      session_shape oevs \<and>
      (snd (collect_events h oevs got) = None \<longleftrightarrow>
         perr = None \<and> \<not> ro_timedOut out \<and> (\<forall>f \<in> set ofrs. oe_Error f = '''') \<and> (\<exists>f \<in> set ofrs. opencode_carries f)))"
  using claude_events [of je out frs perr timeout s evs s'] opencode_events [of je out ofrs perr timeout s oevs s'] collect_session
  by blast

definition demo_output :: run_output where
  "demo_output = \<lparr>ro_stdout = demo_frame, ro_readErr = None, ro_waitErr = None, ro_timedOut = False, ro_stderr = []\<rparr>"

theorem harness_outcome_witness:
  "\<exists>evs s'. claude_consume errorf second demo_output new_harness_session = (evs, s') \<and> session_shape evs \<and>
     snd (collect_events ''claude'' evs '''') = None"
proof -
  obtain ev where ev: "ParseStreamJSON errorf None demo_frame = ([ev], None)" "claude_failure ev = ''''" "claude_carries ev"
    using demo_parsed(1) by blast
  obtain evs s' where c: "claude_consume errorf second demo_output new_harness_session = (evs, s')" by fastforce
  have "ParseStreamJSON errorf (ro_readErr demo_output) (ro_stdout demo_output) = ([ev], None)" using ev(1) by (simp add: demo_output_def)
  with c harness_outcome [of errorf demo_output "[ev]" None second new_harness_session evs s' "''claude''" "''''" undefined undefined]
  show ?thesis using ev(2,3) by (auto simp: demo_output_def)
qed

text \<open>C20. A session that was prompted can always be cancelled without waiting: whatever way the prompt went, its
  completion signal is closed and stays closed; over any sequence of launches, completions and
  cancellations, cancelling kills the process at most once, and the identity the harness reported first is
  never replaced.\<close>

theorem session_settles:
  assumes "session_step\<^sup>*\<^sup>* new_harness_session s"
  shows "ss_kills s \<le> 1 \<and>
    (\<forall>s'. session_step\<^sup>*\<^sup>* s s' \<longrightarrow> ss_nativeID s \<noteq> '''' \<longrightarrow> ss_nativeID s' = ss_nativeID s) \<and>
    (\<forall>s' b. s' \<in> {fst (snd (claude_Prompt os a bundle input s w)), fst (snd (opencode_Prompt os a bundle input s w))} \<longrightarrow>
       (\<forall>s''. session_step\<^sup>*\<^sup>* s' s'' \<longrightarrow> fst (session_Cancel b None s'') = Some None))"
proof -
  have "session_inv new_harness_session" by (simp add: session_inv_def new_harness_session_def)
  then have i: "session_inv s" using session_run_inv [OF assms] by simp
  have c: "fst (session_Cancel b None s'') = Some None"
    if "s' \<in> {fst (snd (claude_Prompt os a bundle input s w)), fst (snd (opencode_Prompt os a bundle input s w))}" "session_step\<^sup>*\<^sup>* s' s''" for s' s'' b
  proof -
    have "session_inv s'" "ss_done s'" using that(1) prompted_inv [OF i, of os a "bundle" input w] prompted_done [of os a "bundle" input s w] by auto
    then show ?thesis using session_run_inv [OF that(2)] done_cancel by blast
  qed
  show ?thesis using i session_run_inv [OF _ i] c unfolding session_inv_def by blast
qed

definition demo_os :: "unit harness_os" where
  "demo_os = \<lparr>os_getenv = (\<lambda>_. ''''), os_Environ = [], os_LookPath = (\<lambda>_ _. None), os_mode = (\<lambda>_ _. None), os_head = (\<lambda>_ _. None),
     os_exists = (\<lambda>_ _. None), os_run = (\<lambda>_ _ _ _ _ w. (NotStarted (errorf ''missing''), w)), os_jsonerr = errorf\<rparr>"

theorem session_settles_witness:
  "fst (session_Cancel True None (fst (snd (claude_Prompt demo_os (harness_NewAdapter '''' [] 0)
     \<lparr>sb_Instructions = '''', sb_WorkspaceRoot = '''', sb_Requires = []\<rparr> ''go'' new_harness_session ())))) = Some None"
proof -
  let ?b = "\<lparr>sb_Instructions = '''', sb_WorkspaceRoot = '''', sb_Requires = []\<rparr>"
  let ?s = "fst (snd (claude_Prompt demo_os (harness_NewAdapter '''' [] 0) ?b ''go'' new_harness_session ()))"
  have "\<forall>s''. session_step\<^sup>*\<^sup>* ?s s'' \<longrightarrow> fst (session_Cancel True None s'') = Some None"
    using session_settles [OF rtranclp.rtrancl_refl, of demo_os "harness_NewAdapter '''' [] 0" ?b "''go''" "()"] by simp
  then show ?thesis by simp
qed

text \<open>An OpenCode error frame with no error text is not counted as a failure: after any text, the
  session still reports completion.\<close>

lemma opencode_silent_error:
  assumes "oe_Type bad = ''error''" "oe_Error bad = ''''" "opencode_carries good" "oe_Error good = ''''"
    "ParseJSONL je None out = ([good, bad], None)"
  shows "sv_Type (last (fst (opencode_consume je timeout
    \<lparr>ro_stdout = out, ro_readErr = None, ro_waitErr = we, ro_timedOut = False, ro_stderr = err\<rparr> s))) = ''completed''"
proof -
  let ?o = "\<lparr>ro_stdout = out, ro_readErr = None, ro_waitErr = we, ro_timedOut = False, ro_stderr = err\<rparr>"
  obtain evs s' where e: "opencode_consume je timeout ?o s = (evs, s')" by fastforce
  show ?thesis using opencode_events [of je ?o "[good, bad]" None timeout s evs s'] assms e by simp
qed

end
