(* ===== verification/Cli_Flags.thy ===== *)
theory Cli_Flags
  imports Json_Text
begin

text \<open>
  What \<^verbatim>\<open>internal/cmd\<close> uses of the packages \<^verbatim>\<open>flag\<close> and \<^verbatim>\<open>strconv\<close>, and \<^verbatim>\<open>output.go\<close>: parsing the option tail of
  a command, and writing JSON lines to the two streams of the process. A stream takes every write
  or refuses every write.
\<close>

section \<open>strconv\<close>

definition ParseBool :: "string \<Rightarrow> bool option" where
  "ParseBool s =
     (if s \<in> {''1'', ''t'', ''T'', ''true'', ''TRUE'', ''True''} then Some True
      else if s \<in> {''0'', ''f'', ''F'', ''false'', ''FALSE'', ''False''} then Some False
      else None)"

definition lower_byte :: "char \<Rightarrow> char" where
  "lower_byte c = (if 65 \<le> byte c \<and> byte c \<le> 90 then char_of (byte c + 32) else c)"

definition digit_value :: "char \<Rightarrow> nat option" where
  "digit_value c =
     (let b = byte (lower_byte c) in
      if 48 \<le> b \<and> b \<le> 57 then Some (b - 48) else if 97 \<le> b \<and> b \<le> 122 then Some (b - 97 + 10) else None)"

datatype num_error = SyntaxError | RangeError

fun uint_digits :: "nat \<Rightarrow> string \<Rightarrow> nat \<Rightarrow> num_error + nat" where
  "uint_digits base [] n = Inr n"
| "uint_digits base (c # s) n =
     (if c = CHR ''_'' then uint_digits base s n
      else
        (case digit_value c of
           None \<Rightarrow> Inl SyntaxError
         | Some d \<Rightarrow>
             if d \<ge> base then Inl SyntaxError
             else if n * base + d \<ge> 2 ^ 64 then Inl RangeError
             else uint_digits base s (n * base + d)))"

text \<open>\<^verbatim>\<open>underscoreOK\<close>: the state is the kind of the last byte.\<close>

fun underscores_ok :: "bool \<Rightarrow> char \<Rightarrow> string \<Rightarrow> bool" where
  "underscores_ok hex i [] \<longleftrightarrow> i \<noteq> CHR ''_''"
| "underscores_ok hex i (c # s) \<longleftrightarrow>
     (if json_digit c \<or> hex \<and> lower_byte c \<in> set ''abcdef'' then underscores_ok hex (CHR ''0'') s
      else if c = CHR ''_'' then i = CHR ''0'' \<and> underscores_ok hex (CHR ''_'') s
      else i \<noteq> CHR ''_'' \<and> underscores_ok hex (CHR ''!'') s)"

definition underscoreOK :: "string \<Rightarrow> bool" where
  "underscoreOK s =
     (if length s \<ge> 2 \<and> hd s = CHR ''0'' \<and> lower_byte (s ! 1) \<in> {CHR ''b'', CHR ''o'', CHR ''x''}
      then underscores_ok (lower_byte (s ! 1) = CHR ''x'') (CHR ''0'') (drop 2 s)
      else underscores_ok False (CHR ''^'') s)"

text \<open>\<^verbatim>\<open>ParseUint(s, 0, 64)\<close>\<close>

definition parse_uint0 :: "string \<Rightarrow> num_error + nat" where
  "parse_uint0 s =
     (if s = [] then Inl SyntaxError
      else
        (let (base, t) =
           (if hd s \<noteq> CHR ''0'' then (10, s)
            else if length s \<ge> 3 \<and> lower_byte (s ! 1) = CHR ''b'' then (2, drop 2 s)
            else if length s \<ge> 3 \<and> lower_byte (s ! 1) = CHR ''o'' then (8, drop 2 s)
            else if length s \<ge> 3 \<and> lower_byte (s ! 1) = CHR ''x'' then (16, drop 2 s)
            else (8, drop 1 s))
         in case uint_digits base t 0 of
              Inl e \<Rightarrow> Inl e
            | Inr n \<Rightarrow> if CHR ''_'' \<in> set t \<and> \<not> underscoreOK s then Inl SyntaxError else Inr n))"

text \<open>\<^verbatim>\<open>ParseInt(s, 0, 64)\<close>\<close>

definition parse_int0 :: "string \<Rightarrow> num_error + int" where
  "parse_int0 s =
     (if s = [] then Inl SyntaxError
      else
        (let neg = (hd s = CHR ''-''); t = (if hd s = CHR ''+'' \<or> neg then tl s else s) in
         case parse_uint0 t of
           Inl e \<Rightarrow> Inl e
         | Inr n \<Rightarrow>
             if \<not> neg \<and> n \<ge> 2 ^ 63 \<or> neg \<and> n > 2 ^ 63 then Inl RangeError
             else Inr (if neg then - int n else int n)))"

section \<open>Flags\<close>

datatype flag_kind = BoolFlag | StringFlag | IntFlag
datatype flag_value = BoolValue bool | StringValue string | IntValue int

type_synonym flag_values = "(string, flag_value) gomap"

definition set_flag :: "flag_kind \<Rightarrow> string \<Rightarrow> string + flag_value" where
  "set_flag k v =
     (case k of
        BoolFlag \<Rightarrow> (case ParseBool v of None \<Rightarrow> Inl ''parse error'' | Some b \<Rightarrow> Inr (BoolValue b))
      | StringFlag \<Rightarrow> Inr (StringValue v)
      | IntFlag \<Rightarrow>
          (case parse_int0 v of
             Inl SyntaxError \<Rightarrow> Inl ''parse error''
           | Inl RangeError \<Rightarrow> Inl ''value out of range''
           | Inr n \<Rightarrow> Inr (IntValue n)))"

text \<open>A flag without its dashes: the name and the value after the first equals sign, which is not the first byte.\<close>

definition split_flag :: "string \<Rightarrow> string \<times> string option" where
  "split_flag nv =
     (let rest = dropWhile (\<lambda>c. c \<noteq> CHR ''='') (tl nv) in
      if rest = [] then (nv, None) else (take (length nv - length rest) nv, Some (tl rest)))"

function parse_flags :: "(string \<times> flag_kind) list \<Rightarrow> string list \<Rightarrow> flag_values \<Rightarrow> string + flag_values \<times> string list" where
  "parse_flags ks [] vs = Inr (vs, [])"
| "parse_flags ks (s # args) vs =
     (if length s < 2 \<or> hd s \<noteq> CHR ''-'' then Inr (vs, s # args)
      else if s = ''--'' then Inr (vs, args)
      else
        (let nv = (if s ! 1 = CHR ''-'' then drop 2 s else drop 1 s) in
         if nv = [] \<or> hd nv = CHR ''-'' \<or> hd nv = CHR ''='' then Inl (''bad flag syntax: '' @ s)
         else
           (let (name, value) = split_flag nv in
            case map_of ks name of
              None \<Rightarrow> Inl (if name \<in> {''help'', ''h''} then ''flag: help requested'' else ''flag provided but not defined: -'' @ name)
            | Some k \<Rightarrow>
                if k = BoolFlag then
                  (case set_flag k (case value of None \<Rightarrow> ''true'' | Some v \<Rightarrow> v) of
                     Inl e \<Rightarrow> Inl (''invalid boolean value '' @ quoted (the value) @ '' for -'' @ name @ '': '' @ e)
                   | Inr x \<Rightarrow> parse_flags ks args (AList.update name x vs))
                else if value = None \<and> args = [] then Inl (''flag needs an argument: -'' @ name)
                else
                  (let v = (case value of None \<Rightarrow> hd args | Some v \<Rightarrow> v) in
                   case set_flag k v of
                     Inl e \<Rightarrow> Inl (''invalid value '' @ quoted v @ '' for flag -'' @ name @ '': '' @ e)
                   | Inr x \<Rightarrow> parse_flags ks (if value = None then tl args else args) (AList.update name x vs)))))"
  by pat_completeness auto

termination parse_flags
  by (relation "measure (\<lambda>(ks, args, vs). length args)") auto

declare parse_flags.simps [simp del]

definition bool_flag :: "flag_values \<Rightarrow> string \<Rightarrow> bool" where
  "bool_flag vs name = (case map_of vs name of Some (BoolValue b) \<Rightarrow> b | _ \<Rightarrow> False)"

definition string_flag :: "flag_values \<Rightarrow> string \<Rightarrow> string" where
  "string_flag vs name = (case map_of vs name of Some (StringValue s) \<Rightarrow> s | _ \<Rightarrow> '''')"

definition int_flag :: "flag_values \<Rightarrow> string \<Rightarrow> int" where
  "int_flag vs name = (case map_of vs name of Some (IntValue i) \<Rightarrow> i | _ \<Rightarrow> 0)"

section \<open>The option tail\<close>

definition unexpected_argument :: "string list \<Rightarrow> string \<times> string" where
  "unexpected_argument xs = (''unexpected_argument '' @ quoted (join_with '' '' xs), ''unexpected_argument'')"

definition indexOf :: "string list \<Rightarrow> string \<Rightarrow> nat option" where
  "indexOf a s = (let i = length (takeWhile (\<lambda>v. v \<noteq> s) a) in if i < length a then Some i else None)"

definition parse_tail :: "(string \<times> flag_kind) list \<Rightarrow> string list \<Rightarrow> string \<times> string + flag_values" where
  "parse_tail ks rest =
     (case parse_flags ks rest [] of
        Inl e \<Rightarrow> Inl (e, ''invalid_argument'')
      | Inr (vs, xs) \<Rightarrow> if xs \<noteq> [] then Inl (unexpected_argument xs) else Inr vs)"

definition option_tail :: "(string \<times> flag_kind) list \<Rightarrow> string list \<Rightarrow> string \<times> string + flag_values" where
  "option_tail ks rest =
     (case indexOf rest ''--'' of
        Some i \<Rightarrow> if i + 1 < length rest then Inl (unexpected_argument (drop (i + 1) rest)) else parse_tail ks (take i rest)
      | None \<Rightarrow> parse_tail ks rest)"

section \<open>Output\<close>

text \<open>An error of a write, and whether it is or wraps \<^verbatim>\<open>EPIPE\<close>.\<close>

type_synonym write_error = "goerr \<times> bool"

definition isEPIPE :: "write_error option \<Rightarrow> bool" where
  "isEPIPE e =
     (case e of
        None \<Rightarrow> False
      | Some (err, epipe) \<Rightarrow>
          epipe \<or>
          (let lower = map lower_byte (err_msg err) in
           sublist ''broken pipe'' lower \<or> sublist ''closed pipe'' lower \<or> sublist ''file already closed'' lower \<or> sublist ''already closed'' lower))"

record streams =
  sm_out :: string
  sm_errOut :: string
  sm_outErr :: "write_error option"
  sm_errOutErr :: "write_error option"

definition write_out :: "string \<Rightarrow> streams \<Rightarrow> write_error option \<times> streams" where
  "write_out t sm = (case sm_outErr sm of Some e \<Rightarrow> (Some e, sm) | None \<Rightarrow> (None, sm\<lparr>sm_out := sm_out sm @ t\<rparr>))"

definition write_errOut :: "string \<Rightarrow> streams \<Rightarrow> write_error option \<times> streams" where
  "write_errOut t sm = (case sm_errOutErr sm of Some e \<Rightarrow> (Some e, sm) | None \<Rightarrow> (None, sm\<lparr>sm_errOut := sm_errOut sm @ t\<rparr>))"

definition hide_EPIPE :: "write_error option \<times> streams \<Rightarrow> write_error option \<times> streams" where
  "hide_EPIPE r = (if isEPIPE (fst r) then (None, snd r) else r)"

definition writeJSON :: "json \<Rightarrow> streams \<Rightarrow> write_error option \<times> streams" where
  "writeJSON v sm = hide_EPIPE (write_out (json_text v @ newline) sm)"

definition error_json :: "string \<Rightarrow> string \<Rightarrow> json" where
  "error_json msg code = JObj [(''code'', JStr code), (''error'', JStr msg)]"

definition writeJSONError_out :: "string \<Rightarrow> string \<Rightarrow> streams \<Rightarrow> write_error option \<times> streams" where
  "writeJSONError_out msg code sm = writeJSON (error_json msg code) sm"

definition writeJSONError_errOut :: "string \<Rightarrow> string \<Rightarrow> streams \<Rightarrow> write_error option \<times> streams" where
  "writeJSONError_errOut msg code sm = hide_EPIPE (write_errOut (json_text (error_json msg code) @ newline) sm)"

text \<open>The closure \<^verbatim>\<open>writeErr\<close> of \<^verbatim>\<open>Execute\<close>.\<close>

definition writeErr :: "string \<Rightarrow> string \<Rightarrow> streams \<Rightarrow> int \<times> streams" where
  "writeErr msg code sm =
     (case writeJSONError_out msg code sm of
        (None, sm') \<Rightarrow> (1, sm')
      | (Some e, sm') \<Rightarrow>
          if isEPIPE (Some e) then (0, sm')
          else
            (case writeJSONError_errOut msg code sm' of
               (err2, sm'') \<Rightarrow> if err2 \<noteq> None \<and> isEPIPE err2 then (0, sm'') else (1, sm'')))"

text \<open>Every write hides a closed pipe, so the branches for it are dead: an error always ends with code one.\<close>

lemma writeErr_code: "fst (writeErr msg code sm) = 1"
  by (auto simp: writeErr_def writeJSONError_out_def writeJSON_def writeJSONError_errOut_def hide_EPIPE_def split: prod.splits option.splits)

lemma writeErr_out: "sm_outErr sm = None \<Longrightarrow> writeErr msg code sm = (1, sm\<lparr>sm_out := sm_out sm @ json_text (error_json msg code) @ newline\<rparr>)"
  by (simp add: writeErr_def writeJSONError_out_def writeJSON_def hide_EPIPE_def write_out_def isEPIPE_def)

end
