(* ===== verification/Client.thy ===== *)
theory Client
  imports Broker_Protocol
begin

text \<open>
  \<^verbatim>\<open>internal/ipc/client.go\<close>: the client that multiplexes JSON-RPC calls over one connection. A Go
  channel is a buffer in a heap of channels, addressed by its position; a send into a full buffer
  blocks, which is the value \<open>None\<close>. A \<^verbatim>\<open>select\<close> takes any of its ready cases. The step relation
  interleaves the calls of several goroutines, the reader, the consumer of the notifications and
  \<^verbatim>\<open>Close\<close> at the points where the code takes a lock or waits.
\<close>

section \<open>State\<close>

datatype client_error = NetClosed | EncodingFailed encode_error | WriteError goerr | ContextError goerr | ReadFailed decode_error | RemoteError RPCError

record clientResponse =
  cr_result :: string
  cr_err :: "client_error option"

type_synonym chan = nat

datatype reader = Reading | ReaderDone

record Client =
  cl_nextID :: int
  cl_pending :: "(string, chan) gomap"
  cl_chans :: "clientResponse list list"
  cl_notifications :: "Message list"
  cl_closed :: bool
  cl_reader :: reader

definition NewClient :: Client where
  "NewClient = \<lparr>cl_nextID = 0, cl_pending = [], cl_chans = [], cl_notifications = [], cl_closed = False, cl_reader = Reading\<rparr>"

definition notification_cap :: nat where
  "notification_cap = 64"

definition failed :: "client_error \<Rightarrow> clientResponse" where
  "failed e = \<lparr>cr_result = '''', cr_err = Some e\<rparr>"

text \<open>A send into a channel of capacity one.\<close>

definition send :: "chan \<Rightarrow> clientResponse \<Rightarrow> Client \<Rightarrow> Client option" where
  "send a r c = (if length (cl_chans c ! a) < 1 then Some (c\<lparr>cl_chans := (cl_chans c)[a := cl_chans c ! a @ [r]]\<rparr>) else None)"

definition removePending :: "string \<Rightarrow> Client \<Rightarrow> Client" where
  "removePending key c = c\<lparr>cl_pending := AList.delete key (cl_pending c)\<rparr>"

section \<open>Calls\<close>

definition call_begin :: "Client \<Rightarrow> (client_error + string \<times> chan) \<times> Client" where
  "call_begin c =
     (let i = cl_nextID c + 1; key = itoa i; response = length (cl_chans c);
          c = c\<lparr>cl_nextID := i, cl_chans := cl_chans c @ [[]]\<rparr> in
      if cl_closed c then (Inl NetClosed, c)
      else (Inr (key, response), c\<lparr>cl_pending := AList.update key response (cl_pending c)\<rparr>))"

text \<open>Writing the request: the line it puts on the connection, or why it fails; the connection may refuse it.\<close>

definition call_write :: "string \<Rightarrow> string \<Rightarrow> json option \<Rightarrow> goerr option \<Rightarrow> Client \<Rightarrow> (client_error + string) \<times> Client" where
  "call_write key mth params connErr c =
     (case EncodeRequest (IdNumber key) mth params of
        Inl e \<Rightarrow> (Inl (EncodingFailed e), removePending key c)
      | Inr line \<Rightarrow> (case connErr of Some e \<Rightarrow> (Inl (WriteError e), removePending key c) | None \<Rightarrow> (Inr line, c)))"

datatype ready = GotReply | CtxDone goerr | SawClosed

text \<open>The final \<^verbatim>\<open>select\<close> of a call; a case that is not ready gives \<open>None\<close>.\<close>

definition call_select :: "ready \<Rightarrow> string \<Rightarrow> chan \<Rightarrow> Client \<Rightarrow> (clientResponse \<times> Client) option" where
  "call_select r key a c =
     (case r of
        GotReply \<Rightarrow> (case cl_chans c ! a of [] \<Rightarrow> None | x # xs \<Rightarrow> Some (x, c\<lparr>cl_chans := (cl_chans c)[a := xs]\<rparr>))
      | CtxDone e \<Rightarrow> Some (failed (ContextError e), removePending key c)
      | SawClosed \<Rightarrow> if cl_closed c then Some (failed NetClosed, c) else None)"

section \<open>Reading\<close>

definition idKey :: "ID option \<Rightarrow> string" where
  "idKey i =
     (case i of
        None \<Rightarrow> ''''
      | Some x \<Rightarrow> if IsNull i then ''null'' else if IsString i then ''s:'' @ id_Str x else id_Num x)"

text \<open>The loop over the pending calls, which sends and deletes; the order in which Go ranges over the map does not
  matter, since the channels are different.\<close>

fun fail_each :: "client_error \<Rightarrow> (string \<times> chan) list \<Rightarrow> Client \<Rightarrow> Client option" where
  "fail_each e [] c = Some c"
| "fail_each e ((key, a) # ps) c =
     (case send a (failed e) c of None \<Rightarrow> None | Some c \<Rightarrow> fail_each e ps (removePending key c))"

definition failPending :: "client_error \<Rightarrow> Client \<Rightarrow> Client option" where
  "failPending e c = fail_each e (cl_pending c) (c\<lparr>cl_closed := True\<rparr>)"

definition client_Close :: "Client \<Rightarrow> Client option" where
  "client_Close c = (if cl_closed c then Some c else fail_each NetClosed (cl_pending c) (c\<lparr>cl_closed := True\<rparr>))"

definition response_of :: "Message \<Rightarrow> clientResponse" where
  "response_of msg =
     (case msg_Error msg of
        Some e \<Rightarrow> failed (RemoteError e)
      | None \<Rightarrow> \<lparr>cr_result = msg_Result msg, cr_err = None\<rparr>)"

text \<open>One round of \<^verbatim>\<open>readLoop\<close>. A notification waits for room in its channel or for the end of the client; the
  flag chooses when both are ready.\<close>

definition read_round :: "bool \<Rightarrow> decode_error + Message \<Rightarrow> Client \<Rightarrow> Client option" where
  "read_round stop r c =
     (case r of
        Inl e \<Rightarrow> map_option (\<lambda>c. c\<lparr>cl_reader := ReaderDone\<rparr>) (failPending (if e = EOF then NetClosed else ReadFailed e) c)
      | Inr msg \<Rightarrow>
          (case msg_ID msg of
             None \<Rightarrow>
               if cl_closed c \<and> (stop \<or> length (cl_notifications c) \<ge> notification_cap) then Some (c\<lparr>cl_reader := ReaderDone\<rparr>)
               else if length (cl_notifications c) < notification_cap then Some (c\<lparr>cl_notifications := cl_notifications c @ [msg]\<rparr>)
               else None
           | Some i \<Rightarrow>
               (case map_of (cl_pending c) (idKey (Some i)) of
                  None \<Rightarrow> Some c
                | Some a \<Rightarrow> send a (response_of msg) (removePending (idKey (Some i)) c))))"

text \<open>The reader on the lines of a stream that stays open.\<close>

fun read_lines :: "string list \<Rightarrow> Client \<Rightarrow> Client option" where
  "read_lines [] c = Some c"
| "read_lines (l # ls) c =
     (case read_round False (fst (DecodeMessage l)) c of
        None \<Rightarrow> None
      | Some c \<Rightarrow> if cl_reader c = ReaderDone then Some c else read_lines ls c)"

text \<open>A whole call on a connection whose peer answers a line with some lines; \<open>None\<close> when it waits for ever.\<close>

definition client_Call :: "ready \<Rightarrow> goerr option \<Rightarrow> (string \<Rightarrow> string list) \<Rightarrow> string \<Rightarrow> json option \<Rightarrow> Client \<Rightarrow> (clientResponse \<times> Client) option" where
  "client_Call r connErr peer mth params c =
     (case call_begin c of
        (Inl e, c) \<Rightarrow> Some (failed e, c)
      | (Inr (key, a), c) \<Rightarrow>
          (case call_write key mth params connErr c of
             (Inl e, c) \<Rightarrow> Some (failed e, c)
           | (Inr line, c) \<Rightarrow> (case read_lines (peer line) c of None \<Rightarrow> None | Some c \<Rightarrow> call_select r key a c)))"

text \<open>A transport derives an endpoint from the root and dials it; the launcher, if there is one, ensures the endpoint.\<close>

record IpcTransport =
  tr_Endpoint :: "string \<Rightarrow> goerr + string"
  tr_Dial :: "string \<Rightarrow> goerr + (string \<Rightarrow> string list)"

definition CallWithLauncher :: "ready \<Rightarrow> (string \<Rightarrow> goerr + string) option \<Rightarrow> IpcTransport option \<Rightarrow> string \<Rightarrow> string \<Rightarrow> json option \<Rightarrow>
    (goerr + clientResponse) option" where
  "CallWithLauncher r launcher tr rootDir mth params =
     (case tr of
        None \<Rightarrow> Some (Inl (errorf ''nil IPC transport''))
      | Some tr \<Rightarrow>
          (case (case launcher of Some ensure \<Rightarrow> ensure rootDir | None \<Rightarrow> tr_Endpoint tr rootDir) of
             Inl e \<Rightarrow> Some (Inl e)
           | Inr endpoint \<Rightarrow>
               (case tr_Dial tr endpoint of
                  Inl e \<Rightarrow> Some (Inl e)
                | Inr peer \<Rightarrow> map_option (\<lambda>x. Inr (fst x)) (client_Call r None peer mth params NewClient))))"

definition RemoteError_Error :: "RPCError \<Rightarrow> string" where
  "RemoteError_Error e =
     (if rpc_Message e = '''' then ''rpc error '' @ itoa (rpc_Code e) else ''rpc error '' @ itoa (rpc_Code e) @ '': '' @ rpc_Message e)"

section \<open>Interleavings\<close>

text \<open>What can happen to a client whose peer sends messages out of a set. A call that began is written at most once
  and returns at most once, which the relation does not need to require.\<close>

inductive client_step :: "Message set \<Rightarrow> Client \<Rightarrow> Client \<Rightarrow> bool" for M where
  begins: "cl_nextID c < 2 ^ 63 - 1 \<Longrightarrow> client_step M c (snd (call_begin c))"
| writes: "client_step M c (snd (call_write key mth params connErr c))"
| returns: "a < length (cl_chans c) \<Longrightarrow> call_select r (itoa (int a + 1)) a c = Some (x, c') \<Longrightarrow> client_step M c c'"
| reads: "cl_reader c = Reading \<Longrightarrow> m \<in> M \<Longrightarrow> read_round b (Inr m) c = Some c' \<Longrightarrow> client_step M c c'"
| breaks: "cl_reader c = Reading \<Longrightarrow> read_round b (Inl e) c = Some c' \<Longrightarrow> client_step M c c'"
| closes: "client_Close c = Some c' \<Longrightarrow> client_step M c c'"
| drains: "cl_notifications c = n # ns \<Longrightarrow> client_step M c (c\<lparr>cl_notifications := ns\<rparr>)"

section \<open>Invariant\<close>

lemma itoa_eq: "0 \<le> m \<Longrightarrow> m < 2 ^ 63 \<Longrightarrow> 0 \<le> n \<Longrightarrow> n < 2 ^ 63 \<Longrightarrow> itoa m = itoa n \<longleftrightarrow> m = n"
  using decode_int_itoa [of m] decode_int_itoa [of n] by (metis Inr_inject option.inject neg_le_0_iff_le order.trans zero_le_numeral zero_le_power)

definition key_of :: "chan \<Rightarrow> string" where
  "key_of a = itoa (int a + 1)"

lemma key_of_eq: "int a + 1 < 2 ^ 63 \<Longrightarrow> int b + 1 < 2 ^ 63 \<Longrightarrow> key_of a = key_of b \<longleftrightarrow> a = b"
  by (simp add: key_of_def itoa_eq)

definition gone :: "client_error \<Rightarrow> bool" where
  "gone e \<longleftrightarrow> e = NetClosed \<or> (\<exists>d. e = ReadFailed d)"

text \<open>What may lie in the channel of a call.\<close>

definition belongs :: "Message set \<Rightarrow> bool \<Rightarrow> chan \<Rightarrow> clientResponse \<Rightarrow> bool" where
  "belongs M closed a r \<longleftrightarrow>
     (\<exists>m \<in> M. msg_ID m \<noteq> None \<and> idKey (msg_ID m) = key_of a \<and> r = response_of m) \<or> closed \<and> (\<exists>e. gone e \<and> r = failed e)"

definition client_core :: "Message set \<Rightarrow> Client \<Rightarrow> bool" where
  "client_core M c \<longleftrightarrow>
     int (length (cl_chans c)) = cl_nextID c \<and> cl_nextID c < 2 ^ 63 \<and> gomap (cl_pending c) \<and>
     (\<forall>k a. (k, a) \<in> set (cl_pending c) \<longrightarrow> a < length (cl_chans c) \<and> k = key_of a \<and> cl_chans c ! a = []) \<and>
     (\<forall>a < length (cl_chans c). length (cl_chans c ! a) \<le> 1 \<and> (\<forall>r \<in> set (cl_chans c ! a). belongs M (cl_closed c) a r)) \<and>
     length (cl_notifications c) \<le> notification_cap \<and> set (cl_notifications c) \<subseteq> M"

definition client_ok :: "Message set \<Rightarrow> Client \<Rightarrow> bool" where
  "client_ok M c \<longleftrightarrow> client_core M c \<and> (cl_closed c \<longrightarrow> cl_pending c = [])"

text \<open>The call has its answer behind it.\<close>

definition settled :: "chan \<Rightarrow> Client \<Rightarrow> bool" where
  "settled a c \<longleftrightarrow> a < length (cl_chans c) \<and> cl_chans c ! a = [] \<and> (\<forall>k. (k, a) \<notin> set (cl_pending c))"

lemma belongs_closed: "belongs M b a r \<Longrightarrow> belongs M True a r"
  by (auto simp: belongs_def)

lemma client_ok_new: "client_ok M NewClient"
  by (simp add: client_ok_def client_core_def NewClient_def gomap_def notification_cap_def)

lemma gomap_delete_key: "gomap m \<Longrightarrow> gomap (AList.delete k m)"
  by (simp add: gomap_def distinct_delete)

lemma set_delete_key: "(x, a) \<in> set (AList.delete k m) \<longleftrightarrow> (x, a) \<in> set m \<and> x \<noteq> k"
  by (auto simp: AList.delete_eq)

lemma client_core_remove: "client_core M c \<Longrightarrow> client_core M (removePending key c)"
  by (auto simp: client_core_def removePending_def gomap_delete_key set_delete_key)

lemma client_ok_remove: "client_ok M c \<Longrightarrow> client_ok M (removePending key c)"
  by (simp add: client_ok_def client_core_remove) (simp add: removePending_def)

lemma settled_remove: "settled a c \<Longrightarrow> settled a (removePending key c)"
  by (auto simp: settled_def removePending_def set_delete_key)

lemma update_absent: "k \<notin> fst ` set m \<Longrightarrow> AList.update k v m = m @ [(k, v)]"
  by (induction m) auto

lemma in_update: "x \<in> set (AList.update k v m) \<Longrightarrow> x = (k, v) \<or> x \<in> set m"
  by (induction m) (auto split: if_splits)

lemma client_ok_begin:
  assumes "client_ok M c" "cl_nextID c < 2 ^ 63 - 1"
  shows "client_ok M (snd (call_begin c))"
proof -
  have n: "cl_nextID c + 1 = int (length (cl_chans c)) + 1" "int (length (cl_chans c)) + 1 < 2 ^ 63" using assms by (simp_all add: client_ok_def client_core_def)
  have new: "key_of (length (cl_chans c)) \<notin> fst ` set (cl_pending c)"
  proof
    assume "key_of (length (cl_chans c)) \<in> fst ` set (cl_pending c)"
    then obtain a where "(key_of (length (cl_chans c)), a) \<in> set (cl_pending c)" by auto
    then have "a < length (cl_chans c)" "key_of (length (cl_chans c)) = key_of a" using assms(1) unfolding client_ok_def client_core_def by blast+
    then show False using n(2) key_of_eq [of "length (cl_chans c)" a] by simp
  qed
  then have u: "AList.update (key_of (length (cl_chans c))) x (cl_pending c) = cl_pending c @ [(key_of (length (cl_chans c)), x)]" for x
    by (rule update_absent)
  show ?thesis using assms n new u unfolding client_ok_def client_core_def call_begin_def
    by (auto simp: Let_def key_of_def [symmetric] nth_append gomap_def less_Suc_eq)
qed

text \<open>Delivering a response to a pending call never blocks.\<close>

definition deliver :: "string \<Rightarrow> chan \<Rightarrow> clientResponse \<Rightarrow> Client \<Rightarrow> Client" where
  "deliver key a r c = removePending key (c\<lparr>cl_chans := (cl_chans c)[a := [r]]\<rparr>)"

lemma deliver_core:
  assumes "client_core M c" "(key, a) \<in> set (cl_pending c)" "belongs M (cl_closed c) a r"
  shows "client_core M (deliver key a r c)" "send a r c = Some (c\<lparr>cl_chans := (cl_chans c)[a := [r]]\<rparr>)"
    "send a r (removePending key c) = Some (deliver key a r c)" "settled b c \<Longrightarrow> settled b (deliver key a r c)"
proof -
  have a: "a < length (cl_chans c)" "key = key_of a" "cl_chans c ! a = []" using assms(1,2) unfolding client_core_def by blast+
  then show "send a r c = Some (c\<lparr>cl_chans := (cl_chans c)[a := [r]]\<rparr>)" "send a r (removePending key c) = Some (deliver key a r c)"
    by (simp_all add: send_def deliver_def removePending_def)
  show "settled b c \<Longrightarrow> settled b (deliver key a r c)"
    using assms(2) by (cases "b = a") (auto simp: settled_def deliver_def removePending_def set_delete_key)
  have k: "a' \<noteq> a" if "(k, a') \<in> set (cl_pending c)" "k \<noteq> key" for k a'
    using that assms(1) a(2) unfolding client_core_def by blast
  show "client_core M (deliver key a r c)"
    using assms a(1) k unfolding client_core_def deliver_def removePending_def
    by (auto simp: gomap_delete_key set_delete_key nth_list_update)
qed

lemma fail_each_core:
  assumes "client_core M c" "cl_closed c" "gone e" "cl_pending c = ps"
  shows "\<exists>c'. fail_each e ps c = Some c' \<and> client_core M c' \<and> cl_pending c' = [] \<and> cl_closed c' \<and>
    cl_notifications c' = cl_notifications c \<and> (\<forall>b. settled b c \<longrightarrow> settled b c')"
  using assms
proof (induction ps arbitrary: c)
  case (Cons p ps)
  obtain key a where p: "p = (key, a)" by (cases p)
  then have i: "(key, a) \<in> set (cl_pending c)" using Cons.prems(4) by simp
  have b: "belongs M (cl_closed c) a (failed e)" using Cons.prems(2,3) by (auto simp: belongs_def)
  note d = deliver_core [OF Cons.prems(1) i b]
  have "distinct (map fst (cl_pending c))" using Cons.prems(1) by (simp add: client_core_def gomap_def)
  then have "key \<notin> fst ` set ps" using Cons.prems(4) p by simp
  then have "AList.delete key (cl_pending c) = ps" using Cons.prems(4) p by (simp add: delete_id)
  then have "cl_pending (deliver key a (failed e) c) = ps" by (simp add: deliver_def removePending_def)
  moreover have "cl_closed (deliver key a (failed e) c)" "cl_notifications (deliver key a (failed e) c) = cl_notifications c"
    using Cons.prems(2) by (simp_all add: deliver_def removePending_def)
  ultimately obtain c' where c': "fail_each e ps (deliver key a (failed e) c) = Some c'" "client_core M c'" "cl_pending c' = []" "cl_closed c'"
    "cl_notifications c' = cl_notifications c" "\<forall>b. settled b (deliver key a (failed e) c) \<longrightarrow> settled b c'"
    using Cons.IH [OF d(1) _ Cons.prems(3)] by auto
  have "fail_each e (p # ps) c = Some c'" using c'(1) d(2) p by (simp add: deliver_def)
  then show ?case using c' d(4) by blast
qed simp

lemma closing:
  assumes "client_ok M c" "gone e"
  shows "\<exists>c'. fail_each e (cl_pending c) (c\<lparr>cl_closed := True\<rparr>) = Some c' \<and> client_ok M c' \<and> cl_closed c' \<and> (\<forall>b. settled b c \<longrightarrow> settled b c')"
proof -
  let ?c = "c\<lparr>cl_closed := True\<rparr>"
  have "client_core M ?c" using assms(1) belongs_closed unfolding client_ok_def client_core_def by (auto; blast)
  then obtain c' where "fail_each e (cl_pending c) ?c = Some c'" "client_core M c'" "cl_pending c' = []" "cl_closed c'" "\<forall>b. settled b ?c \<longrightarrow> settled b c'"
    using fail_each_core [of M ?c e "cl_pending c"] assms(2) by auto
  moreover have "settled b ?c = settled b c" for b by (simp add: settled_def)
  ultimately show ?thesis by (auto simp: client_ok_def)
qed

lemma read_round_ok:
  assumes "client_ok M c" "\<forall>m. r = Inr m \<longrightarrow> m \<in> M"
  shows "(read_round b r c = None \<longleftrightarrow> (\<exists>m. r = Inr m \<and> msg_ID m = None) \<and> \<not> cl_closed c \<and> length (cl_notifications c) \<ge> notification_cap) \<and>
    (\<forall>c'. read_round b r c = Some c' \<longrightarrow> client_ok M c' \<and> (\<forall>a. settled a c \<longrightarrow> settled a c'))"
proof (cases r)
  case (Inl e)
  have "gone (if e = EOF then NetClosed else ReadFailed e)" by (simp add: gone_def)
  then obtain c' where c': "failPending (if e = EOF then NetClosed else ReadFailed e) c = Some c'" "client_ok M c'" "\<forall>a. settled a c \<longrightarrow> settled a c'"
    using closing [OF assms(1)] unfolding failPending_def by blast
  have "client_ok M (c'\<lparr>cl_reader := ReaderDone\<rparr>)" "settled a (c'\<lparr>cl_reader := ReaderDone\<rparr>) = settled a c'" for a
    using c'(2) by (simp_all add: client_ok_def client_core_def settled_def)
  then show ?thesis using c'(1,3) Inl by (simp add: read_round_def)
next
  case (Inr m)
  show ?thesis
  proof (cases "msg_ID m")
    case None
    then show ?thesis using assms Inr by (auto simp: read_round_def client_ok_def client_core_def settled_def)
  next
    case (Some i)
    show ?thesis
    proof (cases "map_of (cl_pending c) (idKey (Some i))")
      case None
      then show ?thesis using assms Inr Some by (simp add: read_round_def)
    next
      case (Some a)
      have core: "client_core M c" "\<not> cl_closed c" using assms(1) Some by (auto simp: client_ok_def)
      have i: "(idKey (msg_ID m), a) \<in> set (cl_pending c)" using Some \<open>msg_ID m = Some i\<close> by (simp add: map_of_SomeD)
      then have "idKey (msg_ID m) = key_of a" using core(1) unfolding client_core_def by blast
      then have "belongs M (cl_closed c) a (response_of m)" using assms(2) Inr \<open>msg_ID m = Some i\<close> by (auto simp: belongs_def)
      note d = deliver_core [OF core(1) i this]
      have "read_round b r c = Some (deliver (idKey (msg_ID m)) a (response_of m) c)"
        using d(3) Inr Some \<open>msg_ID m = Some i\<close> by (simp add: read_round_def)
      moreover have "\<not> cl_closed (deliver (idKey (msg_ID m)) a (response_of m) c)" using core(2) by (simp add: deliver_def removePending_def)
      ultimately show ?thesis using d(1,4) Inr \<open>msg_ID m = Some i\<close> by (simp add: client_ok_def)
    qed
  qed
qed

lemma client_Close_ok:
  "client_ok M c \<Longrightarrow> \<exists>c'. client_Close c = Some c' \<and> client_ok M c' \<and> cl_closed c' \<and> (\<forall>a. settled a c \<longrightarrow> settled a c')"
  using closing [of M c NetClosed] by (cases "cl_closed c") (simp_all add: client_Close_def gone_def)

lemma call_select_ok:
  assumes "client_ok M c" "a < length (cl_chans c)" "call_select r (key_of a) a c = Some (x, c')"
  shows "client_ok M c' \<and> (\<forall>b. settled b c \<longrightarrow> settled b c')"
proof (cases r)
  case GotReply
  then obtain xs where x: "cl_chans c ! a = x # xs" "c' = c\<lparr>cl_chans := (cl_chans c)[a := xs]\<rparr>"
    using assms(3) by (auto simp: call_select_def split: list.splits)
  have "length (cl_chans c ! a) \<le> 1" using assms(1,2) unfolding client_ok_def client_core_def by blast
  then have "xs = []" using x(1) by simp
  then show ?thesis using assms(1,2) x unfolding client_ok_def client_core_def
    by (auto simp: nth_list_update settled_def)
next
  case (CtxDone e)
  then show ?thesis using assms client_ok_remove settled_remove by (auto simp: call_select_def)
next
  case SawClosed
  then show ?thesis using assms by (auto simp: call_select_def split: if_splits)
qed

lemma client_step_ok:
  assumes "client_step M c c'" "client_ok M c"
  shows "client_ok M c' \<and> (\<forall>a. settled a c \<longrightarrow> settled a c')"
  using assms
proof (induction rule: client_step.induct)
  case (begins c)
  have "settled a (snd (call_begin c))" if "settled a c" for a
    using that unfolding settled_def call_begin_def by (auto simp: Let_def nth_append dest!: in_update)
  then show ?case using client_ok_begin [OF begins(2,1)] by simp
next
  case (writes c key mth params connErr)
  then show ?case using client_ok_remove settled_remove by (auto simp: call_write_def split: sum.splits option.splits)
next
  case (returns a c r x c')
  then show ?case using call_select_ok [of M c a r x c'] by (simp add: key_of_def)
next
  case (reads c m b c')
  then show ?case using read_round_ok [of M c "Inr m" b] by simp
next
  case (breaks c b e c')
  then show ?case using read_round_ok [of M c "Inl e" b] by simp
next
  case (closes c c')
  then show ?case using client_Close_ok [of M c] by auto
next
  case (drains c n ns)
  then show ?case unfolding client_ok_def client_core_def settled_def by auto
qed

lemma client_run_ok:
  assumes "(client_step M)\<^sup>*\<^sup>* c c'" "client_ok M c"
  shows "client_ok M c' \<and> (\<forall>a. settled a c \<longrightarrow> settled a c')"
  using assms by (induction rule: rtranclp_induct) (use client_step_ok in blast)+

section \<open>A client and a server\<close>

text \<open>Calls that are begun and written one after the other; \<open>None\<close> when one cannot be written.\<close>

fun begin_calls :: "(string \<times> json option) list \<Rightarrow> Client \<Rightarrow> (string list \<times> Client) option" where
  "begin_calls [] c = Some ([], c)"
| "begin_calls ((mth, p) # cs) c =
     (case call_begin c of
        (Inl e, c) \<Rightarrow> None
      | (Inr (key, a), c) \<Rightarrow>
          (case call_write key mth p None c of
             (Inl e, c) \<Rightarrow> None
           | (Inr line, c) \<Rightarrow> map_option (apfst ((#) line)) (begin_calls cs c)))"

text \<open>The server's view: the calls dispatched in order.\<close>

fun in_order :: "'s dispatcher \<Rightarrow> (string \<times> json option) list \<Rightarrow> 's \<Rightarrow> (json option \<times> RPCError option) list \<times> 's" where
  "in_order d [] s = ([], s)"
| "in_order d ((mth, p) # cs) s =
     (let (r, s') = (if utf8 mth = '''' then ((None, Some \<lparr>rpc_Code = InvalidRequestCode, rpc_Message = ''Invalid Request'', rpc_Data = None\<rparr>), s)
                     else Dispatch d (utf8 mth) (param_text p) s)
      in apfst ((#) r) (in_order d cs s'))"

definition reply_of :: "json option \<times> RPCError option \<Rightarrow> clientResponse" where
  "reply_of r =
     (case snd r of
        Some e \<Rightarrow> failed (RemoteError (e\<lparr>rpc_Message := utf8 (rpc_Message e), rpc_Data := map_option json_utf8 (rpc_Data e)\<rparr>))
      | None \<Rightarrow> \<lparr>cr_result = json_text (result_json (fst r)), cr_err = None\<rparr>)"

definition number_id :: "chan \<Rightarrow> ID" where
  "number_id a = \<lparr>id_Str = '''', id_Num = key_of a, id_null = False\<rparr>"

definition request_at :: "chan \<Rightarrow> string \<times> json option \<Rightarrow> Message" where
  "request_at a cp = blank_message\<lparr>msg_ID := Some (number_id a), msg_Method := utf8 (fst cp), msg_Params := param_text (snd cp)\<rparr>"

lemma key_of_nonempty [simp]: "key_of a \<noteq> ''''"
  using itoa_number [of "int a + 1"] by (auto simp: key_of_def number_text_def json_number_def integer_part_def)

lemma number_id_key [simp]: "idKey (Some (number_id a)) = key_of a"
  by (simp add: idKey_def number_id_def IsNull_def IsString_def)

lemma response_of_answer: "response_of (answer_message i r) = reply_of r" "msg_ID (answer_message i r) = Some i"
  by (auto simp: response_of_def answer_message_def reply_of_def blank_message_def split: option.splits)

lemma written_line:
  assumes "EncodeRequest (IdNumber (key_of a)) mth p = Inr line" "param_fits p"
  shows "\<exists>l. line = l @ newline \<and> CHR 0x0A \<notin> set l \<and> line_message l = Inr (request_at a (mth, p))"
proof -
  have pl: "plain_id (IdNumber (key_of a))" by (simp add: plain_id_def key_of_def)
  obtain v where v: "marshalID (IdNumber (key_of a)) = Inr v" using assms(1) by (auto simp: EncodeRequest_def split: sum.splits)
  let ?kvs = "[(''jsonrpc'', JStr ''2.0''), (''id'', v), (''method'', JStr mth)] @ omitempty ''params'' p"
  have "json_fits 10000 (JObj ?kvs)" using marshal_decode_id [OF v pl] assms(2) by (simp add: omitempty_def param_fits_def split: option.splits)
  then have "CHR 0x0A \<notin> set (json_text (JObj ?kvs))" by (rule no_newline [OF printed_text])
  moreover have "line = json_text (JObj ?kvs) @ newline"
    using assms(1) v by (auto simp: EncodeRequest_def encodeAndWrite_def Let_def split: if_splits)
  moreover have "fst (DecodeMessage line) = Inr (request_at a (mth, p))"
    using EncodeRequest_decoded [OF assms(1) pl assms(2), of "[]"] by (simp add: request_at_def wire_id_def number_id_def)
  ultimately show ?thesis unfolding line_message_def by blast
qed

lemma begin_calls_lines:
  assumes "begin_calls cs c = Some (lines, c')" "client_ok M c" "cl_reader c = Reading" "\<forall>cp \<in> set cs. param_fits (snd cp)"
    "int (length (cl_chans c) + length cs) < 2 ^ 63" "n = length (cl_chans c)"
  shows "(\<exists>ls. lines = map (\<lambda>l. l @ newline) ls \<and> (\<forall>l \<in> set ls. CHR 0x0A \<notin> set l) \<and>
      map line_message ls = map Inr (map2 request_at [n..<n + length cs] cs)) \<and>
    cl_chans c' = cl_chans c @ replicate (length cs) [] \<and>
    cl_pending c' = cl_pending c @ map (\<lambda>a. (key_of a, a)) [n..<n + length cs] \<and> cl_reader c' = Reading \<and> client_ok M c'"
  using assms
proof (induction cs arbitrary: c lines n)
  case (Cons cp cs)
  obtain mth p where cp: "cp = (mth, p)" by (cases cp)
  have len: "int (length (cl_chans c)) = cl_nextID c" using Cons.prems(2) by (simp add: client_ok_def client_core_def)
  let ?c = "snd (call_begin c)"
  have open_c: "\<not> cl_closed c" using Cons.prems(1) cp by (auto simp: call_begin_def Let_def)
  have n: "itoa (cl_nextID c + 1) = key_of n" using len Cons.prems(6) by (simp add: key_of_def)
  have ok: "client_ok M ?c" using client_ok_begin [OF Cons.prems(2)] len Cons.prems(5) by simp
  have new: "key_of n \<notin> fst ` set (cl_pending c)"
  proof
    assume "key_of n \<in> fst ` set (cl_pending c)"
    then obtain a where "(key_of n, a) \<in> set (cl_pending c)" by auto
    then have "a < n" "key_of n = key_of a" using Cons.prems(2,6) unfolding client_ok_def client_core_def by blast+
    then show False using Cons.prems(5,6) key_of_eq [of n a] by simp
  qed
  have c: "fst (call_begin c) = Inr (key_of n, n)" "cl_chans ?c = cl_chans c @ [[]]" "cl_pending ?c = cl_pending c @ [(key_of n, n)]" "cl_reader ?c = Reading"
    using open_c n Cons.prems(3,6) update_absent [OF new] by (simp_all add: call_begin_def Let_def)
  then have cb: "call_begin c = (Inr (key_of n, n), ?c)" by (metis prod.collapse)
  obtain line lines' where w: "EncodeRequest (IdNumber (key_of n)) mth p = Inr line" "lines = line # lines'" "begin_calls cs ?c = Some (lines', c')"
  proof -
    obtain c1 where c1: "snd (call_begin c) = c1" by simp
    have "begin_calls ((mth, p) # cs) c = Some (lines, c')" "call_begin c = (Inr (key_of n, n), c1)" using Cons.prems(1) cp cb c1 by simp_all
    then show thesis using that c1 by (auto simp: call_write_def split: sum.splits)
  qed
  obtain l where l: "line = l @ newline" "CHR 0x0A \<notin> set l" "line_message l = Inr (request_at n (mth, p))"
    using written_line [OF w(1)] Cons.prems(4) cp by auto
  have "int (length (cl_chans ?c) + length cs) < 2 ^ 63" "Suc n = length (cl_chans ?c)" using Cons.prems(5,6) c(2) by simp_all
  from Cons.IH [OF w(3) ok c(4) _ this] Cons.prems(4) obtain ls where ls: "lines' = map (\<lambda>l. l @ newline) ls" "\<forall>l \<in> set ls. CHR 0x0A \<notin> set l"
      "map line_message ls = map Inr (map2 request_at [Suc n..<Suc n + length cs] cs)" and
    r: "cl_chans c' = cl_chans ?c @ replicate (length cs) []" "cl_pending c' = cl_pending ?c @ map (\<lambda>a. (key_of a, a)) [Suc n..<Suc n + length cs]"
      "cl_reader c' = Reading" "client_ok M c'" by auto
  have u: "[n..<n + length (cp # cs)] = n # [Suc n..<Suc n + length cs]" by (simp add: upt_rec)
  have "\<exists>ls. lines = map (\<lambda>l. l @ newline) ls \<and> (\<forall>l \<in> set ls. CHR 0x0A \<notin> set l) \<and>
      map line_message ls = map Inr (map2 request_at [n..<n + length (cp # cs)] (cp # cs))"
    unfolding u using ls l w(2) cp by (intro exI [of _ "l # ls"]) simp
  then show ?case using r c unfolding u by simp
qed simp

lemma answers_in_order:
  assumes "in_order d cs s = (rs, s')" "length is = length cs"
  shows "answers d (map Inr (map2 request_at is cs)) s = (map2 (\<lambda>i r. answer_message (number_id i) r) is rs, s') \<and> length rs = length cs"
  using assms
proof (induction cs arbitrary: "is" s rs)
  case (Cons cp cs)
  obtain mth p where cp: "cp = (mth, p)" by (cases cp)
  obtain i is' where i: "is = i # is'" "length is' = length cs" using Cons.prems(2) by (cases "is") auto
  have "call d (request_at i cp) s = (if utf8 mth = '''' then ((None, Some \<lparr>rpc_Code = InvalidRequestCode, rpc_Message = ''Invalid Request'', rpc_Data = None\<rparr>), s)
      else Dispatch d (utf8 mth) (param_text p) s)"
    by (simp add: call_def validateEnvelope_def request_at_def blank_message_def fail_if_def cp)
  then obtain r s1 rs' where r: "call d (request_at i cp) s = (r, s1)" "in_order d cs s1 = (rs', s')" "rs = r # rs'"
    using Cons.prems(1) unfolding cp in_order.simps by (auto simp: Let_def apfst_def map_prod_def split: prod.splits)
  have "msg_ID (request_at i cp) = Some (number_id i)" by (simp add: request_at_def)
  then show ?case using Cons.IH [OF r(2) i(2)] r i by simp
qed simp

lemma client_core_mono: "client_core M c \<Longrightarrow> M \<subseteq> N \<Longrightarrow> client_core N c"
  unfolding client_core_def belongs_def by blast

text \<open>One answer, and one notification, for a client with its calls pending.\<close>

lemma read_answer:
  assumes "cl_pending c = map (\<lambda>a. (key_of a, a)) [n..<n + length (r # rs)]" "cl_chans c = xs @ replicate (length (r # rs)) []" "length xs = n"
    "cl_reader c = Reading" "client_ok M c"
  shows "\<exists>c' M'. read_round False (Inr (answer_message (number_id n) r)) c = Some c' \<and>
    cl_pending c' = map (\<lambda>a. (key_of a, a)) [Suc n..<Suc n + length rs] \<and> cl_chans c' = (xs @ [[reply_of r]]) @ replicate (length rs) [] \<and>
    cl_reader c' = Reading \<and> client_ok M' c' \<and> cl_closed c' = cl_closed c \<and> cl_notifications c' = cl_notifications c"
proof -
  have u: "[n..<n + length (r # rs)] = n # [Suc n..<Suc n + length rs]" by (simp add: upt_rec)
  let ?m = "answer_message (number_id n) r"
  have core: "client_core (insert ?m M) c" "cl_pending c \<noteq> []" "\<not> cl_closed c"
    using assms(5,1) client_core_mono [of M c "insert ?m M"] unfolding u client_ok_def by auto
  have pe: "cl_pending c = (key_of n, n) # map (\<lambda>a. (key_of a, a)) [Suc n..<Suc n + length rs]" using assms(1) unfolding u by simp
  then have i: "(key_of n, n) \<in> set (cl_pending c)" by simp
  have b: "belongs (insert ?m M) (cl_closed c) n (reply_of r)"
    using response_of_answer [of "number_id n" r] by (auto simp: belongs_def intro!: exI [of _ ?m] bexI [of _ ?m])
  note d = deliver_core [OF core(1) i b]
  let ?c = "deliver (key_of n) n (reply_of r) c"
  have "map_of (cl_pending c) (key_of n) = Some n" using pe by simp
  then have rr: "read_round False (Inr ?m) c = Some ?c" using d(3) by (simp add: read_round_def response_of_answer)
  have "distinct (map fst (cl_pending c))" using core(1) by (simp add: client_core_def gomap_def)
  then have "AList.delete (key_of n) (cl_pending c) = map (\<lambda>a. (key_of a, a)) [Suc n..<Suc n + length rs]"
    unfolding pe using delete_id [of "key_of n" "map (\<lambda>a. (key_of a, a)) [Suc n..<Suc n + length rs]"]
    by (simp add: image_image del: upt_Suc)
  then have "cl_pending ?c = map (\<lambda>a. (key_of a, a)) [Suc n..<Suc n + length rs]" "cl_chans ?c = (xs @ [[reply_of r]]) @ replicate (length rs) []"
      "cl_reader ?c = Reading" "client_ok (insert ?m M) ?c" "cl_closed ?c = cl_closed c" "cl_notifications ?c = cl_notifications c"
    using assms(2-4) d(1) core(3) by (simp_all add: deliver_def removePending_def client_ok_def list_update_append)
  with rr show ?thesis by blast
qed

lemma read_notification:
  assumes "msg_ID m = None" "\<not> cl_closed c" "client_ok M c"
  shows "read_round False (Inr m) c =
      (if length (cl_notifications c) < notification_cap then Some (c\<lparr>cl_notifications := cl_notifications c @ [m]\<rparr>) else None)"
    "length (cl_notifications c) < notification_cap \<Longrightarrow> client_ok (insert m M) (c\<lparr>cl_notifications := cl_notifications c @ [m]\<rparr>)"
  using assms client_core_mono [of M c "insert m M"] by (auto simp: read_round_def client_ok_def client_core_def)

text \<open>The reader on answers among notifications that nobody drains.\<close>

lemma read_mixed:
  assumes "zs \<in> shuffles out pushed"
    "map (\<lambda>l. fst (DecodeMessage l)) out = map Inr (map2 (\<lambda>i r. answer_message (number_id i) r) [n..<n + length rs] rs)"
    "map (\<lambda>l. fst (DecodeMessage l)) pushed = map Inr ns" "\<forall>m \<in> set ns. msg_ID m = None"
    "cl_pending c = map (\<lambda>a. (key_of a, a)) [n..<n + length rs]" "cl_chans c = xs @ replicate (length rs) []" "length xs = n"
    "cl_reader c = Reading" "client_ok M c" "\<not> cl_closed c"
  shows "if length (cl_notifications c) + length ns \<le> notification_cap
    then \<exists>c'. read_lines zs c = Some c' \<and> cl_pending c' = [] \<and> cl_chans c' = xs @ map (\<lambda>r. [reply_of r]) rs \<and>
      cl_notifications c' = cl_notifications c @ ns
    else read_lines zs c = None"
  using assms
proof (induction zs arbitrary: n c xs out pushed rs ns M)
  case Nil
  then have "out = []" "pushed = []" by auto
  then have e: "rs = []" "ns = []" using Nil.prems(2,3) by auto
  have "length (cl_notifications c) \<le> notification_cap" using Nil.prems(9) by (simp add: client_ok_def client_core_def)
  then show ?case using e Nil.prems by simp
next
  case (Cons l zs)
  from Cons.prems(1) consider (answer) out' where "out = l # out'" "zs \<in> shuffles out' pushed" | (push) pushed' where "pushed = l # pushed'" "zs \<in> shuffles out pushed'"
    by (auto simp: Cons_in_shuffles_iff neq_Nil_conv)
  then show ?case
  proof cases
    case answer
    then obtain r rs' where r: "rs = r # rs'" using Cons.prems(2) by (cases rs) auto
    have u: "[n..<n + length rs] = n # [Suc n..<Suc n + length rs']" using r by (simp add: upt_rec)
    have l: "fst (DecodeMessage l) = Inr (answer_message (number_id n) r)"
      "map (\<lambda>l. fst (DecodeMessage l)) out' = map Inr (map2 (\<lambda>i r. answer_message (number_id i) r) [Suc n..<Suc n + length rs'] rs')"
      using Cons.prems(2) answer(1) r unfolding u by auto
    obtain c1 M1 where c1: "read_round False (Inr (answer_message (number_id n) r)) c = Some c1"
      "cl_pending c1 = map (\<lambda>a. (key_of a, a)) [Suc n..<Suc n + length rs']" "cl_chans c1 = (xs @ [[reply_of r]]) @ replicate (length rs') []"
      "cl_reader c1 = Reading" "client_ok M1 c1" "cl_closed c1 = cl_closed c" "cl_notifications c1 = cl_notifications c"
      using read_answer [of c n r rs' xs M] Cons.prems(5-9) r by auto
    have "read_lines (l # zs) c = read_lines zs c1" using l(1) c1(1,4) by simp
    then show ?thesis using Cons.IH [OF answer(2) l(2) Cons.prems(3,4) c1(2,3) _ c1(4,5)] c1(6,7) Cons.prems(7,10) r
      by (simp del: read_lines.simps split: if_splits)
  next
    case push
    then obtain m ns' where m: "ns = m # ns'" "fst (DecodeMessage l) = Inr m" "map (\<lambda>l. fst (DecodeMessage l)) pushed' = map Inr ns'"
      using Cons.prems(3) by (cases ns) auto
    have i: "msg_ID m = None" using Cons.prems(4) m(1) by simp
    note r = read_notification [OF i Cons.prems(10,9)]
    show ?thesis
    proof (cases "length (cl_notifications c) < notification_cap")
      case True
      let ?c = "c\<lparr>cl_notifications := cl_notifications c @ [m]\<rparr>"
      have "read_lines (l # zs) c = read_lines zs ?c" using m(2) r(1) True Cons.prems(8) by simp
      then show ?thesis
        using Cons.IH [OF push(2) Cons.prems(2) m(3) _ _ _ Cons.prems(7) _ r(2) [OF True]] Cons.prems(4-10) m(1)
        by (simp del: read_lines.simps split: if_splits)
    next
      case False
      then show ?thesis using m(1,2) r(1) by simp
    qed
  qed
qed

lemma begin_calls_parts:
  "begin_calls cs c = Some (lines, c') \<Longrightarrow> cl_notifications c' = cl_notifications c \<and> cl_closed c' = cl_closed c"
proof (induction cs arbitrary: c lines)
  case (Cons cp cs)
  obtain mth p where cp: "cp = (mth, p)" by (cases cp)
  obtain key a c1 where b: "call_begin c = (Inr (key, a), c1)" using Cons.prems cp by (auto split: prod.splits sum.splits)
  obtain line c2 where w: "call_write key mth p None c1 = (Inr line, c2)" using Cons.prems cp b by (auto split: prod.splits sum.splits)
  have "cl_notifications c2 = cl_notifications c \<and> cl_closed c2 = cl_closed c"
    using b w by (auto simp: call_begin_def call_write_def Let_def split: if_splits sum.splits)
  then show ?case using Cons cp b w by auto
qed simp

lemma pushed_decoded:
  assumes "\<forall>z \<in> set pushed. \<exists>mth p. EncodeNotification mth p = Inr z \<and> param_fits p"
  shows "\<exists>ns. map (\<lambda>l. fst (DecodeMessage l)) pushed = map Inr ns \<and> (\<forall>m \<in> set ns. msg_ID m = None)"
  using assms
proof (induction pushed)
  case (Cons z pushed)
  obtain mth p where z: "EncodeNotification mth p = Inr z" "param_fits p" using Cons.prems by auto
  have "\<exists>m. fst (DecodeMessage z) = Inr m \<and> msg_ID m = None"
    using EncodeNotification_decoded [OF z, of "[]"] by (auto simp: blank_message_def)
  moreover obtain ns where "map (\<lambda>l. fst (DecodeMessage l)) pushed = map Inr ns" "\<forall>m \<in> set ns. msg_ID m = None" using Cons by auto
  ultimately show ?case by (metis list.simps(9) set_ConsD)
qed simp

lemma calls_come_back:
  assumes "begin_calls cs NewClient = Some (lines, c)" "\<forall>cp \<in> set cs. param_fits (snd cp)" "int (length cs) < 2 ^ 63"
    "ServeConn (daemon_rpc env) writes (concat lines) d = (out, PeerClosed, d')"
    "\<forall>z \<in> set pushed. \<exists>mth p. EncodeNotification mth p = Inr z \<and> param_fits p" "zs \<in> shuffles out pushed"
  shows "\<exists>rs. in_order (daemon_rpc env) cs d = (rs, d') \<and> length rs = length cs \<and>
    (if length pushed \<le> notification_cap
     then \<exists>c'. read_lines zs c = Some c' \<and> cl_pending c' = [] \<and> cl_chans c' = map (\<lambda>r. [reply_of r]) rs \<and>
       map Inr (cl_notifications c') = map (\<lambda>l. fst (DecodeMessage l)) pushed
     else read_lines zs c = None)"
proof -
  have l0: "length (cl_chans NewClient) = 0" "cl_reader NewClient = Reading" "cl_pending NewClient = []" "cl_chans NewClient = []"
    "cl_notifications NewClient = []" "\<not> cl_closed NewClient" by (simp_all add: NewClient_def)
  obtain ls where ls: "lines = map (\<lambda>l. l @ newline) ls" "\<forall>l \<in> set ls. CHR 0x0A \<notin> set l" "map line_message ls = map Inr (map2 request_at [0..<length cs] cs)"
    and c: "cl_chans c = replicate (length cs) []" "cl_pending c = map (\<lambda>a. (key_of a, a)) [0..<length cs]" "cl_reader c = Reading" "client_ok {} c"
    using begin_calls_lines [OF assms(1) client_ok_new l0(2) assms(2), of 0 "{}"] assms(3) l0 by auto
  obtain rs s' where rs: "in_order (daemon_rpc env) cs d = (rs, s')" by fastforce
  note a = answers_in_order [OF rs, of "[0..<length cs]"]
  obtain ms where ms: "map (\<lambda>l. fst (DecodeMessage l)) out = map Inr ms" "answers (daemon_rpc env) (map line_message ls) d = (ms, d')"
    using server_answers [OF daemon_replies_fit ls(2) assms(4) [unfolded ls(1)]] by auto
  have r: "ms = map2 (\<lambda>i r. answer_message (number_id i) r) [0..<length cs] rs" "s' = d'" "length rs = length cs"
    using ms(2) a unfolding ls(3) by simp_all
  obtain ns where ns: "map (\<lambda>l. fst (DecodeMessage l)) pushed = map Inr ns" "\<forall>m \<in> set ns. msg_ID m = None" using pushed_decoded [OF assms(5)] by blast
  then have "length ns = length pushed" by (metis length_map)
  then show ?thesis
    using read_mixed [OF assms(6), of 0 rs ns c "[]" "{}"] ms(1) c rs r ns begin_calls_parts [OF assms(1)] l0(5,6) by auto
qed

text \<open>A short-lived client that calls the broker through the launcher gets the result of its call.\<close>

lemma launched_call_answered:
  assumes "ensure rootDir = Inr endpoint" "tr_Dial tr endpoint = Inr (\<lambda>line. fst (ServeConn (daemon_rpc env) 1 line d))"
    "param_fits p" "begin_calls [(mth, p)] NewClient = Some ([line], c)" "ServeConn (daemon_rpc env) 1 line d = (out, PeerClosed, d')"
  shows "CallWithLauncher GotReply (Some ensure) (Some tr) rootDir mth p = Some (Inr (reply_of (hd (fst (in_order (daemon_rpc env) [(mth, p)] d)))))"
proof -
  have s: "ServeConn (daemon_rpc env) 1 (concat [line]) d = (out, PeerClosed, d')" using assms(5) by simp
  obtain c' rs where r: "read_lines out c = Some c'" "in_order (daemon_rpc env) [(mth, p)] d = (rs, d')" "length rs = 1" "cl_chans c' = map (\<lambda>r. [reply_of r]) rs"
    using calls_come_back [OF assms(4) _ _ s, of "[]" out] assms(3) by auto
  have c: "cl_chans c' ! 0 = [reply_of (hd rs)]" using r(3,4) by (cases rs) auto
  obtain key c1 where k: "call_begin NewClient = (Inr (key, 0), c1)" "call_write key mth p None c1 = (Inr line, c)"
    using assms(4) by (auto simp: call_begin_def NewClient_def Let_def split: prod.splits sum.splits)
  show ?thesis using assms(1,2,5) k r(1,2) c by (simp add: CallWithLauncher_def client_Call_def call_select_def)
qed

text \<open>When the connection ends right after a response, the \<^verbatim>\<open>select\<close> of the call may see the closed client first: the
  response is lost.\<close>

lemma response_lost:
  assumes "read_round False (Inr m) c = Some c1" "client_ok M c1" "cl_chans c1 ! a = [r]"
  shows "\<exists>c2. read_round False (Inl EOF) c1 = Some c2 \<and> call_select SawClosed key a c2 = Some (failed NetClosed, c2)"
  using closing [OF assms(2), of NetClosed] by (auto simp: read_round_def failPending_def gone_def call_select_def)

section \<open>Properties\<close>

text \<open>C21. However calls, the reader, cancelled contexts and \<^verbatim>\<open>Close\<close> interleave: handing a response to a call never
  blocks, the reader waits only for room for a notification in a client that is still open, and
  closing wakes every pending call; what a call receives is the response with its own identifier,
  or the reason why the client was closed, and it receives it at most once.\<close>

theorem client_multiplex:
  assumes "(client_step M)\<^sup>*\<^sup>* NewClient c"
  shows "(\<forall>b r. (\<forall>m. r = Inr m \<longrightarrow> m \<in> M) \<longrightarrow>
       (read_round b r c = None \<longleftrightarrow> (\<exists>m. r = Inr m \<and> msg_ID m = None) \<and> \<not> cl_closed c \<and> notification_cap \<le> length (cl_notifications c))) \<and>
    (\<exists>c'. client_Close c = Some c' \<and> cl_closed c' \<and> cl_pending c' = []) \<and>
    (\<forall>a x c'. a < length (cl_chans c) \<longrightarrow> call_select GotReply (key_of a) a c = Some (x, c') \<longrightarrow>
       belongs M (cl_closed c) a x \<and> (\<forall>c''. (client_step M)\<^sup>*\<^sup>* c' c'' \<longrightarrow> call_select GotReply (key_of a) a c'' = None))"
proof -
  have ok: "client_ok M c" using client_run_ok [OF assms client_ok_new] by blast
  have "belongs M (cl_closed c) a x \<and> (\<forall>c''. (client_step M)\<^sup>*\<^sup>* c' c'' \<longrightarrow> call_select GotReply (key_of a) a c'' = None)"
    if h: "a < length (cl_chans c)" "call_select GotReply (key_of a) a c = Some (x, c')" for a x c'
  proof -
    obtain xs where x: "cl_chans c ! a = x # xs" "c' = c\<lparr>cl_chans := (cl_chans c)[a := xs]\<rparr>"
      using h(2) by (auto simp: call_select_def split: list.splits)
    have "length (cl_chans c ! a) \<le> 1" "\<forall>r \<in> set (cl_chans c ! a). belongs M (cl_closed c) a r" "\<forall>k. (k, a) \<notin> set (cl_pending c)"
      using ok h(1) x(1) unfolding client_ok_def client_core_def by (blast, blast, force)
    then have "belongs M (cl_closed c) a x" "settled a c'" using x h(1) by (simp_all add: settled_def)
    moreover have "client_ok M c'" using call_select_ok [OF ok h] by blast
    ultimately show ?thesis using client_run_ok by (fastforce simp: settled_def call_select_def)
  qed
  then show ?thesis using read_round_ok [OF ok] client_Close_ok [OF ok] by (auto simp: client_ok_def)
qed

definition demo_request :: "string \<times> json option" where
  "demo_request = (''health'', None)"

definition demo_response :: Message where
  "demo_response = answer_message (number_id 0) (Some JNull, None)"

theorem client_multiplex_witness:
  "\<exists>c x c'. (client_step {demo_response})\<^sup>*\<^sup>* NewClient c \<and> call_select GotReply (key_of 0) 0 c = Some (x, c') \<and> belongs {demo_response} (cl_closed c) 0 x"
proof -
  let ?c = "snd (call_begin NewClient)"
  let ?c' = "deliver (key_of 0) 0 (response_of demo_response) ?c"
  have p: "cl_pending ?c = [(key_of 0, 0)]" "cl_chans ?c = [[]]" "cl_reader ?c = Reading" by (simp_all add: call_begin_def NewClient_def Let_def key_of_def)
  have "client_step {demo_response} NewClient ?c" by (rule client_step.begins) (simp add: NewClient_def)
  moreover have "read_round False (Inr demo_response) ?c = Some ?c'"
    using p by (simp add: read_round_def demo_response_def response_of_answer send_def deliver_def removePending_def)
  then have "client_step {demo_response} ?c ?c'" using client_step.reads p(3) by blast
  ultimately have r: "(client_step {demo_response})\<^sup>*\<^sup>* NewClient ?c'" by (meson converse_rtranclp_into_rtranclp rtranclp.rtrancl_refl)
  have c: "cl_chans ?c' = [[response_of demo_response]]" using p by (simp add: deliver_def removePending_def)
  then have "\<exists>c'. call_select GotReply (key_of 0) 0 ?c' = Some (response_of demo_response, c')" by (simp add: call_select_def)
  with r c show ?thesis using client_multiplex [OF r] by fastforce
qed

text \<open>C22. A client and the broker over one connection: calls that a fresh client writes one after another and the
  broker answers without closing are dispatched in that order. The broker also writes its notifications
  on this connection, as whole lines at any places among the answers. As long as there are no more of them than the client
  has room for, which is 64 when nobody drains them, every call finds exactly the
  result or error of its own dispatch, none is left pending, and the notifications are there in their order. With more, the reader
  blocks.\<close>

theorem calls_answered:
  assumes "begin_calls cs NewClient = Some (lines, c)" "\<forall>cp \<in> set cs. param_fits (snd cp)" "int (length cs) < 2 ^ 63"
    "ServeConn (daemon_rpc env) writes (concat lines) d = (out, PeerClosed, d')"
    "\<forall>z \<in> set pushed. \<exists>mth p. EncodeNotification mth p = Inr z \<and> param_fits p" "zs \<in> shuffles out pushed"
  shows "\<exists>rs. in_order (daemon_rpc env) cs d = (rs, d') \<and> length rs = length cs \<and>
    (if length pushed \<le> notification_cap
     then \<exists>c'. read_lines zs c = Some c' \<and> cl_pending c' = [] \<and> cl_chans c' = map (\<lambda>r. [reply_of r]) rs \<and>
       map Inr (cl_notifications c') = map (\<lambda>l. fst (DecodeMessage l)) pushed
     else read_lines zs c = None)"
  by (rule calls_come_back [OF assms])

lemma demo_call:
  "\<exists>line c out. begin_calls [demo_request] NewClient = Some ([line], c) \<and>
     ServeConn (daemon_rpc demo_env) 1 line (daemon_running demo_created) = ([out], PeerClosed, daemon_running demo_created)"
proof -
  let ?d = "daemon_running demo_created" and ?c = "snd (call_begin NewClient)"
  have k: "length (key_of 0) = 1" "json_parse (key_of 0) = Some (JNum (key_of 0))" by code_simp+
  have ex: "\<exists>line. EncodeRequest (IdNumber (key_of 0)) ''health'' None = Inr line" using k
    by (simp add: EncodeRequest_def marshalID_def raw_json_def encodeAndWrite_def Let_def omitempty_def json_string_def json_ascii_def MaxMessageSize_def byte_def)
  then obtain line where line: "EncodeRequest (IdNumber (key_of 0)) ''health'' None = Inr line" ..
  then obtain l where l: "line = l @ newline" "CHR 0x0A \<notin> set l" "line_message l = Inr (request_at 0 demo_request)"
    using written_line [of 0 "''health''" None line] by (auto simp: demo_request_def)
  have "begin_calls [demo_request] NewClient = Some ([line], ?c)"
    using line by (simp add: demo_request_def call_begin_def NewClient_def Let_def call_write_def key_of_def)
  moreover have "\<exists>out. ServeConn (daemon_rpc demo_env) 1 line ?d = ([out], PeerClosed, ?d)"
  proof -
    have w: "wireID (Some (number_id 0)) = IdNumber (key_of 0)" by (simp add: wireID_def number_id_def IsNull_def IsString_def)
    have "utf8 ''health'' = ''health''" "validateResult ''health'' (Some (JObj [(''ok'', JBool True)])) = None" by code_simp+
    then have h: "call (daemon_rpc demo_env) (request_at 0 demo_request) ?d = ((Some (JObj [(''ok'', JBool True)]), None), ?d)"
      by (simp add: call_def validateEnvelope_def request_at_def demo_request_def blank_message_def fail_if_def Dispatch_def daemon_rpc_def
        registerStepHandlers_def registerExecutionHandlers_def Register_def NewDispatcher_def health_handler_def invokeHandler_def answers_with_def
        Let_def)
    have "\<exists>out. EncodeResponse (IdNumber (key_of 0)) (Some (JObj [(''ok'', JBool True)])) = Inr out" using k
      by (simp add: EncodeResponse_def marshalID_def raw_json_def encodeAndWrite_def Let_def json_string_def json_ascii_def MaxMessageSize_def byte_def)
    then obtain out where out: "EncodeResponse (IdNumber (key_of 0)) (Some (JObj [(''ok'', JBool True)])) = Inr out" ..
    have "handle_message (daemon_rpc demo_env) (line_message l) ?d = (Some (Inr out), ?d)"
      unfolding l(3) handle_message_line h using w out by (simp add: request_at_def)
    then have "ServeConn (daemon_rpc demo_env) 1 (l @ newline @ []) ?d = ([out], PeerClosed, ?d)"
      using l(2) by (subst ServeConn_line) (simp_all add: ServeConn_end)
    then show ?thesis using l(1) by auto
  qed
  ultimately show ?thesis by blast
qed

lemma demo_note: "\<exists>z. EncodeNotification ''m'' None = Inr z"
  by (simp add: EncodeNotification_def encodeAndWrite_def omitempty_def json_string_def json_ascii_def MaxMessageSize_def byte_def)

theorem calls_answered_witness:
  "\<exists>lines c out z c'. begin_calls [demo_request] NewClient = Some (lines, c) \<and> EncodeNotification ''m'' None = Inr z \<and>
     ServeConn (daemon_rpc demo_env) 1 (concat lines) (daemon_running demo_created) = ([out], PeerClosed, daemon_running demo_created) \<and>
     read_lines [z, out] c = Some c' \<and> cl_pending c' = [] \<and> length (cl_chans c') = 1 \<and> length (cl_notifications c') = 1"
proof -
  obtain line c out where d: "begin_calls [demo_request] NewClient = Some ([line], c)"
      "ServeConn (daemon_rpc demo_env) 1 (concat [line]) (daemon_running demo_created) = ([out], PeerClosed, daemon_running demo_created)"
    using demo_call by auto
  obtain z where z: "EncodeNotification ''m'' None = Inr z" using demo_note ..
  have n: "\<forall>x \<in> set [z]. \<exists>mth p. EncodeNotification mth p = Inr x \<and> param_fits p" using z by (auto intro!: exI [of _ "''m''"] exI [of _ None])
  have f: "\<forall>cp \<in> set [demo_request]. param_fits (snd cp)" by (simp add: demo_request_def)
  have l: "int (length [demo_request]) < 2 ^ 63" by simp
  have s: "[z, out] \<in> shuffles [out] [z]" by (simp add: Cons_in_shuffles_iff)
  obtain rs c' where "length rs = 1" "read_lines [z, out] c = Some c'" "cl_pending c' = []" "cl_chans c' = map (\<lambda>r. [reply_of r]) rs"
    "map Inr (cl_notifications c') = map (\<lambda>l. fst (DecodeMessage l)) [z]"
    using calls_answered [OF d(1) f l d(2) n s] by (auto simp: notification_cap_def)
  moreover from this(5) have "length (cl_notifications c') = 1" by (metis length_map list.size(3,4) One_nat_def add.right_neutral add_Suc_right)
  ultimately show ?thesis using d z by (intro exI [of _ "[line]"] exI [of _ c] exI [of _ out] exI [of _ z] exI [of _ c']) simp
qed

end
