(* ===== verification/Report.thy ===== *)
theory Report
  imports Claims Fake_Store Json
begin

text \<open>
  \<^verbatim>\<open>internal/execution/report.go\<close>: the changed files of a finished execution. Git and the test for a
  directory are parameters. The theorems say which executions have a report, that the listed paths
  are exactly the visible paths git named, and that symbolic links play no part in it.
\<close>

section \<open>Paths\<close>

definition nul :: char where
  "nul = CHR 0x00"

definition parseNUL :: "string \<Rightarrow> string list" where
  "parseNUL b = (if b = [] then [] else filter (\<lambda>p. p \<noteq> []) (split_on nul b))"

definition haro_internal :: "string \<Rightarrow> bool" where
  "haro_internal p \<longleftrightarrow> p = ''.haro'' \<or> prefix ''.haro/'' p"

text \<open>The body of the loop of \<^verbatim>\<open>normalizePaths\<close>; \<^verbatim>\<open>seen\<close> holds the paths kept so far.\<close>

definition normalize_one :: "filesys \<Rightarrow> string \<Rightarrow> string \<Rightarrow> string list \<Rightarrow> string list" where
  "normalize_one fs anchor raw seen =
     (if raw = '''' then seen
      else
        (case Canonicalize fs anchor raw of
           Inl e \<Rightarrow>
             (let cleaned = Clean raw in
              if IsAbs raw \<or> prefix [slash] cleaned then seen
              else if cleaned = dotdot \<or> prefix (dotdot @ [slash]) cleaned \<or> sublist (slash # dotdot @ [slash]) cleaned then seen
              else if haro_internal cleaned then seen
              else if cleaned \<in> set seen then seen
              else seen @ [cleaned])
         | Inr canonical \<Rightarrow>
             if canonical = '''' then seen
             else if haro_internal canonical then seen
             else if canonical \<in> set seen then seen
             else seen @ [canonical]))"

definition report_anchor :: "(string \<Rightarrow> bool) \<Rightarrow> string \<Rightarrow> string \<Rightarrow> string \<Rightarrow> string" where
  "report_anchor isDir cwd repoRoot workspaceMode =
     (if workspaceMode \<noteq> ''shared'' \<and> cwd \<noteq> repoRoot \<and> isDir cwd then cwd else repoRoot)"

definition normalizePaths :: "(string \<Rightarrow> bool) \<Rightarrow> filesys \<Rightarrow> string \<Rightarrow> string \<Rightarrow> string \<Rightarrow> string list \<Rightarrow> string list" where
  "normalizePaths isDir fs cwd repoRoot workspaceMode paths =
     sort (fold (normalize_one fs (report_anchor isDir cwd repoRoot workspaceMode)) paths [])"

section \<open>The report\<close>

record Report =
  rp_ExecutionID :: string
  rp_BaseCommit :: "string option"
  rp_ChangedFiles :: "string list"

datatype report_error = ReportError (re_Code: string) (re_Field: string) (re_Message: string) | ReportFailed goerr

text \<open>What the report asks of its surroundings: \<open>ro_git\<close> is the combined output of a git command in a directory,
  with an error when it fails.\<close>

record report_os =
  ro_fs :: filesys
  ro_isDir :: "string \<Rightarrow> bool"
  ro_git :: "string \<Rightarrow> string list \<Rightarrow> goerr option \<times> string"

definition runGit :: "report_os \<Rightarrow> string \<Rightarrow> string list \<Rightarrow> goerr + string" where
  "runGit os dir args =
     (case ro_git os dir args of
        (Some e, out) \<Rightarrow> Inl (GoErr (err_kind e) (''git '' @ join_with '' '' args @ '': '' @ err_msg e @ '' output: '' @ out))
      | (None, out) \<Rightarrow> Inr out)"

definition report_cwd :: "report_os \<Rightarrow> string \<Rightarrow> Execution \<Rightarrow> string \<times> bool" where
  "report_cwd os repoRoot execRec =
     (if ex_WorkspaceMode execRec = ''shared'' then (repoRoot, False)
      else
        (let ws = (if ex_WorkspaceRoot execRec = '''' then repoRoot else ex_WorkspaceRoot execRec) in
         if ro_isDir os ws then (ws, False) else (repoRoot, True)))"

definition diff_args :: "bool \<Rightarrow> string \<Rightarrow> string list" where
  "diff_args useFallback base =
     (if useFallback then [''diff'', ''--name-only'', ''--diff-filter=ADMR'', ''--find-renames'', ''-z'', base, ''HEAD'', ''--'']
      else [''diff'', ''--name-only'', ''--diff-filter=ADMR'', ''--find-renames'', ''-z'', base, ''--''])"

definition ls_args :: "string list" where
  "ls_args = [''ls-files'', ''--others'', ''--exclude-standard'', ''-z'']"

definition report_row :: "string \<Rightarrow> FakeStore \<Rightarrow> report_error + Execution \<times> string" where
  "report_row executionID s =
     (case fst (executions_Get executionID s) of
        Inl e \<Rightarrow>
          Inl (if errors_Is e ErrNotFound then ReportError ''not_found'' '''' (''execution '' @ quoted executionID @ '' not found'')
               else ReportError ''not_found'' '''' (''execution '' @ quoted executionID @ '' not found: '' @ err_msg e))
      | Inr execRec \<Rightarrow>
          if ex_Status execRec \<noteq> ''completed'' \<and> ex_Status execRec \<noteq> ''failed''
          then Inl (ReportError ''not_completed'' '''' (''execution '' @ quoted executionID @ '' not terminal (status='' @ ex_Status execRec @ '')''))
          else
            (case ex_BaseCommit execRec of
               None \<Rightarrow> Inl (ReportError ''not_available'' ''base_commit'' (''execution '' @ quoted executionID @ '' has no base_commit (legacy row)''))
             | Some base \<Rightarrow>
                 if TrimSpace base = ''''
                 then Inl (ReportError ''not_available'' ''base_commit'' (''execution '' @ quoted executionID @ '' has empty base_commit''))
                 else Inr (execRec, base)))"

definition Report_of :: "report_os \<Rightarrow> string \<Rightarrow> string \<Rightarrow> FakeStore \<Rightarrow> report_error + Report" where
  "Report_of os rootDir executionID s =
     (case report_row executionID s of
        Inl e \<Rightarrow> Inl e
      | Inr (execRec, base) \<Rightarrow>
          (let repoRoot = eval_root (ro_fs os) rootDir; (cwd, useFallback) = report_cwd os repoRoot execRec in
           case runGit os cwd (diff_args useFallback base) of
             Inl e \<Rightarrow> Inl (ReportFailed (wrap_err ''git diff'' e))
           | Inr diffOut \<Rightarrow>
               (let tracked = parseNUL diffOut;
                    untracked = (if useFallback then [] else (case runGit os cwd ls_args of Inl e \<Rightarrow> [] | Inr lsOut \<Rightarrow> parseNUL lsOut)) in
                Inr \<lparr>rp_ExecutionID = executionID, rp_BaseCommit = ex_BaseCommit execRec,
                     rp_ChangedFiles = normalizePaths (ro_isDir os) (ro_fs os) cwd repoRoot (ex_WorkspaceMode execRec) (tracked @ untracked)\<rparr>)))"

definition ChangedFiles :: "report_os \<Rightarrow> string \<Rightarrow> string \<Rightarrow> FakeStore \<Rightarrow> report_error + string list" where
  "ChangedFiles os rootDir executionID s = map_sum id rp_ChangedFiles (Report_of os rootDir executionID s)"

section \<open>Which paths are listed\<close>

text \<open>A path git names is visible when it is relative, does not climb, is not the root and not inside \<^verbatim>\<open>.haro\<close>.\<close>

definition visible :: "string \<Rightarrow> bool" where
  "visible raw \<longleftrightarrow> \<not> IsAbs raw \<and> comps raw \<noteq> [] \<and> dotdot \<notin> set (comps raw) \<and> hd (comps raw) \<noteq> ''.haro''"

lemma split_on_tail: "\<exists>ps. ps \<noteq> [] \<and> split_on c (a @ c # t) = ps @ split_on c t"
proof (induction a)
  case (Cons x a)
  then obtain p ps where "split_on c (a @ c # t) = p # ps @ split_on c t" by (metis append_Cons neq_Nil_conv)
  then show ?case by (cases "x = c") (auto intro: exI [of _ "[] # p # ps"] exI [of _ "(x # p) # ps"])
qed (auto intro: exI [of _ "[[]]"])

lemma split_on_sublist: "c \<notin> set w \<Longrightarrow> sublist (c # w @ [c]) s \<Longrightarrow> w \<in> set (split_on c s)"
proof -
  assume w: "c \<notin> set w" and "sublist (c # w @ [c]) s"
  then obtain a b where s: "s = a @ c # w @ c # b" by (auto simp: sublist_def)
  obtain ps where "split_on c s = ps @ split_on c (w @ c # b)" using split_on_tail [of c a "w @ c # b"] s by auto
  then show ?thesis using split_on_append_sep [OF w, of b] by simp
qed

lemma relative_Clean:
  assumes "\<not> IsAbs raw" "comps raw \<noteq> []"
  shows "Clean raw = clean_logical raw" "Clean raw = join_with [slash] (comps raw)" "split_on slash (Clean raw) = comps raw"
proof -
  show c: "Clean raw = join_with [slash] (comps raw)" using assms by (rule Clean_rel)
  show "Clean raw = clean_logical raw" using c clean_logical_join [OF assms(1)] by simp
  show "split_on slash (Clean raw) = comps raw" unfolding c
    using assms(2) clean_list_comps [of raw] by (intro split_on_join) (auto simp: clean_list_def plain_elem_def)
qed

lemma haro_internal_iff:
  assumes "\<not> IsAbs raw" "comps raw \<noteq> []"
  shows "haro_internal (Clean raw) \<longleftrightarrow> hd (comps raw) = ''.haro''"
proof
  assume "haro_internal (Clean raw)"
  then obtain t where "Clean raw = ''.haro'' \<or> Clean raw = ''.haro'' @ slash # t" by (auto simp: haro_internal_def prefix_def slash_def)
  then have "hd (split_on slash (Clean raw)) = ''.haro''" using split_on_append_sep [of slash "''.haro''" t] split_on_single [of slash "''.haro''"]
    by (auto simp: slash_def)
  then show "hd (comps raw) = ''.haro''" using relative_Clean(3) [OF assms] by simp
next
  assume h: "hd (comps raw) = ''.haro''"
  then obtain cs where "comps raw = ''.haro'' # cs" using assms(2) by (cases "comps raw") auto
  then show "haro_internal (Clean raw)" using relative_Clean(2) [OF assms] by (auto simp: haro_internal_def join_with_Cons slash_def)
qed

lemma normalize_one_exact:
  "normalize_one fs anchor raw seen = (if visible raw \<and> Clean raw \<notin> set seen then seen @ [Clean raw] else seen)"
proof (cases "raw = '''' \<or> IsAbs raw \<or> comps raw = [] \<or> dotdot \<in> set (comps raw)")
  case True
  have n: "\<not> visible raw" using True by (auto simp: visible_def comps_def clean_elems_def)
  consider "raw = ''''" | "raw \<noteq> ''''" "IsAbs raw" | "raw \<noteq> ''''" "\<not> IsAbs raw" "comps raw = []" | "raw \<noteq> ''''" "\<not> IsAbs raw" "dotdot \<in> set (comps raw)"
    using True by blast
  then show ?thesis
  proof cases
    case 3
    then have "clean_logical raw = ''''" by (simp add: clean_logical_Nil_iff)
    then have "Canonicalize fs anchor raw = Inr ''''" using 3 by (simp add: Canonicalize_def Let_def)
    then show ?thesis using n by (simp add: normalize_one_def)
  next
    case 4
    then have "clean_logical raw = dotdot \<or> prefix (dotdot @ [slash]) (clean_logical raw)" using escape_iff by blast
    moreover have "Clean raw = clean_logical raw" using 4 by (intro relative_Clean) auto
    ultimately show ?thesis using 4 n by (auto simp: normalize_one_def Canonicalize_def Let_def)
  qed (use n in \<open>simp_all add: normalize_one_def Canonicalize_def\<close>)
next
  case False
  then have raw: "raw \<noteq> ''''" "\<not> IsAbs raw" "comps raw \<noteq> []" "dotdot \<notin> set (comps raw)" by auto
  note c = relative_Clean [OF raw(2,3)]
  have esc: "\<not> (Clean raw = dotdot \<or> prefix (dotdot @ [slash]) (Clean raw))" using escape_iff [OF raw(2)] raw(4) c(1) by simp
  have "\<not> sublist (slash # dotdot @ [slash]) (Clean raw)"
    using split_on_sublist [of slash dotdot "Clean raw"] raw(4) c(3) by (auto simp: slash_def dotdot_def)
  moreover have "\<not> prefix [slash] (Clean raw)" using raw(2) IsAbs_Clean [of raw] by (cases "Clean raw") (auto simp: IsAbs_def)
  moreover have "clean_logical raw \<noteq> ''''" using raw clean_logical_Nil_iff by simp
  ultimately show ?thesis
    using raw esc haro_internal_iff [OF raw(2,3)] Canonicalize_InrD(3) [of fs anchor raw] c(1)
    by (auto simp: normalize_one_def visible_def Let_def split: sum.splits)
qed

text \<open>The paths listed, whatever the file system answers.\<close>

lemma normalize_fold:
  assumes "distinct seen"
  shows "distinct (fold (normalize_one fs anchor) paths seen) \<and>
    set (fold (normalize_one fs anchor) paths seen) = set seen \<union> Clean ` {raw \<in> set paths. visible raw}"
  using assms
proof (induction paths arbitrary: seen)
  case (Cons raw paths)
  let ?s = "normalize_one fs anchor raw seen"
  have "distinct ?s" "set ?s = set seen \<union> (if visible raw then {Clean raw} else {})"
    using Cons.prems by (auto simp: normalize_one_exact)
  then show ?case using Cons.IH [of ?s] by (auto simp: image_iff)
qed simp

lemma normalizePaths_exact:
  "sorted (normalizePaths isDir fs cwd repoRoot mode paths) \<and> distinct (normalizePaths isDir fs cwd repoRoot mode paths) \<and>
   set (normalizePaths isDir fs cwd repoRoot mode paths) = Clean ` {raw \<in> set paths. visible raw}"
  using normalize_fold [of "[]" fs "report_anchor isDir cwd repoRoot mode" paths] by (simp add: normalizePaths_def)

lemma Clean_visible: "visible raw \<Longrightarrow> visible (Clean raw)"
  by (simp add: visible_def)

lemma normalizePaths_ignores_links: "normalizePaths isDir fs cwd repoRoot mode paths = normalizePaths isDir' fs' cwd' repoRoot' mode' paths"
proof -
  have "normalize_one fs a = normalize_one fs' a'" for a a' by (rule ext)+ (simp add: normalize_one_exact)
  then show ?thesis unfolding normalizePaths_def by metis
qed

lemma set_parseNUL: "set (parseNUL b) = {p \<in> set (split_on nul b). p \<noteq> []}"
  by (auto simp: parseNUL_def)

text \<open>The paths git names for a report.\<close>

definition named :: "report_os \<Rightarrow> string \<Rightarrow> string list \<Rightarrow> string set" where
  "named os cwd args = (case runGit os cwd args of Inl e \<Rightarrow> {} | Inr out \<Rightarrow> {p \<in> set (split_on nul out). p \<noteq> []})"

lemma Report_listed:
  assumes "report_row eid s = Inr (row, base)" "report_cwd os (eval_root (ro_fs os) rootDir) row = (cwd, gone)"
    "runGit os cwd (diff_args gone base) = Inr out"
  shows "\<exists>fs. Report_of os rootDir eid s = Inr \<lparr>rp_ExecutionID = eid, rp_BaseCommit = Some base, rp_ChangedFiles = fs\<rparr> \<and>
    sorted fs \<and> distinct fs \<and> (\<forall>f \<in> set fs. visible f \<and> Clean f = f) \<and>
    set fs = Clean ` {p. visible p \<and> (p \<in> named os cwd (diff_args gone base) \<or> \<not> gone \<and> p \<in> named os cwd ls_args)}"
proof -
  let ?u = "if gone then [] else (case runGit os cwd ls_args of Inl e \<Rightarrow> [] | Inr lsOut \<Rightarrow> parseNUL lsOut)"
  let ?fs = "normalizePaths (ro_isDir os) (ro_fs os) cwd (eval_root (ro_fs os) rootDir) (ex_WorkspaceMode row) (parseNUL out @ ?u)"
  have b: "ex_BaseCommit row = Some base" using assms(1) by (auto simp: report_row_def split: sum.splits option.splits if_splits)
  have r: "Report_of os rootDir eid s = Inr \<lparr>rp_ExecutionID = eid, rp_BaseCommit = Some base, rp_ChangedFiles = ?fs\<rparr>"
    using assms b by (simp add: Report_of_def Let_def)
  have n: "set (parseNUL out @ ?u) = {p. p \<in> named os cwd (diff_args gone base) \<or> \<not> gone \<and> p \<in> named os cwd ls_args}"
    using assms(3) by (auto simp: named_def set_parseNUL split: sum.splits)
  note e = normalizePaths_exact [of "ro_isDir os" "ro_fs os" cwd "eval_root (ro_fs os) rootDir" "ex_WorkspaceMode row" "parseNUL out @ ?u"]
  then have f: "set ?fs = Clean ` {p. visible p \<and> (p \<in> named os cwd (diff_args gone base) \<or> \<not> gone \<and> p \<in> named os cwd ls_args)}"
    unfolding n by auto
  then have "\<forall>f \<in> set ?fs. visible f \<and> Clean f = f" using Clean_visible by auto
  then show ?thesis using r e f by blast
qed

section \<open>Properties\<close>

text \<open>C23. There is a report exactly for an execution that ended, has a base commit and whose diff git can compute. It
  lists, in order and without repetition, the cleaned form of exactly the visible paths that git
  named for the workspace, or for the repository when the workspace is gone: relative paths that
  neither climb nor lie in \<^verbatim>\<open>.haro\<close>.\<close>

theorem report_exact:
  "(case map_of (executions s) eid of
      None \<Rightarrow> \<exists>msg. Report_of os rootDir eid s = Inl (ReportError ''not_found'' '''' msg)
    | Some row \<Rightarrow>
        let (cwd, gone) = report_cwd os (eval_root (ro_fs os) rootDir) row; base = the (ex_BaseCommit row) in
        if ex_Status row \<notin> {''completed'', ''failed''} then \<exists>msg. Report_of os rootDir eid s = Inl (ReportError ''not_completed'' '''' msg)
        else if ex_BaseCommit row = None \<or> TrimSpace base = '''' then \<exists>msg. Report_of os rootDir eid s = Inl (ReportError ''not_available'' ''base_commit'' msg)
        else case runGit os cwd (diff_args gone base) of
               Inl e \<Rightarrow> Report_of os rootDir eid s = Inl (ReportFailed (wrap_err ''git diff'' e))
             | Inr _ \<Rightarrow> \<exists>fs. Report_of os rootDir eid s = Inr \<lparr>rp_ExecutionID = eid, rp_BaseCommit = Some base, rp_ChangedFiles = fs\<rparr> \<and>
                 sorted fs \<and> distinct fs \<and> (\<forall>f \<in> set fs. visible f \<and> Clean f = f) \<and>
                 set fs = Clean ` {p. visible p \<and> (p \<in> named os cwd (diff_args gone base) \<or> \<not> gone \<and> p \<in> named os cwd ls_args)})"
proof (cases "map_of (executions s) eid")
  case None
  then have "report_row eid s = Inl (ReportError ''not_found'' '''' (''execution '' @ quoted eid @ '' not found''))"
    by (simp add: report_row_def executions_Get_def op_read_def lookup_row_def)
  then show ?thesis using None by (simp add: Report_of_def)
next
  case (Some row)
  obtain cwd gone where c: "report_cwd os (eval_root (ro_fs os) rootDir) row = (cwd, gone)" by fastforce
  have g: "fst (executions_Get eid s) = Inr row" using Some by (simp add: executions_Get_def op_read_def lookup_row_def)
  show ?thesis
  proof (cases "ex_Status row \<in> {''completed'', ''failed''} \<and> ex_BaseCommit row \<noteq> None \<and> TrimSpace (the (ex_BaseCommit row)) \<noteq> ''''")
    case True
    then obtain base where b: "ex_BaseCommit row = Some base" "TrimSpace base \<noteq> ''''" by auto
    then have r: "report_row eid s = Inr (row, base)" using g True by (auto simp: report_row_def)
    show ?thesis
    proof (cases "runGit os cwd (diff_args gone base)")
      case (Inl e)
      then have "Report_of os rootDir eid s = Inl (ReportFailed (wrap_err ''git diff'' e))" using r c by (simp add: Report_of_def Let_def)
      then show ?thesis using Some c True b Inl by simp
    next
      case (Inr out)
      then show ?thesis using Some c True b Report_listed [OF r c Inr] by simp
    qed
  next
    case False
    then have "report_row eid s = Inl (if ex_Status row \<notin> {''completed'', ''failed''}
        then ReportError ''not_completed'' '''' (''execution '' @ quoted eid @ '' not terminal (status='' @ ex_Status row @ '')'')
        else ReportError ''not_available'' ''base_commit'' (''execution '' @ quoted eid @
          (if ex_BaseCommit row = None then '' has no base_commit (legacy row)'' else '' has empty base_commit'')))"
      using g by (auto simp: report_row_def split: option.splits)
    then show ?thesis using Some c False by (auto simp: Report_of_def Let_def)
  qed
qed

definition demo_row :: Execution where
  "demo_row = \<lparr>ex_ID = ''e'', ex_ProjectID = ''p'', ex_WorkflowSource = ''w'', ex_Status = ''completed'', ex_WorkspaceMode = ''shared'',
     ex_WorkspaceRoot = '''', ex_StartedAt = None, ex_EndedAt = None, ex_DagHash = None, ex_BaseCommit = Some ''c0''\<rparr>"

definition demo_report_os :: report_os where
  "demo_report_os = \<lparr>ro_fs = demo_fs, ro_isDir = (\<lambda>_. True),
     ro_git = (\<lambda>dir args. (None, if hd args = ''diff'' then ''src/b.go'' @ [nul] @ ''.haro/x'' @ [nul] @ ''src/b.go'' else ''a.go''))\<rparr>"

theorem report_exact_witness:
  "\<exists>fs. Report_of demo_report_os ''/r'' ''e'' (NewFakeStore\<lparr>executions := [(''e'', demo_row)]\<rparr>) =
      Inr \<lparr>rp_ExecutionID = ''e'', rp_BaseCommit = Some ''c0'', rp_ChangedFiles = fs\<rparr> \<and>
    sorted fs \<and> distinct fs \<and> (\<forall>f \<in> set fs. visible f \<and> Clean f = f)"
proof -
  let ?s = "NewFakeStore\<lparr>executions := [(''e'', demo_row)]\<rparr>"
  have m: "map_of (executions ?s) ''e'' = Some demo_row" by simp
  have r: "report_cwd demo_report_os (eval_root (ro_fs demo_report_os) ''/r'') demo_row = (''/r'', False)" by code_simp
  have d: "ex_Status demo_row = ''completed''" "ex_BaseCommit demo_row = Some ''c0''" by (simp_all add: demo_row_def)
  have t: "TrimSpace ''c0'' \<noteq> ''''" by code_simp
  obtain out where g: "runGit demo_report_os ''/r'' (diff_args False ''c0'') = Inr out" by (simp add: runGit_def demo_report_os_def)
  show ?thesis using report_exact [where s = ?s and eid = "''e''" and os = demo_report_os and rootDir = "''/r''"] unfolding m using r d t g by (auto simp: Let_def)
qed

end
