(* ===== verification/Cli.thy ===== *)
theory Cli
  imports Cli_Flags Client Report Harness
begin

text \<open>
  \<^verbatim>\<open>internal/cmd/execute.go\<close>: the commands of the program. A command maps its arguments and the state (the
  engine over the store, the streams of the process) to an exit code and a new state. Opening the
  store, the broker call, the run of a daemon and the creation of a project are parameters; a
  broker call answers with the text of its result, an error of the broker, or a local error, and leaves the store
  and the disk as the daemon of the project, which works on the same ones, has changed them; so does the run of a daemon.
\<close>

section \<open>Surroundings\<close>

datatype call_error = BrokerError RPCError | LocalError goerr

record cli_env =
  ce_env :: env
  ce_providers :: "disk providers"
  ce_override :: bool
  ce_statErr :: "goerr option"
  ce_openErr :: "goerr option"
  ce_brokerCall :: "string \<Rightarrow> json \<Rightarrow> Engine \<Rightarrow> (call_error + string) \<times> Engine"
  ce_Init :: "disk \<Rightarrow> goerr option \<times> disk"
  ce_RunDaemon :: "string \<Rightarrow> Engine \<Rightarrow> goerr option \<times> Engine"
  ce_stepsJSON :: "Step list \<Rightarrow> json"
  ce_float :: "string \<Rightarrow> string"
  ce_report :: "disk \<Rightarrow> report_os"

record cli_state =
  cs_engine :: Engine
  cs_sm :: streams

type_synonym command = "cli_state \<Rightarrow> int \<times> cli_state"

definition on_streams :: "(streams \<Rightarrow> 'a \<times> streams) \<Rightarrow> cli_state \<Rightarrow> 'a \<times> cli_state" where
  "on_streams f cs = (case f (cs_sm cs) of (x, sm) \<Rightarrow> (x, cs\<lparr>cs_sm := sm\<rparr>))"

definition fail_with :: "string \<times> string \<Rightarrow> command" where
  "fail_with mc = on_streams (writeErr (fst mc) (snd mc))"

text \<open>\<^verbatim>\<open>_ = writeJSON(out, v); return code\<close>\<close>

definition put_json :: "json \<Rightarrow> int \<Rightarrow> command" where
  "put_json v code cs = (code, snd (on_streams (writeJSON v) cs))"

text \<open>\<^verbatim>\<open>if err := writeJSON(out, v); err != nil && !isEPIPE(err) { return 1 }; return 0\<close>\<close>

definition put_json_checked :: "json \<Rightarrow> command" where
  "put_json_checked v cs = (case on_streams (writeJSON v) cs of (e, cs') \<Rightarrow> (if e \<noteq> None \<and> \<not> isEPIPE e then 1 else 0, cs'))"

text \<open>\<^verbatim>\<open>fmt.Fprintln(out, t)\<close> with the error ignored, and \<^verbatim>\<open>io.Copy(out, &buf)\<close> with it checked.\<close>

definition put_line :: "string \<Rightarrow> command" where
  "put_line t cs = (0, snd (on_streams (write_out (t @ newline)) cs))"

definition put_text :: "string \<Rightarrow> command" where
  "put_text t cs =
     (if t = [] then (0, cs)
      else (case on_streams (write_out t) cs of (e, cs') \<Rightarrow> (if e \<noteq> None \<and> \<not> isEPIPE e then 1 else 0, cs')))"

definition with_tail :: "(string \<times> flag_kind) list \<Rightarrow> string list \<Rightarrow> (flag_values \<Rightarrow> command) \<Rightarrow> command" where
  "with_tail ks rest k cs = (case option_tail ks rest of Inl mc \<Rightarrow> fail_with mc cs | Inr vs \<Rightarrow> k vs cs)"

definition json_flag :: "string \<times> flag_kind" where
  "json_flag = (''json'', BoolFlag)"

text \<open>\<^verbatim>\<open>store.Open\<close> and a new engine over it.\<close>

definition with_store :: "cli_env \<Rightarrow> command \<Rightarrow> command" where
  "with_store ce k cs =
     (case ce_openErr ce of
        Some e \<Rightarrow> fail_with (err_msg e, ''store_failed'') cs
      | None \<Rightarrow> k (cs\<lparr>cs_engine := (cs_engine cs)\<lparr>activeClaims := [], activeLeases := []\<rparr>\<rparr>))"

definition injectAdapterManager :: "cli_env \<Rightarrow> cli_state \<Rightarrow> (goerr + env) \<times> cli_state" where
  "injectAdapterManager ce cs =
     (let env = ce_env ce; disk = e_disk (cs_engine cs) in
      case LoadConfig (dk_ReadFile disk) (yaml_config env) (root env) of
        Inl e \<Rightarrow> (Inl (wrap_err ''harness config'' e), cs)
      | Inr cfg \<Rightarrow>
          if cf_Harnesses cfg = [] then (Inr env, cs)
          else
            (case factory_NewManager (ce_providers ce) cfg disk of
               (Inl e, mgr, disk') \<Rightarrow> (Inl (wrap_err ''harness factory'' e), cs\<lparr>cs_engine := (cs_engine cs)\<lparr>e_disk := disk'\<rparr>\<rparr>)
             | (Inr _, mgr, disk') \<Rightarrow> (Inr (env\<lparr>adapterMgr := Some mgr\<rparr>), cs\<lparr>cs_engine := (cs_engine cs)\<lparr>e_disk := disk'\<rparr>\<rparr>)))"

text \<open>The store, an engine with its adapters, one call of the engine.\<close>

definition with_engine :: "cli_env \<Rightarrow> (env \<Rightarrow> (Engine, 'a) op) \<Rightarrow> (goerr + 'a \<Rightarrow> command) \<Rightarrow> command" where
  "with_engine ce f k =
     with_store ce (\<lambda>cs.
       case injectAdapterManager ce cs of
         (Inl e, cs) \<Rightarrow> fail_with (err_msg e, ''harness_config_failed'') cs
       | (Inr env, cs) \<Rightarrow> (case f env (cs_engine cs) of (r, e) \<Rightarrow> k r (cs\<lparr>cs_engine := e\<rparr>)))"

text \<open>\<^verbatim>\<open>err.(*workflow.ValidationError)\<close> and \<^verbatim>\<open>err.(*execution.LogicalConflictError)\<close> see only an error that is not
  wrapped, whose text is its own.\<close>

definition as_validation :: "goerr \<Rightarrow> ValidationError option" where
  "as_validation e = (case err_kind e of Validation ve \<Rightarrow> if err_msg e = ValidationError_Error ve then Some ve else None | _ \<Rightarrow> None)"

definition as_conflict :: "goerr \<Rightarrow> LogicalConflictError option" where
  "as_conflict e = (case err_kind e of LogicalConflict lc \<Rightarrow> if err_msg e = LogicalConflictError_Error lc then Some lc else None | _ \<Rightarrow> None)"

definition validation_json :: "ValidationError \<Rightarrow> json" where
  "validation_json ve = JObj [(''code'', JStr (ve_Code ve)), (''error'', JStr (ve_Message ve)), (''field'', JStr (ve_Field ve))]"

section \<open>Results of the broker\<close>

text \<open>\<^verbatim>\<open>json.Marshal\<close> of a \<^verbatim>\<open>json.RawMessage\<close>: without space, with HTML characters escaped.\<close>

definition escape_html :: "char \<Rightarrow> string" where
  "escape_html c =
     (if c = CHR ''<'' then [CHR 0x5C] @ ''u003c'' else if c = CHR ''>'' then [CHR 0x5C] @ ''u003e''
      else if c = CHR ''&'' then [CHR 0x5C] @ ''u0026'' else [c])"

fun compact :: "bool \<Rightarrow> string \<Rightarrow> string" where
  "compact inString [] = []"
| "compact inString (c # s) =
     (if \<not> inString \<and> c \<in> {CHR '' '', CHR 0x09, CHR 0x0A, CHR 0x0D} then compact False s
      else if inString \<and> c = CHR 0x5C then (case s of [] \<Rightarrow> [c] | d # t \<Rightarrow> c # d # compact True t)
      else if take 3 (c # s) = [CHR 0xE2, CHR 0x80, CHR 0xA8] then [CHR 0x5C] @ ''u2028'' @ compact inString (drop 2 s)
      else if take 3 (c # s) = [CHR 0xE2, CHR 0x80, CHR 0xA9] then [CHR 0x5C] @ ''u2029'' @ compact inString (drop 2 s)
      else escape_html c @ compact (if c = CHR 0x22 then \<not> inString else inString) s)"

definition put_raw :: "string \<Rightarrow> command" where
  "put_raw result cs =
     (case json_parse result of
        None \<Rightarrow> (1, cs)
      | Some _ \<Rightarrow> (case on_streams (\<lambda>sm. hide_EPIPE (write_out (compact False result @ newline) sm)) cs of
                    (e, cs') \<Rightarrow> (if e \<noteq> None \<and> \<not> isEPIPE e then 1 else 0, cs')))"

text \<open>\<^verbatim>\<open>json.Unmarshal\<close> into a \<^verbatim>\<open>map[string]string\<close>; \<open>None\<close> is an error.\<close>

definition string_map :: "string \<Rightarrow> (string, string) gomap option" where
  "string_map result =
     (case json_parse result of
        Some (JObj kvs) \<Rightarrow>
          if \<forall>(k, v) \<in> set kvs. v = JNull \<or> (\<exists>s. v = JStr s)
          then Some (fold (\<lambda>(k, v) m. AList.update k (case v of JStr s \<Rightarrow> s | _ \<Rightarrow> '''') m) kvs [])
          else None
      | Some JNull \<Rightarrow> Some []
      | _ \<Rightarrow> None)"

definition writeBrokerResult :: "string \<Rightarrow> bool \<Rightarrow> string \<Rightarrow> command" where
  "writeBrokerResult result jsonOut requiredField cs =
     (if jsonOut then put_raw result cs
      else
        (case string_map result of
           None \<Rightarrow> (1, cs)
         | Some payload \<Rightarrow>
             (let value = (case map_of payload requiredField of None \<Rightarrow> '''' | Some v \<Rightarrow> v) in
              if value \<noteq> '''' then put_line value cs else (1, cs))))"

definition writeBrokerCallError :: "call_error \<Rightarrow> string \<Rightarrow> command" where
  "writeBrokerCallError err fallback cs =
     (case err of
        BrokerError remote \<Rightarrow>
          (let code = (if rpc_Message remote = '''' then fallback else rpc_Message remote);
               payload = JObj ([(''code'', JStr code)] @ (case rpc_Data remote of None \<Rightarrow> [] | Some d \<Rightarrow> [(''data'', d)]) @
                 [(''error'', JStr (rpc_Message remote))])
           in case on_streams (writeJSON payload) cs of
                (Some e, cs') \<Rightarrow> if \<not> isEPIPE (Some e) then fail_with (err_msg (fst e), fallback) cs' else (1, cs')
              | (None, cs') \<Rightarrow> (1, cs'))
      | LocalError e \<Rightarrow> fail_with (err_msg e, fallback) cs)"

definition broker_command :: "cli_env \<Rightarrow> string \<Rightarrow> json \<Rightarrow> string \<Rightarrow> (string \<Rightarrow> command) \<Rightarrow> command" where
  "broker_command ce mth params fallback k cs =
     (case ce_brokerCall ce mth params (cs_engine cs) of
        (Inl e, e') \<Rightarrow> writeBrokerCallError e fallback (cs\<lparr>cs_engine := e'\<rparr>)
      | (Inr result, e') \<Rightarrow> k result (cs\<lparr>cs_engine := e'\<rparr>))"

section \<open>Commands of the broker\<close>

definition handleBrokerRun :: "cli_env \<Rightarrow> string \<Rightarrow> bool \<Rightarrow> command" where
  "handleBrokerRun ce name jsonOut cs =
     (case Discover (dk_wf (e_disk (cs_engine cs))) (yaml_workflow (ce_env ce)) (root (ce_env ce)) of
        Inl e \<Rightarrow> fail_with (err_msg e, ''discover_failed'') cs
      | Inr discovered \<Rightarrow>
          (let path = (case find (\<lambda>d. d_Name d = name \<or> wf_Name (d_Workflow d) = name) discovered of None \<Rightarrow> '''' | Some d \<Rightarrow> d_Path d) in
           if path = '''' then fail_with (''workflow '' @ quoted name @ '' not found'', ''not_found'') cs
           else broker_command ce ''execution.start'' (JObj [(''workflow_path'', JStr path)]) ''create_failed''
                  (\<lambda>result. writeBrokerResult result jsonOut ''execution_id'') cs))"

text \<open>A value decoded into \<^verbatim>\<open>any\<close> and encoded again: keys sorted and unique, numbers as \<^verbatim>\<open>float64\<close>.\<close>

fun any_json :: "(string \<Rightarrow> string) \<Rightarrow> json \<Rightarrow> json" where
  "any_json f (JNum t) = JNum (f t)"
| "any_json f (JArr vs) = JArr (map (any_json f) vs)"
| "any_json f (JObj kvs) = JObj (sort_key fst (fold (\<lambda>(k, v) m. AList.update k v m) (map (\<lambda>(k, v). (k, any_json f v)) kvs) []))"
| "any_json f v = v"

record status_step =
  ss_ID :: string
  ss_Status :: string

record executionStatusOutput =
  so_Status :: string
  so_Steps :: "status_step slice"

definition into_status_step :: "status_step decoder" where
  "into_status_step = into_struct [(''id'', at_field ss_ID ss_ID_update into_string), (''status'', at_field ss_Status ss_Status_update into_string)]"

definition into_status :: "executionStatusOutput decoder" where
  "into_status = into_struct
     [(''status'', at_field so_Status so_Status_update into_string),
      (''steps'', at_field so_Steps so_Steps_update (into_slice \<lparr>ss_ID = '''', ss_Status = ''''\<rparr> into_status_step))]"

definition status_text :: "string \<Rightarrow> string \<Rightarrow> (string \<times> string) list \<Rightarrow> string" where
  "status_text execID status ss =
     ''execution '' @ execID @ '' status '' @ status @ newline @
     concat (map (\<lambda>(i, s). ''  '' @ i @ '': '' @ s @ newline) ss)"

text \<open>The exit code of a process that panics, here by an assignment to a nil map.\<close>

definition panic_code :: int where
  "panic_code = 2"

definition handleBrokerStatus :: "cli_env \<Rightarrow> string \<Rightarrow> bool \<Rightarrow> command" where
  "handleBrokerStatus ce execID jsonOut =
     broker_command ce ''execution.status'' (JObj [(''execution_id'', JStr execID)]) ''not_found'' (\<lambda>result cs.
       let bad = fail_with (err_msg (json_error (ce_env ce) result), ''broker_failed'') in
       if jsonOut then
         (case json_parse result of
            Some (JObj kvs) \<Rightarrow>
              put_json_checked (any_json (ce_float ce) (JObj (kvs @ [(''execution_id'', JStr execID)]))) cs
          | Some JNull \<Rightarrow> (panic_code, cs)
          | _ \<Rightarrow> bad cs)
       else
         (case json_parse result of
            None \<Rightarrow> bad cs
          | Some v \<Rightarrow>
              (case into_status v \<lparr>so_Status = '''', so_Steps = no_slice\<rparr> of
                 None \<Rightarrow> bad cs
               | Some p \<Rightarrow> put_text (status_text execID (so_Status p) (map (\<lambda>s. (ss_ID s, ss_Status s)) (sl_elems (so_Steps p)))) cs)))"

definition step_params :: "string \<Rightarrow> string \<Rightarrow> (string \<times> json) list" where
  "step_params execID stepID = [(''execution_id'', JStr execID), (''step_id'', JStr stepID)]"

definition handleBrokerStepRun :: "cli_env \<Rightarrow> string \<Rightarrow> string \<Rightarrow> bool \<Rightarrow> command" where
  "handleBrokerStepRun ce execID stepID jsonOut =
     broker_command ce ''step.run'' (JObj (step_params execID stepID)) ''run_failed'' (\<lambda>result. writeBrokerResult result jsonOut ''attempt_id'')"

definition handleBrokerStepEvents :: "cli_env \<Rightarrow> string \<Rightarrow> string \<Rightarrow> int \<Rightarrow> bool \<Rightarrow> command" where
  "handleBrokerStepEvents ce execID stepID since jsonOut =
     broker_command ce ''step.events'' (JObj ([(''execution_id'', JStr execID), (''since_cursor'', JNum (itoa since)), (''step_id'', JStr stepID)]))
       ''events_failed'' (\<lambda>result. writeBrokerResult result jsonOut ''next_cursor'')"

definition into_invalidated :: "string slice decoder" where
  "into_invalidated = into_struct [(''invalidated'', into_slice '''' into_string)]"

text \<open>One line after the other, until a write fails for another reason than a closed pipe.\<close>

fun put_lines :: "string list \<Rightarrow> command" where
  "put_lines [] cs = (0, cs)"
| "put_lines (t # ts) cs =
     (case on_streams (write_out (t @ newline)) cs of (e, cs') \<Rightarrow> if e \<noteq> None \<and> \<not> isEPIPE e then (1, cs') else put_lines ts cs')"

definition handleBrokerStepReopen :: "cli_env \<Rightarrow> string \<Rightarrow> string \<Rightarrow> string \<Rightarrow> bool \<Rightarrow> command" where
  "handleBrokerStepReopen ce execID stepID feedback jsonOut =
     broker_command ce ''step.reopen''
       (JObj ([(''cascade'', JBool True), (''execution_id'', JStr execID)] @ (if feedback \<noteq> '''' then [(''feedback'', JStr feedback)] else []) @
         [(''step_id'', JStr stepID)])) ''reopen_failed'' (\<lambda>result cs.
       if jsonOut then put_raw result cs
       else
         (case json_parse result of
            None \<Rightarrow> fail_with (err_msg (json_error (ce_env ce) result), ''reopen_failed'') cs
          | Some v \<Rightarrow>
              (case into_invalidated v no_slice of
                 None \<Rightarrow> fail_with (err_msg (json_error (ce_env ce) result), ''reopen_failed'') cs
               | Some sl \<Rightarrow> put_lines (sl_elems sl) cs)))"

section \<open>Project and workflows\<close>

definition handleInit :: "cli_env \<Rightarrow> string list \<Rightarrow> command" where
  "handleInit ce args =
     with_tail [] args (\<lambda>_ cs.
       case ce_Init ce (e_disk (cs_engine cs)) of
         (Some e, disk) \<Rightarrow> fail_with (err_msg e, ''init_failed'') (cs\<lparr>cs_engine := (cs_engine cs)\<lparr>e_disk := disk\<rparr>\<rparr>)
       | (None, disk) \<Rightarrow> put_json (JObj [(''status'', JStr ''initialized'')]) 0 (cs\<lparr>cs_engine := (cs_engine cs)\<lparr>e_disk := disk\<rparr>\<rparr>))"

definition discovered_in :: "cli_env \<Rightarrow> cli_state \<Rightarrow> goerr + Discovered list" where
  "discovered_in ce cs = Discover (dk_wf (e_disk (cs_engine cs))) (yaml_workflow (ce_env ce)) (root (ce_env ce))"

definition handleWorkflowsList :: "cli_env \<Rightarrow> string list \<Rightarrow> command" where
  "handleWorkflowsList ce args =
     with_tail [json_flag] args (\<lambda>vs cs.
       case discovered_in ce cs of
         Inl e \<Rightarrow> fail_with (err_msg e, ''discover_failed'') cs
       | Inr discovered \<Rightarrow>
           if bool_flag vs ''json''
           then put_json_checked (JObj [(''workflows'', JArr (map (\<lambda>d. JObj [(''name'', JStr (d_Name d)), (''path'', JStr (d_Path d))]) discovered))]) cs
           else put_text (concat (map (\<lambda>d. d_Name d @ newline) discovered)) cs)"

definition describe_text :: "Discovered \<Rightarrow> string" where
  "describe_text d =
     ''name: '' @ d_Name d @ newline @ ''path: '' @ d_Path d @ newline @
     concat (map (\<lambda>s. ''  - '' @ ID s @ '' ('' @ Type s @ '')'' @ newline) (wf_Steps (d_Workflow d)))"

definition handleWorkflowsDescribe :: "cli_env \<Rightarrow> string list \<Rightarrow> command" where
  "handleWorkflowsDescribe ce args =
     (case args of
        [] \<Rightarrow> fail_with (''missing workflow name'', ''invalid_argument'')
      | name # rest \<Rightarrow>
          with_tail [json_flag] rest (\<lambda>vs cs.
            case discovered_in ce cs of
              Inl e \<Rightarrow> fail_with (err_msg e, ''discover_failed'') cs
            | Inr discovered \<Rightarrow>
                (case find (\<lambda>d. d_Name d = name \<or> wf_Name (d_Workflow d) = name) discovered of
                   None \<Rightarrow> fail_with (''workflow '' @ quoted name @ '' not found'', ''not_found'') cs
                 | Some d \<Rightarrow>
                     if bool_flag vs ''json''
                     then put_json_checked (JObj [(''name'', JStr (d_Name d)), (''path'', JStr (d_Path d)),
                            (''steps'', ce_stepsJSON ce (wf_Steps (d_Workflow d)))]) cs
                     else put_text (describe_text d) cs)))"

definition handleWorkflows :: "cli_env \<Rightarrow> string list \<Rightarrow> command" where
  "handleWorkflows ce args =
     (case args of
        [] \<Rightarrow> fail_with (''missing workflows subcommand'', ''unknown_command'')
      | sub # rest \<Rightarrow>
          if sub = ''list'' then handleWorkflowsList ce rest
          else if sub = ''describe'' then handleWorkflowsDescribe ce rest
          else fail_with (''unknown workflows subcommand '' @ quoted sub, ''unknown_command''))"

section \<open>Executions\<close>

definition handleRun :: "cli_env \<Rightarrow> string list \<Rightarrow> command" where
  "handleRun ce args =
     (case args of
        [] \<Rightarrow> fail_with (''missing workflow name'', ''invalid_argument'')
      | name # rest \<Rightarrow>
          with_tail [json_flag] rest (\<lambda>vs.
            if \<not> ce_override ce then handleBrokerRun ce name (bool_flag vs ''json'')
            else with_engine ce (\<lambda>env. CreateExecution env name) (\<lambda>r.
              case r of
                Inl e \<Rightarrow> (case as_validation e of Some ve \<Rightarrow> put_json (validation_json ve) 1 | None \<Rightarrow> fail_with (err_msg e, ''create_failed''))
              | Inr i \<Rightarrow> if bool_flag vs ''json'' then put_json (JObj [(''execution_id'', JStr i)]) 0 else put_line i)))"

text \<open>The paths of a step that can be claimed, without repetition.\<close>

definition step_paths :: "filesys \<Rightarrow> string \<Rightarrow> ExecutionStep \<Rightarrow> string list" where
  "step_paths fs repoRoot s =
     fold (\<lambda>raw acc. case Canonicalize fs repoRoot raw of
         Inl _ \<Rightarrow> acc
       | Inr c \<Rightarrow> if c = '''' \<or> c \<in> set acc then acc else acc @ [c])
       (fst (unmarshal_strings (es_Requires s)) @ fst (unmarshal_strings (es_Produces s))) []"

definition isBlockedByClaims :: "filesys \<Rightarrow> ExecutionStep \<Rightarrow> PathClaim list \<Rightarrow> string \<Rightarrow> string list \<Rightarrow> bool" where
  "isBlockedByClaims fs s active repoRoot extPaths =
     (let effMode = (if es_WorkspaceMode s = '''' then ''isolated'' else es_WorkspaceMode s) in
      \<exists>lp \<in> set (step_paths fs repoRoot s).
        let candidateMode = (if IsExternal lp extPaths then ''shared'' else effMode) in
        \<exists>ac \<in> set active. Overlaps (pc_LogicalPath ac) lp \<and> ShouldBlock (pc_Mode ac) candidateMode ''block'' False)"

text \<open>A dependency that is not a step of the execution does not hold a step back.\<close>

definition deps_satisfied :: "ExecutionStep list \<Rightarrow> ExecutionStep \<Rightarrow> bool" where
  "deps_satisfied ss s \<longleftrightarrow>
     (\<forall>d \<in> set (fst (unmarshal_strings (es_DependsOn s))). \<forall>other \<in> set ss.
        es_StepID other = d \<longrightarrow> es_Status other = ''completed'' \<or> es_Status other = ''skipped'')"

definition next_step :: "filesys \<Rightarrow> string \<Rightarrow> string list \<Rightarrow> PathClaim list \<Rightarrow> ExecutionStep list \<Rightarrow> ExecutionStep option" where
  "next_step fs repoRoot extPaths active ss =
     find (\<lambda>s. es_Type s \<noteq> ''workflow'' \<and> es_Status s = ''pending'' \<and> deps_satisfied ss s \<and> \<not> isBlockedByClaims fs s active repoRoot extPaths) ss"

definition next_in_store :: "cli_env \<Rightarrow> string \<Rightarrow> Engine \<Rightarrow> goerr + ExecutionStep option" where
  "next_in_store ce execID e =
     (let s = e_store e; cwd = root (ce_env ce) in
      case fst (steps_List execID s) of
        Inl err \<Rightarrow> Inl err
      | Inr ss \<Rightarrow>
          (let projectID = (case fst (executions_Get execID s) of Inr ex \<Rightarrow> ex_ProjectID ex | Inl _ \<Rightarrow> cwd);
               active = (case fst (claims_ListActive projectID s) of Inr cl \<Rightarrow> cl | Inl _ \<Rightarrow> []);
               extPaths = (case LoadConfig (dk_ReadFile (e_disk e)) (yaml_config (ce_env ce)) cwd of Inr cfg \<Rightarrow> cf_ExternalPaths cfg | Inl _ \<Rightarrow> [])
           in Inr (next_step (dk_fs (e_disk e)) cwd extPaths active ss)))"

definition handleStepsNext :: "cli_env \<Rightarrow> string list \<Rightarrow> command" where
  "handleStepsNext ce args =
     (case args of
        [] \<Rightarrow> fail_with (''missing execution id'', ''invalid_argument'')
      | execID # rest \<Rightarrow>
          with_tail [json_flag] rest (\<lambda>vs. with_store ce (\<lambda>cs.
            case next_in_store ce execID (cs_engine cs) of
              Inl e \<Rightarrow> fail_with (err_msg e, ''not_found'') cs
            | Inr None \<Rightarrow> if bool_flag vs ''json'' then put_json (JObj [(''next'', JNull)]) 0 cs else put_line ''no next step'' cs
            | Inr (Some n) \<Rightarrow> if bool_flag vs ''json'' then put_json (JObj [(''step_id'', JStr (es_StepID n))]) 0 cs else put_line (es_StepID n) cs)))"

definition handleSteps :: "cli_env \<Rightarrow> string list \<Rightarrow> command" where
  "handleSteps ce args =
     (case args of
        [] \<Rightarrow> fail_with (''missing steps subcommand'', ''unknown_command'')
      | sub # rest \<Rightarrow>
          if sub = ''next'' then handleStepsNext ce rest
          else fail_with (''unknown steps subcommand '' @ quoted sub, ''unknown_command''))"

section \<open>Steps\<close>

definition isAgentStep :: "cli_env \<Rightarrow> string \<Rightarrow> string \<Rightarrow> cli_state \<Rightarrow> bool" where
  "isAgentStep ce execID stepID cs =
     (if ce_statErr ce \<noteq> None \<or> ce_openErr ce \<noteq> None then False
      else (case fst (steps_Get execID stepID (e_store (cs_engine cs))) of Inl _ \<Rightarrow> False | Inr s \<Rightarrow> es_Type s = ''agent''))"

definition conflict_json :: "goerr \<Rightarrow> LogicalConflictError \<Rightarrow> json" where
  "conflict_json e lc = JObj [(''code'', JStr ''logical_conflict''), (''error'', JStr (err_msg e)), (''logical_path'', JStr (lc_LogicalPath lc)),
     (''owner_execution_id'', JStr (lc_OwnerExecutionID lc)), (''owner_step_id'', JStr (lc_OwnerStepID lc))]"

definition run_error_code :: "string \<Rightarrow> string" where
  "run_error_code msg =
     (if sublist ''unsatisfied'' msg then ''unsatisfied_dependency'' else if sublist ''missing'' msg then ''missing_artifact''
      else if sublist ''requires'' msg then ''requires_failed'' else if sublist ''workflow_invalid'' msg then ''workflow_invalid''
      else ''run_failed'')"

definition run_error :: "goerr \<Rightarrow> command" where
  "run_error e =
     (case as_validation e of
        Some ve \<Rightarrow> put_json (validation_json ve) 1
      | None \<Rightarrow>
          (case as_conflict e of
             Some lc \<Rightarrow> put_json (conflict_json e lc) 1
           | None \<Rightarrow>
               if sublist ''logical_conflict'' (err_msg e) then put_json (error_json (err_msg e) ''logical_conflict'') 1
               else fail_with (err_msg e, run_error_code (err_msg e))))"

definition cmd_handleStepRun :: "cli_env \<Rightarrow> string list \<Rightarrow> command" where
  "cmd_handleStepRun ce args =
     (case args of
        execID # stepID # rest \<Rightarrow>
          with_tail [json_flag, (''feedback'', StringFlag)] rest (\<lambda>vs cs.
            let feedback = string_flag vs ''feedback''; jsonOut = bool_flag vs ''json'' in
            if \<not> ce_override ce \<and> feedback = '''' \<and> \<not> isAgentStep ce execID stepID cs then handleBrokerStepRun ce execID stepID jsonOut cs
            else with_engine ce (\<lambda>env. RunStep env execID stepID feedback) (\<lambda>r.
              case r of
                Inl e \<Rightarrow> run_error e
              | Inr _ \<Rightarrow> if jsonOut then put_json (JObj [(''status'', JStr ''ok'')]) 0 else put_line ''ok'') cs)
      | _ \<Rightarrow> fail_with (''missing execution and step'', ''invalid_argument''))"

definition cmd_handleStepEvents :: "cli_env \<Rightarrow> string list \<Rightarrow> command" where
  "cmd_handleStepEvents ce args =
     (case args of
        execID # stepID # rest \<Rightarrow>
          (case parse_flags [json_flag, (''since-cursor'', IntFlag)] rest [] of
             Inl e \<Rightarrow> fail_with (e, ''invalid_argument'')
           | Inr (vs, xs) \<Rightarrow>
               if xs \<noteq> [] \<or> int_flag vs ''since-cursor'' < 0 then fail_with (''invalid step events arguments'', ''invalid_argument'')
               else if ce_override ce then fail_with (''step events requires broker mode'', ''invalid_argument'')
               else handleBrokerStepEvents ce execID stepID (int_flag vs ''since-cursor'') (bool_flag vs ''json''))
      | _ \<Rightarrow> fail_with (''missing execution and step'', ''invalid_argument''))"

definition cmd_handleStepReopen :: "cli_env \<Rightarrow> string list \<Rightarrow> command" where
  "cmd_handleStepReopen ce args =
     (case args of
        execID # stepID # rest \<Rightarrow>
          with_tail [(''cascade'', BoolFlag), (''feedback'', StringFlag), json_flag] rest (\<lambda>vs.
            let feedback = string_flag vs ''feedback'' in
            if \<not> bool_flag vs ''cascade'' then fail_with (''reopen requires --cascade'', ''invalid_argument'')
            else if \<not> ce_override ce then handleBrokerStepReopen ce execID stepID feedback (bool_flag vs ''json'')
            else with_engine ce (\<lambda>env. ReopenStep env execID stepID True feedback) (\<lambda>r.
              case r of
                Inl e \<Rightarrow> fail_with (err_msg e, ''reopen_failed'')
              | Inr _ \<Rightarrow> put_json (JObj [(''status'', JStr ''reopened'')]) 0))
      | _ \<Rightarrow> fail_with (''missing execution and step'', ''invalid_argument''))"

definition handleStepSkip :: "cli_env \<Rightarrow> string list \<Rightarrow> command" where
  "handleStepSkip ce args =
     (case args of
        execID # stepID # rest \<Rightarrow>
          with_tail [(''reason'', StringFlag)] rest (\<lambda>vs.
            let reason = string_flag vs ''reason'' in
            if TrimSpace reason = '''' then fail_with (''skip requires --reason'', ''invalid_argument'')
            else with_engine ce (\<lambda>env. SkipStep env execID stepID reason) (\<lambda>r.
              case r of
                Inl e \<Rightarrow> fail_with (err_msg e, ''skip_failed'')
              | Inr _ \<Rightarrow> put_json (JObj [(''status'', JStr ''skipped'')]) 0))
      | _ \<Rightarrow> fail_with (''missing execution and step'', ''invalid_argument''))"

definition handleStep :: "cli_env \<Rightarrow> string list \<Rightarrow> command" where
  "handleStep ce args =
     (case args of
        [] \<Rightarrow> fail_with (''missing step subcommand'', ''unknown_command'')
      | sub # rest \<Rightarrow>
          if sub = ''run'' then cmd_handleStepRun ce rest
          else if sub = ''events'' then cmd_handleStepEvents ce rest
          else if sub = ''reopen'' then cmd_handleStepReopen ce rest
          else if sub = ''skip'' then handleStepSkip ce rest
          else fail_with (''unknown step subcommand '' @ quoted sub, ''unknown_command''))"

section \<open>Status and report\<close>

definition handleStatus :: "cli_env \<Rightarrow> string list \<Rightarrow> command" where
  "handleStatus ce args =
     (case args of
        [] \<Rightarrow> fail_with (''missing execution id'', ''invalid_argument'')
      | execID # rest \<Rightarrow>
          with_tail [json_flag] rest (\<lambda>vs.
            if \<not> ce_override ce then handleBrokerStatus ce execID (bool_flag vs ''json'')
            else with_store ce (\<lambda>cs.
              let s = e_store (cs_engine cs) in
              case fst (executions_Get execID s) of
                Inl e \<Rightarrow> fail_with (err_msg e, ''not_found'') cs
              | Inr ex \<Rightarrow>
                  (let ss = (case fst (steps_List execID s) of Inr ss \<Rightarrow> ss | Inl _ \<Rightarrow> []) in
                   if bool_flag vs ''json''
                   then put_json (JObj [(''execution_id'', JStr (ex_ID ex)), (''status'', JStr (ex_Status ex)),
                          (''steps'', if ss = [] then JNull
                             else JArr (map (\<lambda>s. JObj [(''id'', JStr (es_StepID s)), (''status'', JStr (es_Status s))]) ss))]) 0 cs
                   else put_text (status_text (ex_ID ex) (ex_Status ex) (map (\<lambda>s. (es_StepID s, es_Status s)) ss)) cs))))"

text \<open>The plain report stops at the first write that fails.\<close>

fun put_files :: "string list \<Rightarrow> command" where
  "put_files [] cs = (0, cs)"
| "put_files (t # ts) cs =
     (case on_streams (write_out (t @ newline)) cs of (e, cs') \<Rightarrow>
        if e \<noteq> None then (if isEPIPE e then 0 else 1, cs') else put_files ts cs')"

definition handleReport :: "cli_env \<Rightarrow> string list \<Rightarrow> command" where
  "handleReport ce args =
     (case args of
        [] \<Rightarrow> fail_with (''missing execution id'', ''invalid_argument'')
      | execID # rest \<Rightarrow>
          with_tail [json_flag] rest (\<lambda>vs. with_store ce (\<lambda>cs.
            case Report_of (ce_report ce (e_disk (cs_engine cs))) (root (ce_env ce)) execID (e_store (cs_engine cs)) of
              Inl (ReportError code field msg) \<Rightarrow>
                put_json (JObj ([(''code'', JStr code), (''error'', JStr msg)] @ (if field \<noteq> '''' then [(''field'', JStr field)] else []))) 1 cs
            | Inl (ReportFailed e) \<Rightarrow> fail_with (err_msg e, ''report_failed'') cs
            | Inr rpt \<Rightarrow>
                if bool_flag vs ''json''
                then put_json_checked (JObj [(''base_commit'', case rp_BaseCommit rpt of None \<Rightarrow> JNull | Some b \<Rightarrow> JStr b),
                       (''changed_files'', JArr (map JStr (rp_ChangedFiles rpt))), (''execution_id'', JStr (rp_ExecutionID rpt))]) cs
                else put_files (rp_ChangedFiles rpt) cs)))"

definition handleBroker :: "cli_env \<Rightarrow> string list \<Rightarrow> command" where
  "handleBroker ce args =
     with_tail [(''project'', StringFlag)] args (\<lambda>vs cs.
       let projectRoot = (if TrimSpace (string_flag vs ''project'') = '''' then root (ce_env ce) else string_flag vs ''project'') in
       case ce_RunDaemon ce projectRoot (cs_engine cs) of
         (Some e, e') \<Rightarrow> fail_with (err_msg e, ''broker_failed'') (cs\<lparr>cs_engine := e'\<rparr>)
       | (None, e') \<Rightarrow> (0, cs\<lparr>cs_engine := e'\<rparr>))"

definition Execute :: "cli_env \<Rightarrow> string list \<Rightarrow> command" where
  "Execute ce args =
     (case args of
        [] \<Rightarrow> put_json (error_json ''no command'' ''unknown_command'') 1
      | cmd # rest \<Rightarrow>
          if cmd = ''init'' then handleInit ce rest
          else if cmd = ''workflows'' then handleWorkflows ce rest
          else if cmd = ''run'' then handleRun ce rest
          else if cmd = ''steps'' then handleSteps ce rest
          else if cmd = ''step'' then handleStep ce rest
          else if cmd = ''status'' then handleStatus ce rest
          else if cmd = ''report'' then handleReport ce rest
          else if cmd = ''broker'' then handleBroker ce rest
          else fail_with (''unknown command '' @ quoted cmd, ''unknown_command''))"

end
