(* ===== verification/Cli_Props.thy ===== *)
theory Cli_Props
  imports Cli Engine_Attempts
begin

text \<open>
  What the commands guarantee: whatever a user types, the store keeps its integrity and its history, and
  only the commands for steps and executions, and the daemon, touch it; \<^verbatim>\<open>steps next\<close> proposes exactly the steps the dependencies and claims of the store allow;
  the plain output of a broker result.
\<close>

section \<open>Commands that only write to their streams\<close>

definition reads_only :: "command \<Rightarrow> bool" where
  "reads_only c \<longleftrightarrow> (\<forall>cs. e_store (cs_engine (snd (c cs))) = e_store (cs_engine cs))"

named_theorems reads_only \<open>commands that leave the store alone\<close>

lemma on_streams_engine [simp]: "cs_engine (snd (on_streams f cs)) = cs_engine cs"
  by (simp add: on_streams_def split: prod.splits)

lemma on_streams_eq: "on_streams f cs = (x, cs') \<Longrightarrow> cs_engine cs' = cs_engine cs"
  using on_streams_engine [of f cs] by simp

lemma reads_only_output [reads_only]:
  "reads_only (fail_with mc)" "reads_only (put_json v n)" "reads_only (put_json_checked v)" "reads_only (put_line t)"
  "reads_only (put_text t)" "reads_only (put_raw t)"
  by (auto simp: reads_only_def fail_with_def put_json_def put_json_checked_def put_line_def put_text_def put_raw_def
    split: prod.splits option.splits dest!: on_streams_eq)

lemma reads_onlyD: "reads_only c \<Longrightarrow> e_store (cs_engine (snd (c cs))) = e_store (cs_engine cs)"
  by (simp add: reads_only_def)

lemma reads_onlyI: "(\<And>cs. e_store (cs_engine (snd (c cs))) = e_store (cs_engine cs)) \<Longrightarrow> reads_only c"
  by (simp add: reads_only_def)

lemmas output_keeps [simp] = reads_only_output [THEN reads_onlyD]

lemma reads_only_result [reads_only]: "reads_only (writeBrokerResult t j f)"
  by (rule reads_onlyI) (simp add: writeBrokerResult_def Let_def split: option.splits)

lemma reads_only_call_error [reads_only]: "reads_only (writeBrokerCallError e f)"
proof (rule reads_onlyI)
  fix cs
  show "e_store (cs_engine (snd (writeBrokerCallError e f cs))) = e_store (cs_engine cs)"
  proof (cases e)
    case (BrokerError r)
    let ?p = "JObj ([(''code'', JStr (if rpc_Message r = '''' then f else rpc_Message r))] @ (case rpc_Data r of None \<Rightarrow> [] | Some d \<Rightarrow> [(''data'', d)]) @
      [(''error'', JStr (rpc_Message r))])"
    obtain x cs' where o: "on_streams (writeJSON ?p) cs = (x, cs')" by fastforce
    then have "cs_engine cs' = cs_engine cs" by (rule on_streams_eq)
    then show ?thesis using o BrokerError by (cases x) (simp_all add: writeBrokerCallError_def Let_def del: append.simps)
  qed (simp add: writeBrokerCallError_def)
qed

text \<open>A command that leaves the store alone but for one call of the broker.\<close>

definition calls_only :: "cli_env \<Rightarrow> string \<Rightarrow> command \<Rightarrow> bool" where
  "calls_only ce m c \<longleftrightarrow> (\<forall>cs. e_store (cs_engine (snd (c cs))) = e_store (cs_engine cs) \<or>
     (\<exists>p. e_store (cs_engine (snd (c cs))) = e_store (snd (ce_brokerCall ce m p (cs_engine cs)))))"

lemma calls_onlyI:
  "(\<And>cs. e_store (cs_engine (snd (c cs))) = e_store (cs_engine cs) \<or>
     (\<exists>p. e_store (cs_engine (snd (c cs))) = e_store (snd (ce_brokerCall ce m p (cs_engine cs))))) \<Longrightarrow> calls_only ce m c"
  by (simp add: calls_only_def)

lemma calls_only_broker:
  assumes "\<And>t. reads_only (k t)"
  shows "calls_only ce m (broker_command ce m p f k)"
proof (rule calls_onlyI, rule disjI2, rule exI)
  fix cs :: cli_state
  obtain r e' where "ce_brokerCall ce m p (cs_engine cs) = (r, e')" by fastforce
  then show "e_store (cs_engine (snd (broker_command ce m p f k cs))) = e_store (snd (ce_brokerCall ce m p (cs_engine cs)))"
    by (cases r) (simp_all add: broker_command_def reads_onlyD [OF assms] reads_onlyD [OF reads_only_call_error])
qed


lemma reads_only_lines [reads_only]: "reads_only (put_lines ts)" "reads_only (put_files ts)"
proof -
  have "e_store (cs_engine (snd (put_lines ts cs))) = e_store (cs_engine cs)" for cs
    by (induction ts arbitrary: cs) (auto split: prod.splits dest!: on_streams_eq)
  moreover have "e_store (cs_engine (snd (put_files ts cs))) = e_store (cs_engine cs)" for cs
    by (induction ts arbitrary: cs) (auto split: prod.splits dest!: on_streams_eq)
  ultimately show "reads_only (put_lines ts)" "reads_only (put_files ts)" by (simp_all add: reads_only_def)
qed

lemma reads_only_tail: "(\<And>vs. reads_only (k vs)) \<Longrightarrow> reads_only (with_tail ks rest k)"
  by (rule reads_onlyI) (simp add: with_tail_def reads_onlyD split: sum.splits)

lemma reads_only_store: "reads_only k \<Longrightarrow> reads_only (with_store ce k)"
  by (rule reads_onlyI) (simp add: with_store_def reads_onlyD split: option.splits)

lemmas lines_keep [simp] = reads_only_lines [THEN reads_onlyD] and result_keeps [simp] = reads_only_result [THEN reads_onlyD]

lemma calls_only_commands:
  "calls_only ce ''execution.start'' (handleBrokerRun ce n j)" "calls_only ce ''execution.status'' (handleBrokerStatus ce i j)"
  "calls_only ce ''step.run'' (handleBrokerStepRun ce i t j)" "calls_only ce ''step.events'' (handleBrokerStepEvents ce i t c j)"
  "calls_only ce ''step.reopen'' (handleBrokerStepReopen ce i t fb j)"
proof -
  have b: "calls_only ce m (broker_command ce m p f (\<lambda>result. writeBrokerResult result j g))" for m p f g
    by (rule calls_only_broker) (rule reads_only)
  then show "calls_only ce ''step.run'' (handleBrokerStepRun ce i t j)" "calls_only ce ''step.events'' (handleBrokerStepEvents ce i t c j)"
    unfolding handleBrokerStepRun_def handleBrokerStepEvents_def by simp_all
  show "calls_only ce ''execution.start'' (handleBrokerRun ce n j)"
    by (rule calls_onlyI) (simp add: handleBrokerRun_def Let_def b [unfolded calls_only_def, rule_format] split: sum.splits)
  show "calls_only ce ''execution.status'' (handleBrokerStatus ce i j)" unfolding handleBrokerStatus_def
    by (rule calls_only_broker, rule reads_onlyI) (simp add: Let_def split: option.splits json.splits)
  show "calls_only ce ''step.reopen'' (handleBrokerStepReopen ce i t fb j)" unfolding handleBrokerStepReopen_def
    by (rule calls_only_broker, rule reads_onlyI) (simp split: option.splits)
qed

lemma reads_only_commands [reads_only]:
  "reads_only (handleWorkflows ce args)" "reads_only (handleSteps ce args)" "ce_override ce \<Longrightarrow> reads_only (handleStatus ce args)"
  "reads_only (handleReport ce args)" "reads_only (handleInit ce args)"
proof -
  have w: "reads_only (handleWorkflowsList ce xs)" "reads_only (handleWorkflowsDescribe ce xs)" for xs
    by (rule reads_onlyI, simp add: handleWorkflowsList_def handleWorkflowsDescribe_def with_tail_def split: list.splits sum.splits option.splits)+
  show "reads_only (handleWorkflows ce args)"
    by (rule reads_onlyI) (simp add: handleWorkflows_def w [THEN reads_onlyD] split: list.splits)
  have n: "reads_only (handleStepsNext ce xs)" for xs
    by (rule reads_onlyI) (simp add: handleStepsNext_def with_tail_def with_store_def Let_def split: list.splits sum.splits option.splits)
  show "reads_only (handleSteps ce args)"
    by (rule reads_onlyI) (simp add: handleSteps_def n [THEN reads_onlyD] split: list.splits)
  show "reads_only (handleStatus ce args)" if "ce_override ce"
    using that by (intro reads_onlyI) (simp add: handleStatus_def with_tail_def with_store_def Let_def split: list.splits sum.splits option.splits)
  show "reads_only (handleReport ce args)"
    by (rule reads_onlyI) (simp add: handleReport_def with_tail_def with_store_def split: list.splits sum.splits option.splits report_error.splits)
  show "reads_only (handleInit ce args)"
    by (rule reads_onlyI) (simp add: handleInit_def with_tail_def split: sum.splits prod.splits option.splits)
qed

lemma calls_only_default:
  assumes "\<not> ce_override ce"
  shows "calls_only ce ''execution.start'' (handleRun ce args)" "calls_only ce ''execution.status'' (handleStatus ce args)"
proof -
  note c = calls_only_commands [unfolded calls_only_def, rule_format]
  show "calls_only ce ''execution.start'' (handleRun ce args)"
    by (rule calls_onlyI) (simp add: handleRun_def with_tail_def assms c(1) split: list.splits sum.splits)
  show "calls_only ce ''execution.status'' (handleStatus ce args)"
    by (rule calls_onlyI) (simp add: handleStatus_def with_tail_def assms c(2) split: list.splits sum.splits)
qed

section \<open>Commands that work on the store\<close>

lemma inject_keeps: "injectAdapterManager ce cs = (r, cs') \<Longrightarrow> e_store (cs_engine cs') = e_store (cs_engine cs)"
  by (auto simp: injectAdapterManager_def Let_def split: sum.splits if_splits prod.splits)

lemma with_engine_keeps:
  assumes "\<And>env e. P (e_store e) \<Longrightarrow> P (e_store (snd (f env e)))" "\<And>r. reads_only (k r)" "P (e_store (cs_engine cs))"
  shows "P (e_store (cs_engine (snd (with_engine ce f k cs))))"
proof (cases "ce_openErr ce")
  case None
  let ?cs = "cs\<lparr>cs_engine := (cs_engine cs)\<lparr>activeClaims := [], activeLeases := []\<rparr>\<rparr>"
  obtain r cs1 where i: "injectAdapterManager ce ?cs = (r, cs1)" by fastforce
  then have p: "P (e_store (cs_engine cs1))" using inject_keeps [OF i] assms(3) by simp
  show ?thesis
  proof (cases r)
    case (Inl e)
    then show ?thesis using None i p by (simp add: with_engine_def with_store_def)
  next
    case (Inr env)
    obtain x e where f: "f env (cs_engine cs1) = (x, e)" by fastforce
    then have "P (e_store e)" using assms(1) [OF p, of env] by simp
    then show ?thesis using None i Inr f reads_onlyD [OF assms(2)] by (simp add: with_engine_def with_store_def)
  qed
qed (use assms(3) in \<open>simp add: with_engine_def with_store_def\<close>)

lemma reads_only_run_error [reads_only]: "reads_only (run_error e)"
  by (rule reads_onlyI) (simp add: run_error_def split: option.splits)

text \<open>The engine keeps the integrity and the history of the store.\<close>

lemma engine_grown:
  "broker_history old (e_store e) \<Longrightarrow> broker_history old (e_store (snd (CreateExecution env name e)))"
  "broker_history old (e_store e) \<Longrightarrow> broker_history old (e_store (snd (RunStep env i t fb e)))"
  "broker_history old (e_store e) \<Longrightarrow> broker_history old (e_store (snd (ReopenStep env i t c fb e)))"
  "broker_history old (e_store e) \<Longrightarrow> broker_history old (e_store (snd (SkipStep env i t fb e)))"
  by (rule broker.engine_step, rule engine_step.intros, assumption)+

text \<open>What a daemon does to the store: some run of its steps.\<close>

definition served :: "(Engine \<Rightarrow> 'a \<times> Engine) \<Rightarrow> bool" where
  "served f \<longleftrightarrow> (\<forall>e. \<exists>env d d'. (daemon_step env)\<^sup>*\<^sup>* d d' \<and> d_store d = e_store e \<and> d_store d' = e_store (snd (f e)))"

lemma served_grown: "served f \<Longrightarrow> broker_history old (e_store e) \<Longrightarrow> broker_history old (e_store (snd (f e)))"
  unfolding served_def by (metis broker.daemon_run)

lemma calls_grown:
  assumes "calls_only ce m c" "\<forall>p. served (ce_brokerCall ce m p)" "broker_history old (e_store (cs_engine cs))"
  shows "broker_history old (e_store (cs_engine (snd (c cs))))"
  using assms unfolding calls_only_def by (metis served_grown)

lemma daemon_grown:
  assumes "\<forall>r. served (ce_RunDaemon ce r)" "broker_history old (e_store (cs_engine cs))"
  shows "broker_history old (e_store (cs_engine (snd (handleBroker ce args cs))))"
proof -
  have "broker_history old (e_store e')" if "ce_RunDaemon ce r (cs_engine cs) = (x, e')" for r x e'
    using served_grown [OF assms(1) [rule_format, of r] assms(2)] that by simp
  then show ?thesis using assms(2) by (auto simp: handleBroker_def with_tail_def Let_def split: sum.splits prod.splits option.splits)
qed

lemma engine_commands_grow:
  assumes "broker_history old (e_store (cs_engine cs))" "\<forall>m p. served (ce_brokerCall ce m p)"
  shows "broker_history old (e_store (cs_engine (snd (handleRun ce args cs))))" "broker_history old (e_store (cs_engine (snd (handleStep ce args cs))))"
proof -
  note w = with_engine_keeps [where P = "broker_history old"]
  have k: "broker_history old (e_store (cs_engine (snd (c cs))))" if "calls_only ce m c" for m c
    using calls_grown [OF that] assms by blast
  show "broker_history old (e_store (cs_engine (snd (handleRun ce args cs))))"
  proof (cases "ce_override ce")
    case True
    have "reads_only (case r of Inl e \<Rightarrow> (case as_validation e of Some ve \<Rightarrow> put_json (validation_json ve) 1 | None \<Rightarrow> fail_with (err_msg e, ''create_failed''))
        | Inr i \<Rightarrow> if j then put_json (JObj [(''execution_id'', JStr i)]) 0 else put_line i)" for r j
      by (rule reads_onlyI) (simp split: sum.splits option.splits)
    from w [OF engine_grown(1) this assms(1)] show ?thesis using True assms(1)
      by (simp add: handleRun_def with_tail_def split: list.splits sum.splits)
  next
    case False
    then show ?thesis using k calls_only_default(1) by blast
  qed
  have r: "reads_only (case r of Inl e \<Rightarrow> run_error e | Inr _ \<Rightarrow> if j then put_json v 0 else put_line l)"
      "reads_only (case r of Inl e \<Rightarrow> fail_with (err_msg e, m) | Inr _ \<Rightarrow> put_json v 0)" for r :: "goerr + unit" and j v l m
    by (rule reads_onlyI, simp add: reads_onlyD [OF reads_only_run_error] split: sum.splits)+
  note b = calls_only_commands [THEN k]
  have run: "broker_history old (e_store (cs_engine (snd (cmd_handleStepRun ce xs cs))))" for xs
    using w [OF engine_grown(2) r(1) assms(1)] assms(1) b by (simp add: cmd_handleStepRun_def with_tail_def Let_def split: list.splits sum.splits)
  have reopen: "broker_history old (e_store (cs_engine (snd (cmd_handleStepReopen ce xs cs))))" for xs
    using w [OF engine_grown(3) r(2) assms(1)] assms(1) b by (simp add: cmd_handleStepReopen_def with_tail_def Let_def split: list.splits sum.splits)
  have skip: "broker_history old (e_store (cs_engine (snd (handleStepSkip ce xs cs))))" for xs
    using w [OF engine_grown(4) r(2) assms(1)] assms(1) by (simp add: handleStepSkip_def with_tail_def Let_def split: list.splits sum.splits)
  have ev: "broker_history old (e_store (cs_engine (snd (cmd_handleStepEvents ce xs cs))))" for xs
    using assms(1) b by (simp add: cmd_handleStepEvents_def split: list.splits sum.splits prod.splits)
  show "broker_history old (e_store (cs_engine (snd (handleStep ce args cs))))"
    using run reopen skip ev assms(1) by (simp add: handleStep_def split: list.splits)
qed

section \<open>What is proposed next\<close>

lemma isBlocked_iff:
  "isBlockedByClaims fs row active repoRoot extPaths \<longleftrightarrow>
     (\<exists>lp \<in> set (step_paths fs repoRoot row). \<exists>ac \<in> set active.
        conflicts_with (new_claim projectID lp (claim_mode (if es_WorkspaceMode row = '''' then ''isolated'' else es_WorkspaceMode row) i extPaths lp) i t) ac)"
  by (auto simp: isBlockedByClaims_def Let_def conflicts_with_def new_claim_def claim_mode_def ShouldBlock_def isShared_iff)

text \<open>The paths \<^verbatim>\<open>steps next\<close> looks at are those the engine claims, when it can canonicalise all of them.\<close>

lemma step_paths_claimed:
  assumes "canonical_paths fs repoRoot [] (step_requires row @ step_produces row) = Inr cs"
  shows "step_paths fs repoRoot row = cs"
proof -
  have "canonical_paths fs repoRoot acc raws = Inr cs \<Longrightarrow>
      fold (\<lambda>raw acc. case Canonicalize fs repoRoot raw of Inl _ \<Rightarrow> acc | Inr c \<Rightarrow> if c = '''' \<or> c \<in> set acc then acc else acc @ [c]) raws acc = cs" for raws acc
    by (induction raws arbitrary: acc) (auto split: sum.splits if_splits)
  from this [OF assms] show ?thesis unfolding step_paths_def step_requires_def step_produces_def .
qed

text \<open>The rows of an execution are found under their keys.\<close>

lemma row_at_key:
  assumes "steps_ok es (steps s)" "row \<in> set (filter (\<lambda>st. es_ExecutionID st = i) (map snd (steps s)))"
  shows "map_of (steps s) (stepKey i (es_StepID row)) = Some row"
proof -
  obtain k where k: "(k, row) \<in> set (steps s)" "es_ExecutionID row = i" using assms(2) by auto
  then have m: "map_of (steps s) k = Some row" using assms(1) by (simp add: steps_ok_def gomap_def)
  then have "k = stepKey (es_ExecutionID row) (es_StepID row)" using assms(1) by (simp add: steps_ok_def rows_def)
  then show ?thesis using m k(2) by simp
qed

lemma deps_satisfied_done:
  assumes "steps_ok es (steps s)" "ss = filter (\<lambda>st. es_ExecutionID st = i) (map snd (steps s))"
  shows "deps_satisfied ss row \<Longrightarrow> d \<in> set (step_deps row) \<Longrightarrow> d \<in> es_StepID ` set ss \<Longrightarrow> dependency_done i s d"
    "\<not> deps_satisfied ss row \<Longrightarrow> \<exists>d \<in> set (step_deps row). \<not> dependency_done i s d"
proof -
  note k = row_at_key [OF assms(1), of _ i, folded assms(2)]
  show "dependency_done i s d" if h: "deps_satisfied ss row" "d \<in> set (step_deps row)" "d \<in> es_StepID ` set ss"
  proof -
    obtain o' where o: "o' \<in> set ss" "es_StepID o' = d" using h(3) by auto
    then have "es_Status o' = ''completed'' \<or> es_Status o' = ''skipped''" using h(1,2) by (simp add: deps_satisfied_def step_deps_def)
    then show ?thesis using k [OF o(1)] o(2) by (simp add: dependency_done_def)
  qed
  show "\<exists>d \<in> set (step_deps row). \<not> dependency_done i s d" if h: "\<not> deps_satisfied ss row"
  proof -
    obtain o' where o: "es_StepID o' \<in> set (step_deps row)" "o' \<in> set ss" "es_Status o' \<noteq> ''completed''" "es_Status o' \<noteq> ''skipped''"
      using h by (auto simp: deps_satisfied_def step_deps_def)
    then show ?thesis using k [OF o(2)] by (auto simp: dependency_done_def intro!: bexI [of _ "es_StepID o'"])
  qed
qed

definition claim_for :: "string \<Rightarrow> string list \<Rightarrow> ExecutionStep \<Rightarrow> string \<Rightarrow> PathClaim" where
  "claim_for projectID extPaths row lp =
     new_claim projectID lp (claim_mode (if es_WorkspaceMode row = '''' then ''isolated'' else es_WorkspaceMode row) (es_ExecutionID row) extPaths lp)
       (es_ExecutionID row) (es_StepID row)"

lemma next_step_store:
  assumes "steps_ok es (steps s)" "ss = filter (\<lambda>st. es_ExecutionID st = i) (map snd (steps s))" "set active = set (active_claims pid s)"
  shows "case next_step fs repoRoot extPaths active ss of
      Some row \<Rightarrow> row \<in> set ss \<and> es_Type row \<noteq> ''workflow'' \<and> es_Status row = ''pending'' \<and>
        (\<forall>d \<in> set (step_deps row). d \<in> es_StepID ` set ss \<longrightarrow> dependency_done i s d) \<and>
        (\<forall>lp \<in> set (step_paths fs repoRoot row). find (conflicts_with (claim_for pid extPaths row lp)) (active_claims pid s) = None)
    | None \<Rightarrow> \<forall>row \<in> set ss. es_Type row \<noteq> ''workflow'' \<longrightarrow> es_Status row = ''pending'' \<longrightarrow>
        (\<exists>d \<in> set (step_deps row). \<not> dependency_done i s d) \<or>
        (\<exists>lp \<in> set (step_paths fs repoRoot row). find (conflicts_with (claim_for pid extPaths row lp)) (active_claims pid s) \<noteq> None)"
proof -
  note d = deps_satisfied_done [OF assms(1,2)]
  have b: "isBlockedByClaims fs row active repoRoot extPaths \<longleftrightarrow>
      (\<exists>lp \<in> set (step_paths fs repoRoot row). find (conflicts_with (claim_for pid extPaths row lp)) (active_claims pid s) \<noteq> None)" for row
    unfolding isBlocked_iff [where projectID = pid and i = "es_ExecutionID row" and t = "es_StepID row"] claim_for_def [symmetric] assms(3)
    by (auto simp: find_None_iff)
  show ?thesis
  proof (cases "next_step fs repoRoot extPaths active ss")
    case None
    then have "\<forall>row \<in> set ss. es_Type row \<noteq> ''workflow'' \<longrightarrow> es_Status row = ''pending'' \<longrightarrow> \<not> deps_satisfied ss row \<or> isBlockedByClaims fs row active repoRoot extPaths"
      unfolding next_step_def find_None_iff by blast
    then show ?thesis using None d(2) b by fastforce
  next
    case (Some row)
    then have "row \<in> set ss \<and> es_Type row \<noteq> ''workflow'' \<and> es_Status row = ''pending'' \<and> deps_satisfied ss row \<and> \<not> isBlockedByClaims fs row active repoRoot extPaths"
      unfolding next_step_def find_Some_iff by (metis nth_mem)
    then show ?thesis using Some d(1) b by auto
  qed
qed

lemma utf8_nonempty: "s \<noteq> [] \<Longrightarrow> utf8 s \<noteq> []"
  by (cases s) (auto simp: utf8_def Let_def replacement_def)

section \<open>Properties\<close>

text \<open>C24. Whatever a user types, the store keeps its integrity and its history: with the store that a daemon of the project
  leaves after a call, or after its own run, being the one after some run of that daemon, no row is deleted, what is final stays final, and the rows still refer to each other.
  Only the commands that create an execution, that work on a step, and that run the daemon change the store at all, and, through the daemon it
  asks, \<^verbatim>\<open>status\<close>. In the default mode the command line itself writes nothing for \<^verbatim>\<open>run\<close> and \<^verbatim>\<open>status\<close>: the store is as before, or as
  one call of \<^verbatim>\<open>execution.start\<close> or \<^verbatim>\<open>execution.status\<close> leaves it.\<close>

theorem cli_integrity:
  assumes "store_ok (e_store (cs_engine cs))" "\<forall>m p. served (ce_brokerCall ce m p)" "\<forall>r. served (ce_RunDaemon ce r)"
    "Execute ce args cs = (code, cs')"
  shows "store_ok (e_store (cs_engine cs')) \<and> broker_continues (e_store (cs_engine cs)) (e_store (cs_engine cs')) \<and>
    (e_store (cs_engine cs') \<noteq> e_store (cs_engine cs) \<longrightarrow>
       (\<exists>cmd rest. args = cmd # rest \<and> (cmd \<in> {''run'', ''step'', ''broker''} \<or> cmd = ''status'' \<and> \<not> ce_override ce))) \<and>
    (\<forall>rest. args = ''run'' # rest \<and> \<not> ce_override ce \<longrightarrow> e_store (cs_engine cs') = e_store (cs_engine cs) \<or>
       (\<exists>p. e_store (cs_engine cs') = e_store (snd (ce_brokerCall ce ''execution.start'' p (cs_engine cs))))) \<and>
    (\<forall>rest. args = ''status'' # rest \<and> \<not> ce_override ce \<longrightarrow> e_store (cs_engine cs') = e_store (cs_engine cs) \<or>
       (\<exists>p. e_store (cs_engine cs') = e_store (snd (ce_brokerCall ce ''execution.status'' p (cs_engine cs)))))"
proof -
  let ?s = "e_store (cs_engine cs)" and ?s' = "e_store (cs_engine cs')"
  have g: "broker_history ?s ?s"
    using assms(1) broker_continues_refl by (simp add: broker_history_def broker_continues_def)
  have cs': "cs' = snd (Execute ce args cs)" using assms(4) by simp
  have same: "?s' = ?s" if "\<nexists>cmd rest. args = cmd # rest \<and> (cmd \<in> {''run'', ''step'', ''broker''} \<or> cmd = ''status'' \<and> \<not> ce_override ce)"
  proof (cases args)
    case (Cons cmd rest)
    then have "cmd \<noteq> ''run''" "cmd \<noteq> ''step''" "cmd \<noteq> ''broker''" "cmd = ''status'' \<Longrightarrow> ce_override ce" using that by auto
    then show ?thesis using Cons unfolding cs' Execute_def
      by (cases "cmd = ''status''") (simp_all add: reads_only_commands [THEN reads_onlyD])
  qed (simp add: cs' Execute_def)
  have status: "broker_history ?s (e_store (cs_engine (snd (handleStatus ce rest cs))))" if "\<not> ce_override ce" for rest
    using calls_grown [OF calls_only_default(2) [OF that] _ g] assms(2) by blast
  have h: "broker_history ?s ?s'"
  proof (cases "\<exists>cmd rest. args = cmd # rest \<and> (cmd \<in> {''run'', ''step'', ''broker''} \<or> cmd = ''status'' \<and> \<not> ce_override ce)")
    case True
    then show ?thesis
      unfolding cs' using engine_commands_grow [OF g assms(2)] daemon_grown [OF assms(3) g] status by (auto simp: Execute_def)
  next
    case False
    then show ?thesis using same g by simp
  qed
  have d: "?s' = ?s \<or> (\<exists>p. ?s' = e_store (snd (ce_brokerCall ce ''execution.start'' p (cs_engine cs))))" if "args = ''run'' # rest" "\<not> ce_override ce" for rest
    using calls_only_default(1) [OF that(2), unfolded calls_only_def, rule_format, of rest cs] that(1) unfolding cs' by (simp add: Execute_def)
  have t: "?s' = ?s \<or> (\<exists>p. ?s' = e_store (snd (ce_brokerCall ce ''execution.status'' p (cs_engine cs))))" if "args = ''status'' # rest" "\<not> ce_override ce" for rest
    using calls_only_default(2) [OF that(2), unfolded calls_only_def, rule_format, of rest cs] that(1) unfolding cs' by (simp add: Execute_def)
  have f: "store_ok ?s' \<and> broker_continues ?s ?s'" using h by (simp add: broker_history_def broker_continues_def)
  show ?thesis using f same d t by blast
qed

text \<open>A broker call as the method of a daemon that runs over the same store.\<close>

definition demo_broker :: "string \<Rightarrow> json \<Rightarrow> Engine \<Rightarrow> (call_error + string) \<times> Engine" where
  "demo_broker m p e =
     (case Dispatch (daemon_rpc demo_env) m (json_text p) (daemon_running e) of
        ((r, err), d) \<Rightarrow> (case err of Some x \<Rightarrow> Inl (BrokerError x) | None \<Rightarrow> Inr (json_text (result_json r)), d_engine d))"

definition demo_cli :: cli_env where
  "demo_cli = \<lparr>ce_env = demo_env, ce_providers = undefined, ce_override = False, ce_statErr = None, ce_openErr = None,
     ce_brokerCall = demo_broker, ce_Init = (\<lambda>d. (None, d)), ce_RunDaemon = (\<lambda>_ e. (None, e)), ce_stepsJSON = (\<lambda>_. JNull),
     ce_float = id, ce_report = undefined\<rparr>"

definition demo_cli_state :: cli_state where
  "demo_cli_state = \<lparr>cs_engine = demo_created, cs_sm = \<lparr>sm_out = '''', sm_errOut = '''', sm_outErr = None, sm_errOutErr = None\<rparr>\<rparr>"

lemma demo_served: "served (demo_broker m p)" "served (\<lambda>e. (x, e))"
proof -
  show "served (\<lambda>e. (x, e))" unfolding served_def by (auto intro!: exI [of _ "daemon_running _"])
  have "(daemon_step demo_env)\<^sup>*\<^sup>* (daemon_running e) (snd (Dispatch (daemon_rpc demo_env) m (json_text p) (daemon_running e)))" for e
    by (rule r_into_rtranclp, rule daemon_step.rpc)
  moreover have "e_store (snd (demo_broker m p e)) = d_store (snd (Dispatch (daemon_rpc demo_env) m (json_text p) (daemon_running e)))" for e
    by (simp add: demo_broker_def d_store_def split: prod.splits)
  ultimately show "served (demo_broker m p)" unfolding served_def by (metis d_store_simps(8))
qed

theorem cli_integrity_witness:
  "store_ok (e_store (cs_engine (snd (Execute demo_cli [''run'', ''main''] demo_cli_state)))) \<and>
   broker_continues (e_store demo_created) (e_store (cs_engine (snd (Execute demo_cli [''run'', ''main''] demo_cli_state))))"
proof -
  have ok: "store_ok (e_store (cs_engine demo_cli_state))" using demo_ok(1) by (simp add: demo_cli_state_def)
  have s: "\<forall>m p. served (ce_brokerCall demo_cli m p)" "\<forall>r. served (ce_RunDaemon demo_cli r)" by (simp_all add: demo_cli_def demo_served)
  show ?thesis using cli_integrity [OF ok s prod.collapse [symmetric], of "[''run'', ''main'']"] by (simp add: demo_cli_state_def)
qed

text \<open>C25. The step that \<^verbatim>\<open>steps next\<close> proposes is pending and no workflow node, those of its dependencies that are steps
  of the execution have the status the engine asks for, and none of its paths conflicts with an
  active claim of the project by the rule of the store. When nothing is proposed, the engine would
  refuse every pending step because of a dependency, or the store because of a claim.\<close>

theorem steps_next_exact:
  assumes "store_ok (e_store e)" "next_in_store ce i e = Inr r" "map_of (executions (e_store e)) i = Some ex"
    "LoadConfig (dk_ReadFile (e_disk e)) (yaml_config (ce_env ce)) (root (ce_env ce)) = Inr cfg"
  shows "let s = e_store e; ss = filter (\<lambda>row. es_ExecutionID row = i) (map snd (steps s));
      blocked = (\<lambda>row lp. find (conflicts_with (claim_for (ex_ProjectID ex) (cf_ExternalPaths cfg) row lp)) (active_claims (ex_ProjectID ex) s) \<noteq> None);
      paths = step_paths (dk_fs (e_disk e)) (root (ce_env ce)) in
    case r of
      Some row \<Rightarrow> row \<in> set ss \<and> es_Type row \<noteq> ''workflow'' \<and> es_Status row = ''pending'' \<and>
        (\<forall>d \<in> set (step_deps row). d \<in> es_StepID ` set ss \<longrightarrow> dependency_done i s d) \<and> (\<forall>lp \<in> set (paths row). \<not> blocked row lp)
    | None \<Rightarrow> \<forall>row \<in> set ss. es_Type row \<noteq> ''workflow'' \<longrightarrow> es_Status row = ''pending'' \<longrightarrow>
        (\<exists>d \<in> set (step_deps row). \<not> dependency_done i s d) \<or> (\<exists>lp \<in> set (paths row). blocked row lp)"
proof -
  let ?s = "e_store e" and ?ss = "filter (\<lambda>row. es_ExecutionID row = i) (map snd (steps (e_store e)))"
  let ?active = "exchange_sort pc_LogicalPath (active_claims (ex_ProjectID ex) (e_store e))"
  have ok: "steps_ok (executions ?s) (steps ?s)" using assms(1) by (simp add: store_ok_def)
  have a: "set ?active = set (active_claims (ex_ProjectID ex) ?s)"
    using exchange_sort_spec [of pc_LogicalPath "active_claims (ex_ProjectID ex) ?s"] by (metis set_mset_mset)
  have r: "r = next_step (dk_fs (e_disk e)) (root (ce_env ce)) (cf_ExternalPaths cfg) ?active ?ss"
    using assms(2-4) by (simp add: next_in_store_def Let_def steps_List_def executions_Get_def claims_ListActive_def op_read_def lookup_row_def)
  show ?thesis using next_step_store [OF ok refl a, where fs = "dk_fs (e_disk e)" and repoRoot = "root (ce_env ce)" and extPaths = "cf_ExternalPaths cfg"]
    unfolding r Let_def by (simp only: not_not)
qed

lemma demo_next_config:
  "(let e = demo_created in (map_sum err_msg (map_option es_StepID) (next_in_store demo_cli ''u'' e),
      isl (LoadConfig (dk_ReadFile (e_disk e)) (yaml_config (ce_env demo_cli)) (root (ce_env demo_cli))))) = (Inr (Some ''prep''), False)"
  by code_simp

lemma demo_next: "map_sum err_msg (map_option es_StepID) (next_in_store demo_cli ''u'' demo_created) = Inr (Some ''prep'')"
  using demo_next_config unfolding Let_def prod.inject by blast

lemma demo_config: "\<exists>cfg. LoadConfig (dk_ReadFile (e_disk demo_created)) (yaml_config (ce_env demo_cli)) (root (ce_env demo_cli)) = Inr cfg"
proof -
  have "isl (LoadConfig (dk_ReadFile (e_disk demo_created)) (yaml_config (ce_env demo_cli)) (root (ce_env demo_cli))) = False" using demo_next_config unfolding Let_def prod.inject by blast
  then show ?thesis by (cases "LoadConfig (dk_ReadFile (e_disk demo_created)) (yaml_config (ce_env demo_cli)) (root (ce_env demo_cli))") auto
qed

theorem steps_next_exact_witness:
  "\<exists>row. next_in_store demo_cli ''u'' demo_created = Inr (Some row) \<and> es_StepID row = ''prep'' \<and> es_Status row = ''pending''"
proof -
  obtain row where n: "next_in_store demo_cli ''u'' demo_created = Inr (Some row)" "es_StepID row = ''prep''"
    using demo_next by (cases "next_in_store demo_cli ''u'' demo_created") auto
  obtain ex where ex: "map_of (executions (e_store demo_created)) ''u'' = Some ex" using demo_created_execution(1) by auto
  obtain cfg where "LoadConfig (dk_ReadFile (e_disk demo_created)) (yaml_config (ce_env demo_cli)) (root (ce_env demo_cli)) = Inr cfg" using demo_config by auto
  from steps_next_exact [OF demo_ok(1) n(1) ex this] n show ?thesis by (simp add: Let_def)
qed

text \<open>The plain output of what the broker answers: \<^verbatim>\<open>run\<close> prints the identifier of the execution; but every answer to
  \<^verbatim>\<open>step.run\<close> and \<^verbatim>\<open>step.events\<close> that passes the broker's own checks holds a number, so that without
  \<^verbatim>\<open>--json\<close> these two commands always end with code one and print nothing, although the step was
  started.\<close>

theorem plain_output:
  "(i \<noteq> '''' \<longrightarrow> writeBrokerResult (json_text (JObj [(''execution_id'', JStr i)])) False ''execution_id'' cs = put_line (utf8 i) cs) \<and>
   (mth \<in> {''step.run'', ''step.events''} \<longrightarrow> json_fits 10000 v \<longrightarrow> validateResult mth (Some v) = None \<longrightarrow>
      writeBrokerResult (json_text v) False field cs = (1, cs))"
proof (intro conjI impI)
  show "writeBrokerResult (json_text (JObj [(''execution_id'', JStr i)])) False ''execution_id'' cs = put_line (utf8 i) cs" if "i \<noteq> ''''"
  proof -
    have "json_fits 10000 (JObj [(''execution_id'', JStr i)])" by simp
    note p = json_parse_text [OF this]
    have u: "utf8 ''execution_id'' = ''execution_id''" by code_simp
    have "utf8 i \<noteq> ''''" using that utf8_nonempty by simp
    then show ?thesis using p u by (simp add: writeBrokerResult_def string_map_def del: json_text.simps)
  qed
  assume m: "mth \<in> {''step.run'', ''step.events''}" "json_fits 10000 v" "validateResult mth (Some v) = None"
  have "\<exists>flds. resultObject (json_utf8 v) ''result'' [] req = Inr flds \<and> resultNonNegativeInt flds ''result.next_cursor'' ''next_cursor'' = None \<and> ''next_cursor'' \<in> set req"
    if "mth = ''step.run'' \<and> req = [''attempt_id'', ''next_cursor''] \<or> mth = ''step.events'' \<and> req = [''events'', ''next_cursor'']" for req
    using that m(3) by (auto simp: validateResult_def checked_def result_json_def Let_def split: sum.splits option.splits)
  then obtain req flds where r: "resultObject (json_utf8 v) ''result'' [] req = Inr flds" "resultNonNegativeInt flds ''result.next_cursor'' ''next_cursor'' = None"
    "''next_cursor'' \<in> set req" using m(1) by blast
  then have j: "json_utf8 v = JObj flds" "field_at flds ''next_cursor'' \<noteq> None" "field_at flds ''next_cursor'' \<noteq> Some JNull"
    by (auto simp: resultObject_def Let_def find_None_iff split: json.splits if_splits option.splits)
  then obtain t where "field_at flds ''next_cursor'' = Some (JNum t)" using r(2) by (auto simp: resultNonNegativeInt_def split: option.splits json.splits)
  then have "(''next_cursor'', JNum t) \<in> set flds" using map_of_SomeD by (fastforce simp: field_at_def)
  then have "string_map (json_text v) = None" using json_parse_text [OF m(2)] j(1) by (force simp: string_map_def)
  then show "writeBrokerResult (json_text v) False field cs = (1, cs)" by (simp add: writeBrokerResult_def)
qed

theorem plain_output_witness:
  "validateResult ''step.run'' (Some (JObj [(''attempt_id'', JStr ''a''), (''next_cursor'', JNum ''0'')])) = None \<and>
   writeBrokerResult (json_text (JObj [(''attempt_id'', JStr ''a''), (''next_cursor'', JNum ''0'')])) False ''attempt_id'' demo_cli_state = (1, demo_cli_state)"
proof -
  let ?v = "JObj [(''attempt_id'', JStr ''a''), (''next_cursor'', JNum ''0'')]"
  have "number_text ''0''" by code_simp
  then have "json_fits 10000 ?v" by simp
  moreover have "validateResult ''step.run'' (Some ?v) = None" by code_simp
  ultimately show ?thesis using plain_output [of "''x''" demo_cli_state "''step.run''" ?v "''attempt_id''"] by blast
qed

text \<open>A step in a shared mode whose own paths overlap can never be claimed: its second path conflicts with the claim
  on the first.\<close>

lemma own_paths_conflict:
  assumes "Overlaps lp1 lp2" "\<not> prefix ''isolated'' mode"
  shows "conflicts_with (new_claim pid lp2 mode i t) (new_claim pid lp1 mode i t)"
  using assms by (simp add: conflicts_with_def new_claim_def ShouldBlock_def isShared_iff)

end
