(* ===== verification/Launcher.thy ===== *)
theory Launcher
  imports Filepath
begin

text \<open>
  \<^verbatim>\<open>internal/ipc/socket.go\<close>, \<^verbatim>\<open>transport_unix.go\<close> and \<^verbatim>\<open>internal/broker/launcher.go\<close>: the name of the
  endpoint of a project and the start of its broker. Several launchers run at once; each goes
  through \<^verbatim>\<open>Ensure\<close> in steps that end where the code touches something another process can see
  (the endpoint, the lock file, the start marker), and the processes interleave freely with the
  daemons and the clock.
\<close>

section \<open>Endpoints\<close>

definition CanonicalRoot :: "(goerr \<Rightarrow> bool) \<Rightarrow> filesys \<Rightarrow> string \<Rightarrow> goerr + string" where
  "CanonicalRoot isNotExist fs rootDir =
     (if rootDir = '''' then Inl (errorf ''empty project root'')
      else
        (case Abs_path fs rootDir of
           Inl e \<Rightarrow> Inl (wrap_err ''abs root'' e)
         | Inr absRoot \<Rightarrow>
             (case EvalSymlinks fs absRoot of
                Inl e \<Rightarrow> if isNotExist e then Inr (Clean absRoot) else Inl (wrap_err (''eval symlinks '' @ quoted absRoot) e)
              | Inr eval \<Rightarrow> Inr (Clean eval))))"

text \<open>What \<^verbatim>\<open>os.Stat\<close> says of a path: an error, which may be that it does not exist, or its permission bits and
  whether it is a regular file or a socket.\<close>

datatype stat = StatError bool | Stat nat bool

definition private_mode :: nat where
  "private_mode = 384"

definition socketEndpointState :: "stat \<Rightarrow> bool \<times> bool" where
  "socketEndpointState st =
     (case st of StatError notExist \<Rightarrow> (\<not> notExist, False) | Stat perm fileOrSocket \<Rightarrow> (True, perm = private_mode \<and> fileOrSocket))"

definition socket_name :: "string \<Rightarrow> string \<Rightarrow> nat \<Rightarrow> string" where
  "socket_name tmp hash n = Join [tmp, ''haro-'' @ take n hash @ ''.sock'']"

function socket_loop :: "(string \<Rightarrow> stat) \<Rightarrow> string \<Rightarrow> string \<Rightarrow> nat \<Rightarrow> string option" where
  "socket_loop st tmp hash n =
     (if n > length hash then None
      else
        (let p = socket_name tmp hash n; (occupied, reusable) = socketEndpointState (st p) in
         if length p + 1 > 108 then socket_loop st tmp hash (n + 8)
         else if \<not> occupied \<or> reusable then Some p
         else socket_loop st tmp hash (n + 8)))"
  by pat_completeness auto

termination socket_loop
  by (relation "measure (\<lambda>(st, tmp, hash, n). Suc (length hash) - n)") auto

declare socket_loop.simps [simp del]

definition SocketPath :: "(goerr \<Rightarrow> bool) \<Rightarrow> filesys \<Rightarrow> (string \<Rightarrow> string) \<Rightarrow> (string \<Rightarrow> stat) \<Rightarrow> string \<Rightarrow> string \<Rightarrow> goerr + string" where
  "SocketPath isNotExist fs sha256_hex st tmp rootDir =
     (case CanonicalRoot isNotExist fs rootDir of
        Inl e \<Rightarrow> Inl e
      | Inr canon \<Rightarrow>
          (let hash = sha256_hex canon; start = (if length (socket_name tmp hash 16) + 1 > 108 then 8 else 16) in
           case socket_loop st tmp hash start of
             None \<Rightarrow> Inl (errorf (''socket path collision for '' @ quoted canon))
           | Some p \<Rightarrow> Inr p))"

lemma socket_loop_sound:
  "socket_loop st tmp hash n = Some p \<Longrightarrow>
     length p + 1 \<le> 108 \<and> (\<exists>m \<ge> n. m \<le> length hash \<and> p = socket_name tmp hash m) \<and>
     (st p = StatError True \<or> st p = Stat private_mode True)"
proof (induction st tmp hash n rule: socket_loop.induct)
  case (1 st tmp hash n)
  let ?p = "socket_name tmp hash n"
  have n: "n \<le> length hash" using 1(3) by (subst (asm) socket_loop.simps) (simp split: if_splits)
  show ?case
  proof (cases "length ?p + 1 \<le> 108 \<and> (\<not> fst (socketEndpointState (st ?p)) \<or> snd (socketEndpointState (st ?p)))")
    case True
    then have "p = ?p" using 1(3) n by (subst (asm) socket_loop.simps) (auto simp: Let_def split: prod.splits if_splits)
    then show ?thesis using True n by (auto simp: socketEndpointState_def split: stat.splits)
  next
    case False
    then have r: "socket_loop st tmp hash (n + 8) = Some p"
      using 1(3) n by (subst (asm) socket_loop.simps) (auto simp: Let_def split: prod.splits if_splits)
    obtain o' r' where o: "socketEndpointState (st ?p) = (o', r')" by fastforce
    have "length p + 1 \<le> 108 \<and> (\<exists>m \<ge> n + 8. m \<le> length hash \<and> p = socket_name tmp hash m) \<and> (st p = StatError True \<or> st p = Stat private_mode True)"
    proof (cases "length ?p + 1 > 108")
      case True
      then show ?thesis using 1(1) [OF _ refl o [symmetric] refl True r] n by simp
    next
      case False
      then show ?thesis using 1(2) [OF _ refl o [symmetric] refl False _ r] n \<open>\<not> (_ \<and> _)\<close> o by simp
    qed
    then show ?thesis using add_leD1 by blast
  qed
qed

section \<open>The world of the launchers\<close>

text \<open>Times are in milliseconds. The lock is held by a process; the marker has a time of modification and
  permission bits.\<close>

record world =
  lw_live :: bool
  lw_sock :: stat
  lw_lock :: "nat option"
  lw_marker :: "(int \<times> nat) option"
  lw_now :: int
  lw_spawned :: nat

text \<open>Errors of the lock: the sentinel itself, the sentinel wrapped by \<^verbatim>\<open>flockExclusive\<close>, any other.\<close>

datatype lock_error = ErrLockHeld | WrappedLockHeld | LockFailed goerr

definition is_ErrLockHeld :: "lock_error \<Rightarrow> bool" where
  "is_ErrLockHeld e \<longleftrightarrow> e = ErrLockHeld \<or> e = WrappedLockHeld"

definition flockExclusive :: "nat \<Rightarrow> world \<Rightarrow> lock_error + world" where
  "flockExclusive i w = (case lw_lock w of None \<Rightarrow> Inr (w\<lparr>lw_lock := Some i\<rparr>) | Some _ \<Rightarrow> Inl WrappedLockHeld)"

definition acquireBrokerLock :: "goerr option \<Rightarrow> goerr option \<Rightarrow> nat \<Rightarrow> world \<Rightarrow> lock_error + world" where
  "acquireBrokerLock mkdirErr openErr i w =
     (case mkdirErr of
        Some e \<Rightarrow> Inl (LockFailed (wrap_err ''create .haro'' e))
      | None \<Rightarrow> (case openErr of Some e \<Rightarrow> Inl (LockFailed (wrap_err ''open lockfile'' e)) | None \<Rightarrow> flockExclusive i w))"

definition releaseBrokerLock :: "nat \<Rightarrow> world \<Rightarrow> world" where
  "releaseBrokerLock i w = (if lw_lock w = Some i then w\<lparr>lw_lock := None\<rparr> else w)"

text \<open>\<^verbatim>\<open>acquireBrokerLockWait\<close> of \<^verbatim>\<open>daemon.go\<close>: \<open>attempt\<close> is what an attempt gives at a time.\<close>

function acquireBrokerLockWait :: "(int \<Rightarrow> lock_error option) \<Rightarrow> int \<Rightarrow> int \<Rightarrow> lock_error option \<times> int" where
  "acquireBrokerLockWait attempt deadline now =
     (case attempt now of
        None \<Rightarrow> (None, now)
      | Some e \<Rightarrow>
          if e \<noteq> ErrLockHeld then (Some e, now)
          else if now > deadline then (Some ErrLockHeld, now)
          else acquireBrokerLockWait attempt deadline (now + 50))"
  by pat_completeness auto

termination acquireBrokerLockWait
  by (relation "measure (\<lambda>(attempt, deadline, now). nat (deadline + 1 - now))") auto

text \<open>The retry compares the error with the sentinel, but the lock always wraps it: the wait gives up at once.\<close>

lemma lock_wait_gives_up:
  assumes "attempt now = (case acquireBrokerLock mk op i w of Inl e \<Rightarrow> Some e | Inr _ \<Rightarrow> None)" "lw_lock w \<noteq> None"
  shows "\<exists>e. acquireBrokerLockWait attempt (now + window) now = (Some e, now)"
  using assms by (subst acquireBrokerLockWait.simps) (auto simp: acquireBrokerLock_def flockExclusive_def split: option.splits)

section \<open>Ensure\<close>

definition dialBudget :: int where
  "dialBudget = 5000"

text \<open>The start marker. A marker that is there and fresh makes the claim fail; one that is old or open to others is removed
  and made anew. The first call that fails, be it the first open, the look at the marker followed by a second open, the removal or the second open, is the
  error \<open>openErr\<close>; a second open that finds a marker made in between is the case of the fresh marker.\<close>

definition claimBrokerStart :: "goerr option \<Rightarrow> int \<Rightarrow> world \<Rightarrow> (goerr + bool) \<times> world" where
  "claimBrokerStart openErr staleAfter w =
     (case openErr of
        Some e \<Rightarrow> (Inl e, w)
      | None \<Rightarrow>
          (case lw_marker w of
             None \<Rightarrow> (Inr True, w\<lparr>lw_marker := Some (lw_now w, private_mode)\<rparr>)
           | Some (modTime, perm) \<Rightarrow>
               if lw_now w - modTime \<le> staleAfter \<and> perm = private_mode then (Inr False, w)
               else (Inr True, w\<lparr>lw_marker := Some (lw_now w, private_mode)\<rparr>)))"

definition socketMetadataSafe :: "stat \<Rightarrow> bool" where
  "socketMetadataSafe st = (case st of StatError _ \<Rightarrow> False | Stat perm fileOrSocket \<Rightarrow> perm = private_mode \<and> fileOrSocket)"

definition RemoveStaleEndpoint :: "world \<Rightarrow> world" where
  "RemoveStaleEndpoint w =
     (if lw_live w then w else if \<not> socketMetadataSafe (lw_sock w) then w else w\<lparr>lw_sock := StatError True\<rparr>)"

text \<open>Where a launcher is: about to dial, about to lock, about to dial again under the lock, about to claim the
  start, about to launch, dialling until a deadline (as the owner of the marker or not), done.\<close>

datatype pc = Dialing | Locking | Rechecking | Claiming | Launching | Redialing bool int | Done "goerr option"

text \<open>What the surroundings decide at a step: errors of the file operations and of the spawn, and of the context.\<close>

record choice =
  ch_mkdirErr :: "goerr option"
  ch_openErr :: "goerr option"
  ch_markerErr :: "goerr option"
  ch_spawnErr :: "goerr option"
  ch_ctxErr :: "goerr option"

definition drop_marker :: "bool \<Rightarrow> world \<Rightarrow> world" where
  "drop_marker owned w = (if owned then w\<lparr>lw_marker := None\<rparr> else w)"

definition not_responsive :: goerr where
  "not_responsive = errorf ''broker endpoint did not become responsive''"

fun ensure_step :: "choice \<Rightarrow> nat \<Rightarrow> pc \<Rightarrow> world \<Rightarrow> pc \<times> world" where
  "ensure_step ch i Dialing w = (if lw_live w then Done None else Locking, w)"
| "ensure_step ch i Locking w =
     (case acquireBrokerLock (ch_mkdirErr ch) (ch_openErr ch) i w of
        Inl _ \<Rightarrow> (Redialing False (lw_now w + dialBudget), w)
      | Inr w' \<Rightarrow> (Rechecking, w'))"
| "ensure_step ch i Rechecking w = (if lw_live w then (Done None, releaseBrokerLock i w) else (Claiming, w))"
| "ensure_step ch i Claiming w =
     (case claimBrokerStart (ch_markerErr ch) dialBudget w of
        (Inl e, w') \<Rightarrow> (Done (Some (wrap_err ''claim broker startup'' e)), releaseBrokerLock i w')
      | (Inr False, w') \<Rightarrow> (Redialing False (lw_now w' + dialBudget), releaseBrokerLock i w')
      | (Inr True, w') \<Rightarrow> (Launching, w'))"
| "ensure_step ch i Launching w =
     (let w' = RemoveStaleEndpoint w in
      case ch_spawnErr ch of
        Some e \<Rightarrow> (Done (Some (wrap_err ''launch broker'' e)), releaseBrokerLock i (drop_marker True w'))
      | None \<Rightarrow> (Redialing True (lw_now w' + dialBudget), releaseBrokerLock i (w'\<lparr>lw_spawned := lw_spawned w' + 1\<rparr>)))"
| "ensure_step ch i (Redialing owned deadline) w =
     (if lw_live w then (Done None, drop_marker owned w)
      else
        (case ch_ctxErr ch of
           Some e \<Rightarrow> (Done (Some e), drop_marker owned w)
         | None \<Rightarrow>
             if lw_now w > deadline then (Done (Some not_responsive), drop_marker owned w)
             else (Redialing owned deadline, w)))"
| "ensure_step ch i (Done r) w = (Done r, w)"

text \<open>Interleavings of the launchers with the clock, with daemons that come up and go away, and with a process that
  is no launcher and takes or gives back the lock.\<close>

type_synonym config = "(nat \<Rightarrow> pc) \<times> world"

inductive launch_step :: "config \<Rightarrow> config \<Rightarrow> bool" where
  moves: "ensure_step ch i (pcs i) w = (p, w') \<Longrightarrow> launch_step (pcs, w) (pcs(i := p), w')"
| ticks: "lw_now w \<le> t \<Longrightarrow> launch_step (pcs, w) (pcs, w\<lparr>lw_now := t\<rparr>)"
| daemon: "launch_step (pcs, w) (pcs, w\<lparr>lw_live := b, lw_sock := st\<rparr>)"
| takes: "lw_lock w = None \<Longrightarrow> pcs d = Done r \<Longrightarrow> launch_step (pcs, w) (pcs, w\<lparr>lw_lock := Some d\<rparr>)"
| gives: "lw_lock w = Some d \<Longrightarrow> pcs d = Done r \<Longrightarrow> launch_step (pcs, w) (pcs, w\<lparr>lw_lock := None\<rparr>)"

inductive_cases launch_stepE: "launch_step c c'"

definition all_dialing :: "world \<Rightarrow> config" where
  "all_dialing w = (\<lambda>_. Dialing, w)"

text \<open>The part of \<^verbatim>\<open>Ensure\<close> under the lock.\<close>

fun critical :: "pc \<Rightarrow> bool" where
  "critical Rechecking = True"
| "critical Claiming = True"
| "critical Launching = True"
| "critical _ = False"

definition launch_inv :: "config \<Rightarrow> bool" where
  "launch_inv c \<longleftrightarrow>
     (\<forall>i. critical (fst c i) \<longrightarrow> lw_lock (snd c) = Some i) \<and>
     (\<forall>i own deadline. fst c i = Redialing own deadline \<longrightarrow> deadline \<le> lw_now (snd c) + dialBudget)"

lemmas world_defs = releaseBrokerLock_def drop_marker_def RemoveStaleEndpoint_def claimBrokerStart_def acquireBrokerLock_def flockExclusive_def

lemma ensure_step_facts:
  assumes "ensure_step ch i p w = (p', w')"
  shows "lw_now w' = lw_now w"
    "critical p' \<Longrightarrow> critical p \<and> lw_lock w' = lw_lock w \<or> lw_lock w = None \<and> lw_lock w' = Some i"
    "lw_lock w \<noteq> Some i \<Longrightarrow> lw_lock w = None \<or> lw_lock w' = lw_lock w"
    "\<not> critical p \<Longrightarrow> lw_lock w = None \<or> lw_lock w' = lw_lock w"
    "p' = Redialing own deadline \<Longrightarrow> p = Redialing own deadline \<or> deadline = lw_now w + dialBudget"
    "lw_spawned w' \<noteq> lw_spawned w \<Longrightarrow> p = Launching"
    "p' = Done None \<Longrightarrow> p \<noteq> Done None \<Longrightarrow> lw_live w"
    "p' = Launching \<Longrightarrow> p = Claiming \<and> (\<forall>t perm. lw_marker w = Some (t, perm) \<longrightarrow> lw_now w - t > dialBudget \<or> perm \<noteq> private_mode)"
  using assms by (cases p; auto simp: world_defs Let_def split: if_splits option.splits sum.splits prod.splits bool.splits)+

lemma launch_step_inv:
  assumes "launch_step c c'" "launch_inv c"
  shows "launch_inv c'"
  using assms
proof (induction rule: launch_step.induct)
  case (moves ch i pcs w p w')
  note f = ensure_step_facts [OF moves(1)]
  have l: "lw_lock w' = Some j" if "critical ((pcs(i := p)) j)" for j
  proof (cases "j = i")
    case True
    then show ?thesis using that f(2) moves(2) by (fastforce simp: launch_inv_def)
  next
    case False
    then have "lw_lock w = Some j" using that moves(2) by (simp add: launch_inv_def)
    then show ?thesis using f(3) False by simp
  qed
  then show ?case using moves(2) f(1,5) by (auto simp: launch_inv_def split: if_splits)
next
  case (ticks w t pcs)
  then show ?case by (fastforce simp: launch_inv_def)
next
  case (daemon pcs w b st)
  then show ?case by (simp add: launch_inv_def)
next
  case (takes w pcs d r)
  then show ?case by (auto simp: launch_inv_def)
next
  case (gives w d pcs r)
  then have "\<not> critical (pcs j)" for j by (metis critical.simps(7) fst_conv launch_inv_def option.inject snd_conv)
  then show ?case using gives by (simp add: launch_inv_def)
qed

section \<open>Properties\<close>

text \<open>C27. However launchers, daemons and the clock interleave: at most one launcher at a time is in the part of
  \<^verbatim>\<open>Ensure\<close> under the lock; only the launcher that holds the lock spawns a daemon, after it claimed
  the start at a moment when no private marker younger than the dial budget existed; a launcher
  reports success only when the endpoint answers; and a launcher that waits gives up with its
  first try after the dial budget.\<close>

theorem launcher_exclusive:
  assumes "launch_step\<^sup>*\<^sup>* (all_dialing w0) (pcs, w)" "ensure_step ch i (pcs i) w = (p, w')"
  shows "(\<forall>j k. critical (pcs j) \<longrightarrow> critical (pcs k) \<longrightarrow> j = k) \<and>
    (lw_spawned w' \<noteq> lw_spawned w \<longrightarrow> pcs i = Launching \<and> lw_lock w = Some i) \<and>
    (p = Launching \<longrightarrow> pcs i = Claiming \<and> lw_lock w = Some i \<and>
       (\<forall>t perm. lw_marker w = Some (t, perm) \<longrightarrow> lw_now w - t > dialBudget \<or> perm \<noteq> private_mode)) \<and>
    (p = Done None \<longrightarrow> pcs i \<noteq> Done None \<longrightarrow> lw_live w) \<and>
    (\<forall>own deadline. pcs i = Redialing own deadline \<longrightarrow>
       deadline \<le> lw_now w + dialBudget \<and> (deadline < lw_now w \<longrightarrow> (\<exists>r. p = Done r)))"
proof -
  have "launch_inv (all_dialing w0)" by (simp add: launch_inv_def all_dialing_def)
  with assms(1) have inv: "launch_inv (pcs, w)" by (induction rule: rtranclp_induct) (auto intro: launch_step_inv)
  have "\<exists>r. p = Done r" if "pcs i = Redialing own deadline" "deadline < lw_now w" for own deadline
    using assms(2) that by (auto split: if_splits option.splits)
  moreover have "critical (pcs i) \<Longrightarrow> lw_lock w = Some i" "critical (pcs j) \<Longrightarrow> critical (pcs k) \<Longrightarrow> j = k" for j k
    using inv unfolding launch_inv_def by (simp, metis fst_conv option.inject snd_conv)
  moreover have "pcs i = Redialing own deadline \<Longrightarrow> deadline \<le> lw_now w + dialBudget" for own deadline
    using inv by (simp add: launch_inv_def)
  ultimately show ?thesis using ensure_step_facts(6,7,8) [OF assms(2)] by (metis critical.simps(2,3))
qed

definition quiet :: choice where
  "quiet = \<lparr>ch_mkdirErr = None, ch_openErr = None, ch_markerErr = None, ch_spawnErr = None, ch_ctxErr = None\<rparr>"

definition demo_world :: world where
  "demo_world = \<lparr>lw_live = False, lw_sock = StatError True, lw_lock = None, lw_marker = None, lw_now = 0, lw_spawned = 0\<rparr>"

theorem launcher_exclusive_witness:
  "ensure_step quiet 0 Dialing (demo_world\<lparr>lw_live := True\<rparr>) = (Done None, demo_world\<lparr>lw_live := True\<rparr>) \<and> lw_live (demo_world\<lparr>lw_live := True\<rparr>)"
proof -
  let ?w = "demo_world\<lparr>lw_live := True\<rparr>"
  have "launch_step\<^sup>*\<^sup>* (all_dialing ?w) (\<lambda>_. Dialing, ?w)" by (simp add: all_dialing_def)
  moreover have "ensure_step quiet 0 ((\<lambda>_. Dialing) 0) ?w = (Done None, ?w)" by simp
  ultimately show ?thesis using launcher_exclusive [of ?w "\<lambda>_. Dialing" ?w quiet 0 "Done None" ?w] by simp
qed

text \<open>Two launchers can still spawn two daemons: the second dials under the lock before the first daemon answers,
  and claims the start after the first launcher saw the daemon and removed its marker.\<close>

fun run_moves :: "nat list \<Rightarrow> config \<Rightarrow> config" where
  "run_moves [] c = c"
| "run_moves (i # is) c = (case ensure_step quiet i (fst c i) (snd c) of (p, w) \<Rightarrow> run_moves is ((fst c)(i := p), w))"

lemma run_moves_steps: "launch_step\<^sup>*\<^sup>* c (run_moves is c)"
proof (induction "is" arbitrary: c)
  case (Cons i "is")
  obtain p w where s: "ensure_step quiet i (fst c i) (snd c) = (p, w)" by fastforce
  then have "launch_step c ((fst c)(i := p), w)" by (metis launch_step.moves prod.collapse)
  then show ?case using Cons.IH [of "((fst c)(i := p), w)"] s by (simp add: converse_rtranclp_into_rtranclp)
qed simp

lemma two_daemons_spawned:
  "\<exists>pcs w. launch_step\<^sup>*\<^sup>* (all_dialing demo_world) (pcs, w) \<and> lw_live w \<and> lw_spawned w = 2 \<and> lw_now w = 0"
proof -
  let ?c = "run_moves [0, 0, 0, 0, 0, 1, 1, 1] (all_dialing demo_world)"
  let ?d = "(fst ?c, (snd ?c)\<lparr>lw_live := True, lw_sock := lw_sock (snd ?c)\<rparr>)"
  have "launch_step ?c ?d" using launch_step.daemon [of "fst ?c" "snd ?c"] by (metis prod.collapse)
  then have "launch_step\<^sup>*\<^sup>* (all_dialing demo_world) ?d" using run_moves_steps [of "all_dialing demo_world"] by (meson rtranclp.rtrancl_into_rtrancl)
  then have "launch_step\<^sup>*\<^sup>* (all_dialing demo_world) (run_moves [0, 1, 1] ?d)" using run_moves_steps [of ?d] by (meson rtranclp_trans)
  moreover have "lw_live (snd (run_moves [0, 1, 1] ?d)) \<and> lw_spawned (snd (run_moves [0, 1, 1] ?d)) = 2 \<and> lw_now (snd (run_moves [0, 1, 1] ?d)) = 0"
    by (simp add: all_dialing_def demo_world_def quiet_def world_defs Let_def)
  ultimately show ?thesis by (metis prod.collapse)
qed

end
