(* ===== verification/Path_Join.thy ===== *)
theory Path_Join
  imports Filepath
begin

text \<open>
  Joining ordinary names to a path: \<^verbatim>\<open>filepath.Join\<close> appends them to the elements of the path, and the parent of
  the result is another path. Shared by the theories of the worktrees and of the project's directory.
\<close>

lemma split_on_append_general: "split_on c (a @ c # b) = split_on c a @ split_on c b"
  by (induction a) (auto split: list.splits)

lemma fold_clean_step_names:
  "\<forall>w \<in> set ws. plain_elem w \<and> w \<noteq> dotdot \<Longrightarrow> fold (clean_step r) ws acc = rev ws @ acc"
  by (induction ws arbitrary: acc) (auto simp: clean_step_def plain_elem_def)

lemma clean_list_rooted: "clean_list True cs \<longleftrightarrow> (\<forall>w \<in> set cs. plain_elem w \<and> w \<noteq> dotdot)"
  unfolding clean_list_def using set_dropWhileD by fastforce

lemma clean_list_names:
  "clean_list r cs \<Longrightarrow> \<forall>w \<in> set ws. plain_elem w \<and> w \<noteq> dotdot \<Longrightarrow> clean_list r (cs @ ws)"
  by (induction ws rule: rev_induct) (auto simp: clean_list_snoc simp flip: append_assoc)

lemma comps_join_names:
  assumes "p \<noteq> []" "\<forall>w \<in> set ws. plain_elem w \<and> w \<noteq> dotdot"
  shows "comps (join_with [slash] (p # ws)) = comps p @ ws" "IsAbs (join_with [slash] (p # ws)) = IsAbs p"
proof -
  show a: "IsAbs (join_with [slash] (p # ws)) = IsAbs p" using assms(1) by (cases p) (auto simp: join_with_Cons IsAbs_def)
  show "comps (join_with [slash] (p # ws)) = comps p @ ws"
  proof (cases "ws = []")
    case False
    have "split_on slash (join_with [slash] ws) = ws"
      using False assms(2) by (intro split_on_join) (auto simp: plain_elem_def)
    then have "split_on slash (join_with [slash] (p # ws)) = split_on slash p @ ws"
      using False by (simp add: join_with_Cons split_on_append_general)
    then show ?thesis using a assms by (simp add: comps_def clean_elems_def fold_clean_step_names)
  qed (simp add: join_with_Cons)
qed

lemma Join_names:
  assumes "\<forall>w \<in> set ws. plain_elem w \<and> w \<noteq> dotdot" "p \<noteq> [] \<or> ws \<noteq> []"
  shows "Join (p # ws) = unsplit (IsAbs p) (comps p @ ws)"
proof (cases "p = []")
  case True
  have c: "comps [] = []" "\<not> IsAbs []" by code_simp+
  obtain v vs where ws: "ws = v # vs" "v \<noteq> []" using assms True by (cases ws) (auto simp: plain_elem_def)
  have "Clean (unsplit False ws) = unsplit False ws"
    using assms(1) clean_list_names [of False "[]" ws] by (intro Clean_unsplit) simp
  then show ?thesis using True c ws by (simp add: Join_def unsplit_def)
next
  case False
  then show ?thesis using comps_join_names [OF False assms(1)] by (simp add: Join_def Clean_def)
qed

lemma rooted_Join:
  assumes "IsAbs p" "\<forall>w \<in> set ws. plain_elem w \<and> w \<noteq> dotdot"
  shows "Join (p # ws) = unsplit True (comps p @ ws)"
proof -
  have "p \<noteq> []" using assms(1) by (auto simp: IsAbs_def)
  then show ?thesis using Join_names [OF assms(2), of p] assms(1) by simp
qed

lemma Dir_not_self:
  assumes "p \<noteq> ''.''" "p \<noteq> []" "last p \<noteq> slash"
  shows "Dir p \<noteq> p"
proof (cases "dir_part p = []")
  case True
  have "Clean [] = ''.''" by code_simp
  then show ?thesis using True assms(1) by (simp add: Dir_def)
next
  case False
  have "dir_part p \<noteq> p"
  proof
    assume "dir_part p = p"
    then have d: "dropWhile (\<lambda>c. c \<noteq> slash) (rev p) = rev p" unfolding dir_part_def by (metis rev_rev_ident)
    obtain q c where p: "p = q @ [c]" using assms(2) by (cases p rule: rev_cases) auto
    have "length (dropWhile (\<lambda>c. c \<noteq> slash) (rev q)) \<le> length q" using length_dropWhile_le [of _ "rev q"] by simp
    moreover have "dropWhile (\<lambda>c. c \<noteq> slash) (rev q) = c # rev q" using d p assms(3) by simp
    ultimately show False by simp
  qed
  then have "length (dir_part p) < length p" using length_dir_part [of p] dir_part_eq [of p] by fastforce
  then show ?thesis using length_Clean [OF False] by (auto simp: Dir_def)
qed

lemma Dir_Join:
  assumes "plain_elem c" "c \<noteq> dotdot"
  shows "Dir (Join [x, c]) \<noteq> Join [x, c]"
proof (rule Dir_not_self)
  have j: "Join [x, c] = unsplit (IsAbs x) (comps x @ [c])" using assms by (intro Join_names) auto
  have l: "clean_list (IsAbs x) (comps x @ [c])" using assms clean_list_comps [of x] by (intro clean_list_names) auto
  have "comps ''.'' = []" by code_simp
  then show "Join [x, c] \<noteq> ''.''" using comps_unsplit [OF l] j by auto
  have c: "c \<noteq> []" "slash \<notin> set c" using assms(1) by (auto simp: plain_elem_def)
  have u: "\<exists>a. unsplit (IsAbs x) (comps x @ [c]) = a @ c"
    by (cases "comps x = []") (auto simp: unsplit_def join_with_append intro: exI [of _ "[slash]"] exI [of _ "[]"])
  then obtain a where a: "Join [x, c] = a @ c" using j by auto
  show "Join [x, c] \<noteq> []" "last (Join [x, c]) \<noteq> slash" using a c by (auto simp: last_append dest: last_in_set)
qed

end
