(* ===== verification/Worktree.thy ===== *)
theory Worktree
  imports Path_Join
begin

text \<open>
  \<^verbatim>\<open>internal/worktree/manager.go\<close>: the manager of the git worktrees of isolated executions. Git and the file
  system are parameters: a git command gets a directory and arguments and changes the world, an
  error comes with the combined output. The theorem says that removing a worktree finds the
  repository the worktree was created in.
\<close>

section \<open>Paths\<close>

text \<open>The loop of \<^verbatim>\<open>splitPath\<close>; it ends when the rest of the path is the root or the current directory.\<close>

function split_path :: "string \<Rightarrow> string list \<Rightarrow> string list" where
  "split_path p out =
     (if p = '''' \<or> p = ''/'' \<or> p = ''.'' then out
      else
        (let dir = Dir p; out' = Base p # out in
         if dir = p then out'
         else if dir = ''/'' then ''/'' # out'
         else if dir = ''.'' then out'
         else split_path dir out'))"
  by pat_completeness auto

termination split_path
  by (relation "measure (\<lambda>(p, out). path_size p)") (auto simp: path_size_Dir)

declare split_path.simps [simp del]

definition splitPath :: "string \<Rightarrow> string list" where
  "splitPath p = split_path p []"

definition inferRepoRoot :: "string \<Rightarrow> string" where
  "inferRepoRoot worktreePath =
     (let clean = Clean worktreePath; parts = splitPath clean in
      case find (\<lambda>i. i > 0 \<and> parts ! i = ''.haro'') [0..<length parts] of
        Some i \<Rightarrow> Join (take i parts)
      | None \<Rightarrow> Dir (Dir clean))"

definition splitLines :: "string \<Rightarrow> string list" where
  "splitLines s = (let ls = split_on (CHR 0x0A) s in if last ls = [] then butlast ls else ls)"

section \<open>The manager\<close>

record 'w git_os =
  go_EvalSymlinks :: "string \<Rightarrow> 'w \<Rightarrow> goerr + string"
  go_Exists :: "string \<Rightarrow> 'w \<Rightarrow> bool"
  go_NotExist :: "string \<Rightarrow> 'w \<Rightarrow> bool"
  go_MkdirAll :: "string \<Rightarrow> 'w \<Rightarrow> goerr option \<times> 'w"
  go_git :: "string \<Rightarrow> string list \<Rightarrow> 'w \<Rightarrow> (goerr option \<times> string) \<times> 'w"

definition resolved_root :: "'w git_os \<Rightarrow> string \<Rightarrow> 'w \<Rightarrow> string" where
  "resolved_root os repoRoot w = (case go_EvalSymlinks os repoRoot w of Inl e \<Rightarrow> Clean repoRoot | Inr r \<Rightarrow> Clean r)"

definition git_error :: "string \<Rightarrow> goerr \<Rightarrow> string \<Rightarrow> goerr" where
  "git_error what e out = GoErr (err_kind e) (what @ '': '' @ err_msg e @ '' output: '' @ out)"

definition worktree_dest :: "string \<Rightarrow> string \<Rightarrow> string" where
  "worktree_dest resolvedRoot executionID = Join [resolvedRoot, ''.haro'', ''worktrees'', executionID]"

definition worktree_Create :: "'w git_os \<Rightarrow> string \<Rightarrow> string \<Rightarrow> 'w \<Rightarrow> (goerr + string) \<times> 'w" where
  "worktree_Create os executionID repoRoot w =
     (if executionID = '''' then (Inl (errorf ''empty executionID''), w)
      else
        (let resolvedRoot = resolved_root os repoRoot w; dest = worktree_dest resolvedRoot executionID in
         if go_Exists os dest w then (Inr dest, w)
         else
           (case go_MkdirAll os (Dir dest) w of
              (Some e, w) \<Rightarrow> (Inl (wrap_err ''mkdir worktrees'' e), w)
            | (None, w) \<Rightarrow>
                (case go_git os resolvedRoot [''worktree'', ''add'', ''--detach'', dest, ''HEAD''] w of
                   ((Some e, out), w) \<Rightarrow> (if go_Exists os dest w then Inr dest else Inl (git_error ''git worktree add'' e out), w)
                 | ((None, _), w) \<Rightarrow> (Inr dest, w)))))"

definition remove_root :: "'w git_os \<Rightarrow> string \<Rightarrow> 'w \<Rightarrow> string" where
  "remove_root os worktreePath w =
     (let repoRoot = inferRepoRoot worktreePath in
      if repoRoot = '''' then ''''
      else (case go_EvalSymlinks os repoRoot w of Inr r \<Rightarrow> Clean r | Inl _ \<Rightarrow> repoRoot))"

definition worktree_Remove :: "'w git_os \<Rightarrow> string \<Rightarrow> 'w \<Rightarrow> goerr option \<times> 'w" where
  "worktree_Remove os worktreePath w =
     (if worktreePath = '''' then (Some (errorf ''empty worktreePath''), w)
      else
        (let repoRoot = remove_root os worktreePath w in
         if go_NotExist os worktreePath w then (None, w)
         else
           (case go_git os repoRoot [''worktree'', ''remove'', ''--force'', worktreePath] w of
              ((Some e, out), w) \<Rightarrow> (if go_NotExist os worktreePath w then None else Some (git_error ''git worktree remove'' e out), w)
            | ((None, _), w) \<Rightarrow> (None, w))))"

definition worktree_Prune :: "'w git_os \<Rightarrow> string \<Rightarrow> 'w \<Rightarrow> goerr option \<times> 'w" where
  "worktree_Prune os repoRoot w =
     (case go_git os (resolved_root os repoRoot w) [''worktree'', ''prune''] w of
        ((Some e, out), w) \<Rightarrow> (Some (git_error ''git worktree prune'' e out), w)
      | ((None, _), w) \<Rightarrow> (None, w))"

definition worktree_List :: "'w git_os \<Rightarrow> string \<Rightarrow> 'w \<Rightarrow> (goerr + string list) \<times> 'w" where
  "worktree_List os repoRoot w =
     (case go_git os (resolved_root os repoRoot w) [''worktree'', ''list'', ''--porcelain''] w of
        ((Some e, out), w) \<Rightarrow> (Inl (git_error ''git worktree list'' e out), w)
      | ((None, out), w) \<Rightarrow>
          (Inr (map (drop 9) (filter (\<lambda>line. length line > 9 \<and> take 9 line = ''worktree '') (splitLines out))), w))"

section \<open>Splitting and joining\<close>

lemma last_element:
  assumes "c \<noteq> []" "slash \<notin> set c"
  shows "dir_part (r @ slash # c) = r @ [slash]" "Base (r @ slash # c) = c"
proof -
  have r: "rev (r @ slash # c) = rev c @ slash # rev r" by simp
  have d: "dropWhile (\<lambda>x. x \<noteq> slash) (rev c @ slash # rev r) = slash # rev r"
    using assms(2) by (subst dropWhile_append2) auto
  then show "dir_part (r @ slash # c) = r @ [slash]" unfolding dir_part_def r by simp
  have n: "dropWhile (\<lambda>x. x = slash) (rev c @ slash # rev r) = rev c @ slash # rev r"
    using assms by (cases "rev c") (auto simp: rev_eq_Cons_iff)
  have t: "takeWhile (\<lambda>x. x \<noteq> slash) (rev c @ slash # rev r) = rev c"
    using assms(2) by (subst takeWhile_append2) auto
  show "Base (r @ slash # c) = c" unfolding Base_def r n using t assms(1) by (simp add: Let_def)
qed

lemma comps_trailing_slash: "r \<noteq> [] \<Longrightarrow> comps (r @ [slash]) = comps r"
  using split_on_append [of slash r] by (cases r) (simp_all add: comps_def clean_elems_def IsAbs_def del: split_on.simps)

lemma rooted_unsplit: "unsplit True (cs @ [c]) = (if cs = [] then [] else unsplit True cs) @ slash # c"
  by (cases cs) (simp_all add: unsplit_def join_with_append join_with_Cons)

lemma rooted_Dir_Base:
  assumes "clean_list True (cs @ [c])"
  shows "Dir (unsplit True (cs @ [c])) = unsplit True cs" "Base (unsplit True (cs @ [c])) = c"
proof -
  have c: "c \<noteq> []" "slash \<notin> set c" "clean_list True cs" using assms by (simp_all add: clean_list_rooted plain_elem_def)
  note l = last_element [OF c(1,2)]
  show "Base (unsplit True (cs @ [c])) = c" unfolding rooted_unsplit using l(2) by simp
  have "Clean ((if cs = [] then [] else unsplit True cs) @ [slash]) = unsplit True cs"
  proof (cases "cs = []")
    case True
    have "comps [slash] = []" "IsAbs [slash]" by code_simp+
    then show ?thesis using True by (simp add: Clean_def)
  next
    case False
    have a: "IsAbs (unsplit True cs)" "unsplit True cs \<noteq> []" using IsAbs_unsplit [OF c(3)] by (auto simp: IsAbs_def)
    then have "IsAbs (unsplit True cs @ [slash])" by (cases "unsplit True cs") (auto simp: IsAbs_def)
    then show ?thesis using False a comps_trailing_slash [of "unsplit True cs"] comps_unsplit [OF c(3)] by (simp add: Clean_def)
  qed
  then show "Dir (unsplit True (cs @ [c])) = unsplit True cs" unfolding Dir_def rooted_unsplit using l(1) by simp
qed

lemma unsplit_root_iff: "clean_list True cs \<Longrightarrow> unsplit True cs = ''/'' \<longleftrightarrow> cs = []"
  by (cases cs) (auto simp: unsplit_def slash_def join_with_Cons clean_list_def plain_elem_def)

lemma unsplit_inj: "clean_list True cs \<Longrightarrow> clean_list True ds \<Longrightarrow> unsplit True cs = unsplit True ds \<longleftrightarrow> cs = ds"
  by (metis comps_unsplit)

lemma split_path_rooted:
  assumes "clean_list True cs" "cs \<noteq> []"
  shows "split_path (unsplit True cs) out = ''/'' # cs @ out"
  using assms
proof (induction cs arbitrary: out rule: rev_induct)
  case (snoc c cs)
  let ?p = "unsplit True (cs @ [c])"
  have cs: "clean_list True cs" using snoc.prems(1) by (simp add: clean_list_snoc)
  note d = rooted_Dir_Base [OF snoc.prems(1)]
  have p: "?p \<noteq> ''''" "?p \<noteq> ''/''" "?p \<noteq> ''.''"
    using unsplit_root_iff [OF snoc.prems(1)] by (auto simp: unsplit_def slash_def)
  have q: "unsplit True cs \<noteq> ?p" "unsplit True cs \<noteq> ''.''"
    using unsplit_inj [OF cs snoc.prems(1)] by (auto simp: unsplit_def slash_def)
  show ?case
  proof (cases "cs = []")
    case True
    then show ?thesis using p q d unsplit_root_iff [OF cs] by (subst split_path.simps) (simp add: Let_def)
  next
    case False
    then show ?thesis using p q d unsplit_root_iff [OF cs] snoc.IH [OF cs False] by (subst split_path.simps) (simp add: Let_def)
  qed
qed simp

lemma find_later:
  assumes "y \<in> set ys"
  shows "find (\<lambda>i. i > 0 \<and> (x # ys) ! i = y) [0..<length (x # ys)] = Some (Suc (length (takeWhile (\<lambda>z. z \<noteq> y) ys)))"
proof -
  let ?n = "length (takeWhile (\<lambda>z. z \<noteq> y) ys)"
  have n: "?n < length ys" using assms by (induction ys) auto
  have e: "ys ! ?n = y" using nth_length_takeWhile [OF n] by simp
  have b: "ys ! j \<noteq> y" if "j < ?n" for j using that by (metis (mono_tags, lifting) nth_mem set_takeWhileD takeWhile_nth)
  show ?thesis unfolding find_Some_iff
  proof (intro exI conjI allI impI)
    show "Suc ?n < length [0..<length (x # ys)]" using n by simp
  next
    fix j
    assume j: "j < Suc ?n"
    then have i: "[0..<length (x # ys)] ! j = j" using n by (subst nth_upt) auto
    show "\<not> (0 < [0..<length (x # ys)] ! j \<and> (x # ys) ! ([0..<length (x # ys)] ! j) = y)"
      unfolding i using j b by (cases j) auto
  qed (use n e in \<open>simp_all del: upt_Suc\<close>)
qed

lemma inferRepoRoot_rooted:
  assumes "clean_list True cs" "''.haro'' \<in> set cs"
  shows "inferRepoRoot (unsplit True cs) = unsplit True (takeWhile (\<lambda>c. c \<noteq> ''.haro'') cs)"
proof -
  let ?t = "takeWhile (\<lambda>c. c \<noteq> ''.haro'') cs"
  have ne: "cs \<noteq> []" using assms(2) by auto
  have parts: "splitPath (unsplit True cs) = ''/'' # cs"
    unfolding splitPath_def split_path_rooted [OF assms(1) ne] by simp
  have t: "take (Suc (length ?t)) (''/'' # cs) = ''/'' # ?t" by (simp add: takeWhile_eq_take [symmetric])
  have "\<forall>w \<in> set ?t. plain_elem w \<and> w \<noteq> dotdot" using assms(1) set_takeWhileD unfolding clean_list_rooted by fast
  moreover have "IsAbs ''/''" "comps ''/'' = []" by code_simp+
  ultimately have "Join (''/'' # ?t) = unsplit True ?t" using rooted_Join [of "''/''" ?t] by simp
  then show ?thesis
    unfolding inferRepoRoot_def Let_def Clean_unsplit [OF assms(1)] parts find_later [OF assms(2)] using t by simp
qed

lemma worktree_Create_dest:
  assumes "worktree_Create os eid repoRoot w = (Inr d, w')"
  shows "d = worktree_dest (resolved_root os repoRoot w) eid"
  using assms by (auto simp: worktree_Create_def Let_def split: if_splits option.splits prod.splits)

lemma worktree_dest_rooted:
  assumes "IsAbs r" "plain_elem eid" "eid \<noteq> dotdot"
  shows "worktree_dest r eid = unsplit True (comps r @ [''.haro'', ''worktrees'', eid])"
  unfolding worktree_dest_def using assms by (intro rooted_Join) (auto simp: plain_elem_def slash_def dotdot_def)

section \<open>Properties\<close>

text \<open>C33. A worktree created for an execution in a repository with an absolute path lies in the repository's own
  directory of worktrees, under the name of the execution, and the repository that a removal infers from the
  path of the worktree is the one it was created in exactly when no directory on the way to the repository is itself
  named \<^verbatim>\<open>.haro\<close>.\<close>

theorem worktree_root_found:
  assumes "worktree_Create os eid repoRoot w = (Inr d, w')"
    and "r = resolved_root os repoRoot w" and "IsAbs r" and "plain_elem eid" and "eid \<noteq> dotdot"
  shows "comps d = comps r @ [''.haro'', ''worktrees'', eid] \<and> (inferRepoRoot d = r \<longleftrightarrow> ''.haro'' \<notin> set (comps r))"
proof -
  let ?cs = "comps r @ [''.haro'', ''worktrees'', eid]"
  have l: "clean_list True (comps r)" using clean_list_comps [of r] assms(3) by simp
  have c: "clean_list True ?cs"
    using assms(4,5) by (intro clean_list_names [OF l]) (auto simp: plain_elem_def slash_def dotdot_def)
  have d: "d = unsplit True ?cs"
    using worktree_Create_dest [OF assms(1)] worktree_dest_rooted [OF assms(3-5)] assms(2) by simp
  have rc: "r = unsplit True (comps r)"
  proof -
    have "Clean r = r" using assms(2) by (cases "go_EvalSymlinks os repoRoot w") (auto simp: resolved_root_def)
    then show ?thesis using assms(3) by (simp add: Clean_def)
  qed
  let ?t = "takeWhile (\<lambda>c. c \<noteq> ''.haro'') ?cs"
  have "clean_list True ?t" using c set_takeWhileD unfolding clean_list_rooted by fast
  then have "inferRepoRoot d = r \<longleftrightarrow> ?t = comps r"
    using unsplit_inj [OF _ l] inferRepoRoot_rooted [OF c] d rc by (metis append_Cons in_set_conv_decomp)
  also have "\<dots> \<longleftrightarrow> ''.haro'' \<notin> set (comps r)"
    using set_takeWhileD [of "''.haro''" "\<lambda>c. c \<noteq> ''.haro''" ?cs] by (auto simp: takeWhile_append)
  finally show ?thesis using d comps_unsplit [OF c] by simp
qed

text \<open>A repository at \<^verbatim>\<open>/srv/app\<close>; git succeeds and the worktree does not exist before.\<close>

definition demo_git :: "unit git_os" where
  "demo_git = \<lparr>go_EvalSymlinks = (\<lambda>p w. Inr p), go_Exists = (\<lambda>p w. False), go_NotExist = (\<lambda>p w. True),
     go_MkdirAll = (\<lambda>p w. (None, w)), go_git = (\<lambda>d args w. ((None, ''''), w))\<rparr>"

lemma worktree_root_found_witness:
  "comps ''/srv/app/.haro/worktrees/e1'' = comps ''/srv/app'' @ [''.haro'', ''worktrees'', ''e1''] \<and>
   (inferRepoRoot ''/srv/app/.haro/worktrees/e1'' = ''/srv/app'' \<longleftrightarrow> ''.haro'' \<notin> set (comps ''/srv/app''))"
proof -
  have "worktree_Create demo_git ''e1'' ''/srv/app'' () = (Inr ''/srv/app/.haro/worktrees/e1'', ())"
    "''/srv/app'' = resolved_root demo_git ''/srv/app'' ()" "IsAbs ''/srv/app''" "plain_elem ''e1''" "''e1'' \<noteq> dotdot"
    by code_simp+
  then show ?thesis by (rule worktree_root_found)
qed

end
