(* ===== verification/Acp.thy ===== *)
theory Acp
  imports Adapter
begin

text \<open>
  \<^verbatim>\<open>internal/adapter/acp/translate.go\<close>: capabilities and parameters as the maps of the agent client protocol. A
  value of a map is a Go integer, a boolean, a string, a list or map of strings, another map, or
  what came out of a JSON decoder, whose numbers are \<^verbatim>\<open>float64\<close>; \<open>trunc\<close> converts such a number.
\<close>

datatype acp_value = AcpInt int | AcpString string | AcpStrings "string list" | AcpStringMap "(string, string) gomap"
  | AcpMap "(string, acp_value) gomap" | AcpJson json

type_synonym acp_map = "(string, acp_value) gomap"

definition reserved :: "string list" where
  "reserved = [''protocolVersion'', ''permission'', ''terminal'', ''loadSession'']"

definition ToACP :: "Capabilities \<Rightarrow> acp_map" where
  "ToACP c =
     put_all (map (apsnd AcpJson) (ca_Extra c))
       [(''protocolVersion'', AcpInt (ca_ProtocolVersion c)), (''permission'', AcpJson (JBool (ca_Permission c))),
        (''terminal'', AcpJson (JBool (ca_Terminal c))), (''loadSession'', AcpJson (JBool (ca_LoadSession c)))]"

definition version_of :: "(string \<Rightarrow> int) \<Rightarrow> acp_value \<Rightarrow> int" where
  "version_of trunc v = (case v of AcpInt i \<Rightarrow> i | AcpJson (JNum t) \<Rightarrow> trunc t | _ \<Rightarrow> 0)"

definition bool_of :: "acp_map \<Rightarrow> string \<Rightarrow> bool" where
  "bool_of m k = (case map_of m k of Some (AcpJson (JBool b)) \<Rightarrow> b | _ \<Rightarrow> False)"

text \<open>The extra capabilities of the model are JSON values; another value is kept as its encoding.\<close>

fun json_any :: "acp_value \<Rightarrow> json" where
  "json_any (AcpInt i) = JNum (itoa i)"
| "json_any (AcpString s) = JStr s"
| "json_any (AcpStrings ss) = JArr (map JStr ss)"
| "json_any (AcpStringMap m) = JObj (map (apsnd JStr) m)"
| "json_any (AcpMap m) = JObj (map (\<lambda>(k, v). (k, json_any v)) m)"
| "json_any (AcpJson j) = j"

definition FromACP :: "(string \<Rightarrow> int) \<Rightarrow> acp_map \<Rightarrow> Capabilities" where
  "FromACP trunc m =
     \<lparr>ca_ProtocolVersion = (case map_of m ''protocolVersion'' of None \<Rightarrow> 0 | Some v \<Rightarrow> version_of trunc v),
      ca_Permission = bool_of m ''permission'', ca_Terminal = bool_of m ''terminal'', ca_LoadSession = bool_of m ''loadSession'',
      ca_Extra = map (apsnd json_any) (filter (\<lambda>(k, v). k \<notin> set reserved) m)\<rparr>"

definition TranslateInitialize :: "Capabilities \<Rightarrow> acp_map" where
  "TranslateInitialize core = [(''protocolVersion'', AcpInt (ca_ProtocolVersion core)), (''clientCapabilities'', AcpMap (ToACP core))]"

definition TranslateSessionNew :: "SessionBundle \<Rightarrow> acp_map" where
  "TranslateSessionNew bd =
     [(''instructions'', AcpString (sb_Instructions bd)), (''workspaceRoot'', AcpString (sb_WorkspaceRoot bd)), (''requires'', AcpStringMap (sb_Requires bd))]"

definition TranslatePrompt :: "string \<Rightarrow> string \<Rightarrow> acp_map" where
  "TranslatePrompt sessionID inputText = [(''sessionId'', AcpString sessionID), (''text'', AcpString inputText)]"

definition TranslateUpdate :: "string \<Rightarrow> int \<Rightarrow> acp_value \<Rightarrow> acp_map" where
  "TranslateUpdate sessionID cursor delta = [(''sessionId'', AcpString sessionID), (''cursor'', AcpInt cursor), (''delta'', delta)]"

definition TranslateCancel :: "string \<Rightarrow> acp_map" where
  "TranslateCancel sessionID = [(''sessionId'', AcpString sessionID)]"

definition TranslateRequestPermission :: "string \<Rightarrow> PermissionRequest \<Rightarrow> acp_map" where
  "TranslateRequestPermission sessionID req =
     [(''sessionId'', AcpString sessionID), (''kind'', AcpString (pq_Kind req)), (''description'', AcpString (pq_Description req)),
      (''options'', AcpStrings (pq_Options req))]"

definition TranslatePermissionDecision :: "acp_map \<Rightarrow> string" where
  "TranslatePermissionDecision m =
     (case map_of m ''option'' of Some (AcpString s) \<Rightarrow> s | Some (AcpJson (JStr s)) \<Rightarrow> s | _ \<Rightarrow> '''')"

section \<open>Round trip\<close>

lemma put_all_fresh:
  assumes "gomap src" "fst ` set src \<inter> fst ` set dst = {}"
  shows "put_all src dst = dst @ src"
  using assms
proof (induction src arbitrary: dst)
  case (Cons kv src)
  obtain k v where kv: "kv = (k, v)" by (cases kv)
  have "AList.update k v dst = dst @ [(k, v)]" using Cons.prems(2) kv by (induction dst) auto
  moreover have "put_all src (dst @ [(k, v)]) = (dst @ [(k, v)]) @ src"
    using Cons.prems kv by (intro Cons.IH) (auto simp: gomap_def)
  ultimately show ?case using kv by (simp add: put_all_def)
qed (simp add: put_all_def)

text \<open>Capabilities whose extra keys are not reserved come back from their map.\<close>

lemma ToACP_fresh:
  assumes "gomap (ca_Extra c)" "fst ` set (ca_Extra c) \<inter> set reserved = {}"
  shows "FromACP trunc (ToACP c) = c"
proof -
  let ?base = "[(''protocolVersion'', AcpInt (ca_ProtocolVersion c)), (''permission'', AcpJson (JBool (ca_Permission c))),
        (''terminal'', AcpJson (JBool (ca_Terminal c))), (''loadSession'', AcpJson (JBool (ca_LoadSession c)))]"
  have "ToACP c = ?base @ map (apsnd AcpJson) (ca_Extra c)"
    unfolding ToACP_def using assms by (intro put_all_fresh) (auto simp: gomap_def reserved_def image_iff)
  moreover have "filter (\<lambda>(k, v). k \<notin> set reserved) (map (apsnd AcpJson) kvs) = map (apsnd AcpJson) kvs"
    if "fst ` set kvs \<inter> set reserved = {}" for kvs :: "(string, json) gomap"
    using that by (induction kvs) auto
  moreover have "map (\<lambda>x. apsnd json_any (apsnd AcpJson x)) kvs = kvs" for kvs :: "(string, json) gomap"
    by (induction kvs) auto
  ultimately show ?thesis using assms(2) by (simp add: FromACP_def bool_of_def version_of_def reserved_def comp_def)
qed

text \<open>An extra key with a reserved name replaces the capability.\<close>

lemma ToACP_overridden:
  "ca_Permission (FromACP trunc (ToACP (zero_Capabilities\<lparr>ca_Extra := [(''permission'', JBool True)]\<rparr>))) = True"
  by (simp add: ToACP_def put_all_def FromACP_def bool_of_def zero_Capabilities_def)

section \<open>Properties\<close>

text \<open>Translating capabilities to their map and back returns them exactly when no extra key has the name of a
  capability; the map is then unambiguous.\<close>

theorem acp_round_trip:
  assumes "gomap (ca_Extra c)"
  shows "FromACP trunc (ToACP c) = c \<longleftrightarrow> fst ` set (ca_Extra c) \<inter> set reserved = {}"
proof
  assume "FromACP trunc (ToACP c) = c"
  moreover have "fst ` set (ca_Extra (FromACP trunc m)) \<inter> set reserved = {}" for m by (auto simp: FromACP_def)
  ultimately show "fst ` set (ca_Extra c) \<inter> set reserved = {}" by metis
next
  assume "fst ` set (ca_Extra c) \<inter> set reserved = {}"
  then show "FromACP trunc (ToACP c) = c" using assms by (intro ToACP_fresh)
qed

lemma acp_round_trip_witness:
  "FromACP (\<lambda>t. 0) (ToACP (zero_Capabilities\<lparr>ca_Extra := [(''_meta'', JNull)]\<rparr>)) = zero_Capabilities\<lparr>ca_Extra := [(''_meta'', JNull)]\<rparr> \<longleftrightarrow>
   fst ` set (ca_Extra (zero_Capabilities\<lparr>ca_Extra := [(''_meta'', JNull)]\<rparr>)) \<inter> set reserved = {}"
  by (rule acp_round_trip) (simp add: gomap_def)

end
