(* ===== verification/Project_Init.thy ===== *)
theory Project_Init
  imports Path_Join
begin

text \<open>
  \<^verbatim>\<open>internal/project/init.go\<close>: creating the directory \<^verbatim>\<open>.haro\<close> of a project. The file system maps paths to
  directories and files; the root and the current directory always exist. Creating a node may
  fail for reasons of its own, which \<open>fault\<close> decides, and so may looking at a path, whether or not there is something, which
  \<open>stat\<close> decides: such a path is not made, nor is anything above it. A write that fails leaves no file, or the first bytes of it.
\<close>

datatype node = DirNode | FileNode string

type_synonym nodes = "(string, node) gomap"

definition not_a_directory :: goerr where
  "not_a_directory = errorf ''not a directory''"

text \<open>\<^verbatim>\<open>os.MkdirAll\<close>\<close>

function MkdirAll :: "(string \<Rightarrow> goerr option) \<Rightarrow> (string \<Rightarrow> goerr option) \<Rightarrow> string \<Rightarrow> nodes \<Rightarrow> goerr option \<times> nodes" where
  "MkdirAll stat fault p fs =
     (case stat p of
        Some e \<Rightarrow> (Some e, fs)
      | None \<Rightarrow>
          (case map_of fs p of
             Some DirNode \<Rightarrow> (None, fs)
           | Some (FileNode _) \<Rightarrow> (Some not_a_directory, fs)
           | None \<Rightarrow>
               if Dir p = p then (None, fs)
               else
                 (case (if Dir p = ''.'' then (None, fs) else MkdirAll stat fault (Dir p) fs) of
                    (Some e, fs') \<Rightarrow> (Some e, fs')
                  | (None, fs') \<Rightarrow> (case fault p of Some e \<Rightarrow> (Some e, fs') | None \<Rightarrow> (None, AList.update p DirNode fs')))))"
  by pat_completeness auto

termination MkdirAll
  by (relation "measure (\<lambda>(stat, fault, p, fs). path_size p)") (auto simp: path_size_Dir)

declare MkdirAll.simps [simp del]

definition defaultConfig :: string where
  "defaultConfig = ''# haro project config'' @ newline @ ''version: 2'' @ newline"

fun make_subs :: "(string \<Rightarrow> goerr option) \<Rightarrow> (string \<Rightarrow> goerr option) \<Rightarrow> string \<Rightarrow> string list \<Rightarrow> nodes \<Rightarrow> goerr option \<times> nodes" where
  "make_subs stat fault haroRoot [] fs = (None, fs)"
| "make_subs stat fault haroRoot (sub # subs) fs =
     (case MkdirAll stat fault (Join [haroRoot, sub]) fs of
        (Some e, fs') \<Rightarrow> (Some (wrap_err (''create '' @ sub) e), fs')
      | (None, fs') \<Rightarrow> make_subs stat fault haroRoot subs fs')"

definition haro_subs :: "string list" where
  "haro_subs = [''workflows'', ''skills'', ''artifacts'', ''docs'']"

text \<open>\<^verbatim>\<open>os.WriteFile\<close> of a file that is not there; \<open>left\<close> says how many bytes a failing write leaves, if it got as far as
  to create the file.\<close>

definition write_new :: "(string \<Rightarrow> goerr option) \<Rightarrow> nat option \<Rightarrow> string \<Rightarrow> string \<Rightarrow> nodes \<Rightarrow> goerr option \<times> nodes" where
  "write_new fault left p content fs =
     (case fault p of
        None \<Rightarrow> (None, AList.update p (FileNode content) fs)
      | Some e \<Rightarrow> (Some e, case left of None \<Rightarrow> fs | Some n \<Rightarrow> AList.update p (FileNode (take n content)) fs))"

definition Init :: "(string \<Rightarrow> goerr option) \<Rightarrow> (string \<Rightarrow> goerr option) \<Rightarrow> nat option \<Rightarrow> string \<Rightarrow> nodes \<Rightarrow> goerr option \<times> nodes" where
  "Init stat fault left rootDir fs =
     (let haroRoot = Join [rootDir, ''.haro''] in
      case MkdirAll stat fault haroRoot fs of
        (Some e, fs') \<Rightarrow> (Some (wrap_err ''create .haro'' e), fs')
      | (None, fs') \<Rightarrow>
          (case make_subs stat fault haroRoot haro_subs fs' of
             (Some e, fs'') \<Rightarrow> (Some e, fs'')
           | (None, fs'') \<Rightarrow>
               (let cfgPath = Join [haroRoot, ''config.yaml''] in
                case stat cfgPath of
                  Some e \<Rightarrow> (Some (wrap_err ''stat config.yaml'' e), fs'')
                | None \<Rightarrow>
                    (case map_of fs'' cfgPath of
                       Some _ \<Rightarrow> (None, fs'')
                     | None \<Rightarrow> apfst (map_option (wrap_err ''write config.yaml'')) (write_new fault left cfgPath defaultConfig fs'')))))"

section \<open>Nothing is overwritten\<close>

definition keeps_nodes :: "nodes \<Rightarrow> nodes \<Rightarrow> bool" where
  "keeps_nodes fs fs' \<longleftrightarrow> map_of fs \<subseteq>\<^sub>m map_of fs'"

lemma keeps_nodes_refl [simp]: "keeps_nodes fs fs"
  by (simp add: keeps_nodes_def)

lemma keeps_nodes_trans: "keeps_nodes a b \<Longrightarrow> keeps_nodes b c \<Longrightarrow> keeps_nodes a c"
  unfolding keeps_nodes_def by (rule map_le_trans)

lemma keeps_nodes_new: "map_of fs p = None \<Longrightarrow> keeps_nodes fs (AList.update p n fs)"
  by (auto simp: keeps_nodes_def map_le_def)

lemma length_Dir: "Dir p \<noteq> ''.'' \<Longrightarrow> length (Dir p) \<le> length p"
proof -
  assume d: "Dir p \<noteq> ''.''"
  have "Clean [] = ''.''" by code_simp
  then have "dir_part p \<noteq> []" using d by (auto simp: Dir_def)
  from length_Clean [OF this] length_dir_part [of p] show ?thesis by (simp add: Dir_def)
qed

text \<open>What \<^verbatim>\<open>MkdirAll\<close> changes: new directories, at paths not longer than the one asked for.\<close>

definition only_dirs :: "nat \<Rightarrow> nodes \<Rightarrow> nodes \<Rightarrow> bool" where
  "only_dirs n fs fs' \<longleftrightarrow>
     (\<forall>q. map_of fs' q = map_of fs q \<or> map_of fs q = None \<and> map_of fs' q = Some DirNode \<and> length q \<le> n)"

lemma only_dirs_refl [simp]: "only_dirs n fs fs"
  by (simp add: only_dirs_def)

lemma only_dirs_trans: "only_dirs n a b \<Longrightarrow> only_dirs m b c \<Longrightarrow> only_dirs (max n m) a c"
  unfolding only_dirs_def by (smt (verit, best) max.coboundedI1 max.coboundedI2 option.distinct(1))

lemma only_dirs_le: "only_dirs n a b \<Longrightarrow> n \<le> m \<Longrightarrow> only_dirs m a b"
  unfolding only_dirs_def by (meson le_trans)

lemma only_dirs_new: "map_of fs p \<noteq> Some (FileNode x) \<Longrightarrow> map_of fs p = None \<or> map_of fs p = Some DirNode \<Longrightarrow> only_dirs (length p) fs (AList.update p DirNode fs)"
  by (auto simp: only_dirs_def)

lemma only_dirs_keeps: "only_dirs n fs fs' \<Longrightarrow> keeps_nodes fs fs'"
  by (auto simp: only_dirs_def keeps_nodes_def map_le_def dom_def) (metis option.distinct(1))

lemma MkdirAll_spec:
  assumes "MkdirAll stat fault p fs = (r, fs')"
  shows "only_dirs (length p) fs fs' \<and> (r = None \<longrightarrow> Dir p = p \<or> map_of fs' p = Some DirNode)"
  using assms
proof (induction stat fault p fs arbitrary: r fs' rule: MkdirAll.induct)
  case (1 stat fault p fs)
  show ?case
  proof (cases "stat p = None \<and> map_of fs p = None \<and> Dir p \<noteq> p")
    case False
    then show ?thesis using 1(2) by (subst (asm) MkdirAll.simps) (auto split: node.splits option.splits if_splits)
  next
    case True
    obtain r1 fs1 where s: "(if Dir p = ''.'' then (None, fs) else MkdirAll stat fault (Dir p) fs) = (r1, fs1)" by fastforce
    have k: "only_dirs (length p) fs fs1"
      using 1(1) [of r1 fs1] True s length_Dir [of p] by (cases "Dir p = ''.''") (auto intro: only_dirs_le)
    then have n: "map_of fs1 p = None \<or> map_of fs1 p = Some DirNode" using True unfolding only_dirs_def by metis
    have "(r, fs') = (case r1 of Some e \<Rightarrow> (Some e, fs1) | None \<Rightarrow> (case fault p of Some e \<Rightarrow> (Some e, fs1) | None \<Rightarrow> (None, AList.update p DirNode fs1)))"
      using 1(2) True s by (subst (asm) MkdirAll.simps) (simp split: option.splits)
    moreover have "only_dirs (length p) fs (AList.update p DirNode fs1)"
      using only_dirs_trans [OF k only_dirs_new [OF _ n]] n by auto
    ultimately show ?thesis using k by (auto split: option.splits simp: update_conv)
  qed
qed

lemma make_subs_spec:
  assumes "make_subs stat fault h subs fs = (r, fs')" and "\<forall>sub \<in> set subs. length (Join [h, sub]) \<le> n"
  shows "only_dirs n fs fs' \<and> (r = None \<longrightarrow> (\<forall>sub \<in> set subs. Dir (Join [h, sub]) = Join [h, sub] \<or> map_of fs' (Join [h, sub]) = Some DirNode))"
  using assms
proof (induction subs arbitrary: fs)
  case (Cons sub subs)
  obtain r1 fs1 where m: "MkdirAll stat fault (Join [h, sub]) fs = (r1, fs1)" by fastforce
  have s: "only_dirs n fs fs1" "r1 = None \<longrightarrow> Dir (Join [h, sub]) = Join [h, sub] \<or> map_of fs1 (Join [h, sub]) = Some DirNode"
    using MkdirAll_spec [OF m] Cons.prems(2) by (auto intro: only_dirs_le)
  show ?case
  proof (cases r1)
    case None
    then have "make_subs stat fault h subs fs1 = (r, fs')" using Cons.prems m by simp
    note i = Cons.IH [OF this]
    have "only_dirs n fs fs'" using only_dirs_trans [OF s(1), of n fs'] i Cons.prems(2) by simp
    moreover have "map_of fs1 (Join [h, sub]) = Some DirNode \<Longrightarrow> map_of fs' (Join [h, sub]) = Some DirNode"
      using i Cons.prems(2) by (auto dest!: only_dirs_keeps simp: keeps_nodes_def map_le_def dom_def)
    ultimately show ?thesis using i s None Cons.prems(2) by auto
  next
    case (Some e)
    then show ?thesis using Cons.prems m s by auto
  qed
qed simp

lemma haro_names: "\<forall>sub \<in> set (''.haro'' # haro_subs). plain_elem sub \<and> sub \<noteq> dotdot"
  by (simp add: haro_subs_def plain_elem_def dotdot_def slash_def)

lemma make_subs_present:
  "\<forall>p. stat p = None \<Longrightarrow> \<forall>sub \<in> set subs. map_of fs (Join [h, sub]) = Some DirNode \<Longrightarrow> make_subs stat fault h subs fs = (None, fs)"
  by (induction subs) (auto simp: MkdirAll.simps)

lemma keeps_nodes_lookup: "keeps_nodes fs fs' \<Longrightarrow> map_of fs p = Some n \<Longrightarrow> map_of fs' p = Some n"
  by (auto simp: keeps_nodes_def map_le_def dom_def)

lemma length_Join:
  assumes "plain_elem c" "c \<noteq> dotdot" "comps h \<noteq> []" "Clean h = h"
  shows "length (Join [h, c]) = length h + 1 + length c"
proof -
  have "Join [h, c] = unsplit (IsAbs h) (comps h @ [c])" using assms by (intro Join_names) auto
  moreover have "h = unsplit (IsAbs h) (comps h)" using assms(4) by (simp add: Clean_def)
  moreover have "length (unsplit (IsAbs h) (comps h @ [c])) = length (unsplit (IsAbs h) (comps h)) + 1 + length c"
    using assms(3) by (simp add: unsplit_def join_with_append)
  ultimately show ?thesis by metis
qed

text \<open>The paths of one initialisation: the configuration is longer than every directory made.\<close>

lemma haro_lengths:
  assumes "h = Join [rootDir, ''.haro'']" "sub \<in> set haro_subs"
  shows "length h < length (Join [h, ''config.yaml''])" "length (Join [h, sub]) < length (Join [h, ''config.yaml''])"
proof -
  have n: "plain_elem ''.haro'' \<and> ''.haro'' \<noteq> dotdot" "plain_elem ''config.yaml'' \<and> ''config.yaml'' \<noteq> dotdot" by code_simp+
  have h: "h = unsplit (IsAbs rootDir) (comps rootDir @ [''.haro''])" unfolding assms(1) using n by (intro Join_names) auto
  have l: "clean_list (IsAbs rootDir) (comps rootDir @ [''.haro''])"
    using n clean_list_comps [of rootDir] by (intro clean_list_names) auto
  have c: "comps h \<noteq> []" "Clean h = h" unfolding h comps_unsplit [OF l] Clean_unsplit [OF l] by simp_all
  have s: "plain_elem sub \<and> sub \<noteq> dotdot" "length sub < 11" using haro_names assms(2) by (auto simp: haro_subs_def)
  have g: "length (Join [h, ''config.yaml'']) = length h + 12" using length_Join [OF _ _ c, of "''config.yaml''"] n by simp
  show "length h < length (Join [h, ''config.yaml''])" "length (Join [h, sub]) < length (Join [h, ''config.yaml''])"
    using length_Join [OF _ _ c, of sub] s g by simp_all
qed

text \<open>The three ways an initialisation ends: while it makes directories, with the configuration as it was, and with a new
  configuration, complete or not.\<close>

definition dirs_made :: "string \<Rightarrow> nodes \<Rightarrow> bool" where
  "dirs_made h fs \<longleftrightarrow> map_of fs h = Some DirNode \<and> (\<forall>sub \<in> set haro_subs. map_of fs (Join [h, sub]) = Some DirNode)"

lemma Init_cases:
  assumes "Init stat fault left rootDir fs = (r, fs')" "h = Join [rootDir, ''.haro'']" "cfg = Join [h, ''config.yaml'']"
  obtains fs2 n where "only_dirs n fs fs2" "n < length cfg" "fs' = fs2" "r \<noteq> None \<or> dirs_made h fs2 \<and> map_of fs2 cfg \<noteq> None"
    | fs2 n x where "only_dirs n fs fs2" "n < length cfg" "map_of fs2 cfg = None" "fs' = AList.update cfg (FileNode (take x defaultConfig)) fs2"
        "r \<noteq> None \<or> dirs_made h fs2 \<and> x = length defaultConfig"
proof -
  obtain r1 fs1 where m: "MkdirAll stat fault h fs = (r1, fs1)" by fastforce
  obtain r2 fs2 where u: "make_subs stat fault h haro_subs fs1 = (r2, fs2)" by fastforce
  define n where "n = length cfg - 1"
  have n: "length h \<le> n" "length cfg > n" "\<forall>sub \<in> set haro_subs. length (Join [h, sub]) \<le> n"
    using haro_lengths [OF assms(2)] assms(3) unfolding n_def by (force simp: haro_subs_def)+
  have o1: "only_dirs n fs fs1" "r1 = None \<Longrightarrow> map_of fs1 h = Some DirNode"
    using MkdirAll_spec [OF m] n(1) haro_names Dir_Join [of "''.haro''" rootDir] assms(2) by (auto intro: only_dirs_le)
  have o2: "only_dirs n fs1 fs2" using make_subs_spec [OF u n(3)] by simp
  have d: "dirs_made h fs2" if "r1 = None" "r2 = None"
    using make_subs_spec [OF u n(3)] that haro_names Dir_Join keeps_nodes_lookup [OF only_dirs_keeps [OF o2] o1(2)] by (fastforce simp: dirs_made_def)
  have o: "only_dirs n fs fs2" using only_dirs_trans [OF o1(1) o2] by simp
  have r: "(r, fs') = (case r1 of Some e \<Rightarrow> (Some (wrap_err ''create .haro'' e), fs1) | None \<Rightarrow>
      (case r2 of Some e \<Rightarrow> (Some e, fs2) | None \<Rightarrow>
        (case stat cfg of Some e \<Rightarrow> (Some (wrap_err ''stat config.yaml'' e), fs2) | None \<Rightarrow>
          (case map_of fs2 cfg of Some _ \<Rightarrow> (None, fs2) | None \<Rightarrow>
            apfst (map_option (wrap_err ''write config.yaml'')) (write_new fault left cfg defaultConfig fs2)))))"
    unfolding assms(1) [symmetric] Init_def Let_def assms(2) [symmetric] assms(3) [symmetric] m prod.case
    by (cases r1; cases r2) (simp_all add: u assms(3) split: option.splits)
  consider "fs' = fs1" "r \<noteq> None" | "fs' = fs2" "r \<noteq> None \<or> r1 = None \<and> r2 = None \<and> map_of fs2 cfg \<noteq> None"
    | x where "map_of fs2 cfg = None" "fs' = AList.update cfg (FileNode (take x defaultConfig)) fs2"
        "r \<noteq> None \<or> r1 = None \<and> r2 = None \<and> x = length defaultConfig"
    using r by (auto simp: write_new_def split: option.splits)
  then show thesis
  proof cases
    case 1
    then show thesis using that(1) [of n fs1] o1(1) n(2) by simp
  next
    case 2
    then show thesis using that(1) [of n fs2] o n(2) d by blast
  next
    case (3 x)
    then show thesis using that(2) [of n fs2 x] o n(2) d by blast
  qed
qed

lemma Init_again:
  assumes "\<forall>p. stat p = None" "h = Join [rootDir, ''.haro'']" "dirs_made h fs" "map_of fs (Join [h, ''config.yaml'']) \<noteq> None"
  shows "Init stat fault left rootDir fs = (None, fs)"
proof -
  have d: "map_of fs h = Some DirNode" "\<forall>sub \<in> set haro_subs. map_of fs (Join [h, sub]) = Some DirNode" using assms(3) by (simp_all add: dirs_made_def)
  have s: "stat = (\<lambda>p. None)" using assms(1) by auto
  show ?thesis using d assms(4) make_subs_present [OF assms(1) d(2), of fault]
    unfolding Init_def Let_def assms(2) [symmetric] s by (auto simp: MkdirAll.simps)
qed

lemma dirs_made_keeps: "keeps_nodes fs fs' \<Longrightarrow> dirs_made h fs \<Longrightarrow> dirs_made h fs'"
  using keeps_nodes_lookup by (auto simp: dirs_made_def)

section \<open>Properties\<close>

text \<open>C26. Whatever its outcome, initialising a project replaces and removes nothing that exists, and makes nothing but directories and
  its configuration. When it succeeds, the
  directory, its four subdirectories and a configuration exist, the configuration is the default one exactly if
  there was none, and initialising again, when the paths can be looked at, succeeds and changes nothing. A write of the configuration that fails may leave its first bytes
  behind, which the next initialisation then takes for the configuration.\<close>

theorem init_safe:
  assumes "Init stat fault left rootDir fs = (r, fs')" and "h = Join [rootDir, ''.haro'']" and "cfg = Join [h, ''config.yaml'']"
  shows "map_of fs \<subseteq>\<^sub>m map_of fs' \<and>
    (\<forall>q. map_of fs' q = map_of fs q \<or> map_of fs' q = Some DirNode \<or> q = cfg \<and> (\<exists>n. map_of fs' q = Some (FileNode (take n defaultConfig)))) \<and>
    (r = None \<longrightarrow> map_of fs' h = Some DirNode \<and>
       (\<forall>sub \<in> set [''workflows'', ''skills'', ''artifacts'', ''docs'']. map_of fs' (Join [h, sub]) = Some DirNode) \<and>
       map_of fs' cfg = Some (case map_of fs cfg of Some n \<Rightarrow> n | None \<Rightarrow> FileNode defaultConfig) \<and>
       ((\<forall>p. stat' p = None) \<longrightarrow> Init stat' fault' left' rootDir fs' = (None, fs')))"
  using assms
proof (rule Init_cases)
  fix fs2 n
  assume 1: "only_dirs n fs fs2" "n < length cfg" "fs' = fs2" "r \<noteq> None \<or> dirs_made h fs2 \<and> map_of fs2 cfg \<noteq> None"
  have c: "map_of fs2 cfg = map_of fs cfg" using 1(1,2) unfolding only_dirs_def by (meson not_le)
  have "map_of fs \<subseteq>\<^sub>m map_of fs2" using only_dirs_keeps [OF 1(1)] by (simp add: keeps_nodes_def)
  moreover have "map_of fs2 q = map_of fs q \<or> map_of fs2 q = Some DirNode" for q using 1(1) unfolding only_dirs_def by blast
  ultimately show ?thesis using 1(3,4) c Init_again [OF _ assms(2), of stat' fs2 fault' left'] assms(3)
    by (auto simp: dirs_made_def haro_subs_def)
next
  fix fs2 n x
  assume 2: "only_dirs n fs fs2" "n < length cfg" "map_of fs2 cfg = None" "fs' = AList.update cfg (FileNode (take x defaultConfig)) fs2"
    "r \<noteq> None \<or> dirs_made h fs2 \<and> x = length defaultConfig"
  have c: "map_of fs cfg = None" using 2(1-3) unfolding only_dirs_def by (metis not_le)
  have k: "keeps_nodes fs2 fs'" unfolding 2(4) by (rule keeps_nodes_new [OF 2(3)])
  then have "map_of fs \<subseteq>\<^sub>m map_of fs'" using keeps_nodes_trans [OF only_dirs_keeps [OF 2(1)] k] by (simp add: keeps_nodes_def)
  moreover have "map_of fs' q = map_of fs q \<or> map_of fs' q = Some DirNode \<or> q = cfg \<and> (\<exists>n. map_of fs' q = Some (FileNode (take n defaultConfig)))" for q
    using 2(1,4) unfolding only_dirs_def by (auto simp: update_conv)
  moreover have "map_of fs' cfg = Some (FileNode (take x defaultConfig))" by (simp add: 2(4) update_conv)
  moreover have "r = None \<Longrightarrow> dirs_made h fs' \<and> x = length defaultConfig" using 2(5) dirs_made_keeps [OF k] by blast
  ultimately show ?thesis using c Init_again [OF _ assms(2), of stat' fs' fault' left'] assms(3)
    by (auto simp: dirs_made_def haro_subs_def)
qed

text \<open>An empty file system, no fault.\<close>

lemma init_safe_witness:
  "map_of (snd (Init (\<lambda>p. None) (\<lambda>p. None) None ''/app'' [])) ''/app/.haro/config.yaml'' = Some (FileNode defaultConfig) \<and>
   Init (\<lambda>p. None) (\<lambda>p. None) None ''/app'' (snd (Init (\<lambda>p. None) (\<lambda>p. None) None ''/app'' [])) =
     (None, snd (Init (\<lambda>p. None) (\<lambda>p. None) None ''/app'' []))"
proof -
  have r: "Init (\<lambda>p. None) (\<lambda>p. None) None ''/app'' [] = (None, snd (Init (\<lambda>p. None) (\<lambda>p. None) None ''/app'' []))" by code_simp
  have p: "''/app/.haro/config.yaml'' = Join [''/app/.haro'', ''config.yaml'']" "''/app/.haro'' = Join [''/app'', ''.haro'']" by code_simp+
  show ?thesis using init_safe [OF r p(2,1), of "\<lambda>p. None" "\<lambda>p. None" None] by simp
qed

end
