(* ===== verification/Shutdown.thy ===== *)
theory Shutdown
  imports Prelude
begin

text \<open>
  The goroutines of the daemon and how they end (\<^verbatim>\<open>internal/broker/daemon.go\<close>: \<^verbatim>\<open>acceptLoop\<close>,
  \<^verbatim>\<open>addWorker\<close>, \<^verbatim>\<open>waitWorkers\<close>, \<^verbatim>\<open>shutdown\<close>; \<^verbatim>\<open>server.go\<close>: \<^verbatim>\<open>ServeConn\<close>; \<^verbatim>\<open>steps.go\<close>: \<^verbatim>\<open>handleStepRun\<close>).
  What the requests do to the store is in the theories of the broker; here are the mutex \<^verbatim>\<open>wgMu\<close>, the wait group
  that counts the connections as well as the attempts, the acceptor, and the stages of the shutdown. Every goroutine
  moves on its own. The command of an attempt and the calls of the engine are taken to come to an end,
  and a connection to end its loop when it fails, as it does once the context is done.
\<close>

section \<open>The goroutines\<close>

text \<open>A connection in the loop of \<^verbatim>\<open>ServeConn\<close> with the number of requests read ahead; in a call of \<^verbatim>\<open>step.run\<close> that passed
  \<^verbatim>\<open>rejectDraining\<close>; in such a call with the step started, in front of \<^verbatim>\<open>addWorker\<close>; returned.\<close>

datatype connection = Looping nat | Checked nat | Registering nat | Returned_conn

datatype acceptor = Accepting | Accepted | Accept_done

text \<open>The goroutine of \<^verbatim>\<open>Run\<close>: in its select; in \<^verbatim>\<open>shutdown\<close> in front of \<^verbatim>\<open>waitWorkers\<close>; in the wait, with the mutex; past it, with the
  store closed.\<close>

datatype main = Selecting | Draining | Waiting | Stopped

record Group =
  g_state :: string
  g_done :: bool
  g_listening :: bool
  g_acceptor :: acceptor
  g_conns :: "connection list"
  g_attempts :: nat
  wg :: nat
  wgMu :: bool
  g_main :: main

definition group_running :: Group where
  "group_running = \<lparr>g_state = ''running'', g_done = False, g_listening = True, g_acceptor = Accepting, g_conns = [],
     g_attempts = 0, wg = 0, wgMu = False, g_main = Selecting\<rparr>"

text \<open>The body of \<^verbatim>\<open>addWorker\<close>, for a caller that has got the mutex, which it gives back.\<close>

definition add_worker :: "Group \<Rightarrow> bool \<times> Group" where
  "add_worker g = (if g_state g \<noteq> ''running'' then (False, g) else (True, g\<lparr>wg := wg g + 1\<rparr>))"

definition set_conn :: "nat \<Rightarrow> connection \<Rightarrow> Group \<Rightarrow> Group" where
  "set_conn k c g = g\<lparr>g_conns := (g_conns g)[k := c]\<rparr>"

definition at_conn :: "nat \<Rightarrow> connection \<Rightarrow> Group \<Rightarrow> bool" where
  "at_conn k c g \<longleftrightarrow> k < length (g_conns g) \<and> g_conns g ! k = c"

inductive group_step :: "Group \<Rightarrow> Group \<Rightarrow> bool" where
  accept: "g_acceptor g = Accepting \<Longrightarrow> g_listening g \<Longrightarrow> group_step g (g\<lparr>g_acceptor := Accepted\<rparr>)"
| accept_fails: "g_acceptor g = Accepting \<Longrightarrow> group_step g (g\<lparr>g_acceptor := Accept_done\<rparr>)"
| serve: "g_acceptor g = Accepted \<Longrightarrow> \<not> wgMu g \<Longrightarrow> add_worker g = (True, g') \<Longrightarrow>
    group_step g (g'\<lparr>g_acceptor := Accepting, g_conns := g_conns g' @ [Looping 0]\<rparr>)"
| turn_away: "g_acceptor g = Accepted \<Longrightarrow> \<not> wgMu g \<Longrightarrow> add_worker g = (False, g') \<Longrightarrow>
    group_step g (g'\<lparr>g_acceptor := Accept_done\<rparr>)"
| arrive: "at_conn k (Looping n) g \<Longrightarrow> \<not> g_done g \<Longrightarrow> group_step g (set_conn k (Looping (Suc n)) g)"
| call: "at_conn k (Looping (Suc n)) g \<Longrightarrow> group_step g (set_conn k (Looping n) g)"
| check: "at_conn k (Looping (Suc n)) g \<Longrightarrow> g_state g = ''running'' \<Longrightarrow> group_step g (set_conn k (Checked n) g)"
| start_fails: "at_conn k (Checked n) g \<Longrightarrow> group_step g (set_conn k (Looping n) g)"
| started: "at_conn k (Checked n) g \<Longrightarrow> group_step g (set_conn k (Registering n) g)"
| spawn: "at_conn k (Registering n) g \<Longrightarrow> \<not> wgMu g \<Longrightarrow> add_worker g = (True, g') \<Longrightarrow>
    group_step g (set_conn k (Looping n) (g'\<lparr>g_attempts := g_attempts g' + 1\<rparr>))"
| refuse: "at_conn k (Registering n) g \<Longrightarrow> \<not> wgMu g \<Longrightarrow> add_worker g = (False, g') \<Longrightarrow>
    group_step g (set_conn k (Looping n) g')"
| hang_up: "at_conn k (Looping n) g \<Longrightarrow> group_step g (set_conn k Returned_conn (g\<lparr>wg := wg g - 1\<rparr>))"
| attempt_ends: "0 < g_attempts g \<Longrightarrow> group_step g (g\<lparr>g_attempts := g_attempts g - 1, wg := wg g - 1\<rparr>)"
| cancel: "\<not> g_done g \<Longrightarrow> group_step g (g\<lparr>g_done := True\<rparr>)"
| drain: "g_main g = Selecting \<Longrightarrow> g_done g \<or> g_acceptor g = Accept_done \<Longrightarrow>
    group_step g (g\<lparr>g_state := ''draining'', g_listening := False, g_main := Draining\<rparr>)"
| lock: "g_main g = Draining \<Longrightarrow> \<not> wgMu g \<Longrightarrow> group_step g (g\<lparr>wgMu := True, g_main := Waiting\<rparr>)"
| waited: "g_main g = Waiting \<Longrightarrow> wg g = 0 \<Longrightarrow>
    group_step g (g\<lparr>wgMu := False, g_state := ''stopped'', g_main := Stopped\<rparr>)"

section \<open>The wait group\<close>

fun alive :: "connection \<Rightarrow> bool" where
  "alive Returned_conn = False"
| "alive _ = True"

definition live :: "Group \<Rightarrow> nat" where
  "live g = length (filter alive (g_conns g))"

text \<open>The counter is the number of goroutines that hold it; the mutex is held across the wait and only there; the
  state says how far the shutdown is.\<close>

definition group_ok :: "Group \<Rightarrow> bool" where
  "group_ok g \<longleftrightarrow> wg g = g_attempts g + live g \<and> (wgMu g \<longleftrightarrow> g_main g = Waiting) \<and>
     (g_state g = ''running'' \<longleftrightarrow> g_main g = Selecting) \<and> (g_main g \<noteq> Selecting \<longrightarrow> \<not> g_listening g) \<and>
     (g_main g = Stopped \<longrightarrow> wg g = 0)"

lemma live_conn:
  assumes "at_conn k c g" "g_conns g' = (g_conns g)[k := c']"
  shows "live g' + of_bool (alive c) = live g + of_bool (alive c')"
proof -
  have k: "k < length (g_conns g)" "g_conns g ! k = c" using assms(1) by (auto simp: at_conn_def)
  have "live g' = size (filter_mset alive (add_mset c' (mset (g_conns g) - {#c#})))"
    using k assms(2) unfolding live_def by (metis mset_filter mset_update size_mset)
  moreover have "live g = size (filter_mset alive (add_mset c (mset (g_conns g) - {#c#})))"
    using k unfolding live_def by (metis insert_DiffM mset_filter nth_mem set_mset_mset size_mset)
  ultimately show ?thesis by simp
qed

lemma live_pos: "at_conn k c g \<Longrightarrow> alive c \<Longrightarrow> 0 < live g"
  using live_conn [of k c g "g\<lparr>g_conns := (g_conns g)[k := Returned_conn]\<rparr>" Returned_conn] by simp

lemma live_same [simp]:
  "live (g\<lparr>wg := x\<rparr>) = live g" "live (g\<lparr>wgMu := b\<rparr>) = live g" "live (g\<lparr>g_state := t\<rparr>) = live g" "live (g\<lparr>g_main := m\<rparr>) = live g"
  "live (g\<lparr>g_attempts := x\<rparr>) = live g" "live (g\<lparr>g_listening := b\<rparr>) = live g" "live (g\<lparr>g_done := b\<rparr>) = live g"
  "live (g\<lparr>g_acceptor := q\<rparr>) = live g"
  by (simp_all add: live_def)

lemma live_move:
  assumes "at_conn k c g" "alive c" "alive c'" "g_conns h = g_conns g"
  shows "live (set_conn k c' h) = live g"
  using live_conn [OF assms(1), of "set_conn k c' h" c'] assms(2-4) by (simp add: set_conn_def)

lemma set_conn_parts [simp]:
  "wg (set_conn k c g) = wg g" "wgMu (set_conn k c g) = wgMu g" "g_state (set_conn k c g) = g_state g" "g_main (set_conn k c g) = g_main g"
  "g_attempts (set_conn k c g) = g_attempts g" "g_listening (set_conn k c g) = g_listening g" "g_done (set_conn k c g) = g_done g"
  "g_acceptor (set_conn k c g) = g_acceptor g" "g_conns (set_conn k c g) = (g_conns g)[k := c]"
  by (simp_all add: set_conn_def)

lemma group_ok_move:
  "at_conn k c g \<Longrightarrow> alive c \<Longrightarrow> alive c' \<Longrightarrow> group_ok g \<Longrightarrow> group_ok (set_conn k c' g)"
  using live_move [of k c g c' g] by (auto simp: group_ok_def)

lemma group_ok_step: "group_step g g' \<Longrightarrow> group_ok g \<Longrightarrow> group_ok g'"
proof (induction rule: group_step.induct)
  case (serve g g')
  then show ?case by (auto simp: group_ok_def add_worker_def live_def split: if_splits)
next
  case (turn_away g g')
  then show ?case by (auto simp: group_ok_def add_worker_def live_def split: if_splits)
next
  case (spawn k n g g')
  then have g: "g' = g\<lparr>wg := wg g + 1\<rparr>" "g_state g = ''running''" by (auto simp: add_worker_def split: if_splits)
  have "live (set_conn k (Looping n) (g'\<lparr>g_attempts := g_attempts g' + 1\<rparr>)) = live g"
    by (rule live_move [OF spawn(1)]) (simp_all add: g)
  then show ?case using spawn(4) g by (auto simp: group_ok_def)
next
  case (refuse k n g g')
  then have "g' = g" by (auto simp: add_worker_def split: if_splits)
  then show ?case using group_ok_move [OF refuse(1)] refuse(4) by simp
next
  case (hang_up k n g)
  have "live (set_conn k Returned_conn (g\<lparr>wg := wg g - 1\<rparr>)) + 1 = live g"
    using live_conn [OF hang_up(1), of "set_conn k Returned_conn (g\<lparr>wg := wg g - 1\<rparr>)" Returned_conn] by simp
  then show ?case using hang_up(2) by (auto simp: group_ok_def)
next
  case (arrive k n g)
  then show ?case using group_ok_move [of k "Looping n" g "Looping (Suc n)"] by simp
next
  case (call k n g)
  then show ?case using group_ok_move [of k "Looping (Suc n)" g "Looping n"] by simp
next
  case (check k n g)
  then show ?case using group_ok_move [of k "Looping (Suc n)" g "Checked n"] by simp
next
  case (start_fails k n g)
  then show ?case using group_ok_move [of k "Checked n" g "Looping n"] by simp
next
  case (started k n g)
  then show ?case using group_ok_move [of k "Checked n" g "Registering n"] by simp
qed (auto simp: group_ok_def)

lemma group_ok_run: "group_step\<^sup>*\<^sup>* g g' \<Longrightarrow> group_ok g \<Longrightarrow> group_ok g'"
  by (induction rule: rtranclp_induct) (auto dest: group_ok_step)

lemma group_ok_running: "group_ok group_running"
  by (simp add: group_ok_def group_running_def live_def)

section \<open>The shutdown\<close>

text \<open>What is left to do once the shutdown began and the context is done.\<close>

fun conn_work :: "connection \<Rightarrow> nat" where
  "conn_work (Looping n) = n + 1"
| "conn_work (Checked n) = n + 3"
| "conn_work (Registering n) = n + 2"
| "conn_work Returned_conn = 0"

fun main_work :: "main \<Rightarrow> nat" where
  "main_work Selecting = 3"
| "main_work Draining = 2"
| "main_work Waiting = 1"
| "main_work Stopped = 0"

definition work :: "Group \<Rightarrow> nat" where
  "work g = (if g_acceptor g = Accept_done then 0 else 1) + sum_list (map conn_work (g_conns g)) + g_attempts g + main_work (g_main g)"

definition ending :: "Group \<Rightarrow> bool" where
  "ending g \<longleftrightarrow> group_ok g \<and> g_done g \<and> g_main g \<noteq> Selecting"

lemma work_conn:
  assumes "at_conn k c g"
  shows "sum_list (map conn_work ((g_conns g)[k := c'])) + conn_work c = sum_list (map conn_work (g_conns g)) + conn_work c'"
proof -
  have k: "k < length (g_conns g)" "g_conns g ! k = c" using assms by (auto simp: at_conn_def)
  have "sum_list (map conn_work ((g_conns g)[k := c'])) = sum_mset (image_mset conn_work (add_mset c' (mset (g_conns g) - {#c#})))"
    using k by (metis mset_map mset_update sum_mset_sum_list)
  moreover have "sum_list (map conn_work (g_conns g)) = sum_mset (image_mset conn_work (add_mset c (mset (g_conns g) - {#c#})))"
    using k by (metis insert_DiffM mset_map nth_mem set_mset_mset sum_mset_sum_list)
  ultimately show ?thesis by simp
qed

text \<open>Every step of the end does some of the work, and no call of \<^verbatim>\<open>step.run\<close> passes its check any more.\<close>

definition in_start :: "connection \<Rightarrow> bool" where
  "in_start c \<longleftrightarrow> (\<exists>n. c = Checked n \<or> c = Registering n)"

lemma in_start_simps [simp]:
  "\<not> in_start (Looping n)" "in_start (Checked n)" "in_start (Registering n)" "\<not> in_start Returned_conn"
  by (simp_all add: in_start_def)

lemma ending_step:
  assumes "group_step g g'" "ending g"
  shows "ending g' \<and> work g' < work g \<and> ((\<exists>c \<in> set (g_conns g'). in_start c) \<longrightarrow> (\<exists>c \<in> set (g_conns g). in_start c))"
proof -
  have ok: "group_ok g'" using assms group_ok_step by (auto simp: ending_def)
  have e: "g_state g \<noteq> ''running''" "\<not> g_listening g" "g_done g" using assms(2) by (auto simp: ending_def group_ok_def)
  have s: "(\<exists>c \<in> set ((g_conns g)[k := c']). in_start c) \<longrightarrow> (\<exists>c \<in> set (g_conns g). in_start c)"
    if "at_conn k c g" "in_start c' \<longrightarrow> in_start c" for k c c'
    using that set_update_subset_insert [of "g_conns g" k c'] nth_mem [of k "g_conns g"] by (auto simp: at_conn_def)
  from assms(1) show ?thesis
  proof (cases rule: group_step.cases)
    case (arrive k n)
    then show ?thesis using e by simp
  next
    case (call k n)
    then show ?thesis using assms(2) ok work_conn [OF call(2), of "Looping n"] s [OF call(2), of "Looping n"]
      by (simp add: ending_def work_def set_conn_def)
  next
    case (check k n)
    then show ?thesis using e by simp
  next
    case (start_fails k n)
    then show ?thesis using assms(2) ok work_conn [OF start_fails(2), of "Looping n"] s [OF start_fails(2), of "Looping n"]
      by (simp add: ending_def work_def set_conn_def)
  next
    case (started k n)
    then show ?thesis using assms(2) ok work_conn [OF started(2), of "Registering n"] s [OF started(2), of "Registering n"]
      by (simp add: ending_def work_def set_conn_def)
  next
    case (spawn k n h)
    then show ?thesis using e by (simp add: add_worker_def)
  next
    case (refuse k n h)
    then have "h = g" by (auto simp: add_worker_def split: if_splits)
    then show ?thesis using assms(2) ok refuse(1) work_conn [OF refuse(2), of "Looping n"] s [OF refuse(2), of "Looping n"]
      by (simp add: ending_def work_def set_conn_def)
  next
    case (hang_up k n)
    then show ?thesis using assms(2) ok work_conn [OF hang_up(2), of Returned_conn] s [OF hang_up(2), of Returned_conn]
      by (simp add: ending_def work_def set_conn_def)
  qed (use assms(2) ok e in \<open>auto simp: ending_def work_def add_worker_def split: if_splits\<close>)
qed

lemma ending_run:
  "(group_step ^^ n) g g' \<Longrightarrow> ending g \<Longrightarrow>
   ending g' \<and> n + work g' \<le> work g \<and> ((\<exists>c \<in> set (g_conns g'). in_start c) \<longrightarrow> (\<exists>c \<in> set (g_conns g). in_start c))"
proof (induction n arbitrary: g')
  case (Suc n)
  then obtain h where h: "(group_step ^^ n) g h" "group_step h g'" by auto
  show ?case using Suc.IH [OF h(1) Suc.prems(2)] ending_step [OF h(2)] by fastforce
qed simp

text \<open>A state in which nothing happens any more.\<close>

definition stuck :: "Group \<Rightarrow> bool" where
  "stuck g \<longleftrightarrow> (\<forall>g'. \<not> group_step g g')"

lemma in_conns: "c \<in> set (g_conns g) \<longleftrightarrow> (\<exists>k. at_conn k c g)"
  by (auto simp: at_conn_def in_set_conv_nth)

text \<open>Whoever is not in front of the mutex can move.\<close>

lemma stuck_conns:
  assumes "stuck g" "c \<in> set (g_conns g)"
  shows "c = Returned_conn \<or> (\<exists>n. c = Registering n) \<and> wgMu g"
proof -
  obtain k where k: "at_conn k c g" using assms(2) in_conns by blast
  obtain r h where a: "add_worker g = (r, h)" by fastforce
  have s: "\<not> group_step g g'" for g' using assms(1) by (simp add: stuck_def)
  have "\<not> at_conn k (Looping n) g" "\<not> at_conn k (Checked n) g" for n using s group_step.hang_up group_step.started by blast+
  moreover have "wgMu g" if "at_conn k (Registering n) g" for n
    using s a that group_step.spawn [of k n g h] group_step.refuse [of k n g h] by (cases r) auto
  ultimately show ?thesis using k by (cases c) auto
qed

lemma stuck_ending:
  assumes "stuck g" "ending g"
  shows "g_main g = Stopped \<or> g_main g = Waiting \<and> (\<exists>n. Registering n \<in> set (g_conns g))"
proof (cases "g_main g")
  case Draining
  then show ?thesis using assms group_step.lock unfolding stuck_def ending_def group_ok_def by force
next
  case Waiting
  have "g_attempts g = 0" using assms(1) group_step.attempt_ends unfolding stuck_def by blast
  moreover have "wg g \<noteq> 0" using assms(1) Waiting group_step.waited unfolding stuck_def by blast
  ultimately have "0 < live g" using assms(2) by (simp add: ending_def group_ok_def)
  then obtain c where "c \<in> set (g_conns g)" "alive c" by (auto simp: live_def filter_empty_conv)
  then show ?thesis using stuck_conns [OF assms(1)] Waiting by fastforce
qed (use assms in \<open>simp_all add: ending_def\<close>)

text \<open>The wait never ends for a connection in front of the mutex that the wait holds.\<close>

definition blocked :: "Group \<Rightarrow> bool" where
  "blocked g \<longleftrightarrow> group_ok g \<and> g_main g = Waiting \<and> (\<exists>n. Registering n \<in> set (g_conns g))"

lemma blocked_conn: "at_conn k (Registering m) g \<Longrightarrow> at_conn j c g \<Longrightarrow> \<forall>n. c \<noteq> Registering n \<Longrightarrow> at_conn k (Registering m) (set_conn j c' g)"
  by (auto simp: at_conn_def set_conn_def nth_list_update)

lemma blocked_step:
  assumes "group_step g g'" "blocked g"
  shows "blocked g'"
proof -
  have ok: "group_ok g'" using assms group_ok_step by (auto simp: blocked_def)
  obtain m k where k: "at_conn k (Registering m) g" using assms(2) in_conns by (auto simp: blocked_def)
  have w: "g_main g = Waiting" "wgMu g" "wg g = g_attempts g + live g" using assms(2) by (auto simp: blocked_def group_ok_def)
  have b: "blocked h" if "h = g'" "at_conn k (Registering m) h" "g_main h = Waiting" for h
    using that ok in_conns [of "Registering m" h] by (auto simp: blocked_def)
  have c: "blocked (set_conn j c' g)" if "set_conn j c' g = g'" "at_conn j c g" "\<forall>n. c \<noteq> Registering n" for j c c'
    using b [OF that(1) blocked_conn [OF k that(2,3)]] w(1) by (simp add: set_conn_def)
  have a: "at_conn k (Registering m) h" if "g_conns h = g_conns g" for h using k that by (simp add: at_conn_def)
  have l: "0 < live g" using live_pos [OF k] by simp
  from assms(1) show ?thesis
  proof (cases rule: group_step.cases)
    case (hang_up j n)
    let ?h = "g\<lparr>wg := wg g - 1\<rparr>"
    have "at_conn k (Registering m) ?h" "at_conn j (Looping n) ?h" using k hang_up(2) by (simp_all add: at_conn_def)
    from blocked_conn [OF this] have "at_conn k (Registering m) g'" using hang_up(1) by simp
    then show ?thesis using b [of g'] w(1) hang_up(1) by (simp add: set_conn_def)
  next
    case (arrive j n)
    then show ?thesis using c [of j "Looping (Suc n)" "Looping n"] by simp
  next
    case (call j n)
    then show ?thesis using c [of j "Looping n" "Looping (Suc n)"] by simp
  next
    case (check j n)
    then show ?thesis using c [of j "Checked n" "Looping (Suc n)"] by simp
  next
    case (start_fails j n)
    then show ?thesis using c [of j "Looping n" "Checked n"] by simp
  next
    case (started j n)
    then show ?thesis using c [of j "Registering n" "Checked n"] by simp
  qed (use w l a [of g'] b [of g'] in auto)
qed

lemma blocked_run: "group_step\<^sup>*\<^sup>* g g' \<Longrightarrow> blocked g \<Longrightarrow> blocked g'"
  by (induction rule: rtranclp_induct) (auto dest: blocked_step)

section \<open>Properties\<close>

text \<open>C15. The shutdown of the daemon. From the moment it has begun with the context done, whatever the goroutines do and in
  whatever order, there are at most \<^term>\<open>work g\<close> more steps. When nothing moves any more the daemon has stopped, or it waits
  for a call of \<^verbatim>\<open>step.run\<close> that is itself in front of the mutex held by the wait; the first is certain when no
  such call was past its check. Stopped, with the store closed, means that no attempt and no connection is left; and a wait that
  has such a call in front of the mutex never ends.\<close>

theorem shutdown_ends:
  assumes "group_step\<^sup>*\<^sup>* group_running g" "g_main g \<noteq> Selecting" "g_done g" "(group_step ^^ n) g g'"
  shows "n \<le> work g \<and>
    (stuck g' \<longrightarrow> g_main g' = Stopped \<or> g_main g' = Waiting \<and> (\<exists>m. Registering m \<in> set (g_conns g'))) \<and>
    ((\<forall>c \<in> set (g_conns g). \<not> in_start c) \<longrightarrow> stuck g' \<longrightarrow> g_main g' = Stopped) \<and>
    (g_main g' = Stopped \<longrightarrow> g_attempts g' = 0 \<and> (\<forall>c \<in> set (g_conns g'). c = Returned_conn)) \<and>
    (g_main g' = Waiting \<longrightarrow> (\<exists>m. Registering m \<in> set (g_conns g')) \<longrightarrow> (\<forall>h. group_step\<^sup>*\<^sup>* g' h \<longrightarrow> g_main h = Waiting))"
proof -
  have "ending g" using assms(1-3) group_ok_run [OF _ group_ok_running] by (simp add: ending_def)
  note r = ending_run [OF assms(4) this]
  have ok: "group_ok g'" using r by (simp add: ending_def)
  have "g_attempts g' = 0 \<and> (\<forall>c \<in> set (g_conns g'). c = Returned_conn)" if "g_main g' = Stopped"
  proof -
    have z: "g_attempts g' = 0" "live g' = 0" using ok that by (auto simp: group_ok_def)
    have "c = Returned_conn" if "c \<in> set (g_conns g')" for c
      using z(2) that by (cases c) (auto simp: live_def filter_empty_conv)
    with z(1) show ?thesis by blast
  qed
  moreover have "g_main h = Waiting" if "g_main g' = Waiting" "\<exists>m. Registering m \<in> set (g_conns g')" "group_step\<^sup>*\<^sup>* g' h" for h
    using blocked_run [OF that(3)] that(1,2) ok by (simp add: blocked_def)
  ultimately show ?thesis using r stuck_ending [of g'] by fastforce
qed

definition demo_draining :: Group where
  "demo_draining = group_running\<lparr>g_state := ''draining'', g_done := True, g_listening := False, g_conns := [Looping 0], wg := 1, g_main := Draining\<rparr>"

definition demo_down :: Group where
  "demo_down = group_running\<lparr>g_state := ''stopped'', g_done := True, g_listening := False, g_acceptor := Accept_done,
     g_conns := [Returned_conn], g_main := Stopped\<rparr>"

lemmas group_states = group_running_def add_worker_def set_conn_def at_conn_def demo_draining_def demo_down_def

lemma step_to: "group_step g g' \<Longrightarrow> g' = h \<Longrightarrow> group_step g h"
  by simp

lemma demo_connected:
  "group_step\<^sup>*\<^sup>* group_running (group_running\<lparr>g_conns := [Looping 0], wg := 1\<rparr>)"
  by (rule converse_rtranclp_into_rtranclp, rule group_step.accept, simp add: group_states, simp add: group_states,
    rule r_into_rtranclp, rule step_to, rule group_step.serve, simp add: group_states, simp add: group_states,
    simp add: group_states, simp add: group_states)

lemma demo_draining_reached: "group_step\<^sup>*\<^sup>* group_running demo_draining"
  by (rule rtranclp_trans [OF demo_connected], rule converse_rtranclp_into_rtranclp, rule group_step.cancel, simp add: group_states,
    rule r_into_rtranclp, rule step_to, rule group_step.drain) (simp_all add: group_states)

lemma demo_stuck: "stuck demo_down"
  unfolding stuck_def by (auto simp: group_states elim!: group_step.cases)

lemma demo_down_reached: "(group_step ^^ 4) demo_draining demo_down"
proof -
  let ?g1 = "demo_draining\<lparr>g_acceptor := Accept_done\<rparr>"
  let ?g2 = "?g1\<lparr>g_conns := [Returned_conn], wg := 0\<rparr>"
  let ?g3 = "?g2\<lparr>wgMu := True, g_main := Waiting\<rparr>"
  have 1: "group_step demo_draining ?g1" by (rule group_step.accept_fails) (simp add: group_states)
  have 2: "group_step ?g1 ?g2" by (rule step_to, rule group_step.hang_up [of 0 0]) (simp_all add: group_states)
  have 3: "group_step ?g2 ?g3" by (rule group_step.lock) (simp_all add: group_states)
  have 4: "group_step ?g3 demo_down" by (rule step_to, rule group_step.waited) (simp_all add: group_states)
  show ?thesis using 1 2 3 4 by (auto simp: numeral_eq_Suc)
qed

theorem shutdown_ends_witness:
  "g_main demo_draining = Draining \<and> g_main demo_down = Stopped \<and> 4 \<le> work demo_draining"
  using shutdown_ends [OF demo_draining_reached _ _ demo_down_reached] demo_stuck
  by (simp add: demo_draining_def group_running_def)

text \<open>C38. The shutdown can deadlock: there is a run from the running daemon, with one connection, to a state in which
  the context is done, the daemon waits for its workers with the mutex in its hands, the connection is in front of that mutex, in a
  call of \<^verbatim>\<open>step.run\<close> that passed its check before the shutdown began, and no step is possible.\<close>

theorem shutdown_deadlock:
  "\<exists>g. group_step\<^sup>*\<^sup>* group_running g \<and> g_done g \<and> g_main g = Waiting \<and> g_conns g = [Registering 0] \<and> g_attempts g = 0 \<and> stuck g"
proof -
  let ?c = "group_running\<lparr>g_conns := [Looping 0], wg := 1\<rparr>"
  let ?g1 = "?c\<lparr>g_conns := [Looping 1]\<rparr>" and ?g2 = "?c\<lparr>g_conns := [Checked 0]\<rparr>"
  let ?g3 = "?c\<lparr>g_conns := [Registering 0]\<rparr>"
  let ?g4 = "?g3\<lparr>g_done := True\<rparr>"
  let ?g5 = "?g4\<lparr>g_state := ''draining'', g_listening := False, g_main := Draining\<rparr>"
  let ?g6 = "?g5\<lparr>g_acceptor := Accept_done\<rparr>"
  let ?g7 = "?g6\<lparr>wgMu := True, g_main := Waiting\<rparr>"
  have 1: "group_step ?c ?g1" by (rule step_to, rule group_step.arrive [of 0 0]) (simp_all add: group_states)
  have 2: "group_step ?g1 ?g2" by (rule step_to, rule group_step.check [of 0 0]) (simp_all add: group_states)
  have 3: "group_step ?g2 ?g3" by (rule step_to, rule group_step.started [of 0 0]) (simp_all add: group_states)
  have 4: "group_step ?g3 ?g4" by (rule group_step.cancel) (simp add: group_states)
  have 5: "group_step ?g4 ?g5" by (rule group_step.drain) (simp_all add: group_states)
  have 6: "group_step ?g5 ?g6" by (rule group_step.accept_fails) (simp add: group_states)
  have 7: "group_step ?g6 ?g7" by (rule group_step.lock) (simp_all add: group_states)
  have "group_step\<^sup>*\<^sup>* group_running ?g7"
    using 1 2 3 4 5 6 7 by (intro rtranclp_trans [OF demo_connected]) (meson converse_rtranclp_into_rtranclp rtranclp.rtrancl_refl)
  moreover have "stuck ?g7" unfolding stuck_def by (auto simp: group_states elim!: group_step.cases)
  ultimately show ?thesis by (intro exI [of _ ?g7]) (simp add: group_running_def)
qed

end
