(* ===== verification/Spec2Isabelle.thy ===== *)
theory Spec2Isabelle
  imports Engine_Create Engine_Stale Broker_Approve Broker_Notify Capture Harness_Sessions Cli_Props Launcher Worktree Acp Project_Init
    Shutdown
begin

text \<open>
  Verification of Haro, a local-first orchestrator that runs workflows of command and agent steps.
  This theory holds no definition of its own: it gathers the development and says what it covers.

  \<^bold>\<open>The program.\<close> A project has a directory \<^verbatim>\<open>.haro\<close> with workflows written in YAML. \<^verbatim>\<open>haro run\<close> validates a
  workflow, flattens included workflows into one acyclic graph of steps and records an execution
  in a store. Steps run as commands or through agent harnesses (Claude, OpenCode); they declare
  the artifacts they require and produce, take claims on the paths they write and leases with fencing
  tokens on the step. A step can be reopened, which invalidates what depends on it. A broker
  daemon per project serves JSON-RPC over a socket, runs attempts in workers, relays permission requests of
  agents to clients and sends notifications. The command line works on the store directly or
  calls the broker, which it launches when none answers.

  \<^bold>\<open>Shared ground.\<close> \<open>Prelude\<close>: Go maps as association lists, errors (\<open>goerr\<close>), the type \<open>op\<close> of
  operations that return an error or a value and a new state, string functions of the Go library. \<open>Filepath\<close> and
  \<open>Path_Join\<close>: package \<^verbatim>\<open>path/filepath\<close> on Unix with a normal form for \<^verbatim>\<open>Clean\<close>. \<open>Json\<close>, \<open>Json_Text\<close>: values, printer and
  parser of \<^verbatim>\<open>encoding/json\<close> on bytes, with the round trip. \<open>Outcome\<close>: triples for operations with errors, in the manner of
  a Hoare logic, with one rule per Go control form.

  \<^bold>\<open>Workflows\<close> (\<^verbatim>\<open>internal/workflow\<close>, \<^verbatim>\<open>internal/claim\<close>, \<^verbatim>\<open>internal/project\<close>).
  \<^item> \<open>Workflow\<close>: \<^verbatim>\<open>parse.go\<close>, \<^verbatim>\<open>discover.go\<close>, \<^verbatim>\<open>path.go\<close>, \<^verbatim>\<open>errors.go\<close>: the types, discovery, containment of paths.
  \<^item> \<open>Cycle\<close>, \<open>Validate\<close>: \<^verbatim>\<open>validate.go\<close>. Depth-first search finds a cycle exactly when there is one; \<^verbatim>\<open>ValidateFile\<close>
    accepts exactly the well-formed files (C29).
  \<^item> \<open>Toposort\<close>, \<open>Compose\<close>: \<^verbatim>\<open>compose.go\<close>, \<^verbatim>\<open>hash.go\<close>. Sorting is total on acyclic graphs (C32), \<^verbatim>\<open>Flatten\<close>
    returns well-formed graphs (C28) and reads only files below \<^verbatim>\<open>.haro/workflows\<close> (C30). The recursion of \<^verbatim>\<open>Flatten\<close>
    ends because the code itself stops at depth 16; it also stops at 256 steps.
  \<^item> \<open>Claims\<close>: \<^verbatim>\<open>policy.go\<close>, \<^verbatim>\<open>canonical.go\<close>. When paths overlap, which modes block; canonical paths stay inside the
    repository (C34), with their symbolic links kept.
  \<^item> \<open>Config\<close>, \<open>Project_Init\<close>: loading the configuration (C31) and creating \<^verbatim>\<open>.haro\<close> without overwriting anything (C26).
  \<^item> \<open>Worktree\<close>: \<^verbatim>\<open>internal/worktree/manager.go\<close> over git as a parameter (C33).

  \<^bold>\<open>The store\<close> (\<^verbatim>\<open>internal/store\<close>, \<^verbatim>\<open>internal/execution/fenced_store.go\<close>).
  \<^item> \<open>Store_Types\<close>, \<open>Fake_Store\<close>: the rows and every method of the in-memory store, transactions included.
  \<^item> \<open>Store_Invariant\<close>, \<open>Store_Laws\<close>: the integrity \<open>store_ok\<close> is kept by every method (C35), overlapping active claims are
    compatible (C36); the locale \<open>row_repository\<close> states what a table promises its clients and is interpreted for six
    tables, the locale \<open>fencing\<close> says what monotone tokens give.
  \<^item> \<open>Fenced\<close>: an attempt whose lease was acquired anew can never write again (C37), but for acquiring a lease, which the code does
    not guard.

  \<^bold>\<open>The engine\<close> (\<^verbatim>\<open>internal/execution\<close>).
  \<^item> \<open>Evidence\<close>: \<^verbatim>\<open>evidence.go\<close>, \<^verbatim>\<open>fallback.go\<close>, \<^verbatim>\<open>ParseArgv\<close> of \<^verbatim>\<open>runner.go\<close>. Truncation limits, fallback over candidates, redaction
    (C39): a locale for secret patterns is interpreted for the regular expressions of the code.
  \<^item> \<open>Engine_Types\<close>, \<open>Engine_Run\<close>, \<open>Engine_Agent\<close>, \<open>Engine_State\<close>, \<open>Engine_Async\<close>: the whole of \<^verbatim>\<open>engine.go\<close>, \<^verbatim>\<open>state.go\<close> and \<^verbatim>\<open>async.go\<close>. The
    record \<open>env\<close> holds what is outside: processes, git, decoders, digests, identifiers, clock.
  \<^item> \<open>Engine_Integrity\<close>: three locales for properties of the store that the calls of the engine keep; their
    interpretations give integrity and history along every sequence of operations (C1).
  \<^item> \<open>Engine_Claims\<close> (C3), \<open>Engine_Attempts\<close> (C5, C6), \<open>Engine_Create\<close> (C7), \<open>Engine_Reopen\<close> (C4, C8), \<open>Engine_Stale\<close> (C2): the exact
    effect of the operations. \<open>Engine_Demo\<close> is the concrete engine of the witnesses.
  \<^item> \<open>Capture\<close>: \<^verbatim>\<open>internal/limits/capture.go\<close>, the shared budget of 2 MiB (C17).
  \<^item> \<open>Report\<close>: \<^verbatim>\<open>report.go\<close> over git as a parameter (C23).

  \<^bold>\<open>Agents\<close> (\<^verbatim>\<open>internal/adapter\<close>).
  \<^item> \<open>Adapter\<close>: negotiation, manager and factory (C40). \<open>Acp\<close>: the maps of the agent client protocol and their round trip.
  \<^item> \<open>Harness\<close>, \<open>Claude\<close>, \<open>Opencode\<close>: stream parsers and sessions of both adapters; \<open>Harness_Sessions\<close>: what streams
    and sessions give (C18, C19, C20), within 10 MiB a line and 12 MiB in all.

  \<^bold>\<open>The broker\<close> (\<^verbatim>\<open>internal/broker\<close>, \<^verbatim>\<open>internal/ipc\<close>).
  \<^item> \<open>Jsonrpc\<close>: the codec and its round trip (C16). The parser gets fuel \<open>2 * length + 2\<close>, which is enough because every
    second call consumes a byte; nesting is limited to 10000 as in \<^verbatim>\<open>encoding/json\<close>, a message to 10 MiB as in the code.
  \<^item> \<open>Broker_Server\<close>, \<open>Broker_Params\<close>, \<open>Broker_Events\<close>, \<open>Broker\<close>: dispatcher, connection loop, validation, event sink, permission host,
    registry, the eight methods and the changes of state of the shutdown.
  \<^item> \<open>Broker_Protocol\<close>: one answer per request (C9), refusals during the shutdown (C14). \<open>Shutdown\<close>: the acceptor, the connections, the
    attempts, the wait group and its mutex as interleaved steps; when the shutdown ends (C15) and how it can deadlock (C38). \<open>Broker_Integrity\<close>: every interleaving of calls, workers
    and requests keeps store and registry sound (C10). \<open>Broker_Approve\<close>: decisions (C11, C12). \<open>Broker_Notify\<close>: notifications (C13).
  \<^item> \<open>Client\<close>: \<^verbatim>\<open>ipc/client.go\<close> as interleaved steps (C21) and composed with the broker, whose notifications come on the same connection (C22); identifiers of calls stay below
    \<open>2 ^ 63\<close>, and the channel of notifications holds 64. \<open>Launcher\<close>: launchers, lock file and start marker as interleaved steps, with
    the dial budget of 5000 ms (C27), and the name of the endpoint.

  \<^bold>\<open>The command line\<close> (\<^verbatim>\<open>internal/cmd\<close>). \<open>Cli_Flags\<close>, \<open>Cli\<close>: every command with output and exit code. A call of the broker has
  an effect on the store, a parameter of which is known that it is a run of the broker's steps. \<open>Cli_Props\<close>: effect on the store
  (C24), the step that \<^verbatim>\<open>steps next\<close> proposes against the rules of engine and store (C25).

  \<^bold>\<open>Granularity.\<close> An operation of the engine, a handler and a worker run to their end as one step; what interleaves are
  such steps, with \<^verbatim>\<open>step.run\<close> also split before the registration of its worker, and for client, launcher and shutdown the steps between two blocking calls. Times are numbers of seconds in the
  store and milliseconds in the launcher.

  \<^bold>\<open>Not modelled.\<close> The SQLite store: its content is SQL text that a third-party driver runs; the repository interface it shares
  with the in-memory store is covered by the latter. Starting, signalling and reaping processes (\<^verbatim>\<open>internal/process\<close>,
  \<^verbatim>\<open>RealRunner\<close>), binding sockets, and the Windows variants: system calls. Data races below the steps
  named above: the mutexes of the code, but for the one of the wait group, are taken to do what they say. \<^verbatim>\<open>ipc/health.go\<close>, which only tests call. Contract suites and
  fakes for tests.
\<close>

end
